(* ===== verification/Prelude.thy ===== *)
theory Prelude
  imports Main "HOL-Library.Code_Target_Nat"
begin

text \<open>
  What every component theory shares: the result type that stands for a thrown exception, its
  sequencing operation, the collections of hints, and generic facts on lists and options.
  \<open>Code_Target_Nat\<close> makes the kernel evaluator compute with binary naturals.
\<close>

named_theorems model_defs \<open>definitions of the model that a proof by cases unfolds\<close>
named_theorems guard_simps \<open>facts that decide a guard of the code\<close>

subsection \<open>Thrown errors as values\<close>

type_synonym ('e, 'a) result = "'e + 'a"

definition rbind :: "('e, 'a) result \<Rightarrow> ('a \<Rightarrow> ('e, 'b) result) \<Rightarrow> ('e, 'b) result" where
  "rbind r f = (case r of Inl e \<Rightarrow> Inl e | Inr a \<Rightarrow> f a)"

lemma rbind_simps [simp]:
  "rbind (Inl e) f = Inl e"
  "rbind (Inr a) f = f a"
  by (simp_all add: rbind_def)

lemma rbind_Inr_iff: "rbind r f = Inr b \<longleftrightarrow> (\<exists>a. r = Inr a \<and> f a = Inr b)"
  by (cases r) auto

definition guard :: "bool \<Rightarrow> 'e \<Rightarrow> ('e, 'a) result \<Rightarrow> ('e, 'a) result" where
  "guard ok e k = (if ok then k else Inl e)"

lemma guard_Inr_iff: "guard ok e k = Inr b \<longleftrightarrow> ok \<and> k = Inr b"
  by (simp add: guard_def)

lemma guard_simps_Inl [simp]: "guard False e k = Inl e" "guard True e k = k"
  by (simp_all add: guard_def)

subsection \<open>Nullish values\<close>

text \<open>The \<open>??\<close> operator on a value that is null or undefined when it is \<open>None\<close>.\<close>

definition coalesce :: "'a option \<Rightarrow> 'a \<Rightarrow> 'a" where
  "coalesce x d = (case x of None \<Rightarrow> d | Some v \<Rightarrow> v)"

lemma coalesce_simps [simp]: "coalesce None d = d" "coalesce (Some v) d = v"
  by (simp_all add: coalesce_def)

subsection \<open>Lists\<close>

lemma dropWhile_dropWhile [simp]: "dropWhile P (dropWhile P xs) = dropWhile P xs"
  by (induction xs) auto

lemma dropWhile_snoc_not: "\<not> P x \<Longrightarrow> dropWhile P (xs @ [x]) = dropWhile P xs @ [x]"
  by (induction xs) auto

lemma rev_dropWhile_rev_subset: "set (rev (dropWhile P (rev xs))) \<subseteq> set xs"
  using set_dropWhileD by fastforce

lemma length_dropWhile_rev_le: "length (rev (dropWhile P (rev xs))) \<le> length xs"
  by (metis length_dropWhile_le length_rev)

lemma find_Some_set: "List.find P xs = Some x \<Longrightarrow> x \<in> set xs \<and> P x"
  by (induction xs) (auto split: if_splits)

lemma find_None_iff_set: "List.find P xs = None \<longleftrightarrow> (\<forall>x\<in>set xs. \<not> P x)"
  by (induction xs) auto

lemma count_le_length_filter: "length (filter P (map f xs)) = length (filter (P \<circ> f) xs)"
  by (induction xs) auto

lemma filter_full_iff: "length xs \<le> length (filter P xs) \<longleftrightarrow> (\<forall>x\<in>set xs. P x)"
proof -
  have "length xs \<le> length (filter P xs) \<longleftrightarrow> length (filter P xs) = length xs"
    using length_filter_le [of P xs] by linarith
  then show ?thesis using filter_True [of xs P] length_filter_less [of _ xs P] by fastforce
qed

text \<open>Updating the rows of a table that satisfy a condition: the \<open>UPDATE ... WHERE\<close> of SQL.\<close>

definition update_where :: "('r \<Rightarrow> bool) \<Rightarrow> ('r \<Rightarrow> 'r) \<Rightarrow> 'r list \<Rightarrow> 'r list" where
  "update_where P f rows = map (\<lambda>r. if P r then f r else r) rows"

lemma length_update_where [simp]: "length (update_where P f rows) = length rows"
  by (simp add: update_where_def)

lemma update_where_simps [simp]:
  "update_where P f [] = []"
  "update_where P f (r # rs) = (if P r then f r else r) # update_where P f rs"
  by (simp_all add: update_where_def)

lemma update_where_append: "update_where P f (xs @ ys) = update_where P f xs @ update_where P f ys"
  by (simp add: update_where_def)

lemma map_update_where:
  assumes "\<And>r. P r \<Longrightarrow> g (f r) = g r"
  shows "map g (update_where P f rows) = map g rows"
  using assms by (induction rows) auto

lemma in_update_where:
  "r \<in> set (update_where P f rows) \<longleftrightarrow> (\<exists>q\<in>set rows. r = (if P q then f q else q))"
  by (auto simp: update_where_def)

lemma update_whereI: "q \<in> set rows \<Longrightarrow> P q \<Longrightarrow> f q = x \<Longrightarrow> x \<in> set (update_where P f rows)"
  and update_where_keep: "q \<in> set rows \<Longrightarrow> \<not> P q \<Longrightarrow> q \<in> set (update_where P f rows)"
  by (force simp: update_where_def)+

lemma update_where_none: "(\<And>r. r \<in> set rows \<Longrightarrow> \<not> P r) \<Longrightarrow> update_where P f rows = rows"
  by (induction rows) auto

lemma find_append: "List.find P (xs @ ys) = (case List.find P xs of None \<Rightarrow> List.find P ys | Some x \<Rightarrow> Some x)"
  by (induction xs) auto

lemma find_update_where_if:
  assumes "\<And>r. P (f r) = P r"
  shows "List.find P (update_where Q f rows) = map_option (\<lambda>r. if Q r then f r else r) (List.find P rows)"
  using assms by (induction rows) auto

lemma find_update_where:
  assumes "\<And>r. P r \<Longrightarrow> P (f r)"
  shows "List.find P (update_where P f rows) = map_option f (List.find P rows)"
  using assms by (induction rows) auto

lemma filter_update_where_other:
  assumes "\<And>r. P r \<Longrightarrow> \<not> Q (f r) \<and> \<not> Q r"
  shows "filter Q (update_where P f rows) = filter Q rows"
  using assms by (induction rows) auto

lemma filter_update_where_in:
  assumes "\<And>r. r \<in> set rows \<Longrightarrow> P r \<Longrightarrow> \<not> Q (f r) \<and> \<not> Q r"
  shows "filter Q (update_where P f rows) = filter Q rows"
  using assms by (induction rows) auto

end
