(* ===== verification/JsString.thy ===== *)
theory JsString
  imports Prelude "HOL-Library.Sublist"
begin

text \<open>
  JavaScript strings. A string is the list of its UTF-16 code units; \<open>js\<close> turns an ASCII
  literal into one. \<open>trim\<close> and \<open>is_ws\<close> have the whole white space set of
  ECMAScript. Case mapping covers ASCII, Latin-1 and every unit outside Latin-1 whose mapping
  contains an ASCII letter, so a comparison of \<open>x.toLowerCase()\<close> with an ASCII literal,
  or a filter of \<open>x.toUpperCase()\<close> down to ASCII, is exact for every string; letters of
  other scripts are left as they are.
\<close>

type_synonym jstr = "nat list"

definition js :: "string \<Rightarrow> jstr" where
  "js s = map of_char s"

lemma js_eq_iff [simp]: "js s = js t \<longleftrightarrow> s = t"
  unfolding js_def using inj_map_eq_map [OF inj_of_char] by auto

lemma js_Nil [simp]: "js [] = []"
  by (simp add: js_def)

lemma js_eq_Nil_iff [simp]: "js s = [] \<longleftrightarrow> s = []" "[] = js s \<longleftrightarrow> s = []"
  by (auto simp: js_def)

lemma length_js [simp]: "length (js s) = length s"
  by (simp add: js_def)

lemma js_append: "js (s @ t) = js s @ js t"
  by (simp add: js_def)

lemma js_unit_bound: "c \<in> set (js s) \<Longrightarrow> c < 256"
proof -
  have "of_char d < (256::nat)" for d
    by (subst of_char_mod_256 [symmetric]) simp
  then show "c \<in> set (js s) \<Longrightarrow> c < 256" by (auto simp: js_def)
qed

subsection \<open>White space\<close>

definition is_ws :: "nat \<Rightarrow> bool" where
  "is_ws c \<longleftrightarrow> (9 \<le> c \<and> c \<le> 13) \<or> c = 32 \<or> c = 160 \<or> c = 5760 \<or> (8192 \<le> c \<and> c \<le> 8202)
     \<or> c = 8232 \<or> c = 8233 \<or> c = 8239 \<or> c = 8287 \<or> c = 12288 \<or> c = 65279"

definition trim_start :: "jstr \<Rightarrow> jstr" where
  "trim_start s = dropWhile is_ws s"

definition trim_end :: "jstr \<Rightarrow> jstr" where
  "trim_end s = rev (dropWhile is_ws (rev s))"

definition trim :: "jstr \<Rightarrow> jstr" where
  "trim s = trim_end (trim_start s)"

lemma trim_end_idem [simp]: "trim_end (trim_end s) = trim_end s"
  by (simp add: trim_end_def)

lemma trim_end_Cons_not: "\<not> is_ws c \<Longrightarrow> trim_end (c # s) = c # trim_end s"
  by (simp add: trim_end_def dropWhile_snoc_not)

lemma trim_start_Nil [simp]: "trim_start [] = []" and trim_end_Nil [simp]: "trim_end [] = []"
  by (simp_all add: trim_start_def trim_end_def)

lemma trim_start_cases:
  obtains "trim_start s = []" | c t where "trim_start s = c # t" "\<not> is_ws c"
proof (cases "trim_start s")
  case (Cons c t)
  then have "\<not> is_ws (hd (dropWhile is_ws s))"
    by (metis trim_start_def hd_dropWhile list.distinct(1))
  with Cons that(2) show thesis by (simp add: trim_start_def)
qed (use that(1) in simp)

lemma trim_start_trim_end: "trim_start (trim_end (trim_start s)) = trim_end (trim_start s)"
proof (cases rule: trim_start_cases [of s])
  case (2 c t)
  then show ?thesis by (simp add: trim_end_Cons_not) (simp add: trim_start_def)
qed simp

lemma trim_idem [simp]: "trim (trim s) = trim s"
  by (simp add: trim_def trim_start_trim_end)

lemma trim_Nil [simp]: "trim [] = []"
  by (simp add: trim_def trim_start_def trim_end_def)

lemma set_trim_subset: "set (trim s) \<subseteq> set s"
  unfolding trim_def trim_end_def trim_start_def
  by (meson rev_dropWhile_rev_subset set_dropWhileD subset_iff)

lemma length_trim_le: "length (trim s) \<le> length s"
  unfolding trim_def trim_end_def trim_start_def
  by (meson le_trans length_dropWhile_le length_dropWhile_rev_le)

lemma trim_no_ws: "(\<And>c. c \<in> set s \<Longrightarrow> \<not> is_ws c) \<Longrightarrow> trim s = s"
proof -
  assume nows: "\<And>c. c \<in> set s \<Longrightarrow> \<not> is_ws c"
  have "dropWhile is_ws s = s" using nows by (cases s) auto
  moreover have "dropWhile is_ws (rev s) = rev s"
    using nows by (metis dropWhile_eq_self_iff hd_in_set set_rev)
  ultimately show ?thesis by (simp add: trim_def trim_start_def trim_end_def)
qed

lemma trim_eq_Nil_iff: "trim s = [] \<longleftrightarrow> (\<forall>c\<in>set s. is_ws c)"
proof
  assume "trim s = []"
  then have "trim_start s = []"
    by (cases rule: trim_start_cases [of s]) (simp_all add: trim_def trim_end_Cons_not)
  then show "\<forall>c\<in>set s. is_ws c" by (simp add: trim_start_def)
next
  assume "\<forall>c\<in>set s. is_ws c"
  then have "trim_start s = []" by (simp add: trim_start_def)
  then show "trim s = []" by (simp add: trim_def trim_end_def)
qed

subsection \<open>Character classes\<close>

definition is_digit :: "nat \<Rightarrow> bool" where
  "is_digit c \<longleftrightarrow> 48 \<le> c \<and> c \<le> 57"

definition is_upper :: "nat \<Rightarrow> bool" where
  "is_upper c \<longleftrightarrow> 65 \<le> c \<and> c \<le> 90"

definition is_lower :: "nat \<Rightarrow> bool" where
  "is_lower c \<longleftrightarrow> 97 \<le> c \<and> c \<le> 122"

definition is_alnum :: "nat \<Rightarrow> bool" where
  "is_alnum c \<longleftrightarrow> is_digit c \<or> is_upper c \<or> is_lower c"

lemmas char_class_defs = is_digit_def is_upper_def is_lower_def is_alnum_def is_ws_def

lemma is_alnum_not_ws: "is_alnum c \<Longrightarrow> \<not> is_ws c"
  by (auto simp: char_class_defs)

lemma is_digit_alnum: "is_digit c \<Longrightarrow> is_alnum c"
  by (simp add: is_alnum_def)

lemma trim_alnum: "list_all is_alnum s \<Longrightarrow> trim s = s"
  by (rule trim_no_ws) (auto simp: list_all_iff is_alnum_not_ws)

subsection \<open>Case mapping\<close>

definition lower_unit :: "nat \<Rightarrow> jstr" where
  "lower_unit c =
    (if is_upper c then [c + 32]
     else if 192 \<le> c \<and> c \<le> 222 \<and> c \<noteq> 215 then [c + 32]
     else if c = 304 then [105, 775]
     else if c = 8490 then [107]
     else if c = 8491 then [229]
     else [c])"

definition lower :: "jstr \<Rightarrow> jstr" where
  "lower s = concat (map lower_unit s)"

text \<open>The units outside Latin-1 whose upper case contains an ASCII letter, with that upper case.\<close>

definition upper_special :: "(nat \<times> jstr) list" where
  "upper_special =
    [(181, [924]), (223, [83, 83]), (255, [376]), (305, [73]), (329, [700, 78]), (383, [83]),
     (496, [74, 780]), (7830, [72, 817]), (7831, [84, 776]), (7832, [87, 778]), (7833, [89, 778]),
     (7834, [65, 702]), (64256, [70, 70]), (64257, [70, 73]), (64258, [70, 76]),
     (64259, [70, 70, 73]), (64260, [70, 70, 76]), (64261, [83, 84]), (64262, [83, 84])]"

definition upper_unit :: "nat \<Rightarrow> jstr" where
  "upper_unit c =
    (if is_lower c then [c - 32]
     else if 224 \<le> c \<and> c \<le> 254 \<and> c \<noteq> 247 then [c - 32]
     else (case map_of upper_special c of Some u \<Rightarrow> u | None \<Rightarrow> [c]))"

definition upper :: "jstr \<Rightarrow> jstr" where
  "upper s = concat (map upper_unit s)"

text \<open>SQLite's \<open>COLLATE NOCASE\<close> folds the ASCII letters only.\<close>

definition nocase :: "jstr \<Rightarrow> jstr" where
  "nocase s = map (\<lambda>c. if is_upper c then c + 32 else c) s"

lemma lower_Nil [simp]: "lower [] = []" and upper_Nil [simp]: "upper [] = []"
  by (simp_all add: lower_def upper_def)

lemma lower_unit_lower: "d \<in> set (lower_unit c) \<Longrightarrow> lower_unit d = [d]"
  by (auto simp: lower_unit_def is_upper_def split: if_splits)

lemma lower_idem [simp]: "lower (lower s) = lower s"
proof -
  have "lower u = u" if "\<And>d. d \<in> set u \<Longrightarrow> lower_unit d = [d]" for u
    using that by (induction u) (auto simp: lower_def)
  moreover have "lower_unit d = [d]" if "d \<in> set (lower s)" for d
    using that lower_unit_lower by (auto simp: lower_def)
  ultimately show ?thesis by blast
qed

lemma lower_fixed: "(\<And>c. c \<in> set s \<Longrightarrow> lower_unit c = [c]) \<Longrightarrow> lower s = s"
  by (induction s) (auto simp: lower_def)

lemma lower_unit_alnum: "is_alnum c \<Longrightarrow> \<exists>d. lower_unit c = [d] \<and> is_alnum d"
  by (auto simp: lower_unit_def char_class_defs)

lemma lower_unit_ascii: "c < 128 \<Longrightarrow> \<exists>d. lower_unit c = [d] \<and> d < 128"
  by (auto simp: lower_unit_def is_upper_def)

lemma length_lower_ascii: "list_all (\<lambda>c. c < 128) s \<Longrightarrow> length (lower s) = length s"
proof (induction s)
  case (Cons c s)
  then obtain d where "lower_unit c = [d]" using lower_unit_ascii by (auto simp: list_all_iff)
  with Cons show ?case by (simp add: lower_def)
qed simp

subsection \<open>Digits and numbers\<close>

definition digit_val :: "nat \<Rightarrow> nat" where
  "digit_val c = c - 48"

definition digits_val :: "jstr \<Rightarrow> nat" where
  "digits_val s = foldl (\<lambda>n c. 10 * n + digit_val c) 0 s"

fun show_nat :: "nat \<Rightarrow> jstr" where
  "show_nat n = (if n < 10 then [48 + n] else show_nat (n div 10) @ [48 + n mod 10])"

declare show_nat.simps [simp del]

definition show_int :: "int \<Rightarrow> jstr" where
  "show_int i = (if i < 0 then 45 # show_nat (nat (- i)) else show_nat (nat i))"

lemma digits_val_snoc [simp]: "digits_val (s @ [c]) = 10 * digits_val s + digit_val c"
  by (simp add: digits_val_def)

lemma digits_val_show_nat [simp]: "digits_val (show_nat n) = n"
proof (induction n rule: show_nat.induct)
  case (1 n)
  show ?case
  proof (cases "n < 10")
    case True
    then show ?thesis by (subst show_nat.simps) (simp add: digits_val_def digit_val_def)
  next
    case False
    with 1 have "digits_val (show_nat (n div 10)) = n div 10" by simp
    with False show ?thesis by (subst show_nat.simps) (simp add: digit_val_def)
  qed
qed

lemma show_nat_digits: "list_all is_digit (show_nat n)"
proof (induction n rule: show_nat.induct)
  case (1 n)
  then show ?case
    by (subst show_nat.simps) (cases "n < 10", simp_all add: is_digit_def [of "48 + _"])
qed

lemma show_nat_nonempty [simp]: "show_nat n \<noteq> []"
  by (subst show_nat.simps) simp

lemma length_show_nat: "0 < w \<Longrightarrow> n < 10 ^ w \<Longrightarrow> length (show_nat n) \<le> w"
proof (induction n arbitrary: w rule: show_nat.induct)
  case (1 n)
  show ?case
  proof (cases "n < 10")
    case True
    with 1 show ?thesis by (subst show_nat.simps) simp
  next
    case False
    then obtain v where v: "w = Suc v" "0 < v"
      using 1 by (cases w) (auto intro: Suc_lessI, cases "w - 1", auto)
    then have "n div 10 < 10 ^ v" using 1 by (simp add: less_mult_imp_div_less mult.commute)
    then have "length (show_nat (n div 10)) \<le> v" using 1 v False by simp
    then show ?thesis using v False by (subst show_nat.simps) simp
  qed
qed

lemma show_nat_inj: "show_nat m = show_nat n \<longleftrightarrow> m = n"
  by (metis digits_val_show_nat)

lemma foldl_digits_bound:
  assumes "list_all is_digit s"
  shows "foldl (\<lambda>n c. 10 * n + digit_val c) a s < (a + 1) * 10 ^ length s"
  using assms
proof (induction s arbitrary: a)
  case (Cons c s)
  have "10 * a + digit_val c + 1 \<le> (a + 1) * 10"
    using Cons.prems by (auto simp: digit_val_def is_digit_def)
  then have "(10 * a + digit_val c + 1) * 10 ^ length s \<le> (a + 1) * 10 * 10 ^ length s"
    by (rule mult_le_mono1)
  moreover have "foldl (\<lambda>n c. 10 * n + digit_val c) (10 * a + digit_val c) s
      < (10 * a + digit_val c + 1) * 10 ^ length s"
    using Cons.IH Cons.prems by simp
  ultimately have "foldl (\<lambda>n c. 10 * n + digit_val c) (10 * a + digit_val c) s
      < (a + 1) * 10 * 10 ^ length s"
    by (rule order_less_le_trans [rotated])
  then show ?case by (simp only: foldl_Cons length_Cons power_Suc mult.assoc)
qed simp

lemma digits_val_bound: "list_all is_digit s \<Longrightarrow> digits_val s < 10 ^ length s"
  unfolding digits_val_def using foldl_digits_bound [of s 0] by simp

subsection \<open>Slices, padding, splitting, joining\<close>

text \<open>\<open>s.slice(0, n)\<close> and \<open>s.slice(-n)\<close>.\<close>

definition slice_to :: "nat \<Rightarrow> jstr \<Rightarrow> jstr" where
  "slice_to n s = take n s"

definition slice_last :: "nat \<Rightarrow> jstr \<Rightarrow> jstr" where
  "slice_last n s = drop (length s - n) s"

lemma length_slice_last: "length (slice_last n s) = min n (length s)"
  by (simp add: slice_last_def)

definition pad_start :: "nat \<Rightarrow> nat \<Rightarrow> jstr \<Rightarrow> jstr" where
  "pad_start n c s = replicate (n - length s) c @ s"

definition pad_end :: "nat \<Rightarrow> nat \<Rightarrow> jstr \<Rightarrow> jstr" where
  "pad_end n c s = s @ replicate (n - length s) c"

fun split_on :: "nat \<Rightarrow> jstr \<Rightarrow> jstr list" where
  "split_on c [] = [[]]"
| "split_on c (d # s) =
     (case split_on c s of
        [] \<Rightarrow> []
      | w # ws \<Rightarrow> if d = c then [] # w # ws else (d # w) # ws)"

fun join :: "jstr \<Rightarrow> jstr list \<Rightarrow> jstr" where
  "join sep [] = []"
| "join sep [w] = w"
| "join sep (w # ws) = w @ sep @ join sep ws"

lemma split_on_nonempty [simp]: "split_on c s \<noteq> []"
  by (induction s) (auto split: list.splits)

lemma split_on_no_sep: "c \<notin> set s \<Longrightarrow> split_on c s = [s]"
  by (induction s) auto

lemma split_on_append:
  "c \<notin> set w \<Longrightarrow> split_on c (w @ c # s) = w # split_on c s"
proof (induction w)
  case Nil
  then show ?case by (cases "split_on c s") (auto dest: arg_cong [of _ _ length])
next
  case (Cons d w)
  then show ?case by auto
qed

lemma split_join:
  assumes "ws \<noteq> []" and "\<And>w. w \<in> set ws \<Longrightarrow> c \<notin> set w"
  shows "split_on c (join [c] ws) = ws"
  using assms
proof (induction "[c]" ws rule: join.induct)
  case (3 w v vs)
  then have "split_on c (join [c] (v # vs)) = v # vs" by simp
  moreover have "c \<notin> set w" using "3.prems" by simp
  ultimately show ?case by (simp add: split_on_append)
qed (auto simp: split_on_no_sep)

lemma split_on_parts_no_sep: "w \<in> set (split_on c s) \<Longrightarrow> c \<notin> set w"
proof (induction s arbitrary: w)
  case (Cons d s)
  obtain v vs where "split_on c s = v # vs" by (cases "split_on c s") auto
  with Cons show ?case by (cases "d = c") auto
qed simp

text \<open>\<open>s.includes(t)\<close>.\<close>

fun contains :: "jstr \<Rightarrow> jstr \<Rightarrow> bool" where
  "contains [] t = (t = [])"
| "contains (c # s) t = (take (length t) (c # s) = t \<or> contains s t)"

lemma contains_iff: "contains s t \<longleftrightarrow> (\<exists>a b. s = a @ t @ b)"
proof (induction s)
  case (Cons c s)
  show ?case
  proof
    assume "contains (c # s) t"
    then consider "take (length t) (c # s) = t" | "contains s t" by auto
    then show "\<exists>a b. c # s = a @ t @ b"
    proof cases
      case 1
      then have "c # s = [] @ t @ drop (length t) (c # s)"
        by (metis append_Nil append_take_drop_id)
      then show ?thesis by blast
    next
      case 2
      with Cons.IH obtain a b where "s = a @ t @ b" by blast
      then have "c # s = (c # a) @ t @ b" by simp
      then show ?thesis by blast
    qed
  next
    assume "\<exists>a b. c # s = a @ t @ b"
    then obtain a b where ab: "c # s = a @ t @ b" by blast
    show "contains (c # s) t"
    proof (cases a)
      case Nil
      with ab have "take (length t) (c # s) = t" by simp
      then show ?thesis by simp
    next
      case (Cons d a')
      with ab have "s = a' @ t @ b" by simp
      then have "\<exists>a b. s = a @ t @ b" by blast
      then show ?thesis using Cons.IH by simp
    qed
  qed
qed auto

text \<open>A pattern in which \<open>d\<close> stands for a digit and every other unit for itself.\<close>

fun match_shape :: "jstr \<Rightarrow> jstr \<Rightarrow> bool" where
  "match_shape [] s = (s = [])"
| "match_shape (p # ps) s = (case s of [] \<Rightarrow> False | c # cs \<Rightarrow> (if p = 100 then is_digit c else c = p) \<and> match_shape ps cs)"

definition starts_with :: "jstr \<Rightarrow> jstr \<Rightarrow> bool" where
  "starts_with s t \<longleftrightarrow> take (length t) s = t"

text \<open>A replacement of a single unit by a string, \<open>s.replaceAll(c, t)\<close>.\<close>

definition replace_unit :: "nat \<Rightarrow> jstr \<Rightarrow> jstr \<Rightarrow> jstr" where
  "replace_unit c t s = concat (map (\<lambda>d. if d = c then t else [d]) s)"

lemma replace_unit_Nil: "replace_unit c [] s = filter (\<lambda>d. d \<noteq> c) s"
  by (induction s) (auto simp: replace_unit_def)

end
