(* ===== verification/JsValue.thy ===== *)
theory JsValue
  imports JsString
begin

text \<open>
  The values a handler receives as \<open>unknown\<close> or as parsed JSON. A number is an integer,
  or, when it is not one, the text JavaScript prints for it (\<open>NumText\<close>, e.g. 1.5 or NaN).
  Objects keep their keys in order; a missing property reads as \<open>Undef\<close>.
\<close>

datatype jval =
    Undef
  | Null
  | Bool bool
  | Num int
  | NumText jstr
  | Str jstr
  | Arr "jval list"
  | Obj "(jstr \<times> jval) list"

text \<open>\<open>value === undefined || value === null\<close>.\<close>

definition nullish :: "jval \<Rightarrow> bool" where
  "nullish v \<longleftrightarrow> v = Undef \<or> v = Null"

fun is_object :: "jval \<Rightarrow> bool" where
  "is_object (Arr _) = True"
| "is_object (Obj _) = True"
| "is_object _ = False"

text \<open>Truthiness.\<close>

definition nan_text :: jstr where "nan_text = js ''NaN''"

fun truthy :: "jval \<Rightarrow> bool" where
  "truthy Undef = False"
| "truthy Null = False"
| "truthy (Bool b) = b"
| "truthy (Num i) = (i \<noteq> 0)"
| "truthy (NumText t) = (t \<noteq> nan_text)"
| "truthy (Str s) = (s \<noteq> [])"
| "truthy (Arr _) = True"
| "truthy (Obj _) = True"

text \<open>\<open>String(value)\<close>; an array prints its elements joined by commas, a nullish element empty.\<close>

fun to_string :: "jval \<Rightarrow> jstr" where
  "to_string Undef = js ''undefined''"
| "to_string Null = js ''null''"
| "to_string (Bool b) = (if b then js ''true'' else js ''false'')"
| "to_string (Num i) = show_int i"
| "to_string (NumText t) = t"
| "to_string (Str s) = s"
| "to_string (Arr vs) = join (js '','') (map (\<lambda>v. if nullish v then [] else to_string v) vs)"
| "to_string (Obj _) = js ''[object Object]''"

text \<open>\<open>record[key]\<close> on an object, and \<open>String(value ?? '')\<close>.\<close>

fun get_prop :: "jval \<Rightarrow> jstr \<Rightarrow> jval" where
  "get_prop (Obj fs) k = (case map_of fs k of None \<Rightarrow> Undef | Some v \<Rightarrow> v)"
| "get_prop _ _ = Undef"

definition to_string_or_empty :: "jval \<Rightarrow> jstr" where
  "to_string_or_empty v = (if nullish v then [] else to_string v)"

definition nullish_or :: "jval \<Rightarrow> jval \<Rightarrow> jval" where
  "nullish_or v d = (if nullish v then d else v)"

lemma nullish_simps [simp]:
  "nullish Undef" "nullish Null" "\<not> nullish (Str s)" "\<not> nullish (Num i)" "\<not> nullish (Bool b)"
  "\<not> nullish (NumText t)" "\<not> nullish (Arr vs)" "\<not> nullish (Obj fs)"
  by (simp_all add: nullish_def)

lemma to_string_or_empty_Str [simp]: "to_string_or_empty (Str s) = s"
  by (simp add: to_string_or_empty_def)

lemma to_string_or_empty_nullish [simp]: "nullish v \<Longrightarrow> to_string_or_empty v = []"
  by (simp add: to_string_or_empty_def)

text \<open>A nullable text column as a value, and back.\<close>

definition jopt :: "jstr option \<Rightarrow> jval" where
  "jopt x = (case x of None \<Rightarrow> Null | Some s \<Rightarrow> Str s)"

lemma jopt_simps [simp]: "jopt None = Null" "jopt (Some s) = Str s"
  by (simp_all add: jopt_def)


subsection \<open>JSON texts\<close>

text \<open>
  \<open>JSON.stringify\<close>: quoted strings with the escapes of the standard (a lone surrogate is
  escaped), object members whose value is undefined left out, and \<open>null\<close> for a number that
  is not finite and for an undefined element.
\<close>

definition hex_unit :: "nat \<Rightarrow> nat" where
  "hex_unit d = (if d < 10 then 48 + d else 87 + d)"

definition unicode_escape :: "nat \<Rightarrow> jstr" where
  "unicode_escape c = js [CHR 0x5C, CHR ''u''] @
     [hex_unit (c div 4096 mod 16), hex_unit (c div 256 mod 16), hex_unit (c div 16 mod 16), hex_unit (c mod 16)]"

definition json_escape :: "nat \<Rightarrow> jstr" where
  "json_escape c =
    (if c = 34 then [92, 34] else if c = 92 then [92, 92]
     else if c = 8 then [92, 98] else if c = 9 then [92, 116] else if c = 10 then [92, 110]
     else if c = 12 then [92, 102] else if c = 13 then [92, 114]
     else if c < 32 then unicode_escape c else [c])"

definition high_surrogate :: "nat \<Rightarrow> bool" where
  "high_surrogate c \<longleftrightarrow> 55296 \<le> c \<and> c < 56320"

definition low_surrogate :: "nat \<Rightarrow> bool" where
  "low_surrogate c \<longleftrightarrow> 56320 \<le> c \<and> c < 57344"

fun json_chars :: "jstr \<Rightarrow> jstr" where
  "json_chars [] = []"
| "json_chars [c] = (if high_surrogate c \<or> low_surrogate c then unicode_escape c else json_escape c)"
| "json_chars (c # d # s) =
    (if high_surrogate c \<and> low_surrogate d then c # d # json_chars s
     else (if high_surrogate c \<or> low_surrogate c then unicode_escape c else json_escape c) @ json_chars (d # s))"

definition json_quote :: "jstr \<Rightarrow> jstr" where
  "json_quote s = [34] @ json_chars s @ [34]"

fun json_text :: "jval \<Rightarrow> jstr" where
  "json_text Undef = js ''null''"
| "json_text Null = js ''null''"
| "json_text (Bool b) = (if b then js ''true'' else js ''false'')"
| "json_text (Num i) = show_int i"
| "json_text (NumText t) =
    (if t \<in> {nan_text, js ''Infinity'', js ''-Infinity''} then js ''null'' else t)"
| "json_text (Str s) = json_quote s"
| "json_text (Arr vs) = js ''['' @ join (js '','') (map json_text vs) @ js '']''"
| "json_text (Obj fs) = js ''{'' @
    join (js '','') (map (\<lambda>(k, t). json_quote k @ js '':'' @ t)
      (filter (\<lambda>(k, t). t \<noteq> []) (map (\<lambda>(k, v). (k, if v = Undef then [] else json_text v)) fs))) @ js ''}''"

text \<open>A nullable column as a value.\<close>

definition nullable :: "jstr option \<Rightarrow> jval" where
  "nullable x = (case x of None \<Rightarrow> Null | Some s \<Rightarrow> Str s)"

end
