(* ===== verification/JsonParse.thy ===== *)
theory JsonParse
  imports JsValue
begin

text \<open>
  \<open>JSON.parse\<close>, as the handlers use it on texts they stored themselves: \<open>None\<close> is the
  \<open>SyntaxError\<close>. A number that is not an integer below 2^53 keeps the text of its token. Every
  step of the parser consumes a unit, so the length of the text is enough fuel; the last section
  shows that a text printed by \<open>json_text\<close> is read back as the value it was printed from.
\<close>

definition json_ws :: "nat \<Rightarrow> bool" where
  "json_ws c \<longleftrightarrow> c = 32 \<or> c = 9 \<or> c = 10 \<or> c = 13"

definition skip_ws :: "jstr \<Rightarrow> jstr" where
  "skip_ws s = dropWhile json_ws s"

definition hex_value :: "nat \<Rightarrow> nat option" where
  "hex_value c =
    (if is_digit c then Some (c - 48) else if 97 \<le> c \<and> c \<le> 102 then Some (c - 87)
     else if 65 \<le> c \<and> c \<le> 70 then Some (c - 55) else None)"

definition hex4 :: "nat \<Rightarrow> nat \<Rightarrow> nat \<Rightarrow> nat \<Rightarrow> nat option" where
  "hex4 a b c d =
    (case (hex_value a, hex_value b, hex_value c, hex_value d) of
       (Some w, Some x, Some y, Some z) \<Rightarrow> Some (4096 * w + 256 * x + 16 * y + z)
     | _ \<Rightarrow> None)"

definition unescape :: "nat \<Rightarrow> nat option" where
  "unescape e = map_of [(34, 34), (92, 92), (47, 47), (98, 8), (102, 12), (110, 10), (114, 13), (116, 9)] e"

definition push :: "nat \<Rightarrow> (jstr \<times> jstr) option \<Rightarrow> (jstr \<times> jstr) option" where
  "push c r = map_option (\<lambda>(s, rest). (c # s, rest)) r"

text \<open>The units of a string up to its closing quote.\<close>

fun parse_chars :: "jstr \<Rightarrow> (jstr \<times> jstr) option" where
  "parse_chars [] = None"
| "parse_chars (c # s) =
    (if c = 34 then Some ([], s)
     else if c = 92 then
       (case s of
          [] \<Rightarrow> None
        | e # t \<Rightarrow>
            if e = 117 then
              (case t of
                 h1 # h2 # h3 # h4 # u \<Rightarrow>
                   (case hex4 h1 h2 h3 h4 of None \<Rightarrow> None | Some x \<Rightarrow> push x (parse_chars u))
               | _ \<Rightarrow> None)
            else (case unescape e of None \<Rightarrow> None | Some x \<Rightarrow> push x (parse_chars t)))
     else if c < 32 then None
     else push c (parse_chars s))"

subsection \<open>Numbers\<close>

definition number_unit :: "nat \<Rightarrow> bool" where
  "number_unit c \<longleftrightarrow> is_digit c \<or> c = 43 \<or> c = 45 \<or> c = 46 \<or> c = 69 \<or> c = 101"

definition int_part_ok :: "jstr \<Rightarrow> bool" where
  "int_part_ok ds \<longleftrightarrow> ds \<noteq> [] \<and> list_all is_digit ds \<and> (length ds = 1 \<or> hd ds \<noteq> 48)"

text \<open>The fraction digits and the rest; the exponent and the rest.\<close>

definition parse_frac :: "jstr \<Rightarrow> (jstr \<times> jstr) option" where
  "parse_frac s =
    (if s \<noteq> [] \<and> hd s = 46
     then (let ds = takeWhile is_digit (tl s) in if ds = [] then None else Some (ds, dropWhile is_digit (tl s)))
     else Some ([], s))"

definition parse_exp :: "jstr \<Rightarrow> int option" where
  "parse_exp s =
    (if s = [] then Some 0
     else if hd s \<noteq> 69 \<and> hd s \<noteq> 101 then None
     else let t = tl s;
              neg = (t \<noteq> [] \<and> hd t = 45);
              ds = (if t \<noteq> [] \<and> (hd t = 45 \<or> hd t = 43) then tl t else t)
       in if ds = [] \<or> \<not> list_all is_digit ds then None
          else Some (if neg then - int (digits_val ds) else int (digits_val ds)))"

definition max_safe :: int where "max_safe = 9007199254740992"

definition decimal_value :: "jstr \<Rightarrow> bool \<Rightarrow> nat \<Rightarrow> int \<Rightarrow> jval" where
  "decimal_value token neg m e =
    (let v = (if m = 0 then Some 0
              else if 0 \<le> e then (if e \<le> 20 then Some (int m * 10 ^ nat e) else None)
              else if nat (- e) \<le> 400 \<and> m mod 10 ^ nat (- e) = 0 then Some (int (m div 10 ^ nat (- e))) else None)
     in case v of
          Some n \<Rightarrow> if n \<le> max_safe then Num (if neg then - n else n) else NumText token
        | None \<Rightarrow> NumText token)"

definition parse_number :: "jstr \<Rightarrow> jval option" where
  "parse_number token =
    (let neg = (token \<noteq> [] \<and> hd token = 45);
         body = (if neg then tl token else token);
         ip = takeWhile is_digit body
     in if \<not> int_part_ok ip then None
        else case parse_frac (dropWhile is_digit body) of
          None \<Rightarrow> None
        | Some (fr, rest) \<Rightarrow>
            map_option (\<lambda>e. decimal_value token neg (digits_val (ip @ fr)) (e - int (length fr))) (parse_exp rest))"

subsection \<open>\<open>Number(value)\<close>\<close>

definition strip_sign :: "jstr \<Rightarrow> bool \<times> jstr" where
  "strip_sign s = (if s \<noteq> [] \<and> (hd s = 45 \<or> hd s = 43) then (hd s = 45, tl s) else (False, s))"

definition decimal_text :: "jstr \<Rightarrow> bool \<Rightarrow> jstr \<Rightarrow> jval option" where
  "decimal_text token neg body =
    (let ip = takeWhile is_digit body; r = dropWhile is_digit body;
         fr = (if r \<noteq> [] \<and> hd r = 46 then takeWhile is_digit (tl r) else []);
         rest = (if r \<noteq> [] \<and> hd r = 46 then dropWhile is_digit (tl r) else r)
     in if ip = [] \<and> fr = [] then None
        else map_option (\<lambda>e. decimal_value token neg (digits_val (ip @ fr)) (e - int (length fr))) (parse_exp rest))"

definition radix_text :: "jstr \<Rightarrow> int option" where
  "radix_text s =
    (case s of
       z # x # ds \<Rightarrow>
         if z \<noteq> 48 \<or> ds = [] then None
         else let base = (if x = 120 \<or> x = 88 then 16 else if x = 111 \<or> x = 79 then 8 else if x = 98 \<or> x = 66 then 2 else 0 :: nat) in
           if base = 0 \<or> \<not> list_all (\<lambda>c. case hex_value c of None \<Rightarrow> False | Some v \<Rightarrow> v < base) ds then None
           else Some (int (foldl (\<lambda>n c. base * n + the (hex_value c)) 0 ds))
     | _ \<Rightarrow> None)"

definition number_of_text :: "jstr \<Rightarrow> jval" where
  "number_of_text s =
    (let t = trim s in
     if t = [] then Num 0
     else case radix_text t of
       Some n \<Rightarrow> if n \<le> max_safe then Num n else NumText t
     | None \<Rightarrow>
         (case strip_sign t of (neg, body) \<Rightarrow>
            if body = js ''Infinity'' then NumText (if neg then js ''-Infinity'' else body)
            else coalesce (decimal_text t neg body) (NumText nan_text)))"

fun to_number :: "jval \<Rightarrow> jval" where
  "to_number Undef = NumText nan_text"
| "to_number Null = Num 0"
| "to_number (Bool b) = Num (if b then 1 else 0)"
| "to_number (Num i) = Num i"
| "to_number (NumText t) = NumText t"
| "to_number (Str s) = number_of_text s"
| "to_number (Arr vs) = number_of_text (to_string (Arr vs))"
| "to_number (Obj fs) = NumText nan_text"

subsection \<open>Values\<close>

text \<open>A later member of the same name replaces the value of the first.\<close>

fun put_member :: "jstr \<Rightarrow> jval \<Rightarrow> (jstr \<times> jval) list \<Rightarrow> (jstr \<times> jval) list" where
  "put_member k v [] = [(k, v)]"
| "put_member k v ((l, w) # fs) = (if l = k then (l, v) # fs else (l, w) # put_member k v fs)"

definition build_object :: "(jstr \<times> jval) list \<Rightarrow> (jstr \<times> jval) list" where
  "build_object ms = fold (\<lambda>(k, v). put_member k v) ms []"

definition strip_text :: "jstr \<Rightarrow> jstr \<Rightarrow> jstr option" where
  "strip_text p s = (if take (length p) s = p then Some (drop (length p) s) else None)"

definition parse_atom :: "jstr \<Rightarrow> (jval \<times> jstr) option" where
  "parse_atom s =
    (case strip_text (js ''null'') s of Some r \<Rightarrow> Some (Null, r)
     | None \<Rightarrow> (case strip_text (js ''true'') s of Some r \<Rightarrow> Some (Bool True, r)
     | None \<Rightarrow> (case strip_text (js ''false'') s of Some r \<Rightarrow> Some (Bool False, r)
     | None \<Rightarrow> map_option (\<lambda>v. (v, dropWhile number_unit s)) (parse_number (takeWhile number_unit s)))))"

fun parse_value :: "nat \<Rightarrow> jstr \<Rightarrow> (jval \<times> jstr) option"
  and parse_elements :: "nat \<Rightarrow> jstr \<Rightarrow> (jval list \<times> jstr) option"
  and parse_members :: "nat \<Rightarrow> jstr \<Rightarrow> ((jstr \<times> jval) list \<times> jstr) option" where
  "parse_value 0 s = None"
| "parse_value (Suc n) s =
    (case skip_ws s of
       [] \<Rightarrow> None
     | c # t \<Rightarrow>
         if c = 34 then map_option (\<lambda>(u, r). (Str u, r)) (parse_chars t)
         else if c = 91 then
           (case skip_ws t of
              [] \<Rightarrow> None
            | d # u \<Rightarrow> if d = 93 then Some (Arr [], u)
                       else map_option (\<lambda>(vs, r). (Arr vs, r)) (parse_elements n (d # u)))
         else if c = 123 then
           (case skip_ws t of
              [] \<Rightarrow> None
            | d # u \<Rightarrow> if d = 125 then Some (Obj [], u)
                       else map_option (\<lambda>(ms, r). (Obj (build_object ms), r)) (parse_members n (d # u)))
         else parse_atom (c # t))"
| "parse_elements 0 s = None"
| "parse_elements (Suc n) s =
    (case parse_value n s of
       None \<Rightarrow> None
     | Some (v, r) \<Rightarrow>
         (case skip_ws r of
            [] \<Rightarrow> None
          | c # t \<Rightarrow>
              if c = 93 then Some ([v], t)
              else if c = 44 then map_option (\<lambda>(vs, q). (v # vs, q)) (parse_elements n t)
              else None))"
| "parse_members 0 s = None"
| "parse_members (Suc n) s =
    (case skip_ws s of
       [] \<Rightarrow> None
     | q # s1 \<Rightarrow>
         if q \<noteq> 34 then None
         else (case parse_chars s1 of
            None \<Rightarrow> None
          | Some (k, s2) \<Rightarrow>
              (case skip_ws s2 of
                 [] \<Rightarrow> None
               | c # s3 \<Rightarrow>
                   if c \<noteq> 58 then None
                   else (case parse_value n s3 of
                      None \<Rightarrow> None
                    | Some (v, r) \<Rightarrow>
                        (case skip_ws r of
                           [] \<Rightarrow> None
                         | d # t \<Rightarrow>
                             if d = 125 then Some ([(k, v)], t)
                             else if d = 44 then map_option (\<lambda>(ms, z). ((k, v) # ms, z)) (parse_members n t)
                             else None)))))"

definition json_parse :: "jstr \<Rightarrow> jval option" where
  "json_parse s =
    (case parse_value (Suc (length s)) s of
       None \<Rightarrow> None
     | Some (v, r) \<Rightarrow> if skip_ws r = [] then Some v else None)"

subsection \<open>Reading back what was printed\<close>

definition units :: "jstr \<Rightarrow> bool" where
  "units s \<longleftrightarrow> list_all (\<lambda>c. c < 65536) s"

text \<open>Values whose text determines them: safe integers, texts of units, members named once.\<close>

fun printable :: "jval \<Rightarrow> bool" where
  "printable Undef = False"
| "printable Null = True"
| "printable (Bool b) = True"
| "printable (Num i) = (\<bar>i\<bar> \<le> max_safe)"
| "printable (NumText t) = False"
| "printable (Str s) = units s"
| "printable (Arr vs) = list_all printable vs"
| "printable (Obj fs) = (distinct (map fst fs) \<and> list_all (\<lambda>(k, v). units k \<and> printable v) fs)"

lemma hex_value_unit: "d < 16 \<Longrightarrow> hex_value (hex_unit d) = Some d"
  by (auto simp: hex_value_def hex_unit_def is_digit_def)

lemma nibbles:
  fixes a b e r0 r1 r2 :: nat
  assumes "c = a * 16 + r0" "a = b * 16 + r1" "b = e * 16 + r2"
  shows "4096 * e + 256 * r2 + 16 * r1 + r0 = c"
  using assms by simp

lemma hex4_escape:
  assumes "c < 65536"
  shows "hex4 (hex_unit (c div 4096 mod 16)) (hex_unit (c div 256 mod 16)) (hex_unit (c div 16 mod 16)) (hex_unit (c mod 16)) = Some c"
proof -
  have "c div 4096 < 16" using assms by (simp add: less_mult_imp_div_less)
  then have top: "c div 4096 mod 16 = c div 4096" by (rule mod_less)
  have b: "c div 16 div 16 = c div 256" and e: "c div 256 div 16 = c div 4096"
    by (simp_all only: div_mult2_eq [symmetric]) simp_all
  have "4096 * (c div 4096) + 256 * (c div 256 mod 16) + 16 * (c div 16 mod 16) + c mod 16 = c"
    using nibbles [OF div_mult_mod_eq [of c 16, symmetric] div_mult_mod_eq [of "c div 16" 16, symmetric, unfolded b]
        div_mult_mod_eq [of "c div 256" 16, symmetric, unfolded e]] .
  then show ?thesis by (simp only: hex4_def top hex_value_unit mod_less_divisor zero_less_numeral \<open>c div 4096 < 16\<close> prod.case option.case)
qed

lemma parse_chars_unicode: "c < 65536 \<Longrightarrow> parse_chars (unicode_escape c @ s) = push c (parse_chars s)"
  using hex4_escape [of c] by (simp add: unicode_escape_def js_def)

lemma parse_chars_escape: "c < 65536 \<Longrightarrow> parse_chars (json_escape c @ s) = push c (parse_chars s)"
  by (simp add: json_escape_def unescape_def parse_chars_unicode)

lemma parse_chars_plain: "32 \<le> c \<Longrightarrow> c \<noteq> 34 \<Longrightarrow> c \<noteq> 92 \<Longrightarrow> parse_chars (c # s) = push c (parse_chars s)"
  by simp

lemma push_simps [simp]: "push c (Some (s, r)) = Some (c # s, r)" "push c None = None"
  by (simp_all add: push_def)

declare parse_chars.simps(2) [simp del]

lemma parse_chars_quote: "parse_chars (34 # rest) = Some ([], rest)"
  by (simp add: parse_chars.simps)

lemma parse_json_chars: "units s \<Longrightarrow> parse_chars (json_chars s @ 34 # rest) = Some (s, rest)"
proof (induction s rule: json_chars.induct)
  case (3 c d s)
  then show ?case
    by (auto simp: units_def parse_chars_unicode parse_chars_escape parse_chars_plain
        high_surrogate_def low_surrogate_def)
qed (simp_all add: units_def parse_chars_unicode parse_chars_escape parse_chars_quote)

lemma strip_text_differs: "p \<noteq> [] \<Longrightarrow> c \<noteq> hd p \<Longrightarrow> strip_text p (c # s) = None"
  by (cases p) (auto simp: strip_text_def)

lemma show_nat_hd:
  "0 < n \<Longrightarrow> hd (show_nat n) \<noteq> 48"
proof (induction n rule: show_nat.induct)
  case (1 n)
  then show ?case by (subst show_nat.simps) (auto simp: hd_append)
qed

lemma show_nat_int_part: "int_part_ok (show_nat n)"
proof (cases "n = 0")
  case True
  then show ?thesis by (simp add: int_part_ok_def show_nat.simps is_digit_def)
next
  case False
  then show ?thesis using show_nat_hd show_nat_digits by (simp add: int_part_ok_def)
qed

lemma digits_scan [simp]: "takeWhile is_digit (show_nat n) = show_nat n" "dropWhile is_digit (show_nat n) = []"
    "x \<in> set (show_nat n) \<Longrightarrow> is_digit x"
  using show_nat_digits [of n] by (simp_all add: list_all_iff takeWhile_eq_all_conv dropWhile_eq_Nil_conv)

lemma parse_number_show_int:
  assumes "\<bar>i\<bar> \<le> max_safe"
  shows "parse_number (show_int i) = Some (Num i)"
proof -
  have hd: "hd (show_nat n) \<noteq> 45" for n
    using show_nat_digits [of n] by (cases "show_nat n") (auto simp: is_digit_def)
  have body: "parse_number (show_int i) = Some (decimal_value (show_int i) (i < 0) (nat \<bar>i\<bar>) 0)"
    using hd show_nat_int_part
    by (simp add: parse_number_def show_int_def parse_frac_def parse_exp_def Let_def)
  show ?thesis using assms unfolding body by (auto simp: decimal_value_def)
qed

text \<open>The units that follow a value inside an array or object, or end the text.\<close>

definition ends_value :: "jstr \<Rightarrow> bool" where
  "ends_value rest \<longleftrightarrow> rest = [] \<or> \<not> number_unit (hd rest)"

lemma number_scan:
  assumes "ends_value rest"
  shows "takeWhile number_unit (show_int i @ rest) = show_int i" "dropWhile number_unit (show_int i @ rest) = rest"
proof -
  have all: "number_unit c" if "c \<in> set (show_int i)" for c
    using that by (auto simp: show_int_def number_unit_def split: if_splits)
  have "takeWhile number_unit rest = []" "dropWhile number_unit rest = rest"
    using assms by (cases rest; simp add: ends_value_def)+
  then show "takeWhile number_unit (show_int i @ rest) = show_int i" "dropWhile number_unit (show_int i @ rest) = rest"
    using all by (simp_all add: takeWhile_append2 dropWhile_append2)
qed

lemma show_int_hd: "\<exists>c t. show_int i = c # t \<and> (is_digit c \<or> c = 45)"
proof -
  have "\<exists>c t. show_nat n = c # t \<and> is_digit c" for n
    using digits_scan(3) [of _ n] show_nat_nonempty [of n] by (cases "show_nat n") auto
  from this [of "nat i"] show ?thesis by (auto simp: show_int_def)
qed

lemma parse_atom_int:
  assumes "\<bar>i\<bar> \<le> max_safe" "ends_value rest"
  shows "parse_atom (show_int i @ rest) = Some (Num i, rest)"
proof -
  obtain c t where c: "show_int i = c # t" "is_digit c \<or> c = 45" using show_int_hd by blast
  then have "strip_text (js ''null'') (show_int i @ rest) = None" "strip_text (js ''true'') (show_int i @ rest) = None"
    "strip_text (js ''false'') (show_int i @ rest) = None"
    by (auto intro!: strip_text_differs simp: js_def is_digit_def)
  then show ?thesis using assms by (simp add: parse_atom_def number_scan parse_number_show_int)
qed

lemma skip_ws_Cons [simp]: "skip_ws (c # s) = (if json_ws c then skip_ws s else c # s)"
  and skip_ws_Nil [simp]: "skip_ws [] = []"
  by (simp_all add: skip_ws_def)

lemma json_text_hd:
  assumes "printable v"
  shows "\<exists>c t. json_text v = c # t \<and> \<not> json_ws c \<and> c \<noteq> 93 \<and> c \<noteq> 44"
proof (cases v)
  case (Num i)
  then show ?thesis using show_int_hd [of i] by (auto simp: json_ws_def is_digit_def)
qed (use assms in \<open>auto simp: json_quote_def js_def json_ws_def\<close>)

lemma json_text_nonempty: "printable v \<Longrightarrow> json_text v \<noteq> []"
  using json_text_hd by force

lemma build_object_distinct:
  "distinct (map fst ms) \<Longrightarrow> build_object ms = ms"
proof -
  have put: "k \<notin> fst ` set fs \<Longrightarrow> put_member k v fs = fs @ [(k, v)]" for k v fs
    by (induction fs) auto
  have "distinct (map fst (fs @ ms)) \<Longrightarrow> fold (\<lambda>(k, v). put_member k v) ms fs = fs @ ms" for fs
    by (induction ms arbitrary: fs) (auto simp: put)
  from this [of "[]"] show "distinct (map fst ms) \<Longrightarrow> build_object ms = ms" by (simp add: build_object_def)
qed

definition member_text :: "jstr \<times> jval \<Rightarrow> jstr" where
  "member_text m = json_quote (fst m) @ js '':'' @ json_text (snd m)"

lemma json_text_Obj:
  assumes "list_all (\<lambda>(k, v). units k \<and> printable v) fs"
  shows "json_text (Obj fs) = 123 # join (js '','') (map member_text fs) @ [125]"
proof -
  have "filter (\<lambda>(k, t). t \<noteq> []) (map (\<lambda>(k, v). (k, if v = Undef then [] else json_text v)) fs)
      = map (\<lambda>(k, v). (k, json_text v)) fs"
    using assms by (induction fs) (auto simp: json_text_nonempty split: if_splits)
  then show ?thesis
    by (simp add: comp_def case_prod_unfold member_text_def [abs_def]) (simp add: js_def)
qed

text \<open>What reading one value back means, for a value and the fuel.\<close>

definition reads_back :: "jval \<Rightarrow> bool" where
  "reads_back v \<longleftrightarrow> (\<forall>n rest. length (json_text v) \<le> n \<longrightarrow> ends_value rest \<longrightarrow> parse_value n (json_text v @ rest) = Some (v, rest))"

lemma reads_backD:
  "reads_back v \<Longrightarrow> length (json_text v) \<le> n \<Longrightarrow> ends_value rest \<Longrightarrow> parse_value n (json_text v @ rest) = Some (v, rest)"
  by (simp add: reads_back_def)

lemma ends_value_Cons [simp]: "ends_value (c # s) \<longleftrightarrow> \<not> number_unit c" "ends_value []"
  by (simp_all add: ends_value_def)

lemma separators [simp]:
  "\<not> number_unit 44" "\<not> number_unit 93" "\<not> number_unit 125"
  "\<not> json_ws 44" "\<not> json_ws 93" "\<not> json_ws 125" "\<not> json_ws 34" "\<not> json_ws 58" "\<not> json_ws 91" "\<not> json_ws 123"
  by (simp_all add: number_unit_def is_digit_def json_ws_def)

lemma elements_read_back:
  assumes "vs \<noteq> []" "\<forall>v\<in>set vs. printable v \<and> reads_back v" "length (join (js '','') (map json_text vs)) < n"
  shows "parse_elements n (join (js '','') (map json_text vs) @ 93 # rest) = Some (vs, rest)"
  using assms
proof (induction vs arbitrary: n)
  case (Cons v vs)
  then obtain m where n: "n = Suc m" by (cases n) auto
  show ?case
  proof (cases vs)
    case Nil
    then have "parse_value m (json_text v @ 93 # rest) = Some (v, 93 # rest)"
      using Cons.prems n by (intro reads_backD) auto
    then show ?thesis using Nil n by simp
  next
    case (Cons w ws)
    then have joined: "join (js '','') (map json_text (v # vs)) = json_text v @ 44 # join (js '','') (map json_text vs)"
      by (simp add: js_def)
    have "parse_value m (json_text v @ 44 # join (js '','') (map json_text vs) @ 93 # rest)
        = Some (v, 44 # join (js '','') (map json_text vs) @ 93 # rest)"
      using Cons.prems n joined by (intro reads_backD) auto
    moreover have "parse_elements m (join (js '','') (map json_text vs) @ 93 # rest) = Some (vs, rest)"
      using Cons.prems n joined \<open>vs = w # ws\<close> by (intro Cons.IH) auto
    ultimately show ?thesis unfolding n joined by simp
  qed
qed simp

lemma members_read_back:
  assumes "fs \<noteq> []" "\<forall>(k, v)\<in>set fs. units k \<and> printable v \<and> reads_back v"
    "length (join (js '','') (map member_text fs)) < n"
  shows "parse_members n (join (js '','') (map member_text fs) @ 125 # rest) = Some (fs, rest)"
  using assms
proof (induction fs arbitrary: n)
  case (Cons m fs)
  obtain k v where m: "m = (k, v)" by (cases m)
  obtain q where n: "n = Suc q" using Cons.prems by (cases n) auto
  have kv: "units k" "printable v" "reads_back v" using Cons.prems m by auto
  have shape: "member_text (k, v) @ t = 34 # json_chars k @ 34 # 58 # json_text v @ t" for t
    by (simp add: member_text_def json_quote_def js_def)
  have len: "length (json_text v) < length (member_text m)"
    by (simp add: m member_text_def)
  show ?case
  proof (cases fs)
    case Nil
    have "parse_value q (json_text v @ 125 # rest) = Some (v, 125 # rest)"
      using Cons.prems n kv len Nil by (intro reads_backD) auto
    then show ?thesis using Nil n kv by (simp add: shape parse_json_chars m)
  next
    case (Cons f gs)
    then have joined: "join (js '','') (map member_text (m # fs)) = member_text m @ 44 # join (js '','') (map member_text fs)"
      by (simp add: js_def)
    have "parse_value q (json_text v @ 44 # join (js '','') (map member_text fs) @ 125 # rest)
        = Some (v, 44 # join (js '','') (map member_text fs) @ 125 # rest)"
      using Cons.prems n kv len joined by (intro reads_backD) auto
    moreover have "parse_members q (join (js '','') (map member_text fs) @ 125 # rest) = Some (fs, rest)"
      using Cons.prems n joined \<open>fs = f # gs\<close> by (intro Cons.IH) auto
    ultimately show ?thesis using kv unfolding n joined unfolding m by (simp add: shape parse_json_chars)
  qed
qed simp

lemma array_head:
  assumes "printable v"
  shows "\<exists>d u. join (js '','') (map json_text (v # vs)) @ t = d # u \<and> \<not> json_ws d \<and> d \<noteq> 93"
  using json_text_hd [OF assms] by (cases vs) auto

lemma object_head: "\<exists>u. join (js '','') (map member_text (m # fs)) @ t = 34 # u"
  by (cases fs) (simp_all add: member_text_def json_quote_def)

lemma parse_value_atom:
  "0 < n \<Longrightarrow> is_digit c \<or> c = 45 \<Longrightarrow> parse_value n (c # t) = parse_atom (c # t)"
  by (cases n) (auto simp: json_ws_def is_digit_def)

lemma printable_reads_back: "printable v \<Longrightarrow> reads_back v"
proof (induction v)
  case (Num i)
  obtain c t where c: "show_int i = c # t" "is_digit c \<or> c = 45" using show_int_hd by blast
  have "parse_value n (show_int i @ rest) = parse_atom (show_int i @ rest)" if "0 < n" for n rest
    using that c by (simp add: parse_value_atom)
  moreover have "0 < n" if "length (show_int i) \<le> n" for n using that c by simp
  ultimately show ?case using Num parse_atom_int [of i] by (simp add: reads_back_def)
next
  case (Arr vs)
  show ?case unfolding reads_back_def
  proof (intro allI impI)
    fix n rest assume n: "length (json_text (Arr vs)) \<le> n" and "ends_value rest"
    obtain q where q: "n = Suc q" using n by (cases n) (auto simp: js_def)
    show "parse_value n (json_text (Arr vs) @ rest) = Some (Arr vs, rest)"
    proof (cases vs)
      case Nil
      then show ?thesis using q by (simp add: js_def)
    next
      case (Cons w ws)
      have all: "\<forall>v\<in>set vs. printable v \<and> reads_back v" using Arr by (auto simp: list_all_iff)
      obtain d u where d: "join (js '','') (map json_text vs) @ 93 # rest = d # u" "\<not> json_ws d" "d \<noteq> 93"
        using array_head [of w ws "93 # rest"] all Cons by auto
      have "parse_elements q (join (js '','') (map json_text vs) @ 93 # rest) = Some (vs, rest)"
        using n q Cons by (intro elements_read_back all) (simp_all add: js_def)
      then show ?thesis using q d by (simp add: js_def)
    qed
  qed
next
  case (Obj fs)
  have jt: "json_text (Obj fs) = 123 # join (js '','') (map member_text fs) @ [125]"
    using Obj.prems by (intro json_text_Obj) simp
  show ?case unfolding reads_back_def
  proof (intro allI impI)
    fix n rest assume n: "length (json_text (Obj fs)) \<le> n" and "ends_value rest"
    obtain q where q: "n = Suc q" using n by (cases n) (auto simp: jt)
    show "parse_value n (json_text (Obj fs) @ rest) = Some (Obj fs, rest)"
    proof (cases fs)
      case Nil
      then show ?thesis unfolding jt using q by simp
    next
      case (Cons m ms)
      have all: "\<forall>(k, v)\<in>set fs. units k \<and> printable v \<and> reads_back v"
        using Obj by (fastforce simp: list_all_iff)
      obtain u where u: "join (js '','') (map member_text fs) @ 125 # rest = 34 # u"
        using object_head [of m ms "125 # rest"] Cons by auto
      have "parse_members q (join (js '','') (map member_text fs) @ 125 # rest) = Some (fs, rest)"
        using n q Cons unfolding jt by (intro members_read_back all) simp_all
      moreover have "build_object fs = fs" using Obj.prems by (intro build_object_distinct) simp
      ultimately show ?thesis unfolding jt using q u by simp
    qed
  qed
qed (auto simp: reads_back_def js_def json_quote_def parse_json_chars parse_atom_def strip_text_def json_ws_def Suc_le_eq
    elim!: less_natE)

lemma json_parse_text: "printable v \<Longrightarrow> json_parse (json_text v) = Some v"
  using reads_backD [OF printable_reads_back, of v "Suc (length (json_text v))" "[]"]
  by (simp add: json_parse_def)

lemma units_append [simp]: "units (s @ t) \<longleftrightarrow> units s \<and> units t" "units (c # s) \<longleftrightarrow> c < 65536 \<and> units s" "units []"
  by (auto simp: units_def)

lemma units_js [simp]: "units (js s)"
  using js_unit_bound [of _ s] by (fastforce simp: units_def list_all_iff)

lemma units_show_int: "units (show_int n)"
proof -
  have "c < 65536" if "c \<in> set (show_nat m)" for c m
    using show_nat_digits [of m] that by (auto simp: list_all_iff is_digit_def)
  then show ?thesis by (auto simp: units_def list_all_iff show_int_def)
qed

lemma units_join: "units sep \<Longrightarrow> (\<forall>w\<in>set ws. units w) \<Longrightarrow> units (join sep ws)"
  by (induction sep ws rule: join.induct) auto

end
