(* ===== verification/JsDate.thy ===== *)
theory JsDate
  imports JsString "HOL-Library.Monad_Syntax"
begin

text \<open>
  ECMAScript time values: milliseconds since 1970-01-01T00:00:00Z as an \<open>int\<close>, the day and
  year arithmetic of ECMA-262, \<open>Date.UTC\<close> with its two-digit-year rule and its time clip,
  the calendar fields of an instant, \<open>toISOString\<close>, and a parser for the date-time string
  format of the standard. The main results are the round trips between instants and calendar
  fields in both directions.
\<close>

subsection \<open>Days and years\<close>

definition ms_per_day :: int where "ms_per_day = 86400000"

definition leap :: "int \<Rightarrow> bool" where
  "leap y \<longleftrightarrow> y mod 4 = 0 \<and> (y mod 100 \<noteq> 0 \<or> y mod 400 = 0)"

definition day_from_year :: "int \<Rightarrow> int" where
  "day_from_year y = 365 * (y - 1970) + (y - 1969) div 4 - (y - 1901) div 100 + (y - 1601) div 400"

definition days_in_year :: "int \<Rightarrow> int" where
  "days_in_year y = (if leap y then 366 else 365)"

lemma div_step:
  assumes "0 < n"
  shows "(a + 1) div n = a div n + (if n dvd a + 1 then 1 else (0::int))"
proof (cases "n dvd a + 1")
  case True
  then have "a = n * ((a + 1) div n - 1) + (n - 1)"
    by (simp add: right_diff_distrib)
  then have "a div n = (a + 1) div n - 1"
    using assms by (intro int_div_pos_eq [of _ _ _ "n - 1"]) simp_all
  with True show ?thesis by simp
next
  case False
  then have r: "(a + 1) mod n \<noteq> 0" by (simp add: dvd_eq_mod_eq_0)
  have "a + 1 = n * ((a + 1) div n) + (a + 1) mod n" by simp
  then have "a = n * ((a + 1) div n) + ((a + 1) mod n - 1)" by linarith
  moreover have "0 \<le> (a + 1) mod n - 1" "(a + 1) mod n - 1 < n"
    using assms r pos_mod_sign [OF assms, of "a + 1"] pos_mod_bound [OF assms, of "a + 1"]
    by linarith+
  ultimately have "a div n = (a + 1) div n" by (rule int_div_pos_eq)
  with False show ?thesis by simp
qed

lemma dvd_shift: "(n::int) dvd c \<Longrightarrow> n dvd y - c \<longleftrightarrow> n dvd y"
  by (metis diff_add_cancel dvd_add_left_iff)

lemma leap_dvd: "leap y \<longleftrightarrow> 4 dvd y \<and> (\<not> 100 dvd y \<or> 400 dvd y)"
  by (simp add: leap_def dvd_eq_mod_eq_0)

lemma day_from_year_combine:
  fixes k A B C :: int
  assumes "A' = A + a" "B' = B + b" "C' = C + c"
  shows "365 * (k + 1) + A' - B' + C' = 365 * k + A - B + C + (365 + a - b + c)"
  using assms by simp

lemma days_in_year_dvd:
  "days_in_year y = 365 + (if 4 dvd y then 1 else 0) - (if 100 dvd y then 1 else 0)
     + (if 400 dvd y then 1 else 0)"
proof -
  have "400 dvd y \<Longrightarrow> 100 dvd y" by (rule dvd_trans [of 100 400 y]) simp_all
  moreover have "100 dvd y \<Longrightarrow> 4 dvd y" by (rule dvd_trans [of 4 100 y]) simp_all
  ultimately show ?thesis
    unfolding days_in_year_def leap_dvd by (simp only: split: if_split) (simp, meson)
qed

lemma day_from_year_Suc: "day_from_year (y + 1) = day_from_year y + days_in_year y"
proof -
  have e: "y - 1969 + 1 = y + 1 - 1969" "y - 1901 + 1 = y + 1 - 1901" "y - 1601 + 1 = y + 1 - 1601"
    by simp_all
  have d: "4 dvd y + 1 - 1969 \<longleftrightarrow> 4 dvd y" "100 dvd y + 1 - 1901 \<longleftrightarrow> 100 dvd y"
    "400 dvd y + 1 - 1601 \<longleftrightarrow> 400 dvd y"
    using dvd_shift [of 4 1968 y] dvd_shift [of 100 1900 y] dvd_shift [of 400 1600 y] by simp_all
  have "y + 1 - 1970 = y - 1970 + 1" by simp
  then show ?thesis
    unfolding day_from_year_def days_in_year_dvd
    using day_from_year_combine [OF div_step [of 4 "y - 1969"] div_step [of 100 "y - 1901"]
        div_step [of 400 "y - 1601"], of "y - 1970", unfolded e d]
    by (simp only: zero_less_numeral if_True simp_thms)
qed

lemma days_in_year_bounds: "365 \<le> days_in_year y" "days_in_year y \<le> 366"
  by (simp_all add: days_in_year_def)

lemma day_from_year_less: "day_from_year y < day_from_year (y + 1)"
  using days_in_year_bounds(1) [of y] by (simp add: day_from_year_Suc)

lemma day_from_year_add: "day_from_year y + 365 * int n \<le> day_from_year (y + int n)"
proof (induction n)
  case (Suc n)
  have "day_from_year (y + int n) + 365 \<le> day_from_year (y + int n + 1)"
    using days_in_year_bounds(1) by (simp add: day_from_year_Suc)
  with Suc show ?case by (simp add: algebra_simps)
qed simp

lemma day_from_year_mono: "x \<le> y \<Longrightarrow> day_from_year x \<le> day_from_year y"
  using day_from_year_add [of x "nat (y - x)"] by simp

lemma year_unique:
  assumes "day_from_year x \<le> d" "d < day_from_year (x + 1)"
    and "day_from_year y \<le> d" "d < day_from_year (y + 1)"
  shows "x = y"
proof (rule ccontr)
  assume "x \<noteq> y"
  then consider "x + 1 \<le> y" | "y + 1 \<le> x" by linarith
  then show False
    using assms day_from_year_mono by cases (meson not_le order_trans)+
qed

text \<open>
  The year of a day: from a year that does not start after the day, count up while the next
  year has started. \<open>year_start\<close> is close to the answer, so few steps are taken.
\<close>

definition year_start :: "int \<Rightarrow> int" where
  "year_start d = (if 0 \<le> d then 1970 + d div 366 else 1970 + d div 365 - 1)"

function year_up :: "int \<Rightarrow> int \<Rightarrow> int" where
  "year_up y d = (if day_from_year (y + 1) \<le> d then year_up (y + 1) d else y)"
  by pat_completeness auto
termination
proof (relation "measure (\<lambda>(y, d). nat (d - day_from_year y))")
  show "((y + 1, d), (y, d)) \<in> measure (\<lambda>(y, d). nat (d - day_from_year y))"
    if "day_from_year (y + 1) \<le> d" for y d
    using that day_from_year_less [of y] by simp
qed simp

declare year_up.simps [simp del]

definition year_of_day :: "int \<Rightarrow> int" where
  "year_of_day d = year_up (year_start d) d"

lemma year_up_correct:
  "day_from_year y \<le> d \<Longrightarrow>
     day_from_year (year_up y d) \<le> d \<and> d < day_from_year (year_up y d + 1)"
proof (induction y d rule: year_up.induct)
  case (1 y d)
  show ?case
  proof (cases "day_from_year (y + 1) \<le> d")
    case True
    with 1 show ?thesis by (subst (1 2) year_up.simps) simp
  next
    case False
    with 1 show ?thesis by (subst (1 2) year_up.simps) simp
  qed
qed

lemma day_from_year_1970: "day_from_year 1970 = 0"
  by (simp add: day_from_year_def)

lemma day_from_year_upper_nat: "day_from_year (1970 + int n) \<le> 366 * int n"
proof (induction n)
  case (Suc n)
  have "day_from_year (1970 + int n + 1) \<le> day_from_year (1970 + int n) + 366"
    unfolding day_from_year_Suc using days_in_year_bounds(2) by simp
  with Suc show ?case by (simp add: algebra_simps)
qed (simp add: day_from_year_1970)

lemma day_from_year_upper: "0 \<le> n \<Longrightarrow> day_from_year (1970 + n) \<le> 366 * n"
  using day_from_year_upper_nat [of "nat n"] by simp

lemma day_from_year_lower: "0 \<le> n \<Longrightarrow> day_from_year (1970 - n) \<le> - 365 * n"
  using day_from_year_add [of "1970 - n" "nat n"] by (simp add: day_from_year_1970)

lemma year_start_le: "day_from_year (year_start d) \<le> d"
proof (cases "0 \<le> d")
  case True
  then have "day_from_year (1970 + d div 366) \<le> 366 * (d div 366)"
    by (intro day_from_year_upper) (simp add: pos_imp_zdiv_nonneg_iff)
  moreover have "366 * (d div 366) \<le> d" by (simp add: mult_div_mod_eq [symmetric])
  ultimately show ?thesis using True by (simp add: year_start_def)
next
  case False
  then have "day_from_year (1970 - (1 - d div 365)) \<le> - 365 * (1 - d div 365)"
    by (intro day_from_year_lower) (simp add: neg_imp_zdiv_neg_iff)
  moreover have "- 365 * (1 - d div 365) \<le> d"
    using pos_mod_bound [of 365 d] mult_div_mod_eq [of 365 d] by simp
  moreover have "1970 - (1 - d div 365) = 1970 + d div 365 - 1" by simp
  ultimately show ?thesis using False by (simp only: year_start_def if_False)
qed

lemma year_of_day_correct:
  "day_from_year (year_of_day d) \<le> d" "d < day_from_year (year_of_day d + 1)"
  using year_up_correct [OF year_start_le] by (simp_all add: year_of_day_def)

lemma year_of_day_unique:
  "day_from_year y \<le> d \<Longrightarrow> d < day_from_year (y + 1) \<Longrightarrow> year_of_day d = y"
  using year_unique year_of_day_correct by blast

subsection \<open>Months and fields\<close>

text \<open>Days before a month (0-based) in a year, and the month of a day of the year.\<close>

definition month_start :: "bool \<Rightarrow> int \<Rightarrow> int" where
  "month_start lp m =
    (let k = (if lp then 1 else 0) in
     if m \<le> 0 then 0 else if m = 1 then 31 else if m = 2 then 59 + k else if m = 3 then 90 + k
     else if m = 4 then 120 + k else if m = 5 then 151 + k else if m = 6 then 181 + k
     else if m = 7 then 212 + k else if m = 8 then 243 + k else if m = 9 then 273 + k
     else if m = 10 then 304 + k else if m = 11 then 334 + k else 365 + k)"

definition month_of_day :: "bool \<Rightarrow> int \<Rightarrow> int" where
  "month_of_day lp d =
    (if d < month_start lp 1 then 0 else if d < month_start lp 2 then 1
     else if d < month_start lp 3 then 2 else if d < month_start lp 4 then 3
     else if d < month_start lp 5 then 4 else if d < month_start lp 6 then 5
     else if d < month_start lp 7 then 6 else if d < month_start lp 8 then 7
     else if d < month_start lp 9 then 8 else if d < month_start lp 10 then 9
     else if d < month_start lp 11 then 10 else 11)"

definition days_in_month :: "bool \<Rightarrow> int \<Rightarrow> int" where
  "days_in_month lp m = month_start lp (m + 1) - month_start lp m"

record fields =
  f_year :: int
  f_month :: int   \<comment> \<open>1 to 12\<close>
  f_day :: int
  f_hour :: int
  f_minute :: int
  f_second :: int
  f_ms :: int

lemma fields_eta [simp]:
  "\<lparr>f_year = f_year f, f_month = f_month f, f_day = f_day f, f_hour = f_hour f,
    f_minute = f_minute f, f_second = f_second f, f_ms = f_ms f\<rparr> = f"
  by simp

definition valid_fields :: "fields \<Rightarrow> bool" where
  "valid_fields f \<longleftrightarrow>
     1 \<le> f_month f \<and> f_month f \<le> 12
     \<and> 1 \<le> f_day f \<and> f_day f \<le> days_in_month (leap (f_year f)) (f_month f - 1)
     \<and> 0 \<le> f_hour f \<and> f_hour f \<le> 23 \<and> 0 \<le> f_minute f \<and> f_minute f \<le> 59
     \<and> 0 \<le> f_second f \<and> f_second f \<le> 59 \<and> 0 \<le> f_ms f \<and> f_ms f \<le> 999"

text \<open>MakeDay, MakeTime and MakeDate of ECMA-262, the month 0-based and any integer.\<close>

definition make_day :: "int \<Rightarrow> int \<Rightarrow> int \<Rightarrow> int" where
  "make_day y m d =
    (let ym = y + m div 12; mn = m mod 12
     in day_from_year ym + month_start (leap ym) mn + d - 1)"

definition make_time :: "int \<Rightarrow> int \<Rightarrow> int \<Rightarrow> int \<Rightarrow> int" where
  "make_time h mi s ms = h * 3600000 + mi * 60000 + s * 1000 + ms"

definition time_clip :: "int \<Rightarrow> int option" where
  "time_clip t = (if \<bar>t\<bar> \<le> 8640000000000000 then Some t else None)"

definition make_date :: "fields \<Rightarrow> int" where
  "make_date f =
     make_day (f_year f) (f_month f - 1) (f_day f) * ms_per_day
     + make_time (f_hour f) (f_minute f) (f_second f) (f_ms f)"

text \<open>\<open>Date.UTC\<close>: a year from 0 to 99 means 1900 to 1999; \<open>None\<close> is NaN.\<close>

definition full_year :: "int \<Rightarrow> int" where
  "full_year y = (if 0 \<le> y \<and> y \<le> 99 then 1900 + y else y)"

definition date_utc :: "fields \<Rightarrow> int option" where
  "date_utc f = time_clip (make_date (f\<lparr>f_year := full_year (f_year f)\<rparr>))"

definition time_in_day :: "int \<Rightarrow> int" where "time_in_day t = t mod ms_per_day"

definition fields_of :: "int \<Rightarrow> fields" where
  "fields_of t =
    (let d = t div ms_per_day; r = t mod ms_per_day; y = year_of_day d;
         doy = d - day_from_year y; lp = leap y; m = month_of_day lp doy
     in \<lparr>f_year = y, f_month = m + 1, f_day = doy - month_start lp m + 1,
         f_hour = r div 3600000, f_minute = r div 60000 mod 60,
         f_second = r div 1000 mod 60, f_ms = r mod 1000\<rparr>)"

lemma month_of_day_bounds: "0 \<le> month_of_day lp d \<and> month_of_day lp d \<le> 11"
  by (simp add: month_of_day_def)

lemma month_start_simps [simp]:
  "month_start lp 0 = 0" "month_start lp 1 = 31" "month_start lp 2 = 59 + of_bool lp"
  "month_start lp 3 = 90 + of_bool lp" "month_start lp 4 = 120 + of_bool lp"
  "month_start lp 5 = 151 + of_bool lp" "month_start lp 6 = 181 + of_bool lp"
  "month_start lp 7 = 212 + of_bool lp" "month_start lp 8 = 243 + of_bool lp"
  "month_start lp 9 = 273 + of_bool lp" "month_start lp 10 = 304 + of_bool lp"
  "month_start lp 11 = 334 + of_bool lp" "month_start lp 12 = 365 + of_bool lp"
  by (simp_all add: month_start_def of_bool_def)

lemma month_of_day_correct:
  assumes "0 \<le> d" "d < (if lp then 366 else 365)"
  shows "month_start lp (month_of_day lp d) \<le> d" "d < month_start lp (month_of_day lp d + 1)"
  using assms unfolding month_of_day_def by (cases lp; simp split: if_split)+

lemma month_cases:
  assumes "0 \<le> m" "m \<le> (11::int)"
  obtains "m = 0" | "m = 1" | "m = 2" | "m = 3" | "m = 4" | "m = 5" | "m = 6" | "m = 7" | "m = 8"
    | "m = 9" | "m = 10" | "m = 11"
proof -
  have "m = 0 \<or> m = 1 \<or> m = 2 \<or> m = 3 \<or> m = 4 \<or> m = 5 \<or> m = 6 \<or> m = 7 \<or> m = 8
      \<or> m = 9 \<or> m = 10 \<or> m = 11"
    using assms by presburger
  then show thesis using that by blast
qed

lemma month_of_day_unique:
  assumes "0 \<le> m" "m \<le> 11" "month_start lp m \<le> d" "d < month_start lp (m + 1)"
  shows "month_of_day lp d = m"
  using assms
  by (cases m rule: month_cases; cases lp) (simp_all add: month_of_day_def)

lemma month_start_end_le: "0 \<le> m \<Longrightarrow> m \<le> 11 \<Longrightarrow> month_start lp (m + 1) \<le> (if lp then 366 else 365)"
  by (cases m rule: month_cases) simp_all

lemma month_start_nonneg: "0 \<le> month_start lp m"
  by (simp add: month_start_def Let_def)

lemma doy_bounds:
  assumes "y = year_of_day d"
  shows "0 \<le> d - day_from_year y" "d - day_from_year y < (if leap y then 366 else 365)"
  using year_of_day_correct [of d] assms by (auto simp: day_from_year_Suc days_in_year_def)

lemma make_time_split:
  assumes "0 \<le> (r::int)"
  shows "make_time (r div 3600000) (r div 60000 mod 60) (r div 1000 mod 60) (r mod 1000) = r"
proof -
  have "r = 1000 * (r div 1000) + r mod 1000" by simp
  moreover have "r div 1000 = 60 * (r div 1000 div 60) + r div 1000 mod 60" by simp
  moreover have "r div 60000 = 60 * (r div 60000 div 60) + r div 60000 mod 60" by simp
  moreover have "r div 1000 div 60 = r div 60000" "r div 60000 div 60 = r div 3600000"
    by (simp_all add: zdiv_zmult2_eq [symmetric])
  ultimately show ?thesis unfolding make_time_def by linarith
qed

theorem make_date_fields_of: "make_date (fields_of t) = t"
proof -
  define d where "d = t div ms_per_day"
  define y where "y = year_of_day d"
  define m where "m = month_of_day (leap y) (d - day_from_year y)"
  have m: "0 \<le> m" "m \<le> 11" using month_of_day_bounds by (simp_all add: m_def)
  then have "m div 12 = 0" "m mod 12 = m" by simp_all
  then have "make_day y m (d - day_from_year y - month_start (leap y) m + 1) = d"
    by (simp add: make_day_def)
  moreover have "0 \<le> t mod ms_per_day" by (simp add: ms_per_day_def)
  ultimately show ?thesis
    unfolding make_date_def fields_of_def Let_def d_def [symmetric] y_def [symmetric] m_def [symmetric]
    using mult_div_mod_eq [of ms_per_day t] by (simp add: make_time_split d_def mult.commute)
qed

lemma valid_fieldsI:
  assumes "0 \<le> m" "m \<le> 11" "month_start (leap y) m \<le> d" "d < month_start (leap y) (m + 1)"
    and "0 \<le> h" "h \<le> 23" "0 \<le> mi" "mi \<le> 59" "0 \<le> s" "s \<le> 59" "0 \<le> ms" "ms \<le> 999"
  shows "valid_fields \<lparr>f_year = y, f_month = m + 1, f_day = d - month_start (leap y) m + 1,
    f_hour = h, f_minute = mi, f_second = s, f_ms = ms\<rparr>"
  using assms by (simp add: valid_fields_def days_in_month_def)

lemma valid_fields_of: "valid_fields (fields_of t)"
proof -
  define d where "d = t div ms_per_day"
  define y where "y = year_of_day d"
  define r where "r = t mod ms_per_day"
  have r: "0 \<le> r" "r < 86400000" by (simp_all add: r_def ms_per_day_def)
  have doy: "0 \<le> d - day_from_year y" "d - day_from_year y < (if leap y then 366 else 365)"
    using doy_bounds [of y d] y_def by auto
  have "0 \<le> r div 3600000" using r(1) by (simp add: pos_imp_zdiv_nonneg_iff)
  moreover have "r div 3600000 \<le> 23" using r(2) by linarith
  moreover have "0 \<le> k mod 60" "k mod 60 \<le> 59" for k :: int
    using pos_mod_bound [of 60 k] by simp_all
  moreover have "0 \<le> r mod 1000" "r mod 1000 \<le> 999" using pos_mod_bound [of 1000 r] by simp_all
  ultimately show ?thesis
    unfolding fields_of_def Let_def d_def [symmetric] y_def [symmetric] r_def [symmetric]
    using month_of_day_bounds month_of_day_correct [OF doy] by (intro valid_fieldsI) blast+
qed

text \<open>The other direction: the fields of the instant that a valid set of fields denotes.\<close>

lemma make_time_bounds:
  assumes "valid_fields f"
  shows "0 \<le> make_time (f_hour f) (f_minute f) (f_second f) (f_ms f)"
    "make_time (f_hour f) (f_minute f) (f_second f) (f_ms f) < ms_per_day"
  using assms by (simp_all add: valid_fields_def make_time_def ms_per_day_def)

lemma make_time_fields:
  assumes "0 \<le> h" "0 \<le> mi" "mi \<le> 59" "0 \<le> s" "s \<le> 59" "0 \<le> ms" "ms \<le> 999"
  defines "r \<equiv> make_time h mi s ms"
  shows "r div 3600000 = h" "r div 60000 mod 60 = mi" "r div 1000 mod 60 = s" "r mod 1000 = ms"
proof -
  have e: "r = 3600000 * h + (mi * 60000 + s * 1000 + ms)" by (simp add: r_def make_time_def)
  show "r div 3600000 = h" using int_div_pos_eq [OF e] assms(1-7) by simp
  have e: "r = 60000 * (60 * h + mi) + (s * 1000 + ms)" by (simp add: r_def make_time_def)
  have "r div 60000 = 60 * h + mi" using int_div_pos_eq [OF e] assms(1-7) by simp
  then show "r div 60000 mod 60 = mi" using assms by simp
  have e: "r = 1000 * (60 * (60 * h + mi) + s) + ms" by (simp add: r_def make_time_def)
  have "r div 1000 = 60 * (60 * h + mi) + s" "r mod 1000 = ms"
    using int_div_pos_eq [OF e] int_mod_pos_eq [OF e] assms(1-7) by simp_all
  moreover have "(60 * (60 * h + mi) + s) mod 60 = s"
    using assms(4,5) by (intro int_mod_pos_eq [of _ _ "60 * h + mi"]) simp_all
  ultimately show "r div 1000 mod 60 = s" "r mod 1000 = ms" by simp_all
qed

theorem fields_of_make_date:
  assumes v: "valid_fields f"
  shows "fields_of (make_date f) = f"
proof -
  define y where "y = f_year f"
  define m where "m = f_month f - 1"
  define doy where "doy = month_start (leap y) m + f_day f - 1"
  define r where "r = make_time (f_hour f) (f_minute f) (f_second f) (f_ms f)"
  have m: "0 \<le> m" "m \<le> 11" using v by (simp_all add: m_def valid_fields_def)
  have doy: "month_start (leap y) m \<le> doy" "doy < month_start (leap y) (m + 1)"
    using v by (simp_all add: doy_def m_def y_def valid_fields_def days_in_month_def)
  have d0: "make_day y m (f_day f) = day_from_year y + doy"
    using m by (simp add: make_day_def doy_def)
  have r: "0 \<le> r" "r < ms_per_day" using make_time_bounds [OF v] by (simp_all add: r_def)
  have t: "make_date f = ms_per_day * (day_from_year y + doy) + r"
    using d0 by (simp add: make_date_def y_def m_def r_def)
  have td: "make_date f div ms_per_day = day_from_year y + doy" and tr: "make_date f mod ms_per_day = r"
    using int_div_pos_eq [OF t r] int_mod_pos_eq [OF t r] by simp_all
  have yr: "year_of_day (day_from_year y + doy) = y"
    using doy month_start_nonneg [of "leap y" m] month_start_end_le [OF m, of "leap y"]
    by (intro year_of_day_unique) (auto simp: day_from_year_Suc days_in_year_def split: if_splits)
  have mm: "month_of_day (leap y) doy = m"
    by (rule month_of_day_unique [OF m doy])
  have "r div 3600000 = f_hour f" "r div 60000 mod 60 = f_minute f" "r div 1000 mod 60 = f_second f"
    "r mod 1000 = f_ms f"
    unfolding r_def using v by (simp_all add: valid_fields_def make_time_fields)
  then show ?thesis
    unfolding fields_of_def Let_def td tr yr
    by (simp add: mm) (simp add: doy_def m_def y_def)
qed

subsection \<open>Text forms\<close>

text \<open>Zero-padded decimal numbers of a fixed width, and reading one back.\<close>

definition digits_w :: "nat \<Rightarrow> int \<Rightarrow> jstr" where
  "digits_w w n = pad_start w 48 (show_nat (nat n))"

definition take_digits :: "nat \<Rightarrow> jstr \<Rightarrow> (int \<times> jstr) option" where
  "take_digits w s =
    (if length (take w s) = w \<and> list_all is_digit (take w s)
     then Some (int (digits_val (take w s)), drop w s) else None)"

fun expect :: "nat \<Rightarrow> jstr \<Rightarrow> jstr option" where
  "expect c [] = None"
| "expect c (d # s) = (if d = c then Some s else None)"

lemma foldl_zeros [simp]: "foldl (\<lambda>n c. 10 * n + digit_val c) 0 (replicate k 48) = 0"
  by (induction k) (simp_all add: digit_val_def)

lemma take_digits_digits_w:
  assumes "0 < w" "0 \<le> n" "n < 10 ^ w"
  shows "take_digits w (digits_w w n @ s) = Some (n, s)"
proof -
  have "nat n < 10 ^ w" using assms by (simp add: nat_less_iff)
  then have "length (show_nat (nat n)) \<le> w" using assms length_show_nat by blast
  moreover have "list_all is_digit (replicate k 48)" for k by (simp add: list_all_iff is_digit_def)
  ultimately show ?thesis
    using assms show_nat_digits [of "nat n"] digits_val_show_nat [of "nat n"]
    by (simp add: take_digits_def digits_w_def pad_start_def digits_val_def)
qed

lemma take_digits_2 [simp]: "0 \<le> n \<Longrightarrow> n \<le> 99 \<Longrightarrow> take_digits 2 (digits_w 2 n @ s) = Some (n, s)"
  and take_digits_3 [simp]: "0 \<le> n \<Longrightarrow> n \<le> 999 \<Longrightarrow> take_digits 3 (digits_w 3 n @ s) = Some (n, s)"
  and take_digits_4 [simp]: "0 \<le> n \<Longrightarrow> n \<le> 9999 \<Longrightarrow> take_digits 4 (digits_w 4 n @ s) = Some (n, s)"
  by (simp_all add: take_digits_digits_w)

text \<open>\<open>toISOString\<close>: four year digits from 0 to 9999, else a sign and six.\<close>

definition year_text :: "int \<Rightarrow> jstr" where
  "year_text y =
    (if 0 \<le> y \<and> y \<le> 9999 then digits_w 4 y
     else if y < 0 then 45 # digits_w 6 (- y) else 43 # digits_w 6 y)"

definition date_text :: "fields \<Rightarrow> jstr" where
  "date_text f = year_text (f_year f) @ [45] @ digits_w 2 (f_month f) @ [45] @ digits_w 2 (f_day f)"

definition hms_text :: "fields \<Rightarrow> jstr" where
  "hms_text f =
     digits_w 2 (f_hour f) @ [58] @ digits_w 2 (f_minute f) @ [58] @ digits_w 2 (f_second f)"

definition iso_string :: "int \<Rightarrow> jstr" where
  "iso_string t =
    (let f = fields_of t
     in date_text f @ [84] @ hms_text f @ [46] @ digits_w 3 (f_ms f) @ [90])"

text \<open>
  A parser for the date-time string format of ECMA-262 with four year digits: a date, or a date
  and time with a UTC offset. It stands for \<open>Date.parse\<close> in the witnesses; what
  \<open>Date.parse\<close> does with other texts is left to the implementation by the standard.
\<close>

definition parse_zone :: "jstr \<Rightarrow> int option" where
  "parse_zone s =
    (if s = [90] then Some 0
     else case s of
        [] \<Rightarrow> None
      | sg # r \<Rightarrow>
          do { (h, r) \<leftarrow> take_digits 2 r; r \<leftarrow> expect 58 r; (m, r) \<leftarrow> take_digits 2 r;
               if r = [] \<and> (sg = 43 \<or> sg = 45) \<and> h \<le> 23 \<and> m \<le> 59
               then Some ((if sg = 45 then -1 else 1) * (h * 60 + m) * 60000) else None })"

definition parse_secs :: "jstr \<Rightarrow> (int \<times> int \<times> jstr) option" where
  "parse_secs r =
    do { (s, r) \<leftarrow> take_digits 2 r;
         case expect 46 r of
           None \<Rightarrow> Some (s, 0, r)
         | Some r \<Rightarrow> do { (ms, r) \<leftarrow> take_digits 3 r; Some (s, ms, r) } }"

definition ecma_parse :: "jstr \<Rightarrow> int option" where
  "ecma_parse r =
    do { (y, r) \<leftarrow> take_digits 4 r; r \<leftarrow> expect 45 r; (mo, r) \<leftarrow> take_digits 2 r; r \<leftarrow> expect 45 r;
         (d, r) \<leftarrow> take_digits 2 r;
         (h, mi, s, ms, off) \<leftarrow>
           (if r = [] then Some (0, 0, 0, 0, 0)
            else do { r \<leftarrow> expect 84 r; (h, r) \<leftarrow> take_digits 2 r; r \<leftarrow> expect 58 r;
                      (mi, r) \<leftarrow> take_digits 2 r; r \<leftarrow> expect 58 r; (s, ms, r) \<leftarrow> parse_secs r;
                      off \<leftarrow> parse_zone r; Some (h, mi, s, ms, off) });
         let f = \<lparr>f_year = y, f_month = mo, f_day = d, f_hour = h, f_minute = mi, f_second = s, f_ms = ms\<rparr>
         in if valid_fields f then time_clip (make_date f - off) else None }"

lemma valid_fields_two_digits:
  assumes "valid_fields f"
  shows "0 \<le> f_month f" "f_month f \<le> 99" "0 \<le> f_day f" "f_day f \<le> 99" "0 \<le> f_hour f" "f_hour f \<le> 99"
    "0 \<le> f_minute f" "f_minute f \<le> 99" "0 \<le> f_second f" "f_second f \<le> 99" "0 \<le> f_ms f" "f_ms f \<le> 999"
proof -
  have "days_in_month lp m \<le> 99" if "0 \<le> m" "m \<le> 11" for lp m
    using that by (cases m rule: month_cases) (simp_all add: days_in_month_def)
  from this [of "f_month f - 1" "leap (f_year f)"] assms show "f_day f \<le> 99"
    by (simp add: valid_fields_def)
qed (use assms in \<open>simp_all add: valid_fields_def\<close>)

theorem ecma_parse_iso_string:
  assumes "0 \<le> f_year (fields_of t)" "f_year (fields_of t) \<le> 9999" "\<bar>t\<bar> \<le> 8640000000000000"
  shows "ecma_parse (iso_string t) = Some t"
  using assms valid_fields_two_digits [OF valid_fields_of [of t]] valid_fields_of [of t]
  by (simp add: iso_string_def date_text_def hms_text_def year_text_def Let_def ecma_parse_def
      parse_secs_def parse_zone_def time_clip_def make_date_fields_of)

end
