(* ===== verification/EstateTime.thy ===== *)
theory EstateTime
  imports JsDate JsValue
begin

text \<open>
  Model of \<^verbatim>\<open>src/src/datetime.ts\<close>: wall-clock texts of portal forms resolved in the
  estate's IANA time zone. What the host supplies is a record of parameters: the zone database
  behind \<open>Intl.DateTimeFormat\<close> (which names exist, the wall clock of an instant, the
  en-GB rendering) and \<open>Date.parse\<close>, whose answer on free text the standard leaves open.
\<close>

record platform =
  tz_known :: "jstr \<Rightarrow> bool"
  wall_clock :: "jstr \<Rightarrow> int \<Rightarrow> fields"
  render_medium :: "jstr \<Rightarrow> int \<Rightarrow> jstr"
  date_parse :: "jstr \<Rightarrow> int option"

datatype boundary = Start | End

definition default_estate_timezone :: jstr where
  "default_estate_timezone = js ''Africa/Lagos''"

definition is_valid_time_zone :: "platform \<Rightarrow> jval \<Rightarrow> bool" where
  "is_valid_time_zone P tz =
    (case tz of Str s \<Rightarrow> trim s \<noteq> [] \<and> tz_known P (trim s) | _ \<Rightarrow> False)"

definition normalize_time_zone :: "platform \<Rightarrow> jval \<Rightarrow> jstr" where
  "normalize_time_zone P tz =
    (if is_valid_time_zone P tz then trim (to_string tz) else default_estate_timezone)"

subsection \<open>Offsets and wall time\<close>

definition zone_offset_ms :: "platform \<Rightarrow> int \<Rightarrow> jstr \<Rightarrow> int option" where
  "zone_offset_ms P t tz =
    (case date_utc (wall_clock P tz t) of
       None \<Rightarrow> None
     | Some as_utc \<Rightarrow> Some (as_utc - t div 1000 * 1000))"

definition wall_time_to_instant_ms :: "platform \<Rightarrow> fields \<Rightarrow> jstr \<Rightarrow> int option" where
  "wall_time_to_instant_ms P wall tz =
    do { as_if_utc \<leftarrow> date_utc wall;
         o1 \<leftarrow> zone_offset_ms P as_if_utc tz;
         o2 \<leftarrow> zone_offset_ms P (as_if_utc - o1) tz;
         Some (as_if_utc - o2) }"

subsection \<open>The accepted shapes\<close>

text \<open>The capture groups of \<open>NAIVE_PATTERN\<close>.\<close>

record naive =
  n_year :: jstr
  n_month :: jstr
  n_day :: jstr
  n_time :: "(jstr \<times> jstr) option"
  n_second :: "jstr option"
  n_fraction :: "jstr option"
  n_offset :: "jstr option"

definition take_n :: "nat \<Rightarrow> jstr \<Rightarrow> (jstr \<times> jstr) option" where
  "take_n n s =
    (if length (take n s) = n \<and> list_all is_digit (take n s) then Some (take n s, drop n s) else None)"

text \<open>Optional seconds \<open>(?::(\d{2}))?\<close> and fraction \<open>(?:[.,](\d{1,9}))?\<close>.\<close>

definition match_seconds :: "jstr \<Rightarrow> jstr option \<times> jstr" where
  "match_seconds s =
    (case do { r \<leftarrow> expect 58 s; take_n 2 r } of None \<Rightarrow> (None, s) | Some (d, r) \<Rightarrow> (Some d, r))"

definition match_fraction :: "jstr \<Rightarrow> jstr option \<times> jstr" where
  "match_fraction s =
    (case s of
       [] \<Rightarrow> (None, s)
     | c # r \<Rightarrow>
         let ds = take 9 (takeWhile is_digit r)
         in if (c = 46 \<or> c = 44) \<and> ds \<noteq> [] then (Some ds, drop (length ds) r) else (None, s))"

definition match_time :: "jstr \<Rightarrow> ((jstr \<times> jstr) \<times> jstr option \<times> jstr option \<times> jstr) option" where
  "match_time s =
    (case s of
       [] \<Rightarrow> None
     | c # r \<Rightarrow>
         if c = 84 \<or> c = 116 \<or> is_ws c then
           do { (h, r) \<leftarrow> take_n 2 r; r \<leftarrow> expect 58 r; (m, r) \<leftarrow> take_n 2 r;
                let (sec, r) = match_seconds r; (frac, r) = match_fraction r
                in Some ((h, m), sec, frac, r) }
         else None)"

definition match_zone :: "jstr \<Rightarrow> jstr option option" where
  "match_zone s =
    (case s of
       [] \<Rightarrow> Some None
     | c # r \<Rightarrow>
         if r = [] \<and> (c = 90 \<or> c = 122) then Some (Some s)
         else if c = 43 \<or> c = 45 then
           (case take_n 2 r of
              None \<Rightarrow> None
            | Some (h, r) \<Rightarrow>
                (case take_n 2 (case expect 58 r of None \<Rightarrow> r | Some r' \<Rightarrow> r') of
                   None \<Rightarrow> None
                 | Some (m, r) \<Rightarrow> if r = [] then Some (Some s) else None))
         else None)"

definition match_naive :: "jstr \<Rightarrow> naive option" where
  "match_naive s =
    do { (y, r) \<leftarrow> take_n 4 s; r \<leftarrow> expect 45 r; (mo, r) \<leftarrow> take_n 2 r; r \<leftarrow> expect 45 r;
         (d, r) \<leftarrow> take_n 2 r;
         let (tm, sec, frac, r) =
           (case match_time r of
              None \<Rightarrow> (None, None, None, r)
            | Some (hm, sec, frac, r) \<Rightarrow> (Some hm, sec, frac, r));
         off \<leftarrow> match_zone (dropWhile is_ws r);
         Some \<lparr>n_year = y, n_month = mo, n_day = d, n_time = tm, n_second = sec,
               n_fraction = frac, n_offset = off\<rparr> }"

subsection \<open>Resolving a value\<close>

definition num :: "jstr \<Rightarrow> int" where
  "num s = int (digits_val s)"

definition wall_of_naive :: "naive \<Rightarrow> boundary \<Rightarrow> fields" where
  "wall_of_naive m b =
    (let e = (b = End) in
     \<lparr>f_year = num (n_year m), f_month = num (n_month m), f_day = num (n_day m),
      f_hour = (case n_time m of Some (h, _) \<Rightarrow> num h | None \<Rightarrow> if e then 23 else 0),
      f_minute = (case n_time m of Some (_, mi) \<Rightarrow> num mi | None \<Rightarrow> if e then 59 else 0),
      f_second = (case n_time m of Some _ \<Rightarrow> num (coalesce (n_second m) (js ''0''))
                  | None \<Rightarrow> if e then 59 else 0),
      f_ms = (case n_time m of
                Some _ \<Rightarrow> num (slice_to 3 (coalesce (n_fraction m) (js ''0'') @ js ''00''))
              | None \<Rightarrow> if e then 999 else 0)\<rparr>)"

definition offset_with_colon :: "jstr \<Rightarrow> jstr" where
  "offset_with_colon off =
    (if upper off = js ''Z'' then js ''Z''
     else take 3 off @ js '':'' @
       (let r = drop 3 off in case r of [] \<Rightarrow> [] | c # r' \<Rightarrow> if c = 58 then r' else r))"

definition absolute_text :: "naive \<Rightarrow> jstr \<Rightarrow> jstr" where
  "absolute_text m off =
     n_year m @ js ''-'' @ n_month m @ js ''-'' @ n_day m @ js ''T''
     @ (case n_time m of Some (h, _) \<Rightarrow> h | None \<Rightarrow> js ''00'') @ js '':''
     @ (case n_time m of Some (_, mi) \<Rightarrow> mi | None \<Rightarrow> js ''00'') @ js '':''
     @ coalesce (n_second m) (js ''00'') @ offset_with_colon off"

definition parse_estate_instant_ms :: "platform \<Rightarrow> jval \<Rightarrow> jstr \<Rightarrow> boundary \<Rightarrow> int option" where
  "parse_estate_instant_ms P value tz b =
    (if nullish value then None
     else let text = trim (to_string value) in
       if text = [] then None
       else case match_naive text of
         Some m \<Rightarrow>
           (case n_offset m of
              Some off \<Rightarrow> date_parse P (absolute_text m off)
            | None \<Rightarrow> wall_time_to_instant_ms P (wall_of_naive m b) (normalize_time_zone P (Str tz)))
       | None \<Rightarrow> date_parse P text)"

text \<open>A number is rendered as an instant, NaN (the one non-integer considered) by \<open>String\<close>.\<close>

definition format_estate_date_time :: "platform \<Rightarrow> jval \<Rightarrow> jstr \<Rightarrow> jstr" where
  "format_estate_date_time P value tz =
    (case (case value of Num n \<Rightarrow> Some n | NumText _ \<Rightarrow> None
           | _ \<Rightarrow> parse_estate_instant_ms P value tz Start) of
       None \<Rightarrow> (if nullish value then [8212] else to_string value)
     | Some ms \<Rightarrow> render_medium P (normalize_time_zone P (Str tz)) ms)"

subsection \<open>A zone database described by offsets\<close>

text \<open>
  Instants from year 100 to year 9999: below 100 \<open>Date.UTC\<close> reads a year as 19xx.
\<close>

definition civil :: "int \<Rightarrow> bool" where
  "civil x \<longleftrightarrow> -59011459200000 \<le> x \<and> x < 253402300800000"

lemma civil_year:
  assumes "civil x"
  shows "100 \<le> f_year (fields_of x)" "f_year (fields_of x) \<le> 9999"
proof -
  let ?d = "x div ms_per_day"
  have d: "day_from_year 100 \<le> ?d" "?d < day_from_year 10000"
    using assms by (simp_all add: civil_def ms_per_day_def day_from_year_def, linarith+)
  have y: "f_year (fields_of x) = year_of_day ?d" by (simp add: fields_of_def Let_def)
  show "100 \<le> f_year (fields_of x)"
    using year_of_day_correct(2) [of ?d] day_from_year_mono [of "year_of_day ?d + 1" 100] d y
    by (smt (verit))
  show "f_year (fields_of x) \<le> 9999"
    using year_of_day_correct(1) [of ?d] day_from_year_mono [of 10000 "year_of_day ?d"] d y
    by (smt (verit))
qed

lemma time_clip_civil: "civil x \<Longrightarrow> time_clip x = Some x"
  by (auto simp: civil_def time_clip_def abs_le_iff)

lemma ecma_parse_civil [simp]:
  assumes "civil x"
  shows "ecma_parse (iso_string x) = Some x"
proof -
  have "\<bar>x\<bar> \<le> 8640000000000000" using assms by (simp add: civil_def abs_le_iff)
  then show ?thesis using civil_year [OF assms] by (intro ecma_parse_iso_string) simp_all
qed

lemma full_year_civil: "100 \<le> y \<Longrightarrow> full_year y = y"
  by (simp add: full_year_def)

lemma date_utc_fields_of: "civil x \<Longrightarrow> date_utc (fields_of x) = Some x"
  using civil_year(1) [of x]
  by (simp add: date_utc_def full_year_civil make_date_fields_of time_clip_civil)

lemma make_date_ms: "make_date (f\<lparr>f_ms := k\<rparr>) = make_date f - f_ms f + k"
  by (simp add: make_date_def make_time_def)

lemma f_ms_fields_of: "f_ms (fields_of x) = x mod 1000"
proof -
  have "x mod ms_per_day mod 1000 = x mod 1000"
    unfolding ms_per_day_def by (rule mod_mod_cancel) simp
  then show ?thesis by (simp add: fields_of_def Let_def)
qed

lemma date_utc_whole_second:
  assumes "civil x"
  shows "date_utc ((fields_of x)\<lparr>f_ms := 0\<rparr>) = Some (x div 1000 * 1000)"
proof -
  have "make_date ((fields_of x)\<lparr>f_ms := 0\<rparr>) = x div 1000 * 1000"
    using minus_mod_eq_div_mult [of x 1000]
    by (simp add: make_date_ms make_date_fields_of f_ms_fields_of)
  moreover have "civil (x div 1000 * 1000)"
    using assms by (auto simp: civil_def)
  ultimately show ?thesis
    using civil_year(1) [OF assms] by (simp add: date_utc_def full_year_civil time_clip_civil)
qed

text \<open>
  What \<open>Intl\<close> documents for a zone: the wall clock of an instant, to the second, is the
  calendar of the instant shifted by the zone's offset, which is a whole number of seconds of at
  most a day.
\<close>

definition zone_db :: "platform \<Rightarrow> jstr \<Rightarrow> (int \<Rightarrow> int) \<Rightarrow> bool" where
  "zone_db P tz off \<longleftrightarrow>
     (\<forall>t. civil (t + off t) \<longrightarrow> wall_clock P tz t = (fields_of (t + off t))\<lparr>f_ms := 0\<rparr>)
     \<and> (\<forall>t. off t mod 1000 = 0 \<and> \<bar>off t\<bar> \<le> ms_per_day)"

lemma shift_whole_seconds: "b mod 1000 = 0 \<Longrightarrow> (a + b) div 1000 * 1000 = a div 1000 * 1000 + (b::int)"
proof -
  assume "b mod 1000 = 0"
  then have b: "b = b div 1000 * 1000" using div_mult_mod_eq [of b 1000] by simp
  have "(a + b div 1000 * 1000) div 1000 = a div 1000 + b div 1000"
    by (simp only: div_mult_self1 zero_neq_numeral not_False_eq_True add.commute)
  then show ?thesis using b by (metis distrib_right)
qed

lemma zone_offset_eq:
  assumes "zone_db P tz off" "civil (t + off t)"
  shows "zone_offset_ms P t tz = Some (off t)"
  using assms by (simp add: zone_db_def zone_offset_ms_def date_utc_whole_second shift_whole_seconds)

text \<open>Fields whose instant stays in range whatever the zone.\<close>

definition estate_fields :: "fields \<Rightarrow> bool" where
  "estate_fields f \<longleftrightarrow> valid_fields f \<and> 1000 \<le> f_year f \<and> f_year f \<le> 9000"

lemma estate_fields_range:
  assumes "estate_fields f"
  shows "-30610224000000 \<le> make_date f" "make_date f < 221876928000000"
proof -
  have v: "valid_fields f" and y: "1000 \<le> f_year f" "f_year f \<le> 9000"
    using assms by (simp_all add: estate_fields_def)
  have e: "f_year (fields_of (make_date f)) = f_year f" by (simp add: fields_of_make_date v)
  let ?d = "make_date f div ms_per_day"
  have yd: "year_of_day ?d = f_year f" using e by (simp add: fields_of_def Let_def)
  have "day_from_year 1000 \<le> ?d"
    using year_of_day_correct(1) [of ?d] day_from_year_mono [OF y(1)] yd by simp
  moreover have "?d < day_from_year 9001"
    using year_of_day_correct(2) [of ?d] day_from_year_mono [of "f_year f + 1" 9001] y yd by simp
  ultimately have "-354285 \<le> ?d" "?d < 2568020" by (simp_all add: day_from_year_def)
  then show "-30610224000000 \<le> make_date f" "make_date f < 221876928000000"
    unfolding ms_per_day_def by linarith+
qed

lemma wall_time_two_samples:
  assumes z: "zone_db P tz off" and f: "estate_fields f"
  defines "w \<equiv> make_date f"
  shows "wall_time_to_instant_ms P f tz = Some (w - off (w - off w))"
proof -
  have bd: "\<bar>off t\<bar> \<le> 86400000" for t using z by (simp add: zone_db_def ms_per_day_def)
  have w: "-30610224000000 \<le> w" "w < 221876928000000"
    using estate_fields_range [OF f] by (simp_all add: w_def)
  have "civil w" using w by (simp add: civil_def)
  moreover have "full_year (f_year f) = f_year f" using f by (simp add: estate_fields_def full_year_def)
  ultimately have "date_utc f = Some w" by (simp add: date_utc_def w_def time_clip_civil)
  moreover have "civil (w + off w)" using w bd [of w] by (simp add: civil_def abs_le_iff)
  moreover have "civil (w - off w + off (w - off w))"
    using w bd [of w] bd [of "w - off w"] by (simp add: civil_def abs_le_iff)
  ultimately show ?thesis
    using z by (simp add: wall_time_to_instant_ms_def zone_offset_eq)
qed

text \<open>
  The reason for sampling the offset twice: in a zone that switches between two offsets, a wall
  time that exists is always resolved to an instant whose wall time it is.
\<close>

lemma wall_time_resolves_aux:
  fixes w t :: int
  assumes two: "\<And>t. off t = o1 \<or> off t = o2" and t: "t + off t = w"
  defines "r \<equiv> w - off (w - off w)"
  shows "r + off r = w"
proof (cases "off w = off t")
  case True
  with t have "w - off w = t" by linarith
  then have "r = w - off t" by (simp only: r_def)
  with t have "r = t" by linarith
  with t show ?thesis by simp
next
  case ne: False
  show ?thesis
  proof (cases "off (w - off w) = off w")
    case True
    then have "r = w - off w" by (simp add: r_def)
    with True show ?thesis by simp
  next
    case False
    then have "off (w - off w) = off t" using two [of w] two [of t] two [of "w - off w"] ne by auto
    then have "r = t" using t by (simp add: r_def)
    with t show ?thesis by simp
  qed
qed

subsection \<open>Texts written from calendar fields\<close>

definition naive_text :: "fields \<Rightarrow> jstr" where
  "naive_text f = date_text f @ js ''T'' @ hms_text f @ js ''.'' @ digits_w 3 (f_ms f)"

lemma take_n_take_digits: "take_digits w s = Some (n, r) \<Longrightarrow> take_n w s = Some (take w s, r)"
  by (auto simp: take_digits_def take_n_def split: if_splits)

lemma length_digits_w: "0 < w \<Longrightarrow> 0 \<le> n \<Longrightarrow> n < 10 ^ w \<Longrightarrow> length (digits_w w n) = w"
  using length_show_nat [of w "nat n"] by (simp add: digits_w_def pad_start_def nat_less_iff)

lemma digits_w_all: "list_all is_digit (digits_w w n)"
  using show_nat_digits by (auto simp: digits_w_def pad_start_def list_all_iff is_digit_def)

lemma num_digits_w: "0 \<le> n \<Longrightarrow> num (digits_w w n) = n"
  using digits_val_show_nat [of "nat n"]
  by (simp add: num_def digits_w_def pad_start_def digits_val_def)

lemma take_n_digits_w:
  "0 < w \<Longrightarrow> 0 \<le> n \<Longrightarrow> n < 10 ^ w \<Longrightarrow> take_n w (digits_w w n @ s) = Some (digits_w w n, s)"
  using digits_w_all by (simp add: take_n_def length_digits_w)

lemma take_n_2 [simp]: "0 \<le> n \<Longrightarrow> n \<le> 99 \<Longrightarrow> take_n 2 (digits_w 2 n @ s) = Some (digits_w 2 n, s)"
  and take_n_2' [simp]: "0 \<le> n \<Longrightarrow> n \<le> 99 \<Longrightarrow> take_n 2 (digits_w 2 n) = Some (digits_w 2 n, [])"
  and take_n_4 [simp]: "0 \<le> n \<Longrightarrow> n \<le> 9999 \<Longrightarrow> take_n 4 (digits_w 4 n @ s) = Some (digits_w 4 n, s)"
  using take_n_digits_w [of 2 n "[]"] by (simp_all add: take_n_digits_w)

lemma takeWhile_digits [simp]: "takeWhile is_digit (digits_w w n) = digits_w w n"
  using digits_w_all by (simp add: takeWhile_eq_all_conv list_all_iff)

lemma match_fraction_digits:
  "0 \<le> n \<Longrightarrow> n \<le> 999 \<Longrightarrow> match_fraction (46 # digits_w 3 n) = (Some (digits_w 3 n), [])"
  using length_digits_w [of 3 n] by (simp add: match_fraction_def Let_def) (metis list.size(3) zero_neq_numeral)

lemma js_seps: "js ''-'' = [45]" "js ''T'' = [84]" "js '':'' = [58]" "js ''.'' = [46]" "js ''Z'' = [90]"
  "js ''0'' = [48]" "js ''00'' = [48, 48]" "js '' '' = [32]"
  by (simp_all add: js_def)

lemma match_naive_text:
  assumes f: "estate_fields f"
  shows "match_naive (naive_text f) = Some
    \<lparr>n_year = digits_w 4 (f_year f), n_month = digits_w 2 (f_month f), n_day = digits_w 2 (f_day f),
     n_time = Some (digits_w 2 (f_hour f), digits_w 2 (f_minute f)),
     n_second = Some (digits_w 2 (f_second f)), n_fraction = Some (digits_w 3 (f_ms f)), n_offset = None\<rparr>"
proof -
  have v: "valid_fields f" and y: "0 \<le> f_year f" "f_year f \<le> 9999"
    using f by (simp_all add: estate_fields_def)
  show ?thesis
    using y valid_fields_two_digits [OF v]
    by (simp add: naive_text_def date_text_def hms_text_def year_text_def js_seps match_naive_def
        match_time_def match_seconds_def match_fraction_digits match_zone_def)
qed

lemma wall_of_naive_text:
  assumes f: "estate_fields f" and m: "match_naive (naive_text f) = Some m"
  shows "wall_of_naive m b = f" "n_offset m = None"
proof -
  have v: "valid_fields f" and y: "0 \<le> f_year f"
    using f by (simp_all add: estate_fields_def)
  have "take 3 (digits_w 3 (f_ms f)) = digits_w 3 (f_ms f)"
    using valid_fields_two_digits [OF v] by (simp add: length_digits_w)
  then show "wall_of_naive m b = f" "n_offset m = None"
    using y valid_fields_two_digits [OF v] m length_digits_w [of 3 "f_ms f"]
    unfolding match_naive_text [OF f]
    by (auto simp: wall_of_naive_def num_digits_w slice_to_def)
qed

lemma naive_text_no_ws:
  assumes "estate_fields f"
  shows "trim (naive_text f) = naive_text f"
proof (rule trim_no_ws)
  fix c assume "c \<in> set (naive_text f)"
  moreover have "is_digit c" if "c \<in> set (digits_w w n)" for w n
    using that digits_w_all [of w n] by (simp add: list_all_iff)
  ultimately have "is_digit c \<or> c = 45 \<or> c = 84 \<or> c = 58 \<or> c = 46"
    using assms by (auto simp: naive_text_def date_text_def hms_text_def year_text_def js_seps
        estate_fields_def)
  then show "\<not> is_ws c" by (auto simp: is_digit_def is_ws_def)
qed

lemma parse_naive_text:
  assumes "estate_fields f"
  shows "parse_estate_instant_ms P (Str (naive_text f)) tz b =
    wall_time_to_instant_ms P f (normalize_time_zone P (Str tz))"
proof -
  have "naive_text f \<noteq> []" by (simp add: naive_text_def js_seps)
  with match_naive_text [OF assms] wall_of_naive_text [OF assms] show ?thesis
    by (simp add: parse_estate_instant_ms_def naive_text_no_ws [OF assms])
qed

definition date_only_text :: "fields \<Rightarrow> jstr" where
  "date_only_text f = date_text f"

lemma match_date_only:
  assumes f: "estate_fields f"
  shows "match_naive (date_only_text f) = Some
    \<lparr>n_year = digits_w 4 (f_year f), n_month = digits_w 2 (f_month f), n_day = digits_w 2 (f_day f),
     n_time = None, n_second = None, n_fraction = None, n_offset = None\<rparr>"
proof -
  have v: "valid_fields f" and y: "0 \<le> f_year f" "f_year f \<le> 9999"
    using f by (simp_all add: estate_fields_def)
  show ?thesis
    using y valid_fields_two_digits [OF v]
    by (simp add: date_only_text_def date_text_def year_text_def match_naive_def
        match_time_def match_zone_def)
qed

lemma date_only_no_ws:
  assumes "estate_fields f"
  shows "trim (date_only_text f) = date_only_text f"
proof (rule trim_no_ws)
  fix c assume "c \<in> set (date_only_text f)"
  moreover have "is_digit c" if "c \<in> set (digits_w w n)" for w n
    using that digits_w_all [of w n] by (simp add: list_all_iff)
  ultimately have "is_digit c \<or> c = 45"
    using assms by (auto simp: date_only_text_def date_text_def year_text_def estate_fields_def)
  then show "\<not> is_ws c" by (auto simp: is_digit_def is_ws_def)
qed

definition day_edge :: "fields \<Rightarrow> boundary \<Rightarrow> fields" where
  "day_edge f b =
    (if b = Start then f\<lparr>f_hour := 0, f_minute := 0, f_second := 0, f_ms := 0\<rparr>
     else f\<lparr>f_hour := 23, f_minute := 59, f_second := 59, f_ms := 999\<rparr>)"

lemma estate_fields_day_edge: "estate_fields f \<Longrightarrow> estate_fields (day_edge f b)"
  by (simp add: estate_fields_def valid_fields_def day_edge_def)

lemma parse_date_only:
  assumes f: "estate_fields f"
  shows "parse_estate_instant_ms P (Str (date_only_text f)) tz b =
    wall_time_to_instant_ms P (day_edge f b) (normalize_time_zone P (Str tz))"
proof -
  have "valid_fields f" and "0 \<le> f_year f" using f by (simp_all add: estate_fields_def)
  then have "wall_of_naive \<lparr>n_year = digits_w 4 (f_year f), n_month = digits_w 2 (f_month f),
      n_day = digits_w 2 (f_day f), n_time = None, n_second = None, n_fraction = None,
      n_offset = None\<rparr> b = day_edge f b"
    using valid_fields_two_digits [of f]
    by (cases b) (simp_all add: wall_of_naive_def num_digits_w day_edge_def Let_def)
  moreover have "date_only_text f \<noteq> []" by (simp add: date_only_text_def date_text_def)
  ultimately show ?thesis
    using match_date_only [OF f] by (simp add: parse_estate_instant_ms_def date_only_no_ws [OF f])
qed

subsection \<open>The estate's default zone\<close>

text \<open>Africa/Lagos is UTC+1 all year; \<open>Date.parse\<close> is the standard's format.\<close>

definition lagos_known :: "jstr \<Rightarrow> bool" where "lagos_known tz \<longleftrightarrow> tz = default_estate_timezone"

definition lagos_clock :: "jstr \<Rightarrow> int \<Rightarrow> fields" where
  "lagos_clock tz t = (fields_of (t + 3600000))\<lparr>f_ms := 0\<rparr>"

definition lagos_render :: "jstr \<Rightarrow> int \<Rightarrow> jstr" where "lagos_render tz t = iso_string (t + 3600000)"

definition lagos_host :: platform where
  "lagos_host = \<lparr>tz_known = lagos_known, wall_clock = lagos_clock, render_medium = lagos_render,
     date_parse = ecma_parse\<rparr>"

lemmas lagos_defs = lagos_host_def lagos_known_def lagos_clock_def lagos_render_def

lemma lagos_zone_db: "zone_db lagos_host tz (\<lambda>_. 3600000)"
  by (simp add: zone_db_def lagos_defs ms_per_day_def)

lemma normalize_known:
  "tz_known P tz \<Longrightarrow> trim tz = tz \<Longrightarrow> tz \<noteq> [] \<Longrightarrow> normalize_time_zone P (Str tz) = tz"
  by (simp add: normalize_time_zone_def is_valid_time_zone_def)

lemma lagos_normalize: "normalize_time_zone lagos_host (Str tz) = default_estate_timezone"
  by (auto simp: normalize_time_zone_def is_valid_time_zone_def lagos_defs)

subsection \<open>Properties\<close>


definition sample_fields :: fields where
  "sample_fields = \<lparr>f_year = 2026, f_month = 9, f_day = 24, f_hour = 10, f_minute = 0,
    f_second = 0, f_ms = 0\<rparr>"

lemma sample_estate_fields: "estate_fields sample_fields"
  by (simp add: estate_fields_def sample_fields_def valid_fields_def days_in_month_def)


text \<open>
  A date without a time spans the whole estate day. In a zone of constant offset the start
  boundary is midnight and the end boundary is 23:59:59.999 of the same day, so the window is
  86399999 milliseconds long.
\<close>

theorem date_only_spans_the_day:
  assumes z: "zone_db P tz (\<lambda>_. o1)" and norm: "normalize_time_zone P (Str tz) = tz"
    and f: "estate_fields f"
  shows "\<exists>s. parse_estate_instant_ms P (Str (date_only_text f)) tz Start = Some s
    \<and> fields_of (s + o1) = day_edge f Start
    \<and> parse_estate_instant_ms P (Str (date_only_text f)) tz End = Some (s + 86399999)
    \<and> fields_of (s + 86399999 + o1) = day_edge f End"
proof -
  define s where "s = make_date (day_edge f Start) - o1"
  have e: "make_date (day_edge f End) = make_date (day_edge f Start) + 86399999"
    by (simp add: make_date_def day_edge_def make_time_def)
  have v: "valid_fields (day_edge f b)" for b
    using estate_fields_day_edge [OF f] by (simp add: estate_fields_def)
  have "fields_of (s + o1) = day_edge f Start" "fields_of (s + 86399999 + o1) = day_edge f End"
    using fields_of_make_date [OF v [of Start]] fields_of_make_date [OF v [of End]] e
    by (simp_all add: s_def)
  then show ?thesis
    using wall_time_two_samples [OF z estate_fields_day_edge [OF f]] e
    by (intro exI [of _ s]) (simp add: parse_date_only [OF f] norm s_def)
qed

theorem date_only_spans_the_day_witness:
  "\<exists>s. parse_estate_instant_ms lagos_host (Str (date_only_text sample_fields)) default_estate_timezone
      Start = Some s
    \<and> parse_estate_instant_ms lagos_host (Str (date_only_text sample_fields)) default_estate_timezone
      End = Some (s + 86399999)"
  using date_only_spans_the_day [OF lagos_zone_db lagos_normalize sample_estate_fields] by blast

end
