(* ===== verification/ZkPush.thy ===== *)
theory ZkPush
  imports JsonParse JsDate EstateTime
begin

text \<open>
  The codec of the ZKTeco PUSH transport (\<^verbatim>\<open>isapi-bridge/zkteco-push.mjs\<close>): what a
  terminal reports about itself, the rule on its user numbers, the commands, the records it uploads and
  the event document made from them. A width that is a number but not a safe integer is read as none. A
  property named \<open>__proto__\<close> is not stored, as assigning a text to it has no effect.
\<close>

subsection \<open>Percent decoding\<close>

text \<open>\<open>decodeURIComponent\<close>: the bytes of the escapes read as strict UTF-8, written as units.\<close>

datatype token = Lit nat | Byte nat

fun tokens :: "jstr \<Rightarrow> token list option" where
  "tokens [] = Some []"
| "tokens (c # s) =
    (if c \<noteq> 37 then map_option (\<lambda>ts. Lit c # ts) (tokens s)
     else case s of
       a # b # r \<Rightarrow>
         (case (hex_value a, hex_value b) of
            (Some x, Some y) \<Rightarrow> map_option (\<lambda>ts. Byte (16 * x + y) # ts) (tokens r)
          | _ \<Rightarrow> None)
     | _ \<Rightarrow> None)"

definition tail_byte :: "nat \<Rightarrow> bool" where
  "tail_byte b \<longleftrightarrow> 128 \<le> b \<and> b < 192"

definition code_units :: "nat \<Rightarrow> jstr" where
  "code_units v = (if v < 65536 then [v] else [55296 + (v - 65536) div 1024, 56320 + (v - 65536) mod 1024])"

fun decode_tokens :: "token list \<Rightarrow> jstr option" where
  "decode_tokens [] = Some []"
| "decode_tokens (Lit c # ts) = map_option (\<lambda>s. c # s) (decode_tokens ts)"
| "decode_tokens (Byte a # ts) =
    (if a < 128 then map_option (\<lambda>s. a # s) (decode_tokens ts)
     else if 194 \<le> a \<and> a < 224
     then (case ts of
         Byte b # us \<Rightarrow>
           (if tail_byte b then map_option (\<lambda>s. code_units ((a - 192) * 64 + (b - 128)) @ s) (decode_tokens us) else None)
       | _ \<Rightarrow> None)
     else if 224 \<le> a \<and> a < 240
     then (case ts of
         Byte b # Byte c # us \<Rightarrow>
           (let v = (a - 224) * 4096 + (b - 128) * 64 + (c - 128)
            in if tail_byte b \<and> tail_byte c \<and> 2048 \<le> v \<and> \<not> (55296 \<le> v \<and> v < 57344)
               then map_option (\<lambda>s. code_units v @ s) (decode_tokens us) else None)
       | _ \<Rightarrow> None)
     else if 240 \<le> a \<and> a < 245
     then (case ts of
         Byte b # Byte c # Byte d # us \<Rightarrow>
           (let v = (a - 240) * 262144 + (b - 128) * 4096 + (c - 128) * 64 + (d - 128)
            in if tail_byte b \<and> tail_byte c \<and> tail_byte d \<and> 65536 \<le> v \<and> v < 1114112
               then map_option (\<lambda>s. code_units v @ s) (decode_tokens us) else None)
       | _ \<Rightarrow> None)
     else None)"

definition decode_uri_component :: "jstr \<Rightarrow> jstr option" where
  "decode_uri_component s = (case tokens s of None \<Rightarrow> None | Some ts \<Rightarrow> decode_tokens ts)"

definition decode_registry_value :: "jstr \<Rightarrow> jstr" where
  "decode_registry_value v = (if 37 \<in> set v then coalesce (decode_uri_component v) v else v)"

subsection \<open>What a terminal reports about itself\<close>

type_synonym options = "(jstr \<times> jval) list"

definition set_field :: "jstr \<Rightarrow> jval \<Rightarrow> options \<Rightarrow> options" where
  "set_field k v fs = (if k = js ''__proto__'' then fs else put_member k v fs)"

definition before_unit :: "nat \<Rightarrow> jstr \<Rightarrow> jstr" where
  "before_unit c s = takeWhile (\<lambda>d. d \<noteq> c) s"

definition after_unit :: "nat \<Rightarrow> jstr \<Rightarrow> jstr" where
  "after_unit c s = tl (dropWhile (\<lambda>d. d \<noteq> c) s)"

definition drop_tilde :: "jstr \<Rightarrow> jstr" where
  "drop_tilde s = (if s \<noteq> [] \<and> hd s = 126 then tl s else s)"

definition absorb_pair :: "jstr \<Rightarrow> options \<Rightarrow> options" where
  "absorb_pair pair options =
    (let t = trim pair; key = trim (drop_tilde (before_unit 61 t))
     in if 61 \<notin> set t \<or> key = [] then options
        else set_field key (Str (decode_registry_value (trim (after_unit 61 t)))) options)"

definition parse_registry_body :: "jstr \<Rightarrow> options" where
  "parse_registry_body body = fold absorb_pair (split_on 44 body) []"

subsection \<open>The rule on user numbers\<close>

definition pin_max :: nat where "pin_max = 32"

record pin_policy =
  pp_strings :: bool
  pp_reported :: bool
  pp_max :: "nat option"

definition positive_int :: "jval \<Rightarrow> nat option" where
  "positive_int v = (case to_number v of Num i \<Rightarrow> if 0 < i then Some (nat i) else None | _ \<Rightarrow> None)"

definition pin_policy_of :: "options \<Rightarrow> pin_policy" where
  "pin_policy_of options =
    (let reported = trim (to_string_or_empty (get_prop (Obj options) (js ''StringPinFunOn'')))
     in \<lparr>pp_strings = (reported = js ''1'' \<or> reported = js ''true''), pp_reported = (reported \<noteq> []),
         pp_max = (case positive_int (get_prop (Obj options) (js ''MaxPinWidth'')) of
             None \<Rightarrow> positive_int (get_prop (Obj options) (js ''PIN2Width''))
           | Some n \<Rightarrow> Some n)\<rparr>)"

text \<open>\<open>/^[1-9][0-9]*$/\<close> and \<open>/[\t\n\r]/\<close>.\<close>

definition numeric_pin :: "jstr \<Rightarrow> bool" where
  "numeric_pin s \<longleftrightarrow> s \<noteq> [] \<and> hd s \<noteq> 48 \<and> list_all is_digit s"

definition field_breaks :: "jstr \<Rightarrow> bool" where
  "field_breaks s \<longleftrightarrow> list_ex (\<lambda>c. c = 9 \<or> c = 10 \<or> c = 13) s"

definition is_letter :: "nat \<Rightarrow> bool" where
  "is_letter c \<longleftrightarrow> is_upper c \<or> is_lower c"

definition pin_too_long :: "jstr \<Rightarrow> jstr" where
  "pin_too_long v = js ''Employee ID is '' @ show_nat (length v) @ js '' characters; a ZKTeco terminal cannot store more than '' @ show_nat pin_max"

definition pin_too_wide :: "jstr \<Rightarrow> nat \<Rightarrow> jstr" where
  "pin_too_wide v n = js ''Employee ID is '' @ show_nat (length v)
     @ js '' characters; this terminal reports a maximum User ID length of '' @ show_nat n"

definition pin_not_numeric :: "jstr \<Rightarrow> pin_policy \<Rightarrow> jstr" where
  "pin_not_numeric v policy =
    js ''this terminal only accepts a numeric User ID (StringPinFunOn='' @ (if pp_reported policy then js ''0'' else js ''not reported'')
    @ js ''), and the EstateMate Employee ID '' @ [34] @ v @ [34] @ js '' contains ''
    @ (if list_ex is_letter v then js ''letters'' else js ''a leading zero or other non-digit'')
    @ js ''. Set a numeric Employee ID for this person, or enable alphanumeric User IDs on the terminal if its firmware supports them''"

definition validate_terminal_pin :: "jval \<Rightarrow> options \<Rightarrow> (jstr, jstr) result" where
  "validate_terminal_pin candidate options =
    (let v = trim (to_string_or_empty candidate); policy = pin_policy_of options
     in if v = []
        then Inl (js ''the terminal PIN (EstateMate Employee ID) is missing; refusing to guess which person owns this credential'')
        else if pin_max < length v then Inl (pin_too_long v)
        else case (case pp_max policy of None \<Rightarrow> None | Some n \<Rightarrow> if n < length v then Some n else None) of
          Some n \<Rightarrow> Inl (pin_too_wide v n)
        | None \<Rightarrow>
            if numeric_pin v then Inr v
            else if pp_strings policy
            then (if field_breaks v
                  then Inl (js ''Employee ID contains a tab or line break, which the PUSH command format cannot carry'')
                  else Inr v)
            else Inl (pin_not_numeric v policy))"

subsection \<open>Commands\<close>

definition field_error :: "jstr \<Rightarrow> jstr" where
  "field_error name = [34] @ name @ [34]
     @ js '' contains a tab or a line break, which the ZKTeco PUSH record format cannot carry; fix it in EstateMate and sync again (nothing was written to the terminal)''"

definition assert_field_safe :: "jstr \<Rightarrow> jval \<Rightarrow> (jstr, unit) result" where
  "assert_field_safe name v = (if \<not> nullish v \<and> field_breaks (to_string v) then Inl (field_error name) else Inr ())"

fun emit_fields :: "(string \<times> jval) list \<Rightarrow> (jstr, jstr list) result" where
  "emit_fields [] = Inr []"
| "emit_fields ((name, v) # fs) =
    (if nullish v \<or> v = Str [] then emit_fields fs
     else rbind (assert_field_safe (js name) v) (\<lambda>_. rbind (emit_fields fs) (\<lambda>parts. Inr ((js name @ js ''='' @ to_string v) # parts))))"

definition user_fields :: "jval \<Rightarrow> (string \<times> jval) list" where
  "user_fields f =
    [(''Name'', get_prop f (js ''name'')), (''Pri'', nullish_or (get_prop f (js ''privilege'')) (Num 0)),
     (''Card'', get_prop f (js ''card'')), (''Grp'', nullish_or (get_prop f (js ''group'')) (Num 1)),
     (''TZ'', nullish_or (get_prop f (js ''timezone'')) (Str (js ''0000000100000000''))),
     (''Verify'', nullish_or (get_prop f (js ''verify'')) (Num 0)),
     (''Enable'', if get_prop f (js ''enabled'') = Bool False then Num 0 else Num 1)]
    @ (if truthy (get_prop f (js ''startDatetime'')) then [(''StartDatetime'', get_prop f (js ''startDatetime''))] else [])
    @ (if truthy (get_prop f (js ''endDatetime'')) then [(''EndDatetime'', get_prop f (js ''endDatetime''))] else [])"

definition encode_user_update :: "jstr \<Rightarrow> jval \<Rightarrow> (jstr, jstr) result" where
  "encode_user_update pin f =
    rbind (assert_field_safe (js ''PIN'') (Str pin)) (\<lambda>_. rbind (emit_fields (user_fields f)) (\<lambda>parts.
      Inr (js ''DATA UPDATE USERINFO '' @ join [9] ((js ''PIN='' @ pin) # parts))))"

definition encode_user_delete :: "jstr \<Rightarrow> jstr" where
  "encode_user_delete pin = js ''DATA DELETE USERINFO PIN='' @ pin"

definition encode_card_removal :: "jstr \<Rightarrow> jstr" where
  "encode_card_removal pin = encode_user_delete pin"

definition encode_get_option :: "jstr \<Rightarrow> (jstr, jstr) result" where
  "encode_get_option key = rbind (assert_field_safe (js ''option key'') (Str key)) (\<lambda>_. Inr (js ''GET OPTION FROM '' @ key))"

text \<open>\<open>value.replace(/[\t\n\r]+/g, ' ').trim()\<close>.\<close>

fun collapse_breaks :: "bool \<Rightarrow> jstr \<Rightarrow> jstr" where
  "collapse_breaks inside [] = []"
| "collapse_breaks inside (c # s) =
    (if c = 9 \<or> c = 10 \<or> c = 13 then (if inside then collapse_breaks True s else 32 # collapse_breaks True s)
     else c # collapse_breaks False s)"

definition sanitize_field :: "jval \<Rightarrow> jstr" where
  "sanitize_field v = trim (collapse_breaks False (to_string v))"

subsection \<open>Uploads\<close>

definition drop_return :: "jstr \<Rightarrow> jstr" where
  "drop_return s = (if s \<noteq> [] \<and> last s = 13 then butlast s else s)"

definition record_field :: "jstr \<Rightarrow> options \<Rightarrow> options" where
  "record_field field r =
    (if 61 \<notin> set field \<or> before_unit 61 field = [] then r
     else set_field (trim (before_unit 61 field)) (Str (decode_registry_value (trim (after_unit 61 field)))) r)"

definition column :: "jstr list \<Rightarrow> nat \<Rightarrow> jval" where
  "column cols n = (if n < length cols then Str (cols ! n) else Undef)"

definition line_record :: "jstr \<Rightarrow> options list" where
  "line_record raw =
    (let line = drop_return raw
     in if trim line = [] then []
        else if 61 \<in> set line
        then (let r = fold record_field (split_on 9 line) [] in if r = [] then [] else [r])
        else (let cols = split_on 9 line
              in if length cols < 2 then []
                 else [[(js ''PIN'', column cols 0), (js ''Time'', column cols 1), (js ''Status'', column cols 2),
                        (js ''VerifyMode'', column cols 3), (js ''WorkCode'', column cols 4)]]))"

definition parse_data_records :: "jstr \<Rightarrow> options list" where
  "parse_data_records body =
    (let t = trim body in if t = [] \<or> t = js ''OK'' then [] else concat (map line_record (split_on 10 t)))"

subsection \<open>Timestamps\<close>

text \<open>\<open>Math.floor(abs / 60)\<close> and \<open>abs % 60\<close> of minutes east of UTC, as the host reports them now.\<close>

definition local_offset_suffix :: "int \<Rightarrow> jstr" where
  "local_offset_suffix minutes =
    (if 0 \<le> minutes then js ''+'' else js ''-'')
    @ pad_start 2 48 (show_nat (nat (\<bar>minutes\<bar> div 60))) @ js '':'' @ pad_start 2 48 (show_nat (nat (\<bar>minutes\<bar> mod 60)))"

text \<open>\<open>/^(\d{4})-(\d{2})-(\d{2})[ T](\d{2}):(\d{2})(?::(\d{2}))?$/\<close>: the text with a \<open>T\<close> and seconds.\<close>

definition push_wall_text :: "jstr \<Rightarrow> jstr option" where
  "push_wall_text raw =
    (if list_ex (\<lambda>shape. match_shape shape raw) [js ''dddd-dd-dd dd:dd'', js ''dddd-dd-ddTdd:dd'']
     then Some (take 10 raw @ js ''T'' @ drop 11 raw @ js '':00'')
     else if list_ex (\<lambda>shape. match_shape shape raw) [js ''dddd-dd-dd dd:dd:dd'', js ''dddd-dd-ddTdd:dd:dd'']
     then Some (take 10 raw @ js ''T'' @ drop 11 raw)
     else None)"

definition push_timestamp :: "platform \<Rightarrow> int \<Rightarrow> int \<Rightarrow> jval \<Rightarrow> int" where
  "push_timestamp P minutes now v =
    (let raw = trim (to_string_or_empty v)
     in if raw = [] then now
        else if list_all is_digit raw \<and> 9 \<le> length raw \<and> length raw \<le> 11 then int (digits_val raw) * 1000
        else case push_wall_text raw of
          None \<Rightarrow> coalesce (date_parse P raw) now
        | Some t \<Rightarrow> coalesce (date_parse P (t @ local_offset_suffix minutes)) now)"

definition push_timestamp_to_iso :: "platform \<Rightarrow> int \<Rightarrow> int \<Rightarrow> jval \<Rightarrow> jstr" where
  "push_timestamp_to_iso P minutes now v = iso_string (push_timestamp P minutes now v)"

subsection \<open>Events\<close>

fun first_of :: "jval \<Rightarrow> string list \<Rightarrow> jval" where
  "first_of r [] = Null"
| "first_of r (k # ks) = nullish_or (get_prop r (js k)) (first_of r ks)"

definition text_or_empty :: "jval \<Rightarrow> jval" where
  "text_or_empty v = Str (to_string_or_empty v)"

definition access_event_document :: "platform \<Rightarrow> int \<Rightarrow> int \<Rightarrow> options \<Rightarrow> jval" where
  "access_event_document P minutes now fs =
    (let r = Obj fs
     in Obj [(js ''eventType'', Str (js ''access_controller_event'')), (js ''majorEventType'', Num 5), (js ''minorEventType'', Num 0),
          (js ''accessControllerEvent'', Obj
            [(js ''employeeNoString'', nullish_or (first_of r [''PIN'', ''UserID'', ''pin'']) (Str [])),
             (js ''cardNo'', nullish_or (first_of r [''Card'', ''cardNo'', ''CardNo'']) (Str [])),
             (js ''dateTime'', Str (push_timestamp_to_iso P minutes now (first_of r [''Time'', ''DateTime'', ''timestamp'']))),
             (js ''verifyMode'', text_or_empty (first_of r [''VerifyMode'', ''verifyMode''])),
             (js ''doorNo'', Num 1),
             (js ''workCode'', nullish_or (get_prop r (js ''WorkCode'')) (Str [])),
             (js ''statusCode'', text_or_empty (first_of r [''Status'', ''status''])),
             (js ''profileKey'', Str (js ''zkteco_push''))])])"

definition verify_mode_labels :: "(int \<times> string) list" where
  "verify_mode_labels = [(0, ''password''), (1, ''fingerprint''), (2, ''card''), (4, ''pin''), (15, ''face''),
     (16, ''palm_vein''), (22, ''fingerprint_or_card'')]"

definition verify_mode_label :: "jval \<Rightarrow> jstr" where
  "verify_mode_label v =
    (if nullish v \<or> v = Str [] then js ''unknown''
     else let unknown = js ''unknown('' @ to_string v @ js '')''
       in case to_number v of
            Num i \<Rightarrow> (case map_of verify_mode_labels i of Some l \<Rightarrow> js l | None \<Rightarrow> unknown)
          | _ \<Rightarrow> unknown)"

subsection \<open>Answers\<close>

definition registration_config :: "jstr \<Rightarrow> jstr \<Rightarrow> jstr" where
  "registration_config code session_id = join [10]
    [js ''registry=ok'', js ''RegistryCode='' @ code, js ''ServerVersion=1'', js ''ServerName=EstateMate Bridge'', js ''PushProtVer=3.1.2'',
     js ''ErrorDelay=30'', js ''RequestDelay=5'', js ''TransInterval=1'', js ''TransTables=User Transaction'', js ''Realtime=1'',
     js ''SessionID='' @ session_id, js ''TimeoutSec=10'']"

definition command_body :: "jstr \<Rightarrow> jstr" where
  "command_body lines = (if trim lines \<noteq> [] then lines else js ''OK'' @ [10])"

end
