(* ===== verification/ZkQueue.thy ===== *)
theory ZkQueue
  imports ZkPush "HOL-Library.AList"
begin

text \<open>
  The command queue of the ZKTeco PUSH transport (\<open>createCommandQueue\<close> of
  \<^verbatim>\<open>isapi-bridge/zkteco-push.mjs\<close>): one bucket per serial number, in the order they were
  opened. A command waits until the terminal asks, is then delivered, and leaves when the terminal reports
  its result or its time is up. The clock is an argument of every operation.
\<close>

record 'm push_item =
  pi_id :: nat
  pi_command :: jstr
  pi_meta :: 'm
  pi_queued :: int

record 'm bucket =
  bk_next :: nat
  bk_pending :: "'m push_item list"
  bk_delivered :: "(nat \<times> 'm push_item \<times> int) list"
  bk_sent :: nat
  bk_refused :: nat

type_synonym 'm push_queue = "(jstr \<times> 'm bucket) list"

definition new_bucket :: "'m bucket" where
  "new_bucket = \<lparr>bk_next = 1, bk_pending = [], bk_delivered = [], bk_sent = 0, bk_refused = 0\<rparr>"

definition max_per_device :: nat where "max_per_device = 200"

text \<open>\<open>bucket(serial)\<close>: a missing bucket is opened, a missing serial number is an error.\<close>

definition bucket_of :: "'m push_queue \<Rightarrow> jstr \<Rightarrow> 'm bucket" where
  "bucket_of q serial = coalesce (map_of q (trim serial)) new_bucket"

definition set_bucket :: "jstr \<Rightarrow> 'm bucket \<Rightarrow> 'm push_queue \<Rightarrow> 'm push_queue" where
  "set_bucket serial b q = AList.update (trim serial) b q"

definition in_bucket :: "jstr \<Rightarrow> ('m bucket \<Rightarrow> 'r \<times> 'm bucket) \<Rightarrow> 'm push_queue \<Rightarrow> (jstr, 'r) result \<times> 'm push_queue" where
  "in_bucket serial f q =
    (if trim serial = [] then (Inl (js ''a push command needs the terminal serial number''), q)
     else case f (bucket_of q serial) of (r, b) \<Rightarrow> (Inr r, set_bucket serial b q))"

definition queue_full :: "nat \<Rightarrow> jstr" where
  "queue_full n = js ''this terminal has '' @ show_nat n @ js '' commands it has not fetched yet; nothing more can be queued''"

definition bucket_queue :: "int \<Rightarrow> jstr \<Rightarrow> 'm \<Rightarrow> 'm bucket \<Rightarrow> (jstr, nat) result \<times> 'm bucket" where
  "bucket_queue now command meta b =
    (if max_per_device \<le> length (bk_pending b)
     then (Inl (queue_full (length (bk_pending b))), b\<lparr>bk_refused := bk_refused b + 1\<rparr>)
     else (Inr (bk_next b),
       b\<lparr>bk_next := bk_next b + 1,
         bk_pending := bk_pending b @ [\<lparr>pi_id = bk_next b, pi_command = command, pi_meta = meta, pi_queued = now\<rparr>]\<rparr>))"

definition command_line :: "'m push_item \<Rightarrow> jstr" where
  "command_line i = js ''C:'' @ show_nat (pi_id i) @ js '':'' @ pi_command i @ [10]"

definition bucket_take :: "int \<Rightarrow> 'm bucket \<Rightarrow> jstr \<times> 'm bucket" where
  "bucket_take now b =
    (concat (map command_line (bk_pending b)),
     b\<lparr>bk_pending := [],
       bk_delivered := fold (\<lambda>i. AList.update (pi_id i) (i, now)) (bk_pending b) (bk_delivered b),
       bk_sent := bk_sent b + length (bk_pending b)\<rparr>)"

record 'm confirmation =
  cf_id :: nat
  cf_code :: "int option"
  cf_meaning :: jstr
  cf_meta :: 'm
  cf_waited :: int

definition return_meanings :: "(int \<times> string) list" where
  "return_meanings = [(0, ''applied by the terminal''), (-1, ''command not supported, or the terminal has no data for it''),
     (-2, ''file operation failed''), (-1002, ''invalid command syntax (the terminal refused to parse it)''),
     (-1004, ''this table or feature is not available on this model'')]"

text \<open>A result code that is a number but no safe integer is read as none.\<close>

definition code_of :: "jval \<Rightarrow> int option" where
  "code_of v = (case to_number v of Num i \<Rightarrow> Some i | _ \<Rightarrow> None)"

definition meaning_of :: "int option \<Rightarrow> jstr" where
  "meaning_of code =
    (case code of
       None \<Rightarrow> js ''the terminal did not say what went wrong''
     | Some i \<Rightarrow> (case map_of return_meanings i of Some m \<Rightarrow> js m | None \<Rightarrow> js ''terminal answered '' @ show_int i))"

definition bucket_confirm :: "int \<Rightarrow> jval \<Rightarrow> jval \<Rightarrow> 'm bucket \<Rightarrow> 'm confirmation option \<times> 'm bucket" where
  "bucket_confirm now id_value code_value b =
    (case to_number id_value of
       Num i \<Rightarrow>
         (case (if i < 0 then None else map_of (bk_delivered b) (nat i)) of
            None \<Rightarrow> (None, b)
          | Some (item, at) \<Rightarrow>
              (Some \<lparr>cf_id = nat i, cf_code = code_of code_value, cf_meaning = meaning_of (code_of code_value),
                  cf_meta = pi_meta item, cf_waited = now - at\<rparr>,
               b\<lparr>bk_delivered := AList.delete (nat i) (bk_delivered b)\<rparr>))
     | _ \<Rightarrow> (None, b))"

definition bucket_expire :: "int \<Rightarrow> int \<Rightarrow> 'm bucket \<Rightarrow> 'm push_item list \<times> 'm bucket" where
  "bucket_expire now older_than b =
    (map (\<lambda>(i, item, at). item) (filter (\<lambda>(i, item, at). older_than \<le> now - at) (bk_delivered b)),
     b\<lparr>bk_delivered := filter (\<lambda>(i, item, at). \<not> older_than \<le> now - at) (bk_delivered b)\<rparr>)"

definition queue_command :: "int \<Rightarrow> jstr \<Rightarrow> jstr \<Rightarrow> 'm \<Rightarrow> 'm push_queue \<Rightarrow> (jstr, (jstr, nat) result) result \<times> 'm push_queue" where
  "queue_command now serial command meta = in_bucket serial (bucket_queue now command meta)"

definition take_commands :: "int \<Rightarrow> jstr \<Rightarrow> 'm push_queue \<Rightarrow> (jstr, jstr) result \<times> 'm push_queue" where
  "take_commands now serial = in_bucket serial (bucket_take now)"

definition confirm_command :: "int \<Rightarrow> jstr \<Rightarrow> jval \<Rightarrow> jval \<Rightarrow> 'm push_queue \<Rightarrow> (jstr, 'm confirmation option) result \<times> 'm push_queue" where
  "confirm_command now serial id_value code_value = in_bucket serial (bucket_confirm now id_value code_value)"

definition expire_delivered :: "int \<Rightarrow> jstr \<Rightarrow> int \<Rightarrow> 'm push_queue \<Rightarrow> (jstr, 'm push_item list) result \<times> 'm push_queue" where
  "expire_delivered now serial older_than = in_bucket serial (bucket_expire now older_than)"

definition queue_depth :: "jstr \<Rightarrow> 'm push_queue \<Rightarrow> nat \<times> nat \<times> nat \<times> nat" where
  "queue_depth serial q =
    (case map_of q (trim serial) of
       None \<Rightarrow> (0, 0, 0, 0)
     | Some b \<Rightarrow> (length (bk_pending b), length (bk_delivered b), bk_sent b, bk_refused b))"

definition queue_serials :: "'m push_queue \<Rightarrow> jstr list" where
  "queue_serials q = map fst q"

end
