(* ===== verification/NetAddress.thy ===== *)
theory NetAddress
  imports JsonParse "HOL-Library.Word"
begin

text \<open>
  Address literals and allowlist rules of \<open>isapi-bridge/network-access-control.mjs\<close>: reading a
  socket address, the eight groups of an IPv6 literal, the class of an address, and the rules an
  installer writes. An IPv4 address and its masks are 32 bit words, a group of an IPv6 address is a
  16 bit word, as the bit operations of the code compute them.
\<close>

unbundle bit_operations_syntax

subsection \<open>Reading a literal\<close>

text \<open>\<open>/^\[([^\]]+)\](?::\d+)?$/\<close> and \<open>/^([^:]+):(\d+)$/\<close>.\<close>

definition port_digits :: "jstr \<Rightarrow> bool" where
  "port_digits s \<longleftrightarrow> s \<noteq> [] \<and> hd s = 58 \<and> tl s \<noteq> [] \<and> list_all is_digit (tl s)"

definition bracketed :: "jstr \<Rightarrow> jstr option" where
  "bracketed s =
    (if s \<noteq> [] \<and> hd s = 91
     then (let x = takeWhile (\<lambda>c. c \<noteq> 93) (tl s); r = dropWhile (\<lambda>c. c \<noteq> 93) (tl s)
           in if x \<noteq> [] \<and> r \<noteq> [] \<and> (tl r = [] \<or> port_digits (tl r)) then Some x else None)
     else None)"

definition with_port :: "jstr \<Rightarrow> jstr option" where
  "with_port s =
    (let h = takeWhile (\<lambda>c. c \<noteq> 58) s
     in if h \<noteq> [] \<and> port_digits (drop (length h) s) then Some h else None)"

definition mapped_prefix :: jstr where "mapped_prefix = js ''::ffff:''"

definition source_text :: "jstr \<Rightarrow> jstr" where
  "source_text raw =
    (let t = trim raw;
         t = (case bracketed t of Some x \<Rightarrow> x | None \<Rightarrow> coalesce (with_port t) t);
         t = (if lower (take 7 t) = mapped_prefix then drop 7 t else t)
     in lower t)"

definition normalize_source_address :: "jval \<Rightarrow> jstr" where
  "normalize_source_address v = source_text (to_string_or_empty v)"

definition octet_ok :: "jstr \<Rightarrow> bool" where
  "octet_ok s \<longleftrightarrow> 1 \<le> length s \<and> length s \<le> 3 \<and> list_all is_digit s"

definition dotted_quad :: "jstr \<Rightarrow> bool" where
  "dotted_quad s \<longleftrightarrow> length (split_on 46 s) = 4 \<and> list_all octet_ok (split_on 46 s)"

definition octets :: "jstr \<Rightarrow> nat list" where
  "octets s = map (\<lambda>p. digits_val (trim p)) (split_on 46 s)"

definition is_ipv4 :: "jstr \<Rightarrow> bool" where
  "is_ipv4 s \<longleftrightarrow> dotted_quad (trim s) \<and> list_all (\<lambda>n. n \<le> 255) (octets (trim s))"

fun split_double_colon :: "jstr \<Rightarrow> jstr list" where
  "split_double_colon [] = [[]]"
| "split_double_colon [c] = [[c]]"
| "split_double_colon (c # d # s) =
    (if c = 58 \<and> d = 58 then [] # split_double_colon s
     else (case split_double_colon (d # s) of [] \<Rightarrow> [] | w # ws \<Rightarrow> (c # w) # ws))"

text \<open>\<open>n.toString(16)\<close> and \<open>parseInt(group, 16)\<close>.\<close>

fun show_hex :: "nat \<Rightarrow> jstr" where
  "show_hex n = (if n < 16 then [hex_unit n] else show_hex (n div 16) @ [hex_unit (n mod 16)])"

declare show_hex.simps [simp del]

definition hex_digit :: "nat \<Rightarrow> bool" where
  "hex_digit c \<longleftrightarrow> is_digit c \<or> (97 \<le> c \<and> c \<le> 102)"

definition hex_number :: "jstr \<Rightarrow> nat" where
  "hex_number s = foldl (\<lambda>n c. 16 * n + (if is_digit c then c - 48 else c - 87)) 0 s"

definition group_ok :: "jstr \<Rightarrow> bool" where
  "group_ok s \<longleftrightarrow> 1 \<le> length s \<and> length s \<le> 4 \<and> list_all hex_digit s"

text \<open>The trailing dotted form after the last colon, written as two groups.\<close>

definition embed_ipv4 :: "jstr \<Rightarrow> jstr option" where
  "embed_ipv4 s =
    (let q = last (split_on 58 s)
     in if 58 \<in> set s \<and> dotted_quad q
        then if is_ipv4 q
             then Some (take (length s - length q) s @ show_hex (256 * (octets q ! 0) + octets q ! 1)
                        @ [58] @ show_hex (256 * (octets q ! 2) + octets q ! 3))
             else None
        else Some s)"

definition parse_side :: "jstr \<Rightarrow> jstr list" where
  "parse_side s = (if s = [] then [] else split_on 58 s)"

definition hex_groups :: "jstr list \<Rightarrow> 16 word list" where
  "hex_groups gs = map (\<lambda>g. of_nat (hex_number g)) gs"

definition groups_of_halves :: "jstr list \<Rightarrow> 16 word list option" where
  "groups_of_halves halves =
    (let left = parse_side (hd halves);
         right = (if length halves = 2 then parse_side (halves ! 1) else [])
     in if \<not> list_all group_ok (left @ right) then None
        else if length halves = 2
        then if 7 < length left + length right then None
             else Some (hex_groups (left @ replicate (8 - (length left + length right)) [48] @ right))
        else if length left \<noteq> 8 then None
        else Some (hex_groups left))"

definition ipv6_groups :: "jstr \<Rightarrow> 16 word list option" where
  "ipv6_groups s =
    (let raw = lower (trim s)
     in if 58 \<notin> set raw then None
        else case embed_ipv4 (takeWhile (\<lambda>c. c \<noteq> 37) raw) of
          None \<Rightarrow> None
        | Some raw \<Rightarrow>
            if raw = [] \<or> \<not> list_all (\<lambda>c. hex_digit c \<or> c = 58) raw then None
            else if 2 < length (split_double_colon raw) then None
            else groups_of_halves (split_double_colon raw))"

definition is_address_literal :: "jstr \<Rightarrow> bool" where
  "is_address_literal s \<longleftrightarrow> is_ipv4 (source_text s) \<or> ipv6_groups (source_text s) \<noteq> None"

definition ipv4_number :: "jstr \<Rightarrow> 32 word" where
  "ipv4_number s = foldl (\<lambda>total octet. total * 256 + of_nat octet) 0 (octets s)"

lemma split_double_colon_nonempty [simp]: "split_double_colon s \<noteq> []"
  by (induction s rule: split_double_colon.induct) (auto split: list.splits)

lemma length_hex_groups [simp]: "length (hex_groups gs) = length gs"
  by (simp add: hex_groups_def)

lemma ipv6_groups_length: "ipv6_groups s = Some gs \<Longrightarrow> length gs = 8"
  by (auto simp: ipv6_groups_def groups_of_halves_def Let_def split: option.splits if_splits)

subsection \<open>The class of an address\<close>

datatype addr_class = Unknown | Loopback | Private | LinkLocal | CarrierGrade | Reserved | Public

definition ipv4_class :: "nat \<Rightarrow> nat \<Rightarrow> addr_class" where
  "ipv4_class a b =
    (if a = 127 then Loopback
     else if a = 10 then Private
     else if a = 172 \<and> 16 \<le> b \<and> b \<le> 31 then Private
     else if a = 192 \<and> b = 168 then Private
     else if a = 169 \<and> b = 254 then LinkLocal
     else if a = 100 \<and> 64 \<le> b \<and> b \<le> 127 then CarrierGrade
     else if a = 0 then Reserved
     else if 224 \<le> a then Reserved
     else Public)"

text \<open>The dotted form of the last two groups, which the code builds for a mapped address.\<close>

definition dotted :: "nat list \<Rightarrow> jstr" where
  "dotted ns = join [46] (map show_nat ns)"

definition mapped_ipv4 :: "16 word list \<Rightarrow> jstr" where
  "mapped_ipv4 gs = dotted (map unat
     [drop_bit 8 (gs ! 6) AND 255, gs ! 6 AND 255, drop_bit 8 (gs ! 7) AND 255, gs ! 7 AND 255])"

definition classify_ipv4 :: "jstr \<Rightarrow> addr_class" where
  "classify_ipv4 s = ipv4_class (octets s ! 0) (octets s ! 1)"

definition classify_groups :: "16 word list \<Rightarrow> addr_class" where
  "classify_groups gs =
    (if list_all (\<lambda>g. g = 0) (take 7 gs) \<and> gs ! 7 = 1 then Loopback
     else if gs ! 0 AND 0xfe00 = 0xfc00 then Private
     else if gs ! 0 AND 0xffc0 = 0xfe80 then LinkLocal
     else if list_all (\<lambda>g. g = 0) (take 5 gs) \<and> (gs ! 5 = 0 \<or> gs ! 5 = 0xffff)
     then classify_ipv4 (mapped_ipv4 gs)
     else Public)"

definition classify_address :: "jstr \<Rightarrow> addr_class" where
  "classify_address raw =
    (let s = source_text raw
     in if s = [] then Unknown
        else if is_ipv4 s then classify_ipv4 s
        else case ipv6_groups s of None \<Rightarrow> Unknown | Some gs \<Rightarrow> classify_groups gs)"

definition is_non_public_address :: "jstr \<Rightarrow> bool" where
  "is_non_public_address raw \<longleftrightarrow> classify_address raw \<in> {Loopback, Private, LinkLocal, CarrierGrade}"

text \<open>The dotted form is a literal of its own, so classifying it reads its first two octets.\<close>

lemma split_dotted: "ns \<noteq> [] \<Longrightarrow> split_on 46 (dotted ns) = map show_nat ns"
proof -
  assume "ns \<noteq> []"
  moreover have "46 \<notin> set (show_nat n)" for n
    using show_nat_digits [of n] by (auto simp: list_all_iff is_digit_def dest: bspec [of _ _ 46])
  ultimately show ?thesis unfolding dotted_def by (intro split_join) auto
qed

lemma octets_dotted: "ns \<noteq> [] \<Longrightarrow> octets (dotted ns) = ns"
proof -
  assume "ns \<noteq> []"
  then have "split_on 46 (dotted ns) = map show_nat ns" by (rule split_dotted)
  moreover have "trim (show_nat n) = show_nat n" for n
    using show_nat_digits [of n] by (intro trim_alnum) (auto simp: list_all_iff is_digit_alnum)
  ultimately show ?thesis by (simp add: octets_def comp_def)
qed

lemma dotted_units: "list_all (\<lambda>c. is_digit c \<or> c = 46) (dotted ns)"
proof (induction ns rule: induct_list012)
  case (2 n)
  then show ?case using show_nat_digits [of n] by (auto simp: dotted_def list_all_iff)
next
  case (3 n m ns)
  then show ?case using show_nat_digits [of n] by (auto simp: dotted_def list_all_iff)
qed (simp add: dotted_def)

lemma trim_dotted: "trim (dotted ns) = dotted ns"
  using dotted_units [of ns] by (intro trim_no_ws) (auto simp: list_all_iff char_class_defs)

lemma source_text_dotted: "source_text (dotted ns) = dotted ns"
proof -
  let ?s = "dotted ns"
  have u: "\<And>c. c \<in> set ?s \<Longrightarrow> c \<noteq> 58 \<and> c \<noteq> 91 \<and> lower_unit c = [c]"
    using dotted_units [of ns] by (auto simp: list_all_iff lower_unit_def is_digit_def is_upper_def)
  have t: "takeWhile (\<lambda>c. c \<noteq> 58) ?s = ?s" using u by (simp add: takeWhile_eq_all_conv)
  have b: "bracketed ?s = None" using u by (cases ?s) (auto simp: bracketed_def)
  have p: "with_port ?s = None" by (simp add: with_port_def port_digits_def t)
  have l: "lower s = s" if "set s \<subseteq> set ?s" for s using that u by (intro lower_fixed) auto
  have "take 7 ?s \<noteq> mapped_prefix"
  proof
    assume "take 7 ?s = mapped_prefix"
    then have "58 \<in> set (take 7 ?s)" by (simp add: mapped_prefix_def js_def)
    then show False using u in_set_takeD by fastforce
  qed
  moreover have "lower (take 7 ?s) = take 7 ?s" by (rule l) (rule set_take_subset)
  ultimately show ?thesis by (simp add: source_text_def trim_dotted b p l)
qed

lemma dotted_quad_dotted: "list_all (\<lambda>n. n \<le> 255) ns \<Longrightarrow> length ns = 4 \<Longrightarrow> is_ipv4 (dotted ns)"
proof -
  assume ns: "list_all (\<lambda>n. n \<le> 255) ns" "length ns = 4"
  then have ne: "ns \<noteq> []" by auto
  have sp: "split_on 46 (dotted ns) = map show_nat ns" using ne by (rule split_dotted)
  have "octet_ok (show_nat n)" if "n \<le> 255" for n
  proof -
    have "length (show_nat n) \<le> 3" using that by (intro length_show_nat) auto
    moreover have "1 \<le> length (show_nat n)" by (simp add: Suc_le_eq)
    ultimately show ?thesis using show_nat_digits [of n] by (simp add: octet_ok_def)
  qed
  with ns have "dotted_quad (dotted ns)" by (auto simp: dotted_quad_def sp list_all_iff)
  then show ?thesis using ns octets_dotted [OF ne] by (simp add: is_ipv4_def trim_dotted)
qed

lemma mapped_octets_small: "unat (g AND 255) \<le> 255" for g :: "16 word"
proof -
  have "g AND 255 \<le> 255" by (rule word_and_le1)
  then show ?thesis by (simp add: word_le_nat_alt)
qed

lemma is_ipv4_mapped: "is_ipv4 (mapped_ipv4 gs)"
  unfolding mapped_ipv4_def by (rule dotted_quad_dotted) (simp_all add: mapped_octets_small)

lemma source_text_mapped: "source_text (mapped_ipv4 gs) = mapped_ipv4 gs"
  by (simp add: mapped_ipv4_def source_text_dotted)

lemma classify_mapped: "classify_address (mapped_ipv4 gs) = classify_ipv4 (mapped_ipv4 gs)"
proof -
  have "mapped_ipv4 gs \<noteq> []"
    using is_ipv4_mapped [of gs] by (auto simp: is_ipv4_def dotted_quad_def)
  then show ?thesis by (simp add: classify_address_def source_text_mapped is_ipv4_mapped)
qed

subsection \<open>Allowlist rules\<close>

datatype source_rule =
    Rule4 jstr nat "32 word"
  | Rule6 jstr nat "16 word list"

fun rule_prefix :: "source_rule \<Rightarrow> nat" where
  "rule_prefix (Rule4 _ p _) = p"
| "rule_prefix (Rule6 _ p _) = p"

fun rule_address :: "source_rule \<Rightarrow> jstr" where
  "rule_address (Rule4 a _ _) = a"
| "rule_address (Rule6 a _ _) = a"

definition rule_text :: "source_rule \<Rightarrow> jstr" where
  "rule_text r = rule_address r @ js ''/'' @ show_nat (rule_prefix r)"

text \<open>A refused entry carries its text and the reason.\<close>

type_synonym refused_rule = "jstr \<times> jstr"

definition mask4 :: "nat \<Rightarrow> 32 word" where
  "mask4 p = (if p = 32 then 0xffffffff else push_bit (32 - p) 0xffffffff)"

definition slash_zero :: jstr where
  "slash_zero = js ''a /0 rule is '' @ [34] @ js ''allow everything'' @ [34] @ js ''; set allowUnknownSources instead''"

definition read_prefix :: "nat \<Rightarrow> nat \<Rightarrow> jstr option \<Rightarrow> nat option" where
  "read_prefix digits most part =
    (case part of
       None \<Rightarrow> Some most
     | Some s \<Rightarrow> if 1 \<le> length s \<and> length s \<le> digits \<and> list_all is_digit s \<and> digits_val s \<le> most
                then Some (digits_val s) else None)"

definition not_a_literal :: "jstr \<Rightarrow> jstr" where
  "not_a_literal t =
    (if 47 \<in> set t then js ''not an IPv4 or IPv6 CIDR range''
     else js ''not an address literal '' @ [8212] @ js '' an allowlist entry is never a hostname, because resolving one at decision time hands the policy to DNS'')"

definition parse_source_rule :: "jval \<Rightarrow> (refused_rule, source_rule) result" where
  "parse_source_rule entry =
    (let t = trim (to_string_or_empty entry);
         parts = split_on 47 t;
         prefix_part = (if 1 < length parts then Some (parts ! 1) else None);
         address = source_text (hd parts)
     in if t = [] then Inl (t, js ''empty entry'')
        else if 2 < length parts then Inl (t, js ''more than one '' @ [34, 47, 34])
        else if is_ipv4 address
        then (case read_prefix 2 32 prefix_part of
                None \<Rightarrow> Inl (t, js ''IPv4 prefix must be 0-32'')
              | Some p \<Rightarrow> if p = 0 then Inl (t, slash_zero)
                         else Inr (Rule4 address p (ipv4_number address AND mask4 p)))
        else (case ipv6_groups address of
                Some gs \<Rightarrow>
                  (case read_prefix 3 128 prefix_part of
                     None \<Rightarrow> Inl (t, js ''IPv6 prefix must be 0-128'')
                   | Some p \<Rightarrow> if p = 0 then Inl (t, slash_zero) else Inr (Rule6 address p gs))
              | None \<Rightarrow> Inl (t, not_a_literal t)))"

text \<open>The comparison of the groups, sixteen bits at a time until the prefix is used up.\<close>

fun match_groups :: "nat \<Rightarrow> 16 word list \<Rightarrow> 16 word list \<Rightarrow> bool" where
  "match_groups remaining (g # gs) (h # hs) =
    (if remaining = 0 then True
     else if 16 \<le> remaining then g = h \<and> match_groups (remaining - 16) gs hs
     else g AND push_bit (16 - remaining) 0xffff = h AND push_bit (16 - remaining) 0xffff)"
| "match_groups remaining _ _ = True"

definition mapped_groups :: "16 word list \<Rightarrow> bool" where
  "mapped_groups gs \<longleftrightarrow> list_all (\<lambda>g. g = 0) (take 5 gs) \<and> gs ! 5 = 0xffff"

definition match_ipv4 :: "jstr \<Rightarrow> nat \<Rightarrow> 32 word \<Rightarrow> bool" where
  "match_ipv4 address p network \<longleftrightarrow> ipv4_number address AND mask4 p = network"

definition address_matches_rule :: "jstr \<Rightarrow> source_rule \<Rightarrow> bool" where
  "address_matches_rule raw rule =
    (let address = source_text raw
     in if address = [] then False
        else case rule of
          Rule4 _ p network \<Rightarrow>
            if is_ipv4 address then match_ipv4 address p network
            else (case ipv6_groups address of
                    None \<Rightarrow> False
                  | Some gs \<Rightarrow> mapped_groups gs \<and> match_ipv4 (mapped_ipv4 gs) p network)
        | Rule6 _ p hs \<Rightarrow>
            (case ipv6_groups address of None \<Rightarrow> False | Some gs \<Rightarrow> match_groups p gs hs))"

definition address_matches_any :: "jstr \<Rightarrow> source_rule list \<Rightarrow> bool" where
  "address_matches_any raw rules \<longleftrightarrow> list_ex (address_matches_rule raw) rules"

subsection \<open>Leading bits\<close>

text \<open>The bits of a word from its highest, and the bits a rule compares.\<close>

definition word_bits :: "'a::len word \<Rightarrow> bool list" where
  "word_bits w = map (bit w) (rev [0..<LENGTH('a)])"

lemma length_word_bits [simp]: "length (word_bits (w :: 'a::len word)) = LENGTH('a)"
  by (simp add: word_bits_def)

lemma take_word_bits:
  "p \<le> LENGTH('a) \<Longrightarrow> take p (word_bits (w :: 'a::len word)) = map (bit w) (rev [LENGTH('a) - p..<LENGTH('a)])"
  by (simp add: word_bits_def take_map take_rev drop_upt)

lemma same_leading_bits:
  fixes v w :: "'a::len word"
  assumes "p \<le> LENGTH('a)"
  shows "v AND push_bit (LENGTH('a) - p) (- 1) = w AND push_bit (LENGTH('a) - p) (- 1)
    \<longleftrightarrow> take p (word_bits v) = take p (word_bits w)"
proof -
  have "v AND push_bit (LENGTH('a) - p) (- 1) = w AND push_bit (LENGTH('a) - p) (- 1)
      \<longleftrightarrow> (\<forall>i. LENGTH('a) - p \<le> i \<and> i < LENGTH('a) \<longrightarrow> bit v i = bit w i)"
    by (auto simp: bit_eq_iff bit_simps)
  then show ?thesis using assms by (auto simp: take_word_bits)
qed

lemma word_bits_eq_iff: "word_bits v = word_bits w \<longleftrightarrow> v = w"
  for v w :: "'a::len word"
  using same_leading_bits [of "LENGTH('a)" v w] by simp

lemma match_groups_leading:
  assumes "length gs = length hs"
  shows "match_groups p gs hs \<longleftrightarrow> take p (concat (map word_bits gs)) = take p (concat (map word_bits hs))"
  using assms
proof (induction p gs hs rule: match_groups.induct)
  case (1 p g gs h hs)
  consider "p = 0" | "16 \<le> p" | "0 < p" "p < 16" by linarith
  then show ?case
  proof cases
    case 2
    then show ?thesis using 1 by (simp add: word_bits_eq_iff)
  next
    case 3
    have e: "(0xffff :: 16 word) = - 1" by simp
    have "push_bit (16 - p) (0xffff :: 16 word) = NOT (mask (16 - p))" unfolding e by simp
    with 3 show ?thesis using same_leading_bits [of p g h] by simp
  qed simp
qed simp_all

lemma match_network_leading:
  assumes "p \<le> 32"
  shows "match_ipv4 a p (n AND mask4 p) \<longleftrightarrow> take p (word_bits (ipv4_number a)) = take p (word_bits n)"
proof -
  have e: "(0xffffffff :: 32 word) = - 1" by simp
  have "mask4 p = push_bit (32 - p) (- 1)" unfolding mask4_def e by simp
  then show ?thesis using same_leading_bits [of p "ipv4_number a" n] assms by (simp add: match_ipv4_def)
qed

text \<open>The number of a mapped address is made of its last two groups.\<close>

lemma unat_low_octet: "unat (g AND 255) = unat g mod 256" for g :: "16 word"
proof -
  have "g AND 255 = take_bit 8 g" by (simp add: take_bit_eq_mask mask_eq_exp_minus_1)
  then have "unat (g AND 255) = take_bit 8 (unat g)" by (simp only: unsigned_take_bit_eq)
  then show ?thesis by (simp add: take_bit_eq_mod)
qed

lemma unat_high_octet: "unat (drop_bit 8 g AND 255) = unat g div 256" for g :: "16 word"
proof -
  have "unat g < 65536" using unsigned_less [of g, where ?'a = nat] by simp
  moreover have "unat (drop_bit 8 g) = unat g div 256"
    by (simp only: unat_drop_bit_eq) (simp add: drop_bit_eq_div)
  ultimately show ?thesis by (simp only: unat_low_octet) simp
qed

lemma ipv4_number_mapped: "ipv4_number (mapped_ipv4 gs) = of_nat (65536 * unat (gs ! 6) + unat (gs ! 7))"
proof -
  have num: "((of_nat (x div 256) * 256 + of_nat (x mod 256)) * 256 + of_nat (y div 256)) * 256 + of_nat (y mod 256)
      = (of_nat (65536 * x + y) :: 32 word)" for x y :: nat
  proof -
    have "((a * 256 + b) * 256 + c) * 256 + d = 65536 * (a * 256 + b) + (c * 256 + d)" for a b c d :: nat
      by simp
    from this [of "x div 256" "x mod 256" "y div 256" "y mod 256"]
    have "((x div 256 * 256 + x mod 256) * 256 + y div 256) * 256 + y mod 256 = 65536 * x + y"
      by (simp only: div_mult_mod_eq)
    from arg_cong [OF this, of "of_nat :: nat \<Rightarrow> 32 word"]
    show ?thesis by (simp only: of_nat_add of_nat_mult of_nat_numeral)
  qed
  have "octets (mapped_ipv4 gs) = [unat (drop_bit 8 (gs ! 6) AND 255), unat (gs ! 6 AND 255),
      unat (drop_bit 8 (gs ! 7) AND 255), unat (gs ! 7 AND 255)]"
    by (simp only: mapped_ipv4_def octets_dotted [OF list.distinct(2)] list.map)
  also have "\<dots> = [unat (gs ! 6) div 256, unat (gs ! 6) mod 256, unat (gs ! 7) div 256, unat (gs ! 7) mod 256]"
    by (simp only: unat_high_octet) (simp only: unat_low_octet)
  finally show ?thesis unfolding ipv4_number_def
    using num [of "unat (gs ! 6)" "unat (gs ! 7)"] by (simp only: foldl_Cons foldl_Nil mult_zero_left add_0_left)
qed

lemma word_bits_of_nat:
  "word_bits (of_nat n :: 32 word) = map (\<lambda>j. bit n (16 + j)) (rev [0..<16]) @ map (bit n) (rev [0..<16])"
proof -
  have "bit (of_nat n :: 32 word) i \<longleftrightarrow> i < 32 \<and> bit n i" for i
  proof -
    have "bit (of_nat n :: 32 word) i = bit (unat (of_nat n :: 32 word)) i"
      using bit_imp_le_length [of "of_nat n :: 32 word" i] by (auto simp: bit_unsigned_iff)
    also have "unat (of_nat n :: 32 word) = take_bit 32 n" by (simp only: unsigned_of_nat) simp
    finally show ?thesis by (simp add: bit_take_bit_iff)
  qed
  moreover have "[0..<32] = [0..<16] @ map ((+) 16) [0..<16]" by (simp add: upt_rec)
  ultimately show ?thesis unfolding word_bits_def by (simp add: rev_map del: upt_rec_numeral)
qed

lemma word_bits_two_groups:
  "word_bits (of_nat (65536 * unat g + unat h) :: 32 word) = word_bits g @ word_bits h" for g h :: "16 word"
proof -
  let ?n = "65536 * unat g + unat h"
  have h: "unat h < 65536" using unsigned_less [of h, where ?'a = nat] by simp
  have low: "bit ?n i = bit h i" if "i < 16" for i
  proof -
    have "take_bit 16 ?n = unat h" using h by (simp add: take_bit_eq_mod)
    then have "bit ?n i = bit (unat h) i" using that by (metis bit_take_bit_iff)
    then show ?thesis using that by (simp add: bit_unsigned_iff)
  qed
  have high: "bit ?n (16 + j) = bit g j" for j
  proof -
    have "drop_bit 16 ?n = unat g" using h by (simp add: drop_bit_eq_div)
    then have "bit ?n (16 + j) = bit (unat g) j" by (metis bit_drop_bit_eq comp_apply)
    then show ?thesis using bit_imp_le_length [of g j] by (auto simp: bit_unsigned_iff)
  qed
  show ?thesis unfolding word_bits_of_nat using low high by (simp add: word_bits_def)
qed

lemma word_bits_mapped:
  assumes "length gs = 8"
  shows "word_bits (ipv4_number (mapped_ipv4 gs)) = concat (map word_bits (drop 6 gs))"
proof -
  have "drop 6 gs = [gs ! 6, gs ! 7]" using assms by (simp flip: Cons_nth_drop_Suc)
  then show ?thesis by (simp add: ipv4_number_mapped word_bits_two_groups del: of_nat_add of_nat_mult)
qed

subsection \<open>What a rule stands for\<close>

text \<open>
  The bits of a literal as a rule of its family sees them: 32 for an IPv4 rule, which also reads the
  last two groups of a mapped address, 128 for an IPv6 rule.
\<close>

fun peer_bits :: "source_rule \<Rightarrow> jstr \<Rightarrow> bool list option" where
  "peer_bits (Rule4 _ _ _) s =
    (if is_ipv4 s then Some (word_bits (ipv4_number s))
     else case ipv6_groups s of
       None \<Rightarrow> None
     | Some gs \<Rightarrow> if mapped_groups gs then Some (concat (map word_bits (drop 6 gs))) else None)"
| "peer_bits (Rule6 _ _ _) s = map_option (\<lambda>gs. concat (map word_bits gs)) (ipv6_groups s)"

definition covers :: "source_rule \<Rightarrow> jstr \<Rightarrow> bool" where
  "covers rule s =
    (case (peer_bits rule s, peer_bits rule (rule_address rule)) of
       (Some bs, Some cs) \<Rightarrow> take (rule_prefix rule) bs = take (rule_prefix rule) cs
     | _ \<Rightarrow> False)"

fun rule_ok :: "source_rule \<Rightarrow> bool" where
  "rule_ok (Rule4 a p n) \<longleftrightarrow> is_ipv4 a \<and> 1 \<le> p \<and> p \<le> 32 \<and> n = ipv4_number a AND mask4 p"
| "rule_ok (Rule6 a p gs) \<longleftrightarrow> ipv6_groups a = Some gs \<and> 1 \<le> p \<and> p \<le> 128"

lemma read_prefix_le: "read_prefix d m part = Some p \<Longrightarrow> p \<le> m"
  by (auto simp: read_prefix_def split: option.splits if_splits)

lemma parsed_rule_ok: "parse_source_rule e = Inr rule \<Longrightarrow> rule_ok rule"
  by (auto simp: parse_source_rule_def Let_def Suc_le_eq dest: read_prefix_le split: if_splits option.splits)

lemma empty_not_literal: "\<not> is_ipv4 []" "ipv6_groups [] = None"
  by (simp_all add: is_ipv4_def dotted_quad_def ipv6_groups_def)

lemma matches_iff_covers:
  assumes "rule_ok rule"
  shows "address_matches_rule raw rule \<longleftrightarrow> covers rule (source_text raw)"
proof (cases rule)
  case (Rule4 a p n)
  with assms have n: "n = ipv4_number a AND mask4 p" "p \<le> 32" "is_ipv4 a" by auto
  show ?thesis
  proof (cases "ipv6_groups (source_text raw)")
    case (Some gs)
    then have "length gs = 8" by (rule ipv6_groups_length)
    then show ?thesis using Rule4 n Some word_bits_mapped [of gs]
      by (auto simp: address_matches_rule_def covers_def Let_def match_network_leading empty_not_literal)
  qed (use Rule4 n in \<open>auto simp: address_matches_rule_def covers_def Let_def match_network_leading empty_not_literal\<close>)
next
  case (Rule6 a p hs)
  with assms have hs: "ipv6_groups a = Some hs" by simp
  then have "length hs = 8" by (rule ipv6_groups_length)
  then show ?thesis using Rule6 hs ipv6_groups_length [of "source_text raw"]
    by (auto simp: address_matches_rule_def covers_def Let_def match_groups_leading empty_not_literal split: option.splits)
qed

text \<open>
  An entry that is accepted as a rule has a prefix between 1 and the width of its family, and
  the rule lets exactly the addresses through whose leading bits, as many as the prefix says, are
  those of the address of the rule; an IPv4 rule reads an IPv4-mapped address as its last 32 bits.
  The masks and the loop over the groups compute no more and no less than that.
\<close>
theorem rules_compare_leading_bits:
  assumes "parse_source_rule e = Inr rule"
  shows "1 \<le> rule_prefix rule \<and> peer_bits rule (rule_address rule) \<noteq> None \<and>
    address_matches_rule raw rule = covers rule (source_text raw)"
  using parsed_rule_ok [OF assms] matches_iff_covers [OF parsed_rule_ok [OF assms]] by (cases rule) auto

lemma rules_compare_leading_bits_witness:
  "parse_source_rule (Str (js ''192.168.88.0/23'')) = Inr (Rule4 (js ''192.168.88.0'') 23 0xC0A85800)
   \<and> address_matches_rule (js ''::ffff:192.168.89.11'') (Rule4 (js ''192.168.88.0'') 23 0xC0A85800)
   \<and> covers (Rule4 (js ''192.168.88.0'') 23 0xC0A85800) (js ''192.168.89.11'')"
proof -
  let ?r = "Rule4 (js ''192.168.88.0'') 23 0xC0A85800"
  have p: "parse_source_rule (Str (js ''192.168.88.0/23'')) = Inr ?r" by code_simp
  have m: "address_matches_rule (js ''::ffff:192.168.89.11'') ?r" by code_simp
  have "source_text (js ''::ffff:192.168.89.11'') = js ''192.168.89.11''" by code_simp
  with rules_compare_leading_bits [OF p, of "js ''::ffff:192.168.89.11''"] p m show ?thesis by simp
qed

text \<open>A mapped address spelled in hexadecimal loses its prefix and is no literal any more.\<close>

lemma hex_mapped_is_unknown:
  "classify_address (js ''::ffff:c0a8:580b'') = Unknown \<and> classify_address (js ''::ffff:192.168.88.11'') = Private
   \<and> \<not> is_address_literal (js ''::ffff:c0a8:580b'')"
  by code_simp

end
