(* ===== verification/InboundAccess.thy ===== *)
theory InboundAccess
  imports NetAddress JsDate
begin

text \<open>
  The rest of \<open>isapi-bridge/network-access-control.mjs\<close>: public terminal endpoints, bind
  addresses, the allowlist derived from the configured terminals, shared secrets, and the controller
  both listeners of the bridge share. One reading of the clock serves a whole request; SHA-256 is the
  parameter \<open>sha\<close>; the log sink is output only and is left out.
\<close>

definition falsy_text :: "jval \<Rightarrow> jstr" where
  "falsy_text v = (if truthy v then to_string v else [])"

definition dash :: jstr where "dash = [8212]"

subsection \<open>Public endpoints\<close>

record endpoint_ack =
  ea_acknowledged :: bool
  ea_by :: "jstr option"
  ea_at :: "jstr option"
  ea_note :: "jstr option"

definition ack_text :: "jval \<Rightarrow> jstr option" where
  "ack_text v = (case v of Str s \<Rightarrow> if trim s = [] then None else Some (trim s) | _ \<Rightarrow> None)"

definition read_public_endpoint :: "jval \<Rightarrow> endpoint_ack" where
  "read_public_endpoint device =
    (let raw = (if is_object device
                then nullish_or (get_prop device (js ''publicEndpoint'')) (get_prop device (js ''public_endpoint''))
                else Null)
     in if \<not> is_object raw
        then \<lparr>ea_acknowledged = False, ea_by = None, ea_at = None, ea_note = None\<rparr>
        else \<lparr>ea_acknowledged = (get_prop raw (js ''acknowledged'') = Bool True),
              ea_by = ack_text (nullish_or (get_prop raw (js ''acknowledgedBy'')) (get_prop raw (js ''by''))),
              ea_at = ack_text (nullish_or (get_prop raw (js ''acknowledgedAt'')) (get_prop raw (js ''at''))),
              ea_note = ack_text (nullish_or (get_prop raw (js ''note'')) (get_prop raw (js ''reason'')))\<rparr>)"

definition public_host :: "jval \<Rightarrow> bool" where
  "public_host candidate \<longleftrightarrow>
    (let host = trim (falsy_text candidate)
     in host \<noteq> [] \<and> is_address_literal host \<and> classify_address host = Public)"

definition device_is_public_endpoint :: "jval \<Rightarrow> bool" where
  "device_is_public_endpoint device \<longleftrightarrow>
    list_ex (\<lambda>k. public_host (get_prop device (js k))) [''isapiHost'', ''sdkHost'', ''sdk_host'']"

definition public_endpoint_risks :: "jstr \<Rightarrow> jstr \<Rightarrow> jstr \<Rightarrow> jstr list" where
  "public_endpoint_risks protocol host port =
    (let scheme = lower protocol in
     [js ''the terminal answers for itself at '' @ host @ js '':'' @ port @ js '' '' @ dash
        @ js '' no allowlist, shared secret or rate limit on the agent host can limit who reaches it'',
      js ''the terminal's admin interface is on the same address: a firmware default or a reused password is a gate opening'',
      (if scheme = js ''hik_sdk'' \<or> scheme = js ''sdk''
       then js ''the SDK protocol is not TLS: the vendor library protects the password with its own challenge/response, but card numbers and events travel in Hikvision's binary framing across a network nobody here controls''
       else if scheme \<noteq> js ''https''
       then js ''ISAPI Digest credentials and every card number cross the public Internet in cleartext''
       else js ''TLS protects the path, but the terminal's certificate must be trusted on the agent host or the connection is unauthenticated''),
      js ''the estate's uptime now depends on somebody else's router rule: keep an agent on the LAN as the exit plan''])"

subsection \<open>Bind addresses\<close>

datatype bind_class = BindLoopback | BindWildcard | BindPublic | BindPrivate | BindHostname

definition loopback_binds :: "jstr list" where
  "loopback_binds = [js ''127.0.0.1'', js ''::1'', js ''localhost'']"

definition wildcard_binds :: "jstr list" where
  "wildcard_binds = [js ''0.0.0.0'', js ''::'', js ''*'', []]"

definition classify_bind_address :: "jval \<Rightarrow> bind_class" where
  "classify_bind_address raw =
    (let t = lower (trim (to_string_or_empty raw))
     in if t \<in> set loopback_binds then BindLoopback
        else if t \<in> set wildcard_binds then BindWildcard
        else if is_address_literal t then (if classify_address t = Public then BindPublic else BindPrivate)
        else BindHostname)"

definition bind_is_reachable_beyond_host :: "jval \<Rightarrow> bool" where
  "bind_is_reachable_beyond_host raw \<longleftrightarrow> classify_bind_address raw \<noteq> BindLoopback"

record bind_assessment =
  ba_class :: bind_class
  ba_reachable :: bool
  ba_warnings :: "jstr list"

definition bind_warnings :: "bind_class \<Rightarrow> jval \<Rightarrow> jval \<Rightarrow> jstr \<Rightarrow> bool \<Rightarrow> jstr list" where
  "bind_warnings c bind_address port name enforcing =
    (case c of
       BindWildcard \<Rightarrow>
         [name @ js '' is bound to every interface on port '' @ to_string port
          @ js ''. Anything the router forwards inward reaches it, ''
          @ (if enforcing then js ''and only an allowlisted source is accepted.''
             else js ''and no source allowlist is in force '' @ dash @ js '' set one.'')]
     | BindPublic \<Rightarrow>
         [name @ js '' is bound to the public address '' @ to_string bind_address @ js '':'' @ to_string port
          @ js ''. That is an Internet listener; stop and use the Cloudflare Tunnel kit instead (docs/CLOUDFLARE-TUNNEL-REMOTE-ACCESS.md).'']
     | BindHostname \<Rightarrow>
         [name @ js '' is bound to '' @ [34] @ to_string bind_address @ [34]
          @ js '', which is not an address literal; the resolved address decides how reachable this port is.'']
     | _ \<Rightarrow> [])"

definition assess_bind_address :: "jval \<Rightarrow> jval \<Rightarrow> jstr \<Rightarrow> bool \<Rightarrow> bind_assessment" where
  "assess_bind_address bind_address port name enforcing =
    (let c = classify_bind_address bind_address
     in \<lparr>ba_class = c, ba_reachable = (c \<noteq> BindLoopback),
         ba_warnings = bind_warnings c bind_address port name enforcing\<rparr>)"

subsection \<open>The allowlist derived from the terminals\<close>

record derived_sources =
  ds_sources :: "jstr list"
  ds_invalid :: "refused_rule list"
  ds_missing :: "(jstr \<times> jstr) list"

definition ds_complete :: "derived_sources \<Rightarrow> bool" where
  "ds_complete d \<longleftrightarrow> ds_missing d = []"

definition add_source :: "jval \<Rightarrow> jstr list \<Rightarrow> jstr list" where
  "add_source entry sources =
    (case parse_source_rule entry of
       Inl _ \<Rightarrow> sources
     | Inr rule \<Rightarrow> if rule_text rule \<in> set sources then sources else sources @ [rule_text rule])"

definition derive_explicit :: "jval \<Rightarrow> derived_sources \<Rightarrow> derived_sources" where
  "derive_explicit entry d =
    (let d' = d\<lparr>ds_sources := add_source entry (ds_sources d)\<rparr>
     in case parse_source_rule entry of Inl r \<Rightarrow> d'\<lparr>ds_invalid := ds_invalid d @ [r]\<rparr> | Inr _ \<Rightarrow> d')"

definition device_host :: "jval \<Rightarrow> jstr" where
  "device_host device = trim (to_string_or_empty (nullish_or (get_prop device (js ''isapiHost'')) (get_prop device (js ''host''))))"

definition serves :: "jval \<Rightarrow> bool" where
  "serves device \<longleftrightarrow> truthy device \<and> get_prop device (js ''enabled'') \<noteq> Bool False \<and> device_host device \<noteq> []"

definition derive_device :: "jval \<Rightarrow> derived_sources \<Rightarrow> derived_sources" where
  "derive_device device d =
    (if \<not> serves device then d
     else let host = device_host device
       in if \<not> is_address_literal host
          then d\<lparr>ds_missing := ds_missing d @ [(to_string (nullish_or (get_prop device (js ''name'')) (Str host)), host)]\<rparr>
          else d\<lparr>ds_sources := add_source (Str host) (ds_sources d)\<rparr>)"

fun elements :: "jval \<Rightarrow> jval list" where
  "elements (Arr vs) = vs"
| "elements _ = []"

definition derive_inbound_sources :: "jval \<Rightarrow> jval \<Rightarrow> derived_sources" where
  "derive_inbound_sources devices explicit =
    fold derive_device (elements devices)
      (fold derive_explicit (elements explicit) \<lparr>ds_sources = [], ds_invalid = [], ds_missing = []\<rparr>)"

subsection \<open>Secrets\<close>

definition default_secret_headers :: "jstr list" where
  "default_secret_headers = [js ''x-estatemate-terminal-key'', js ''x-estatemate-agent-key'', js ''x-estatemate-key'']"

definition secrets_match :: "(jstr \<Rightarrow> 'd) \<Rightarrow> jstr \<Rightarrow> jstr \<Rightarrow> bool" where
  "secrets_match sha presented expected \<longleftrightarrow> sha presented = sha expected"

definition header_secret :: "jval \<Rightarrow> jstr \<Rightarrow> jstr" where
  "header_secret headers name =
    trim (to_string_or_empty (nullish_or (get_prop headers name) (get_prop headers (lower name))))"

definition secret_from_headers :: "jval \<Rightarrow> jstr list \<Rightarrow> jstr" where
  "secret_from_headers headers names =
    coalesce (List.find (\<lambda>s. s \<noteq> []) (map (header_secret headers) names)) []"

subsection \<open>The controller\<close>

text \<open>
  The options, after their defaults. \<open>ic_max\<close> is \<open>None\<close> when the option is not a finite
  number, else its value truncated to an integer.
\<close>

record inbound_config =
  ic_name :: jstr
  ic_sources :: jval
  ic_allow_unknown :: bool
  ic_allow_loopback :: bool
  ic_require_secret :: bool
  ic_secret :: jstr
  ic_headers :: "jstr list"
  ic_max :: "int option"

definition default_inbound :: inbound_config where
  "default_inbound = \<lparr>ic_name = js ''inbound listener'', ic_sources = Arr [], ic_allow_unknown = False,
     ic_allow_loopback = True, ic_require_secret = False, ic_secret = [],
     ic_headers = default_secret_headers, ic_max = Some 600\<rparr>"

definition source_separator :: "nat \<Rightarrow> bool" where
  "source_separator c \<longleftrightarrow> c = 44 \<or> is_ws c"

fun split_sources :: "jstr \<Rightarrow> jstr list" where
  "split_sources [] = [[]]"
| "split_sources (c # s) =
    (if source_separator c then [] # split_sources s
     else (case split_sources s of [] \<Rightarrow> [[c]] | w # ws \<Rightarrow> (c # w) # ws))"

fun source_entries :: "jval \<Rightarrow> jval list" where
  "source_entries (Arr vs) = vs"
| "source_entries v = map Str (filter (\<lambda>w. w \<noteq> []) (split_sources (falsy_text v)))"

definition rules_of :: "jval \<Rightarrow> source_rule list" where
  "rules_of v = concat (map (\<lambda>e. case parse_source_rule e of Inl _ \<Rightarrow> [] | Inr r \<Rightarrow> [r]) (source_entries v))"

definition invalid_of :: "jval \<Rightarrow> refused_rule list" where
  "invalid_of v = concat (map (\<lambda>e. case parse_source_rule e of Inl r \<Rightarrow> [r] | Inr _ \<Rightarrow> []) (source_entries v))"

definition rate_limit :: "int option \<Rightarrow> nat" where
  "rate_limit m = (case m of None \<Rightarrow> 600 | Some i \<Rightarrow> nat (max 0 i))"

record controller =
  c_config :: inbound_config
  c_rules :: "source_rule list"
  c_invalid :: "refused_rule list"
  c_enforcing :: bool
  c_limit :: nat

definition create_inbound :: "inbound_config \<Rightarrow> controller" where
  "create_inbound cfg =
    \<lparr>c_config = cfg, c_rules = rules_of (ic_sources cfg), c_invalid = invalid_of (ic_sources cfg),
     c_enforcing = (rules_of (ic_sources cfg) \<noteq> [] \<and> \<not> ic_allow_unknown cfg),
     c_limit = rate_limit (ic_max cfg)\<rparr>"

datatype denial_code = DeniedSource | DeniedSecret | Throttled

record denial =
  de_at :: int
  de_source :: jstr
  de_code :: denial_code
  de_status :: nat
  de_reason :: jstr
  de_method :: jstr
  de_path :: jstr

record gate =
  g_requests :: nat
  g_allowed :: nat
  g_denied_source :: nat
  g_denied_secret :: nat
  g_throttled :: nat
  g_last :: "(int \<times> jstr \<times> denial_code) option"
  g_denials :: "denial list"
  g_windows :: "jstr \<rightharpoonup> nat \<times> int"

definition new_gate :: gate where
  "new_gate = \<lparr>g_requests = 0, g_allowed = 0, g_denied_source = 0, g_denied_secret = 0, g_throttled = 0,
     g_last = None, g_denials = [], g_windows = Map.empty\<rparr>"

record inbound_request =
  rq_ip :: jval
  rq_remote :: jval
  rq_headers :: jval
  rq_presented :: jval
  rq_method :: jval
  rq_url :: jval

datatype verdict =
    Admitted jstr
  | Turned_away nat denial_code jstr jstr

definition count_denial :: "denial_code \<Rightarrow> gate \<Rightarrow> gate" where
  "count_denial code g =
    (case code of
       DeniedSource \<Rightarrow> g\<lparr>g_denied_source := g_denied_source g + 1\<rparr>
     | DeniedSecret \<Rightarrow> g\<lparr>g_denied_secret := g_denied_secret g + 1\<rparr>
     | Throttled \<Rightarrow> g\<lparr>g_throttled := g_throttled g + 1\<rparr>)"

definition unknown_source :: "jstr \<Rightarrow> jstr" where
  "unknown_source source = (if source = [] then js ''unknown'' else source)"

definition keep_last :: "nat \<Rightarrow> 'a list \<Rightarrow> 'a list" where
  "keep_last n xs = drop (length xs - n) xs"

definition record_denial ::
  "int \<Rightarrow> jstr \<Rightarrow> denial_code \<Rightarrow> nat \<Rightarrow> jstr \<Rightarrow> inbound_request \<Rightarrow> gate \<Rightarrow> verdict \<times> gate" where
  "record_denial now source code status reason req g =
    (let s = unknown_source source;
         d = \<lparr>de_at = now, de_source = s, de_code = code, de_status = status, de_reason = reason,
              de_method = take 8 (upper (to_string_or_empty (rq_method req))),
              de_path = take 200 (hd (split_on 63 (to_string_or_empty (rq_url req))))\<rparr>
     in (Turned_away status code reason s,
         (count_denial code g)\<lparr>g_last := Some (now, s, code), g_denials := keep_last 50 (g_denials g @ [d])\<rparr>))"

definition within_budget :: "nat \<Rightarrow> int \<Rightarrow> jstr \<Rightarrow> gate \<Rightarrow> bool \<times> gate" where
  "within_budget limit now source g =
    (if limit = 0 then (True, g)
     else case g_windows g source of
       None \<Rightarrow> (True, g\<lparr>g_windows := (g_windows g)(source \<mapsto> (1, now))\<rparr>)
     | Some (count, started) \<Rightarrow>
         if 60000 \<le> now - started then (True, g\<lparr>g_windows := (g_windows g)(source \<mapsto> (1, now))\<rparr>)
         else (count + 1 \<le> limit, g\<lparr>g_windows := (g_windows g)(source \<mapsto> (count + 1, started))\<rparr>))"

definition request_source :: "inbound_request \<Rightarrow> jstr" where
  "request_source req = normalize_source_address (nullish_or (rq_ip req) (rq_remote req))"

definition presented_secret :: "controller \<Rightarrow> inbound_request \<Rightarrow> jstr" where
  "presented_secret c req =
    (if nullish (rq_presented req) then secret_from_headers (rq_headers req) (ic_headers (c_config c))
     else trim (to_string (rq_presented req)))"

definition source_refused :: "controller \<Rightarrow> jstr \<Rightarrow> bool" where
  "source_refused c source \<longleftrightarrow>
    \<not> (classify_address source = Loopback \<and> ic_allow_loopback (c_config c))
    \<and> c_enforcing c \<and> \<not> address_matches_any source (c_rules c)"

definition decide :: "(jstr \<Rightarrow> 'd) \<Rightarrow> controller \<Rightarrow> int \<Rightarrow> inbound_request \<Rightarrow> gate \<Rightarrow> verdict \<times> gate" where
  "decide sha c now req g0 =
    (let source = request_source req; cfg = c_config c; g = g0\<lparr>g_requests := g_requests g0 + 1\<rparr>
     in if source = [] \<or> classify_address source = Unknown
        then record_denial now source DeniedSource 403 (js ''no readable source address'') req g
        else if source_refused c source
        then record_denial now source DeniedSource 403 (js ''source address is not in the allowlist'') req g
        else if ic_require_secret cfg \<and> ic_secret cfg = []
        then record_denial now source DeniedSecret 401 (js ''no shared secret is configured on this listener'') req g
        else if ic_require_secret cfg \<and> \<not> secrets_match sha (presented_secret c req) (ic_secret cfg)
        then record_denial now source DeniedSecret 401 (js ''missing or wrong shared secret'') req g
        else case within_budget (c_limit c) now source g of
          (False, g') \<Rightarrow> record_denial now source Throttled 429 (js ''too many requests from this source'') req g'
        | (True, g') \<Rightarrow> (Admitted source, g'\<lparr>g_allowed := g_allowed g' + 1\<rparr>))"

definition reset_rate_limits :: "gate \<Rightarrow> gate" where
  "reset_rate_limits g = g\<lparr>g_windows := Map.empty\<rparr>"

definition describe :: "controller \<Rightarrow> jstr" where
  "describe c =
    (let scope = (if c_enforcing c
                  then js ''allowing '' @ show_nat (length (c_rules c)) @ js '' source rule(s): ''
                       @ join (js '', '') (map rule_text (c_rules c))
                  else if c_rules c \<noteq> []
                  then js ''advisory only (allowUnknownSources) '' @ dash @ js '' any source that can reach this port is accepted''
                  else js ''no source allowlist '' @ dash @ js '' any source that can reach this port is accepted'')
     in ic_name (c_config c) @ js '': '' @ scope @ js ''; shared secret ''
        @ (if ic_require_secret (c_config c) then js ''required'' else js ''not required'') @ js ''; rate limit ''
        @ (if c_limit c \<noteq> 0 then show_nat (c_limit c) @ js ''/min per source'' else js ''off''))"

definition code_text :: "denial_code \<Rightarrow> jstr" where
  "code_text code = (case code of DeniedSource \<Rightarrow> js ''deniedSource'' | DeniedSecret \<Rightarrow> js ''deniedSecret'' | Throttled \<Rightarrow> js ''throttled'')"

definition denial_value :: "denial \<Rightarrow> jval" where
  "denial_value d = Obj
    [(js ''at'', Str (iso_string (de_at d))), (js ''source'', Str (de_source d)), (js ''code'', Str (code_text (de_code d))),
     (js ''status'', Num (int (de_status d))), (js ''reason'', Str (de_reason d)), (js ''method'', Str (de_method d)),
     (js ''path'', Str (de_path d))]"

definition summary :: "controller \<Rightarrow> gate \<Rightarrow> jval" where
  "summary c g = Obj
    [(js ''enforcing'', Bool (c_enforcing c)),
     (js ''sources'', Arr (map (\<lambda>r. Str (rule_text r)) (c_rules c))),
     (js ''ignoredRules'', Arr (map (\<lambda>r. Str (fst r)) (c_invalid c))),
     (js ''requireSecret'', Bool (ic_require_secret (c_config c))),
     (js ''rateLimitPerMinute'', Num (int (c_limit c))),
     (js ''allowLoopback'', Bool (ic_allow_loopback (c_config c))),
     (js ''requests'', Num (int (g_requests g))), (js ''allowed'', Num (int (g_allowed g))),
     (js ''deniedSource'', Num (int (g_denied_source g))), (js ''deniedSecret'', Num (int (g_denied_secret g))),
     (js ''throttled'', Num (int (g_throttled g))),
     (js ''lastDeniedAt'', case g_last g of None \<Rightarrow> Null | Some (t, _, _) \<Rightarrow> Str (iso_string t)),
     (js ''lastDeniedSource'', case g_last g of None \<Rightarrow> Null | Some (_, s, _) \<Rightarrow> Str s),
     (js ''lastDeniedCode'', case g_last g of None \<Rightarrow> Null | Some (_, _, k) \<Rightarrow> Str (code_text k)),
     (js ''recentDenials'', Arr (map denial_value (keep_last 5 (g_denials g))))]"

subsection \<open>What an admitted request went through\<close>

lemma record_denial_simps [simp]:
  "fst (record_denial now source code status reason req g) = Turned_away status code reason (unknown_source source)"
  "g_windows (snd (record_denial now source code status reason req g)) = g_windows g"
  "g_denials (snd (record_denial now source code status reason req g)) = keep_last 50
     (g_denials g @ [\<lparr>de_at = now, de_source = unknown_source source, de_code = code, de_status = status,
        de_reason = reason, de_method = take 8 (upper (to_string_or_empty (rq_method req))),
        de_path = take 200 (hd (split_on 63 (to_string_or_empty (rq_url req))))\<rparr>])"
  by (cases code; simp add: record_denial_def count_denial_def Let_def)+

lemma record_denial_not_admitted [simp]: "record_denial now source code status reason req g \<noteq> (Admitted s, g')"
  by (simp add: record_denial_def Let_def)

text \<open>What remains of the budget of a source at an instant.\<close>

definition budget_left :: "controller \<Rightarrow> int \<Rightarrow> jstr \<Rightarrow> gate \<Rightarrow> bool" where
  "budget_left c now source g \<longleftrightarrow>
    c_limit c = 0 \<or> (case g_windows g source of None \<Rightarrow> True | Some (k, started) \<Rightarrow> 60000 \<le> now - started \<or> k < c_limit c)"

lemma within_budget_left: "fst (within_budget (c_limit c) now source g) \<longleftrightarrow> budget_left c now source g"
  by (auto simp: within_budget_def budget_left_def split: option.splits)

lemma source_let_through:
  "\<not> source_refused c source \<longleftrightarrow>
    classify_address source = Loopback \<and> ic_allow_loopback (c_config c)
    \<or> (c_enforcing c \<longrightarrow> (\<exists>rule\<in>set (c_rules c). address_matches_rule source rule))"
  by (auto simp: source_refused_def address_matches_any_def list_ex_iff)

lemma created_rules_ok: "rule \<in> set (c_rules (create_inbound cfg)) \<Longrightarrow> rule_ok rule"
  by (auto simp: create_inbound_def rules_of_def intro: parsed_rule_ok split: sum.splits)

lemma admitted_iff:
  "fst (decide sha c now req g) = Admitted s \<longleftrightarrow>
    s = request_source req \<and> s \<noteq> [] \<and> classify_address s \<noteq> Unknown \<and> \<not> source_refused c s
    \<and> (ic_require_secret (c_config c) \<longrightarrow>
         ic_secret (c_config c) \<noteq> [] \<and> sha (presented_secret c req) = sha (ic_secret (c_config c)))
    \<and> budget_left c now s g"
proof -
  have b: "fst (within_budget (c_limit c) now s (g\<lparr>g_requests := n\<rparr>)) = budget_left c now s g" for n s
    by (simp add: within_budget_left) (simp add: budget_left_def)
  show ?thesis
    using b [of "request_source req" "g_requests g + 1"]
    by (auto simp: decide_def Let_def secrets_match_def split: prod.splits bool.splits)
qed

text \<open>
  C29: a request the controller admits comes from a readable address that is the host itself,
  where that is allowed, or, when the allowlist is enforced, whose leading bits are those of one of
  its rules; it presented the shared secret where one is required, an unset secret admitting nobody;
  and its source had budget left. Nothing else is admitted, and everything of that kind is.
\<close>
theorem admitted_exactly_when_every_check_passes:
  "(fst (decide sha (create_inbound cfg) now req g) = Admitted s) =
    (s = request_source req \<and> s \<noteq> [] \<and> classify_address s \<noteq> Unknown
     \<and> (if classify_address s = Loopback \<and> ic_allow_loopback cfg then True
         else if rules_of (ic_sources cfg) = [] \<or> ic_allow_unknown cfg then True
         else list_ex (\<lambda>rule. covers rule (source_text s)) (rules_of (ic_sources cfg)))
     \<and> (if ic_require_secret cfg
         then ic_secret cfg \<noteq> [] \<and> sha (presented_secret (create_inbound cfg) req) = sha (ic_secret cfg) else True)
     \<and> budget_left (create_inbound cfg) now s g)"
proof -
  let ?c = "create_inbound cfg"
  have "address_matches_rule s rule = covers rule (source_text s)" if "rule \<in> set (rules_of (ic_sources cfg))" for rule
    using that created_rules_ok [of rule cfg] by (intro matches_iff_covers) (simp add: create_inbound_def)
  then have "list_ex (address_matches_rule s) (rules_of (ic_sources cfg))
      = list_ex (\<lambda>rule. covers rule (source_text s)) (rules_of (ic_sources cfg))"
    by (auto simp: list_ex_iff)
  then have "source_refused ?c s \<longleftrightarrow>
      \<not> (if classify_address s = Loopback \<and> ic_allow_loopback cfg then True
         else if rules_of (ic_sources cfg) = [] \<or> ic_allow_unknown cfg then True
         else list_ex (\<lambda>rule. covers rule (source_text s)) (rules_of (ic_sources cfg)))"
    by (auto simp: source_refused_def create_inbound_def address_matches_any_def)
  then show ?thesis by (auto simp: admitted_iff create_inbound_def)
qed

subsection \<open>The rate limit\<close>

fun serve_all :: "(jstr \<Rightarrow> 'd) \<Rightarrow> controller \<Rightarrow> (int \<times> inbound_request) list \<Rightarrow> gate \<Rightarrow> verdict list \<times> gate" where
  "serve_all sha c [] g = ([], g)"
| "serve_all sha c ((now, req) # rs) g =
    (case decide sha c now req g of
       (v, g') \<Rightarrow> (case serve_all sha c rs g' of (vs, g'') \<Rightarrow> (v # vs, g'')))"

definition admissions :: "jstr \<Rightarrow> verdict list \<Rightarrow> nat" where
  "admissions s vs = length (filter (\<lambda>v. v = Admitted s) vs)"

lemma admissions_simps [simp]:
  "admissions s [] = 0"
  "admissions s (v # vs) = (if v = Admitted s then 1 else 0) + admissions s vs"
  by (simp_all add: admissions_def)

lemma decide_cases:
  obtains (refused) code status reason where
      "decide sha c now req g = record_denial now (request_source req) code status reason req (g\<lparr>g_requests := g_requests g + 1\<rparr>)"
    | (spent) g1 where "within_budget (c_limit c) now (request_source req) (g\<lparr>g_requests := g_requests g + 1\<rparr>) = (False, g1)"
      "decide sha c now req g = record_denial now (request_source req) Throttled 429 (js ''too many requests from this source'') req g1"
    | (admitted) g1 where "within_budget (c_limit c) now (request_source req) (g\<lparr>g_requests := g_requests g + 1\<rparr>) = (True, g1)"
      "decide sha c now req g = (Admitted (request_source req), g1\<lparr>g_allowed := g_allowed g1 + 1\<rparr>)"
proof -
  obtain b g1 where w: "within_budget (c_limit c) now (request_source req) (g\<lparr>g_requests := g_requests g + 1\<rparr>) = (b, g1)"
    by fastforce
  note d = decide_def [of sha c now req g, unfolded Let_def w]
  show thesis
  proof (cases b)
    case True
    with w d show thesis using refused admitted by (simp split: if_splits)
  next
    case False
    with w d show thesis using refused spent by (simp split: if_splits)
  qed
qed

lemma within_budget_window:
  assumes "within_budget limit now s g = (b, g')" "0 < limit"
  obtains (reset) "g_windows g' s = Some (1, now)" "\<And>k w. g_windows g s = Some (k, w) \<Longrightarrow> 60000 \<le> now - w"
    | (counted) k w where "g_windows g s = Some (k, w)" "now - w < 60000" "g_windows g' s = Some (k + 1, w)"
        "b \<Longrightarrow> k + 1 \<le> limit"
  using assms by (auto simp: within_budget_def split: option.splits if_splits)

lemma within_budget_others: "within_budget limit now src g = (b, g') \<Longrightarrow> s \<noteq> src \<Longrightarrow> g_windows g' s = g_windows g s"
  by (auto simp: within_budget_def split: option.splits if_splits)

lemma decide_window:
  assumes "decide sha c now req g = (v, g')" "0 < c_limit c"
  obtains (other) "v \<noteq> Admitted s" "g_windows g' s = g_windows g s"
    | (reset) "g_windows g' s = Some (1, now)" "\<And>k w. g_windows g s = Some (k, w) \<Longrightarrow> 60000 \<le> now - w"
    | (counted) k w where "g_windows g s = Some (k, w)" "now - w < 60000" "g_windows g' s = Some (k + 1, w)"
        "v = Admitted s \<Longrightarrow> k + 1 \<le> c_limit c"
proof -
  have spend: thesis
    if w: "within_budget (c_limit c) now (request_source req) (g\<lparr>g_requests := g_requests g + 1\<rparr>) = (b, g1)"
      and g': "g_windows g' = g_windows g1" and v: "v = Admitted s \<Longrightarrow> s = request_source req \<and> b" for b g1
  proof (cases "s = request_source req")
    case True
    from within_budget_window [OF w assms(2)] show thesis
    proof cases
      case 1
      show thesis
        by (rule reset) (use 1 in \<open>simp_all add: True g'\<close>)
    next
      case (2 k w)
      have "g_windows g s = Some (k, w)" "g_windows g' s = Some (k + 1, w)"
        using 2(1,3) by (simp_all add: True g')
      then show thesis using 2(2,4) v by (intro counted) blast+
    qed
  next
    case False
    then show thesis using other within_budget_others [OF w False] g' v by auto
  qed
  from decide_cases [of sha c now req g] show thesis
  proof cases
    case (refused code status reason)
    with assms(1) have "v = fst (decide sha c now req g)" "g' = snd (decide sha c now req g)" by simp_all
    then show thesis using other unfolding refused by simp
  next
    case (spent g1)
    with assms(1) have e: "v = fst (decide sha c now req g)" "g' = snd (decide sha c now req g)" by simp_all
    then show thesis by (intro spend [OF spent(1)]) (simp_all add: spent(2))
  next
    case (admitted g1)
    then show thesis using assms(1) by (intro spend [OF admitted(1)]) auto
  qed
qed

definition allowance :: "nat \<Rightarrow> int \<Rightarrow> (nat \<times> int) option \<Rightarrow> nat" where
  "allowance limit t0 w =
    (case w of None \<Rightarrow> limit | Some (k, started) \<Rightarrow> limit - k + (if t0 \<le> started then 0 else limit))"

lemma admissions_le_allowance:
  assumes "0 < c_limit c" "list_all (\<lambda>(now, _). t0 \<le> now \<and> now < t0 + 60000) rs"
  shows "admissions s (fst (serve_all sha c rs g)) \<le> allowance (c_limit c) t0 (g_windows g s)"
  using assms(2)
proof (induction rs arbitrary: g)
  case (Cons r rs)
  obtain now req where r: "r = (now, req)" by fastforce
  obtain v g' where d: "decide sha c now req g = (v, g')" by fastforce
  have now: "t0 \<le> now" "now < t0 + 60000" using Cons.prems r by auto
  have ih: "admissions s (fst (serve_all sha c rs g')) \<le> allowance (c_limit c) t0 (g_windows g' s)"
    using Cons.prems by (intro Cons.IH) simp
  have all: "admissions s (fst (serve_all sha c (r # rs) g))
      = (if v = Admitted s then 1 else 0) + admissions s (fst (serve_all sha c rs g'))"
    by (simp add: r d split: prod.splits)
  from d assms(1) show ?case
  proof (cases rule: decide_window [where s = s])
    case other
    then show ?thesis using ih all by simp
  next
    case reset
    have "c_limit c \<le> allowance (c_limit c) t0 (g_windows g s)"
      using reset(2) now by (force simp: allowance_def split: option.splits)
    moreover have "allowance (c_limit c) t0 (g_windows g' s) = c_limit c - 1"
      using reset(1) now by (simp add: allowance_def)
    ultimately show ?thesis using ih all assms(1) by (cases "v = Admitted s") simp_all
  next
    case (counted k w)
    then show ?thesis using ih all by (cases "v = Admitted s") (auto simp: allowance_def)
  qed
qed simp

text \<open>
  C30: however the requests of all sources are mixed and whatever happened before, no source gets
  more than twice the configured number of requests admitted within any sixty seconds, and after a
  reset not more than that number. Twice is the price of counting in windows that begin with a
  request.
\<close>
theorem no_source_exceeds_its_rate:
  assumes "0 < c_limit c" "list_all (\<lambda>(now, _). t0 \<le> now \<and> now < t0 + 60000) rs"
  shows "admissions s (fst (serve_all sha c rs g)) \<le> 2 * c_limit c
    \<and> admissions s (fst (serve_all sha c rs (reset_rate_limits g))) \<le> c_limit c"
proof -
  have "allowance (c_limit c) t0 w \<le> 2 * c_limit c" for w
    by (cases w) (auto simp: allowance_def)
  moreover have "allowance (c_limit c) t0 (g_windows (reset_rate_limits g) s) = c_limit c"
    by (simp add: allowance_def reset_rate_limits_def)
  ultimately show ?thesis
    using admissions_le_allowance [OF assms, of s sha g] admissions_le_allowance [OF assms, of s sha "reset_rate_limits g"]
    by (metis le_trans)
qed

text \<open>The sample: a controller that lets one request a minute through, asked twice.\<close>

definition sample_request :: "jstr \<Rightarrow> jstr \<Rightarrow> inbound_request" where
  "sample_request ip key = \<lparr>rq_ip = Str ip, rq_remote = Undef, rq_headers = Obj [(js ''x-estatemate-key'', Str key)],
     rq_presented = Undef, rq_method = Str (js ''POST''), rq_url = Str (js ''/event?key=1'')\<rparr>"

definition sample_controller :: controller where
  "sample_controller = create_inbound (default_inbound
     \<lparr>ic_sources := Str (js ''10.0.0.5''), ic_require_secret := True, ic_secret := js ''k1'', ic_max := Some 1\<rparr>)"

definition sample_traffic :: "(int \<times> inbound_request) list" where
  "sample_traffic = map (\<lambda>t. (t, sample_request (js ''10.0.0.5'') (js ''k1''))) [1000, 2000]"

lemma no_source_exceeds_its_rate_witness:
  "c_limit sample_controller = 1
   \<and> admissions (js ''10.0.0.5'') (fst (serve_all (\<lambda>s. s) sample_controller sample_traffic new_gate)) = 1
   \<and> admissions (js ''10.0.0.5'') (fst (serve_all (\<lambda>s. s) sample_controller sample_traffic new_gate)) \<le> 2"
proof -
  have l: "c_limit sample_controller = 1" by code_simp
  have t: "list_all (\<lambda>(now, _). 1000 \<le> now \<and> now < 1000 + 60000) sample_traffic" by code_simp
  have "admissions (js ''10.0.0.5'') (fst (serve_all (\<lambda>s. s) sample_controller sample_traffic new_gate)) = 1"
    by code_simp
  then show ?thesis
    using l no_source_exceeds_its_rate [of sample_controller 1000 sample_traffic "js ''10.0.0.5''" "\<lambda>s. s" new_gate] t
    by simp
qed

lemma denials_stay_bounded:
  assumes "length (g_denials g) \<le> 50"
  shows "length (g_denials (snd (decide sha c now req g))) \<le> 50"
proof -
  have len: "length (keep_last 50 xs) \<le> 50" for xs :: "denial list" by (simp add: keep_last_def)
  have same: "g_denials (snd (within_budget limit now source g1)) = g_denials g1" for limit source g1
    by (simp add: within_budget_def split: option.splits prod.splits)
  from decide_cases [of sha c now req g] show ?thesis
  proof cases
    case (admitted g1)
    have "g_denials g1 = g_denials g"
      using same [of "c_limit c" "request_source req" "g\<lparr>g_requests := g_requests g + 1\<rparr>"] admitted(1) by simp
    then show ?thesis using assms admitted by simp
  qed (simp_all add: len)
qed

subsection \<open>No configured terminal is locked out\<close>

lemma trim_append_solid:
  assumes "trim h = h" "h \<noteq> []" "x \<noteq> []" "\<not> is_ws (last x)"
  shows "trim (h @ x) = h @ x"
proof -
  have "\<not> is_ws (hd h)"
    using assms(1,2) by (metis hd_dropWhile trim_start_def trim_start_trim_end trim_def)
  then have "trim_start (h @ x) = h @ x" using assms(2) by (cases h) (simp_all add: trim_start_def)
  moreover have "trim_end (h @ x) = h @ x"
    using assms(3,4) by (cases x rule: rev_cases) (simp_all add: trim_end_def)
  ultimately show ?thesis by (simp add: trim_def)
qed

text \<open>A host in the form \<open>normalizeSourceAddress\<close> gives it, that a rule can be written for.\<close>

definition plain_host :: "jstr \<Rightarrow> bool" where
  "plain_host h \<longleftrightarrow> source_text h = h \<and> 47 \<notin> set h"

lemma is_literal_nonempty: "is_address_literal h \<Longrightarrow> source_text h = h \<Longrightarrow> h \<noteq> []"
  by (auto simp: is_address_literal_def empty_not_literal)

lemma host_rule:
  assumes "is_address_literal h" "plain_host h" "trim h = h"
  obtains r where "parse_source_rule (Str h) = Inr r" "parse_source_rule (Str (rule_text r)) = Inr r"
    "address_matches_rule h r"
proof -
  have h: "source_text h = h" "47 \<notin> set h" using assms(2) by (simp_all add: plain_host_def)
  with assms(1) have ne: "h \<noteq> []" by (simp add: is_literal_nonempty)
  have split1: "split_on 47 h = [h]" using h by (simp add: split_on_no_sep)
  have suffix: "split_on 47 (h @ js ''/32'') = [h, js ''32'']" "split_on 47 (h @ js ''/128'') = [h, js ''128'']"
    "trim (h @ js ''/32'') = h @ js ''/32''" "trim (h @ js ''/128'') = h @ js ''/128''"
    using h(2) assms(3) ne
    by (simp_all add: js_def split_on_append split_on_no_sep trim_append_solid is_ws_def)
  have prefixes: "read_prefix 2 32 (Some (js ''32'')) = Some 32" "read_prefix 3 128 (Some (js ''128'')) = Some 128"
    "read_prefix d m None = Some m" for d m
    by (simp_all add: read_prefix_def js_def is_digit_def digits_val_def digit_val_def)
  have texts: "js ''/'' @ show_nat 32 = js ''/32''" "js ''/'' @ show_nat 128 = js ''/128''"
    by code_simp+
  show thesis
  proof (cases "is_ipv4 h")
    case True
    let ?r = "Rule4 h 32 (ipv4_number h AND mask4 32)"
    have "parse_source_rule (Str h) = Inr ?r" "parse_source_rule (Str (rule_text ?r)) = Inr ?r"
      using True ne h by (simp_all add: parse_source_rule_def Let_def split1 suffix prefixes assms(3) rule_text_def texts)
    moreover have "address_matches_rule h ?r"
      using True by (subst matches_iff_covers) (simp_all add: covers_def h)
    ultimately show thesis by (rule that)
  next
    case False
    with assms(1) h obtain gs where gs: "ipv6_groups h = Some gs" by (auto simp: is_address_literal_def)
    let ?r = "Rule6 h 128 gs"
    have "parse_source_rule (Str h) = Inr ?r" "parse_source_rule (Str (rule_text ?r)) = Inr ?r"
      using False gs ne h by (simp_all add: parse_source_rule_def Let_def split1 suffix prefixes assms(3) rule_text_def texts)
    moreover have "address_matches_rule h ?r"
      using gs by (subst matches_iff_covers) (simp_all add: covers_def h)
    ultimately show thesis by (rule that)
  qed
qed

lemma add_source_keeps: "set sources \<subseteq> set (add_source e sources)"
  by (auto simp: add_source_def split: sum.splits)

lemma derive_device_keeps:
  "set (ds_sources d) \<subseteq> set (ds_sources (derive_device dev d))"
  "ds_missing d \<noteq> [] \<Longrightarrow> ds_missing (derive_device dev d) \<noteq> []"
  using add_source_keeps by (auto simp: derive_device_def Let_def)

lemma derive_devices_keep:
  "set (ds_sources d) \<subseteq> set (ds_sources (fold derive_device devs d))"
  "ds_missing d \<noteq> [] \<Longrightarrow> ds_missing (fold derive_device devs d) \<noteq> []"
proof (induction devs arbitrary: d)
  case (Cons dev devs)
  { case 1 show ?case using Cons.IH(1) derive_device_keeps(1) by fastforce }
  { case 2 then show ?case using Cons.IH(2) derive_device_keeps(2) by simp }
qed simp_all

lemma derived_host:
  assumes "dev \<in> set devs" "serves dev" "ds_missing (fold derive_device devs d) = []"
  shows "is_address_literal (device_host dev)
    \<and> (parse_source_rule (Str (device_host dev)) = Inr r \<longrightarrow> rule_text r \<in> set (ds_sources (fold derive_device devs d)))"
  using assms(1,3)
proof (induction devs arbitrary: d)
  case (Cons x devs)
  show ?case
  proof (cases "x = dev")
    case True
    have m: "ds_missing (derive_device dev d) = []"
      using Cons.prems True derive_devices_keep(2) [of "derive_device dev d" devs] by auto
    then have lit: "is_address_literal (device_host dev)"
      using assms(2) by (auto simp: derive_device_def Let_def split: if_splits)
    moreover have "rule_text r \<in> set (ds_sources (derive_device dev d))" if "parse_source_rule (Str (device_host dev)) = Inr r"
      using lit assms(2) that by (simp add: derive_device_def Let_def add_source_def)
    ultimately show ?thesis using True derive_devices_keep(1) by fastforce
  next
    case False
    then show ?thesis using Cons by simp
  qed
qed simp

lemma literal_known: "is_address_literal h \<Longrightarrow> source_text h = h \<Longrightarrow> classify_address h \<noteq> Unknown"
  using is_literal_nonempty [of h]
  by (auto simp: is_address_literal_def classify_address_def classify_groups_def classify_ipv4_def ipv4_class_def Let_def
        split: option.splits)

text \<open>
  When the derivation reports a complete allowlist, every terminal the bridge serves, its host
  written as a plain literal, is let through by the controller built from that list: a request from
  its address is never refused as a foreign source, whatever else the list holds. Denying by default
  therefore locks out no configured terminal.
\<close>
theorem configured_terminals_are_let_in:
  assumes "ds_complete (derive_inbound_sources (Arr devices) explicit)"
    and "device \<in> set devices" "serves device" "plain_host (device_host device)"
    and "ic_sources cfg = Arr (map Str (ds_sources (derive_inbound_sources (Arr devices) explicit)))"
    and "request_source req = device_host device"
  shows "fst (decide sha (create_inbound cfg) now req g) \<noteq> Turned_away status DeniedSource reason s"
proof -
  let ?h = "device_host device" and ?d = "derive_inbound_sources (Arr devices) explicit"
  have d: "is_address_literal ?h \<and> (parse_source_rule (Str ?h) = Inr r \<longrightarrow> rule_text r \<in> set (ds_sources ?d))" for r
    using assms(1-3) unfolding derive_inbound_sources_def elements.simps ds_complete_def by (intro derived_host)
  have "trim ?h = ?h" by (simp add: device_host_def)
  with d assms(4) obtain r where r: "parse_source_rule (Str ?h) = Inr r" "parse_source_rule (Str (rule_text r)) = Inr r"
    "address_matches_rule ?h r" by (meson host_rule)
  have "r \<in> set (c_rules (create_inbound cfg))"
    using d [of r] r(1,2) by (force simp: create_inbound_def rules_of_def assms(5) split: sum.splits)
  with r(3) have "\<not> source_refused (create_inbound cfg) ?h" by (auto simp: source_let_through)
  moreover have "?h \<noteq> []" "classify_address ?h \<noteq> Unknown"
    using d assms(4) by (auto simp: is_literal_nonempty plain_host_def literal_known)
  ultimately show ?thesis
    by (auto simp: decide_def Let_def assms(6) record_denial_def split: prod.splits bool.splits)
qed

text \<open>The sample terminal and the controller derived from it.\<close>

definition sample_terminal :: jval where
  "sample_terminal = Obj [(js ''name'', Str (js ''Gate'')), (js ''isapiHost'', Str (js '' 10.0.0.7 ''))]"

definition derived_config :: inbound_config where
  "derived_config = default_inbound
     \<lparr>ic_sources := Arr (map Str (ds_sources (derive_inbound_sources (Arr [sample_terminal]) Undef)))\<rparr>"

lemma configured_terminals_are_let_in_witness:
  "ds_sources (derive_inbound_sources (Arr [sample_terminal]) Undef) = [js ''10.0.0.7/32'']
   \<and> fst (decide (\<lambda>s. s) (create_inbound derived_config) 0 (sample_request (js ''10.0.0.7'') []) new_gate)
     \<noteq> Turned_away 403 DeniedSource (js ''source address is not in the allowlist'') (js ''10.0.0.7'')"
proof -
  have "ds_complete (derive_inbound_sources (Arr [sample_terminal]) Undef)" by code_simp
  moreover have "sample_terminal \<in> set [sample_terminal]" by simp
  moreover have "serves sample_terminal" by code_simp
  moreover have "plain_host (device_host sample_terminal)" by code_simp
  moreover have "ic_sources derived_config = Arr (map Str (ds_sources (derive_inbound_sources (Arr [sample_terminal]) Undef)))"
    by (simp add: derived_config_def)
  moreover have "request_source (sample_request (js ''10.0.0.7'') []) = device_host sample_terminal" by code_simp
  moreover have "ds_sources (derive_inbound_sources (Arr [sample_terminal]) Undef) = [js ''10.0.0.7/32'']" by code_simp
  ultimately show ?thesis using configured_terminals_are_let_in by blast
qed

end
