(* ===== verification/ZkListener.thy ===== *)
theory ZkListener
  imports ZkQueue InboundAccess
begin

text \<open>
  The listener of the ZKTeco PUSH transport (\<^verbatim>\<open>isapi-bridge/zkteco-push-server.mjs\<close>): the
  terminals it has heard from, the requests it answers, and the operations that become commands. A request
  comes parsed, its query decoded in order and its body complete; a body that is too large or breaks off is
  not modelled. What the listener hands to its owner is a list of outputs. Random codes, the clock
  and the owner's view of which device a serial number belongs to are arguments.
\<close>

subsection \<open>State\<close>

record terminal =
  tm_options :: options
  tm_protocol :: jval
  tm_code :: "jstr option"
  tm_session :: "jstr option"
  tm_seen :: int
  tm_device :: "jstr option"
  tm_user_info :: "options option"

record push_stats =
  ps_requests :: nat
  ps_unmapped :: nat
  ps_rejected_key :: nat
  ps_denied_source :: nat
  ps_throttled :: nat
  ps_events :: nat
  ps_registrations :: nat
  ps_sent :: nat
  ps_confirmed :: nat
  ps_timed_out :: nat

record push_meta =
  pm_operation :: jstr
  pm_employee :: jval

record listener =
  zk_queue :: "push_meta push_queue"
  zk_terminals :: "(jstr \<times> terminal) list"
  zk_awaiting :: "jstr list"
  zk_gate :: gate
  zk_stats :: push_stats

record linked =
  ln_device :: jstr
  ln_name :: jstr

record 'd push_env =
  pv_sha :: "jstr \<Rightarrow> 'd"
  pv_controller :: controller
  pv_platform :: platform
  pv_minutes :: int
  pv_resolve :: "jstr \<Rightarrow> options \<Rightarrow> linked option"
  pv_ack_timeout :: int

record outcome =
  oc_ok :: bool
  oc_error :: "jstr option"
  oc_code :: "int option"
  oc_meaning :: "jstr option"
  oc_waited :: "int option"

datatype push_output = Event jstr jval | DeviceInfo jstr options | Resolved jstr outcome

definition new_stats :: push_stats where
  "new_stats = \<lparr>ps_requests = 0, ps_unmapped = 0, ps_rejected_key = 0, ps_denied_source = 0, ps_throttled = 0,
     ps_events = 0, ps_registrations = 0, ps_sent = 0, ps_confirmed = 0, ps_timed_out = 0\<rparr>"

definition new_listener :: listener where
  "new_listener = \<lparr>zk_queue = [], zk_terminals = [], zk_awaiting = [], zk_gate = new_gate, zk_stats = new_stats\<rparr>"

definition push_inbound :: "jval \<Rightarrow> bool \<Rightarrow> bool \<Rightarrow> bool \<Rightarrow> jval \<Rightarrow> int option \<Rightarrow> inbound_config" where
  "push_inbound sources allow_unknown allow_loopback require_key key limit = default_inbound
     \<lparr>ic_name := js ''ZKTeco PUSH listener'', ic_sources := nullish_or sources (Arr []), ic_allow_unknown := allow_unknown,
      ic_allow_loopback := allow_loopback, ic_require_secret := require_key, ic_secret := to_string_or_empty key, ic_max := limit\<rparr>"

definition new_terminal :: terminal where
  "new_terminal = \<lparr>tm_options = [], tm_protocol = Undef, tm_code = None, tm_session = None, tm_seen = 0, tm_device = None,
     tm_user_info = None\<rparr>"

definition terminal_of :: "jstr \<Rightarrow> listener \<Rightarrow> terminal" where
  "terminal_of serial z = coalesce (map_of (zk_terminals z) (trim serial)) new_terminal"

definition remember :: "int \<Rightarrow> jstr \<Rightarrow> (terminal \<Rightarrow> terminal) \<Rightarrow> listener \<Rightarrow> listener" where
  "remember now serial patch z =
    z\<lparr>zk_terminals := AList.update (trim serial) ((patch (terminal_of serial z))\<lparr>tm_seen := now\<rparr>) (zk_terminals z)\<rparr>"

definition count :: "(push_stats \<Rightarrow> push_stats) \<Rightarrow> listener \<Rightarrow> listener" where
  "count f z = z\<lparr>zk_stats := f (zk_stats z)\<rparr>"

definition options_for :: "jstr \<Rightarrow> listener \<Rightarrow> options" where
  "options_for serial z = tm_options (terminal_of serial z)"

definition device_for :: "'d push_env \<Rightarrow> jstr \<Rightarrow> listener \<Rightarrow> linked option" where
  "device_for V serial z = pv_resolve V serial (options_for serial z)"

subsection \<open>Registration\<close>

definition merge_options :: "options \<Rightarrow> options \<Rightarrow> options" where
  "merge_options old new = fold (\<lambda>(k, v). put_member k v) new old"

definition absorb_device_info :: "int \<Rightarrow> jstr \<Rightarrow> jstr \<Rightarrow> listener \<Rightarrow> push_output list \<times> listener" where
  "absorb_device_info now serial body z =
    (let parsed = parse_registry_body body; old = terminal_of serial z;
         protocol = nullish_or (get_prop (Obj parsed) (js ''PushVersion''))
           (nullish_or (get_prop (Obj parsed) (js ''pushver'')) (tm_protocol old))
     in if parsed = [] then ([], remember now serial (\<lambda>t. t) z)
        else ([DeviceInfo serial parsed],
          count (\<lambda>s. s\<lparr>ps_registrations := ps_registrations s + 1\<rparr>)
            (remember now serial (\<lambda>t. t\<lparr>tm_options := merge_options (tm_options old) parsed, tm_protocol := protocol\<rparr>) z)))"

definition assign_code :: "int \<Rightarrow> jstr \<times> jstr \<Rightarrow> jstr \<Rightarrow> listener \<Rightarrow> listener" where
  "assign_code now fresh serial z =
    (if coalesce (tm_code (terminal_of serial z)) [] = []
     then remember now serial (\<lambda>t. t\<lparr>tm_code := Some (fst fresh), tm_session := Some (snd fresh)\<rparr>) z else z)"

subsection \<open>Results of commands\<close>

definition await_key :: "jstr \<Rightarrow> nat \<Rightarrow> jstr" where
  "await_key serial i = serial @ js '':'' @ show_nat i"

definition resolve :: "jstr \<Rightarrow> outcome \<Rightarrow> listener \<Rightarrow> push_output list \<times> listener" where
  "resolve key result z =
    (if key \<in> set (zk_awaiting z) then ([Resolved key result], z\<lparr>zk_awaiting := removeAll key (zk_awaiting z)\<rparr>) else ([], z))"

type_synonym params = "(jstr \<times> jstr) list"

definition param :: "params \<Rightarrow> string \<Rightarrow> jstr option" where
  "param ps k = map_of ps (js k)"

definition reports_result :: "options \<Rightarrow> bool" where
  "reports_result r \<longleftrightarrow> truthy (get_prop (Obj r) (js ''ID'')) \<or> truthy (get_prop (Obj r) (js ''Return''))"

definition query_record :: "params \<Rightarrow> options list" where
  "query_record ps =
    (if coalesce (param ps ''ID'') [] \<noteq> [] \<or> coalesce (param ps ''Return'') [] \<noteq> []
     then [fold (\<lambda>(k, v). set_field k (Str v)) ps []] else [])"

definition result_pair :: "jstr \<Rightarrow> options \<Rightarrow> options" where
  "result_pair pair r =
    (if 61 \<notin> set pair \<or> before_unit 61 pair = [] then r
     else set_field (trim (before_unit 61 pair)) (Str (trim (after_unit 61 pair))) r)"

definition result_line :: "jstr \<Rightarrow> options list" where
  "result_line line =
    (let t = trim line; r = fold result_pair (split_on 38 t) []
     in if t \<noteq> [] \<and> 61 \<in> set t \<and> reports_result r then [r] else [])"

definition result_records :: "params \<Rightarrow> jstr \<Rightarrow> options list" where
  "result_records ps body = query_record ps @ concat (map result_line (split_on 10 body))"

definition confirm_one :: "int \<Rightarrow> jstr \<Rightarrow> options \<Rightarrow> listener \<Rightarrow> push_output list \<times> listener" where
  "confirm_one now serial r z =
    (case confirm_command now serial (get_prop (Obj r) (js ''ID'')) (get_prop (Obj r) (js ''Return'')) (zk_queue z) of
       (Inr (Some c), q) \<Rightarrow>
         resolve (await_key serial (cf_id c))
           \<lparr>oc_ok = (cf_code c = Some 0), oc_error = None, oc_code = cf_code c, oc_meaning = Some (cf_meaning c), oc_waited = Some (cf_waited c)\<rparr>
           (count (\<lambda>s. s\<lparr>ps_confirmed := ps_confirmed s + 1\<rparr>) (z\<lparr>zk_queue := q\<rparr>))
     | (_, q) \<Rightarrow> ([], z\<lparr>zk_queue := q\<rparr>))"

text \<open>Steps that hand out outputs, one after the other.\<close>

fun each :: "('a \<Rightarrow> listener \<Rightarrow> push_output list \<times> listener) \<Rightarrow> 'a list \<Rightarrow> listener \<Rightarrow> push_output list \<times> listener" where
  "each f [] z = ([], z)"
| "each f (x # xs) z = (case f x z of (out, z') \<Rightarrow> (case each f xs z' of (out', z'') \<Rightarrow> (out @ out', z'')))"

definition ack_timeout_error :: jstr where
  "ack_timeout_error = js ''the terminal has not confirmed this command; it is still queued for its next poll (a ZKTeco terminal only collects commands when it calls the server, so an offline terminal shows this until it returns)''"

definition timed_out :: outcome where
  "timed_out = \<lparr>oc_ok = False, oc_error = Some ack_timeout_error, oc_code = None, oc_meaning = None, oc_waited = None\<rparr>"

definition expire_one :: "jstr \<Rightarrow> push_meta push_item \<Rightarrow> listener \<Rightarrow> push_output list \<times> listener" where
  "expire_one serial item z =
    (case resolve (await_key serial (pi_id item)) timed_out z of
       ([], z') \<Rightarrow> ([], z')
     | (out, z') \<Rightarrow> (out, count (\<lambda>s. s\<lparr>ps_timed_out := ps_timed_out s + 1\<rparr>) z'))"

subsection \<open>Uploads\<close>

definition ingest_record :: "'d push_env \<Rightarrow> int \<Rightarrow> jstr \<Rightarrow> jstr \<Rightarrow> jstr \<Rightarrow> options \<Rightarrow> listener \<Rightarrow> push_output list \<times> listener" where
  "ingest_record V now serial table device r z =
    (if table \<noteq> [] \<and> table \<noteq> js ''ATTLOG'' \<and> table \<noteq> js ''OPERLOG'' \<and> table \<noteq> js ''USERINFO'' then ([], z)
     else if table = js ''USERINFO'' then ([], remember now serial (\<lambda>t. t\<lparr>tm_user_info := Some r\<rparr>) z)
     else if table = js ''OPERLOG'' then ([], z)
     else ([Event device (access_event_document (pv_platform V) (pv_minutes V) now r)],
       count (\<lambda>s. s\<lparr>ps_events := ps_events s + 1\<rparr>) z))"

definition ingest :: "'d push_env \<Rightarrow> int \<Rightarrow> jstr \<Rightarrow> jstr \<Rightarrow> jstr \<Rightarrow> listener \<Rightarrow> push_output list \<times> listener" where
  "ingest V now serial table body z =
    (let records = parse_data_records body
     in case device_for V serial z of
       None \<Rightarrow> ([], count (\<lambda>s. s\<lparr>ps_unmapped := ps_unmapped s + length records\<rparr>) z)
     | Some l \<Rightarrow> each (ingest_record V now serial table (ln_device l)) records (remember now serial (\<lambda>t. t\<lparr>tm_device := Some (ln_device l)\<rparr>) z))"

subsection \<open>Requests\<close>

record push_request =
  zr_method :: jstr
  zr_path :: jstr
  zr_params :: params
  zr_body :: jstr
  zr_remote :: jval
  zr_headers :: jval
  zr_url :: jval

type_synonym reply = "nat \<times> jstr"

definition ok_line :: jstr where "ok_line = js ''OK'' @ [10]"

definition initial_interaction :: "'d push_env \<Rightarrow> jstr \<times> jstr \<Rightarrow> jstr \<Rightarrow> listener \<Rightarrow> jstr" where
  "initial_interaction V fresh serial z =
    (case map_of (zk_terminals z) serial of
       None \<Rightarrow> ok_line
     | Some t \<Rightarrow>
         (if coalesce (tm_code t) [] \<noteq> [] \<and> device_for V serial z \<noteq> None
          then registration_config (coalesce (tm_code t) []) (coalesce (tm_session t) (snd fresh)) @ [10] else ok_line))"

definition fetch_commands :: "'d push_env \<Rightarrow> int \<Rightarrow> jstr \<Rightarrow> listener \<Rightarrow> jstr \<times> push_output list \<times> listener" where
  "fetch_commands V now serial z =
    (case expire_delivered now serial (pv_ack_timeout V) (zk_queue z) of
       (expired, q) \<Rightarrow>
         (case each (expire_one serial) (case expired of Inl _ \<Rightarrow> [] | Inr items \<Rightarrow> items) (z\<lparr>zk_queue := q\<rparr>) of
            (out, z1) \<Rightarrow>
              (case take_commands now serial (zk_queue z1) of
                 (taken, q2) \<Rightarrow>
                   (let lines = (case taken of Inl _ \<Rightarrow> [] | Inr l \<Rightarrow> l)
                    in (command_body lines, out,
                        remember now serial (\<lambda>t. t)
                          (count (\<lambda>s. s\<lparr>ps_sent := ps_sent s + length (filter (\<lambda>l. l \<noteq> []) (split_on 10 lines))\<rparr>) (z1\<lparr>zk_queue := q2\<rparr>)))))))"

definition serve :: "'d push_env \<Rightarrow> int \<Rightarrow> jstr \<times> jstr \<Rightarrow> push_request \<Rightarrow> jstr \<Rightarrow> jstr \<Rightarrow> listener \<Rightarrow> reply \<times> push_output list \<times> listener" where
  "serve V now fresh req path serial z =
    (let get = (zr_method req = js ''GET''); post = (zr_method req = js ''POST''); body = (if post then zr_body req else []);
         cdata = (path = js ''/iclock/cdata''); table = param (zr_params req) ''table''
     in if cdata \<and> get \<and> lower (coalesce (param (zr_params req) ''options'') []) = js ''all''
        then ((200, initial_interaction V fresh serial z), [], z)
        else if path = js ''/iclock/registry'' \<or> cdata \<and> post \<and> coalesce table [] = []
        then (case absorb_device_info now serial body z of (out, z1) \<Rightarrow> ((200, ok_line), out, assign_code now fresh serial z1))
        else if path = js ''/iclock/ping'' then ((200, ok_line), [], remember now serial (\<lambda>t. t) z)
        else if cdata \<and> post
        then (case ingest V now serial (upper (trim (coalesce table []))) body z of (out, z1) \<Rightarrow> ((200, ok_line), out, z1))
        else if path = js ''/iclock/getrequest''
        then (case fetch_commands V now serial z of (lines, out, z1) \<Rightarrow> ((200, lines), out, z1))
        else if path = js ''/iclock/devicecmd''
        then (case each (confirm_one now serial) (result_records (zr_params req) body) z of (out, z1) \<Rightarrow> ((200, ok_line), out, z1))
        else ((200, ok_line), [], z))"

definition serial_of :: "push_request \<Rightarrow> jstr" where
  "serial_of req = trim (case param (zr_params req) ''SN'' of Some s \<Rightarrow> s | None \<Rightarrow> coalesce (param (zr_params req) ''sn'') [])"

definition path_of :: "push_request \<Rightarrow> jstr" where
  "path_of req = rev (dropWhile (\<lambda>c. c = 47) (rev (zr_path req)))"

definition inbound_of :: "push_request \<Rightarrow> inbound_request" where
  "inbound_of req = \<lparr>rq_ip = Str (normalize_source_address (zr_remote req)), rq_remote = Undef, rq_headers = zr_headers req,
     rq_presented = (case param (zr_params req) ''Key'' of None \<Rightarrow> Undef | Some k \<Rightarrow> Str k),
     rq_method = Str (zr_method req), rq_url = zr_url req\<rparr>"

definition count_refusal :: "denial_code \<Rightarrow> push_stats \<Rightarrow> push_stats" where
  "count_refusal code s =
    (case code of
       DeniedSecret \<Rightarrow> s\<lparr>ps_rejected_key := ps_rejected_key s + 1\<rparr>
     | Throttled \<Rightarrow> s\<lparr>ps_throttled := ps_throttled s + 1\<rparr>
     | DeniedSource \<Rightarrow> s\<lparr>ps_denied_source := ps_denied_source s + 1\<rparr>)"

definition refusal_reply :: "denial_code \<Rightarrow> reply" where
  "refusal_reply code =
    (case code of
       Throttled \<Rightarrow> (429, js ''busy'' @ [10])
     | DeniedSecret \<Rightarrow> (403, js ''unauthorized'' @ [10])
     | DeniedSource \<Rightarrow> (403, js ''forbidden'' @ [10]))"

definition handle_push :: "'d push_env \<Rightarrow> int \<Rightarrow> jstr \<times> jstr \<Rightarrow> push_request \<Rightarrow> listener \<Rightarrow> reply \<times> push_output list \<times> listener" where
  "handle_push V now fresh req z0 =
    (let z = count (\<lambda>s. s\<lparr>ps_requests := ps_requests s + 1\<rparr>) z0
     in case decide (pv_sha V) (pv_controller V) now (inbound_of req) (zk_gate z) of
          (Turned_away _ code _ _, g) \<Rightarrow> (refusal_reply code, [], count (count_refusal code) (z\<lparr>zk_gate := g\<rparr>))
        | (Admitted _, g) \<Rightarrow>
            (if \<not> starts_with (path_of req) (js ''/iclock/'') then ((404, js ''notfound'' @ [10]), [], z\<lparr>zk_gate := g\<rparr>)
             else if serial_of req = [] then ((400, js ''missing SN'' @ [10]), [], z\<lparr>zk_gate := g\<rparr>)
             else serve V now fresh req (path_of req) (serial_of req) (z\<lparr>zk_gate := g\<rparr>)))"

subsection \<open>Operations become commands\<close>

fun first_known :: "jval \<Rightarrow> string list \<Rightarrow> jval" where
  "first_known p [] = Undef"
| "first_known p (k # ks) = nullish_or (get_prop p (js k)) (first_known p ks)"

definition card_only :: jstr where
  "card_only = js ''this terminal's PUSH protocol has no card-only delete: a card lives on the person record, and the delete command removes the person's fingerprints and face template with it. Remove the person from the terminal to revoke their credentials, or leave this task queued for an operator at the device.''"

definition no_fingerprints :: jstr where
  "no_fingerprints = js ''fingerprint work is not carried by this terminal's PUSH protocol in this bridge; the terminal's own reader and menu remain the way to enrol or clear a finger''"

definition no_remote :: jstr where
  "no_remote = js ''remote door control is not delivered over the PUSH transport by this bridge: the command this protocol documents (CONTROL BOARD) has not been confirmed against a physical terminal, and EstateMate does not send an unproven gate command''"

definition person_fields :: "jval \<Rightarrow> jval" where
  "person_fields payload = Obj
    [(js ''name'', first_known payload [''name'', ''personName'']), (js ''privilege'', get_prop payload (js ''privilege'')),
     (js ''card'', first_known payload [''cardUid'', ''cardNo'', ''card_number'']),
     (js ''enabled'', Bool (get_prop payload (js ''enabled'') \<noteq> Bool False))]"

definition card_fields :: "jval \<Rightarrow> jval \<Rightarrow> jval" where
  "card_fields payload c = Obj
    [(js ''name'', first_known payload [''name'', ''personName'']), (js ''card'', c), (js ''enabled'', Bool True)]"

definition build_command :: "jstr \<Rightarrow> jval \<Rightarrow> jval \<Rightarrow> options \<Rightarrow> (jstr, jstr) result" where
  "build_command op payload employee options =
    (if op = js ''upsert_person''
     then rbind (validate_terminal_pin employee options) (\<lambda>pin.
       encode_user_update pin (person_fields payload))
     else if op \<in> {js ''upsert_card'', js ''enable_card'', js ''upsert_visitor''}
     then (let c = first_known payload [''cardUid'', ''cardNo'', ''card_number'', ''credentialNumber'']
       in if \<not> truthy c then Inl (js ''operation has no card number'')
          else rbind (validate_terminal_pin employee options) (\<lambda>pin.
            encode_user_update pin (card_fields payload c)))
     else if op = js ''delete_person''
     then rbind (validate_terminal_pin employee options) (\<lambda>pin. Inr (encode_user_delete pin))
     else if op \<in> {js ''disable_card'', js ''delete_card'', js ''revoke_visitor''} then Inl card_only
     else if op \<in> {js ''upload_fingerprint'', js ''delete_fingerprint_device'', js ''capture_fingerprint''} then Inl no_fingerprints
     else if starts_with op (js ''remote_'') then Inl no_remote
     else Inl (js ''the ZKTeco PUSH transport does not implement '' @ [34] @ op @ [34]))"

text \<open>The part of \<open>applyPushOperation\<close> before it waits, and what it answers once the wait is over.\<close>

definition start_operation :: "int \<Rightarrow> jstr \<Rightarrow> jstr \<Rightarrow> jval \<Rightarrow> jval \<Rightarrow> bool \<Rightarrow> listener \<Rightarrow> (jstr, nat) result \<times> listener" where
  "start_operation now serial op payload employee await_ack z =
    (case build_command op (nullish_or payload (Obj [])) employee (options_for serial z) of
       Inl e \<Rightarrow> (Inl e, z)
     | Inr command \<Rightarrow>
         (case queue_command now serial command \<lparr>pm_operation = op, pm_employee = employee\<rparr> (zk_queue z) of
            (Inl e, q) \<Rightarrow> (Inl e, z\<lparr>zk_queue := q\<rparr>)
          | (Inr (Inl e), q) \<Rightarrow> (Inl e, z\<lparr>zk_queue := q\<rparr>)
          | (Inr (Inr i), q) \<Rightarrow>
              (Inr i, z\<lparr>zk_queue := q, zk_awaiting := (if await_ack then List.insert (await_key serial i) (zk_awaiting z) else zk_awaiting z)\<rparr>)))"

definition operation_result :: "outcome \<Rightarrow> (jstr, unit) result" where
  "operation_result o1 =
    (if oc_ok o1 then Inr ()
     else Inl (coalesce (oc_error o1)
       (js ''the terminal answered '' @ [34] @ coalesce (oc_meaning o1) (js ''without success'') @ [34] @ js '' for this command'')))"

definition await_timeout :: "jstr \<Rightarrow> listener \<Rightarrow> push_output list \<times> listener" where
  "await_timeout key z = resolve key timed_out z"

end
