(* ===== verification/ZkDelivery.thy ===== *)
theory ZkDelivery
  imports ZkListener
begin

text \<open>
  What the ZKTeco PUSH transport guarantees: commands reach a terminal in the order they were accepted,
  each once; a command is confirmed only by the terminal it was delivered to; every command is one
  line with one field per value and names the employee's own number; a caller that is turned away changes
  nothing.
\<close>

subsection \<open>What waits in a bucket\<close>

definition pending_of :: "jstr \<Rightarrow> listener \<Rightarrow> push_meta push_item list" where
  "pending_of s z = bk_pending (bucket_of (zk_queue z) s)"

definition waiting :: "jstr \<Rightarrow> listener \<Rightarrow> jstr" where
  "waiting s z = concat (map command_line (pending_of s z))"

lemma bucket_of_set [simp]:
  "bucket_of (set_bucket s b q) s' = (if trim s' = trim s then b else bucket_of q s')"
  by (simp add: bucket_of_def set_bucket_def update_conv')

lemma bucket_of_cong: "trim s = trim s' \<Longrightarrow> bucket_of q s = bucket_of q s'"
  by (simp add: bucket_of_def)

lemma queue_of_updates [simp]:
  "zk_queue (remember now serial f z) = zk_queue z" "zk_queue (count g z) = zk_queue z"
  "zk_queue (snd (resolve key r z)) = zk_queue z" "zk_queue (z\<lparr>zk_gate := gt\<rparr>) = zk_queue z"
  by (simp_all add: remember_def count_def resolve_def)

lemma count_gate: "zk_gate (count g z) = zk_gate z"
  by (simp add: count_def)

lemma queue_of_register [simp]:
  "zk_queue (snd (absorb_device_info now serial body z)) = zk_queue z" "zk_queue (assign_code now fresh serial z) = zk_queue z"
  by (simp_all add: absorb_device_info_def assign_code_def Let_def)

lemma queue_of_expire_one [simp]: "zk_queue (snd (expire_one serial item z)) = zk_queue z"
proof -
  obtain out z1 where r: "resolve (await_key serial (pi_id item)) timed_out z = (out, z1)" by fastforce
  then have "zk_queue z1 = zk_queue z" using queue_of_updates(3) [of "await_key serial (pi_id item)" timed_out z] by simp
  then show ?thesis by (simp add: expire_one_def r split: list.split)
qed

lemma queue_of_ingest_record [simp]: "zk_queue (snd (ingest_record V now serial table device r z)) = zk_queue z"
  by (simp add: ingest_record_def)

lemma each_invariant:
  assumes "\<And>x z. I z \<Longrightarrow> I (snd (f x z))" "I z"
  shows "I (snd (each f xs z))"
  using assms(2)
proof (induction xs arbitrary: z)
  case (Cons x xs)
  then show ?case using assms(1) [of z x] by (simp split: prod.splits) (metis snd_conv)
qed simp

lemma queue_of_each:
  assumes "\<And>x z. zk_queue (snd (f x z)) = zk_queue z"
  shows "zk_queue (snd (each f xs z)) = zk_queue z"
  using each_invariant [of "\<lambda>z'. zk_queue z' = zk_queue z" f z xs] assms by simp

lemma queue_of_ingest [simp]: "zk_queue (snd (ingest V now serial table body z)) = zk_queue z"
  by (simp add: ingest_def Let_def queue_of_each split: option.splits)

lemma bucket_confirm_pending [simp]:
  "bk_pending (snd (bucket_confirm now i c b)) = bk_pending b" "bk_next (snd (bucket_confirm now i c b)) = bk_next b"
  by (auto simp: bucket_confirm_def split: jval.splits option.splits)

lemma pending_of_confirm_one [simp]: "pending_of s (snd (confirm_one now serial r z)) = pending_of s z"
proof -
  let ?i = "get_prop (Obj r) (js ''ID'')" and ?c = "get_prop (Obj r) (js ''Return'')"
  have "zk_queue (snd (confirm_one now serial r z)) = snd (confirm_command now serial ?i ?c (zk_queue z))"
    by (simp add: confirm_one_def split: prod.splits sum.splits option.splits)
  moreover have "bk_pending (bucket_of (snd (confirm_command now serial ?i ?c q)) s) = bk_pending (bucket_of q s)" for q
  proof -
    obtain x b where b: "bucket_confirm now ?i ?c (bucket_of q serial) = (x, b)" by fastforce
    then have "bk_pending b = bk_pending (bucket_of q serial)"
      using bucket_confirm_pending(1) [of now ?i ?c "bucket_of q serial"] by simp
    then show ?thesis using bucket_of_cong [of serial s q] by (simp add: confirm_command_def in_bucket_def b del: get_prop.simps)
  qed
  ultimately show ?thesis by (simp add: pending_of_def)
qed

lemma pending_of_confirms [simp]: "pending_of s (snd (each (confirm_one now serial) rs z)) = pending_of s z"
  using each_invariant [of "\<lambda>z'. pending_of s z' = pending_of s z" "confirm_one now serial" z rs] by simp

lemma pending_of_same:
  "pending_of s (remember now serial f z) = pending_of s z"
  "pending_of s (snd (ingest V now serial table body z)) = pending_of s z"
  "pending_of s (assign_code now fresh serial (snd (absorb_device_info now serial body z))) = pending_of s z"
  by (simp_all add: pending_of_def)

lemma fetch_commands_pending:
  assumes "fetch_commands V now serial z = (lines, out, z')" "trim serial \<noteq> []"
  shows "lines = command_body (waiting serial z)" "pending_of s z' = (if trim s = trim serial then [] else pending_of s z)"
proof -
  obtain e q where e: "expire_delivered now serial (pv_ack_timeout V) (zk_queue z) = (e, q)" by fastforce
  obtain out1 z1 where z1: "each (expire_one serial) (case e of Inl _ \<Rightarrow> [] | Inr items \<Rightarrow> items) (z\<lparr>zk_queue := q\<rparr>) = (out1, z1)" by fastforce
  obtain t q2 where t: "take_commands now serial (zk_queue z1) = (t, q2)" by fastforce
  have q: "zk_queue z1 = q" using queue_of_each [of "expire_one serial"] z1 by (metis queue_of_expire_one snd_conv listener.select_convs(1) listener.surjective listener.update_convs(1))
  have pend: "bk_pending (bucket_of q s) = bk_pending (bucket_of (zk_queue z) s)" for s
    using e assms(2) bucket_of_cong [of serial s "zk_queue z"]
    by (auto simp: expire_delivered_def in_bucket_def bucket_expire_def)
  have t': "t = Inr (concat (map command_line (bk_pending (bucket_of q serial))))"
    "q2 = set_bucket serial (snd (bucket_take now (bucket_of q serial))) q"
    using t assms(2) by (auto simp: take_commands_def in_bucket_def bucket_take_def q)
  have z': "lines = command_body (case t of Inl _ \<Rightarrow> [] | Inr l \<Rightarrow> l)" "zk_queue z' = q2"
    using assms(1) by (auto simp: fetch_commands_def e z1 t Let_def)
  show "lines = command_body (waiting serial z)" by (simp add: z' t' waiting_def pending_of_def pend)
  show "pending_of s z' = (if trim s = trim serial then [] else pending_of s z)"
    by (simp add: pending_of_def z' t' pend bucket_take_def)
qed

subsection \<open>In order, each once\<close>

datatype push_step =
    Request int "jstr \<times> jstr" push_request
  | Start_operation int jstr jstr jval jval bool
  | Wait_over jstr

fun after_step :: "'d push_env \<Rightarrow> push_step \<Rightarrow> listener \<Rightarrow> listener" where
  "after_step V (Request now fresh req) z = snd (snd (handle_push V now fresh req z))"
| "after_step V (Start_operation now serial op payload employee await_ack) z = snd (start_operation now serial op payload employee await_ack z)"
| "after_step V (Wait_over key) z = snd (await_timeout key z)"

text \<open>What a terminal is handed by a reply, and the line an accepted operation adds.\<close>

definition handed_by :: "jstr \<Rightarrow> push_request \<Rightarrow> reply \<Rightarrow> jstr" where
  "handed_by s req r =
    (if serial_of req = trim s \<and> path_of req = js ''/iclock/getrequest'' \<and> fst r = 200 \<and> snd r \<noteq> ok_line then snd r else [])"

definition accepted_by :: "jstr \<Rightarrow> jstr \<Rightarrow> (jstr, jstr) result \<Rightarrow> (jstr, nat) result \<Rightarrow> jstr" where
  "accepted_by s serial command answer =
    (case (command, answer) of
       (Inr c, Inr i) \<Rightarrow> if trim serial = trim s then js ''C:'' @ show_nat i @ js '':'' @ c @ [10] else []
     | _ \<Rightarrow> [])"

fun handed :: "'d push_env \<Rightarrow> jstr \<Rightarrow> push_step list \<Rightarrow> listener \<Rightarrow> jstr" where
  "handed V s [] z = []"
| "handed V s (x # xs) z =
    (case x of Request now fresh req \<Rightarrow> handed_by s req (fst (handle_push V now fresh req z)) | _ \<Rightarrow> [])
    @ handed V s xs (after_step V x z)"

fun accepted_lines :: "'d push_env \<Rightarrow> jstr \<Rightarrow> push_step list \<Rightarrow> listener \<Rightarrow> jstr" where
  "accepted_lines V s [] z = []"
| "accepted_lines V s (x # xs) z =
    (case x of
       Start_operation now serial op payload employee await_ack \<Rightarrow>
         accepted_by s serial (build_command op (nullish_or payload (Obj [])) employee (options_for serial z))
           (fst (start_operation now serial op payload employee await_ack z))
     | _ \<Rightarrow> []) @ accepted_lines V s xs (after_step V x z)"

fun after_steps :: "'d push_env \<Rightarrow> push_step list \<Rightarrow> listener \<Rightarrow> listener" where
  "after_steps V [] z = z"
| "after_steps V (x # xs) z = after_steps V xs (after_step V x z)"

lemma command_body_lines:
  "command_body (concat (map command_line is)) = (if is = [] then ok_line else concat (map command_line is))"
  "is \<noteq> [] \<Longrightarrow> concat (map command_line is) \<noteq> ok_line"
proof -
  have *: "\<exists>r. concat (map command_line is) = 67 # r" if "is \<noteq> []"
    using that by (cases "is") (auto simp: command_line_def js_def)
  moreover have "trim (67 # r) \<noteq> []" for r by (auto simp: trim_eq_Nil_iff is_ws_def)
  ultimately show "command_body (concat (map command_line is)) = (if is = [] then ok_line else concat (map command_line is))"
    by (auto simp: command_body_def ok_line_def)
  show "is \<noteq> [] \<Longrightarrow> concat (map command_line is) \<noteq> ok_line" using * by (auto simp: ok_line_def js_def)
qed

lemma serve_waiting:
  assumes "serve V now fresh req (path_of req) (serial_of req) z = (r, out, z')" "serial_of req \<noteq> []" "trim s \<noteq> []"
  shows "handed_by s req r @ waiting s z' = waiting s z"
proof (cases "path_of req = js ''/iclock/getrequest''")
  case True
  obtain lines out1 z1 where f: "fetch_commands V now (serial_of req) z = (lines, out1, z1)" by (metis prod_cases3)
  have "(r, out, z') = ((200, lines), out1, z1)"
    using assms(1) by (simp add: serve_def Let_def True f)
  then have rz: "r = (200, lines)" "z' = z1" by simp_all
  have own: "trim (serial_of req) = serial_of req" by (simp add: serial_of_def)
  note fetched = fetch_commands_pending [OF f]
  show ?thesis
  proof (cases "trim s = serial_of req")
    case True
    then have "pending_of (serial_of req) z = pending_of s z" by (simp add: pending_of_def bucket_of_cong [of "serial_of req" s] own)
    then show ?thesis
      using fetched assms(2) command_body_lines(2) [of "pending_of s z"] True
      by (simp add: handed_by_def \<open>path_of req = js ''/iclock/getrequest''\<close> waiting_def rz own command_body_lines(1) del: concat_eq_Nil_conv)
  next
    case False
    then show ?thesis using fetched(2) [of s] assms(2) by (auto simp: handed_by_def waiting_def rz own)
  qed
next
  case False
  have "pending_of s (snd (snd (serve V now fresh req (path_of req) (serial_of req) z))) = pending_of s z"
    by (simp add: serve_def Let_def False split_beta pending_of_same)
  then have "pending_of s z' = pending_of s z" by (simp add: assms(1))
  then show ?thesis using False by (simp add: handed_by_def waiting_def)
qed

lemma handle_waiting:
  assumes "handle_push V now fresh req z = (r, out, z')" "trim s \<noteq> []"
  shows "handed_by s req r @ waiting s z' = waiting s z"
proof -
  let ?z = "count (\<lambda>s. s\<lparr>ps_requests := ps_requests s + 1\<rparr>) z"
  obtain v g where d: "decide (pv_sha V) (pv_controller V) now (inbound_of req) (zk_gate ?z) = (v, g)" by fastforce
  have same: "waiting s (?z\<lparr>zk_gate := g\<rparr>) = waiting s z" "waiting s (count f (?z\<lparr>zk_gate := g\<rparr>)) = waiting s z" for f
    by (simp_all add: waiting_def pending_of_def)
  show ?thesis
  proof (cases v)
    case (Turned_away n code x y)
    then have "r = refusal_reply code" "z' = count (count_refusal code) (?z\<lparr>zk_gate := g\<rparr>)"
      using assms(1) unfolding handle_push_def Let_def d Turned_away by simp_all
    then show ?thesis using same(2) by (simp add: handed_by_def refusal_reply_def split: denial_code.splits)
  next
    case (Admitted x)
    show ?thesis
    proof (cases "starts_with (path_of req) (js ''/iclock/'') \<and> serial_of req \<noteq> []")
      case True
      then have "serve V now fresh req (path_of req) (serial_of req) (?z\<lparr>zk_gate := g\<rparr>) = (r, out, z')"
        using assms(1) unfolding handle_push_def Let_def d Admitted by simp
      from serve_waiting [OF this _ assms(2)] True show ?thesis unfolding same(1) by blast
    next
      case False
      then have "fst r \<noteq> 200" "z' = ?z\<lparr>zk_gate := g\<rparr>"
        using assms(1) unfolding handle_push_def Let_def d Admitted by (auto split: if_splits)
      then show ?thesis using same(1) by (simp add: handed_by_def)
    qed
  qed
qed

lemma start_waiting:
  assumes "start_operation now serial op payload employee await_ack z = (answer, z')" "trim s \<noteq> []"
  shows "waiting s z' = waiting s z
    @ accepted_by s serial (build_command op (nullish_or payload (Obj [])) employee (options_for serial z)) answer"
proof (cases "build_command op (nullish_or payload (Obj [])) employee (options_for serial z)")
  case (Inl e)
  then show ?thesis using assms(1) by (simp add: start_operation_def accepted_by_def)
next
  case (Inr command)
  let ?meta = "\<lparr>pm_operation = op, pm_employee = employee\<rparr>"
  obtain qr q where q: "queue_command now serial command ?meta (zk_queue z) = (qr, q)" by fastforce
  have step: "(case qr of Inr (Inr i) \<Rightarrow> answer = Inr i | _ \<Rightarrow> \<exists>e. answer = Inl e) \<and> zk_queue z' = q"
    using assms(1) by (auto simp: start_operation_def Inr q split: sum.splits)
  show ?thesis
  proof (cases "trim serial = []")
    case True
    then have "qr = Inl (js ''a push command needs the terminal serial number'')" "q = zk_queue z"
      using q by (simp_all add: queue_command_def in_bucket_def)
    then show ?thesis using step by (auto simp: accepted_by_def waiting_def pending_of_def Inr)
  next
    case False
    note same = bucket_of_cong [of s serial "zk_queue z"]
    show ?thesis
    proof (cases "max_per_device \<le> length (bk_pending (bucket_of (zk_queue z) serial))")
      case True
      then show ?thesis using q step False same
        by (auto simp: queue_command_def in_bucket_def bucket_queue_def accepted_by_def waiting_def pending_of_def Inr)
    next
      case False
      then show ?thesis using q step \<open>trim serial \<noteq> []\<close> same
        by (auto simp: queue_command_def in_bucket_def bucket_queue_def accepted_by_def waiting_def pending_of_def Inr command_line_def)
    qed
  qed
qed

lemma handed_waiting:
  assumes "trim s \<noteq> []"
  shows "handed V s steps z @ waiting s (after_steps V steps z) = waiting s z @ accepted_lines V s steps z"
proof (induction steps arbitrary: z)
  case (Cons x steps)
  show ?case
  proof (cases x)
    case (Request now fresh req)
    obtain r out z' where h: "handle_push V now fresh req z = (r, out, z')" by (metis prod_cases3)
    from handle_waiting [OF h assms] show ?thesis
      using Cons [of z'] by (simp add: Request h)
  next
    case (Start_operation now serial op payload employee await_ack)
    obtain answer z' where h: "start_operation now serial op payload employee await_ack z = (answer, z')" by fastforce
    from start_waiting [OF h assms] show ?thesis
      using Cons [of z'] by (simp add: Start_operation h)
  next
    case (Wait_over key)
    have "waiting s (snd (await_timeout key z)) = waiting s z"
      by (simp add: await_timeout_def waiting_def pending_of_def)
    then show ?thesis using Cons [of "snd (await_timeout key z)"] by (simp add: Wait_over)
  qed
qed simp

text \<open>
  C15: whatever requests, operations and expired waits follow one another, the commands a terminal is handed,
  followed by those that still wait for it, are exactly those accepted for it, in their order: none is
  lost, repeated or handed to another terminal.
\<close>
theorem commands_arrive_in_order:
  assumes "trim s \<noteq> []"
  shows "handed V s steps new_listener @ waiting s (after_steps V steps new_listener) = accepted_lines V s steps new_listener"
  using handed_waiting [OF assms, of V steps new_listener]
  by (simp add: waiting_def pending_of_def bucket_of_def new_listener_def new_bucket_def)

subsection \<open>What a result confirms\<close>

definition outstanding :: "jstr \<Rightarrow> listener \<Rightarrow> nat set" where
  "outstanding s z = fst ` set (bk_delivered (bucket_of (zk_queue z) s))"

definition id_of :: "options \<Rightarrow> jval" where "id_of r = get_prop (Obj r) (js ''ID'')"
definition return_of :: "options \<Rightarrow> jval" where "return_of r = get_prop (Obj r) (js ''Return'')"

lemma bucket_confirm_some:
  assumes "bucket_confirm now i c b = (Some cf, b')"
  shows "to_number i = Num (int (cf_id cf)) \<and> cf_code cf = code_of c \<and> cf_id cf \<in> fst ` set (bk_delivered b)"
  using assms
  by (auto simp: bucket_confirm_def split: jval.splits option.splits if_splits prod.splits dest!: map_of_SomeD intro: rev_image_eqI)

lemma bucket_confirm_delivered:
  "fst ` set (bk_delivered (snd (bucket_confirm now i c b))) \<subseteq> fst ` set (bk_delivered b)"
proof -
  have "fst ` set (AList.delete k xs) \<subseteq> fst ` set xs" for k :: nat and xs :: "(nat \<times> 'a push_item \<times> int) list"
    by (metis Diff_subset delete_keys list.set_map set_removeAll)
  then show ?thesis by (simp add: bucket_confirm_def split: jval.split option.split)
qed

lemma confirm_one_effect:
  assumes "confirm_one now serial r z = (out, z')"
  shows "outstanding serial z' \<subseteq> outstanding serial z" "set (zk_awaiting z') \<subseteq> set (zk_awaiting z)"
    "Resolved key result \<in> set out \<Longrightarrow> oc_ok result \<Longrightarrow>
      \<exists>i. key = await_key serial i \<and> to_number (id_of r) = Num (int i) \<and> code_of (return_of r) = Some 0
        \<and> i \<in> outstanding serial z \<and> key \<in> set (zk_awaiting z)"
proof -
  obtain a q where c: "confirm_command now serial (id_of r) (return_of r) (zk_queue z) = (a, q)" by fastforce
  obtain x b where b: "bucket_confirm now (id_of r) (return_of r) (bucket_of (zk_queue z) serial) = (x, b)" by fastforce
  have aq: "(a, q) = (if trim serial = [] then (Inl (js ''a push command needs the terminal serial number''), zk_queue z)
      else (Inr x, set_bucket serial b (zk_queue z)))"
    using c by (cases "trim serial = []") (simp_all add: confirm_command_def in_bucket_def b)
  have one: "confirm_one now serial r z =
      (case a of Inr (Some cf) \<Rightarrow>
         resolve (await_key serial (cf_id cf))
           \<lparr>oc_ok = (cf_code cf = Some 0), oc_error = None, oc_code = cf_code cf, oc_meaning = Some (cf_meaning cf), oc_waited = Some (cf_waited cf)\<rparr>
           (count (\<lambda>s. s\<lparr>ps_confirmed := ps_confirmed s + 1\<rparr>) (z\<lparr>zk_queue := q\<rparr>))
       | _ \<Rightarrow> ([], z\<lparr>zk_queue := q\<rparr>))"
    unfolding confirm_one_def id_of_def [symmetric] return_of_def [symmetric] c by (simp split: sum.splits option.splits)
  have zq: "zk_queue z' = q"
    using assms unfolding one by (auto simp: resolve_def count_def split: sum.splits option.splits if_splits)
  have "fst ` set (bk_delivered b) \<subseteq> outstanding serial z"
    using bucket_confirm_delivered [of now "id_of r" "return_of r" "bucket_of (zk_queue z) serial"] by (simp add: b outstanding_def)
  then show "outstanding serial z' \<subseteq> outstanding serial z"
    using aq by (auto simp: outstanding_def zq split: if_splits)
  show "set (zk_awaiting z') \<subseteq> set (zk_awaiting z)"
    using assms unfolding one by (auto simp: resolve_def count_def split: sum.splits option.splits if_splits)
  assume res: "Resolved key result \<in> set out" "oc_ok result"
  then obtain cf where cf: "a = Inr (Some cf)" "key = await_key serial (cf_id cf)" "cf_code cf = Some 0" "key \<in> set (zk_awaiting z)"
    using assms unfolding one by (auto simp: resolve_def count_def split: sum.splits option.splits if_splits)
  then have "bucket_confirm now (id_of r) (return_of r) (bucket_of (zk_queue z) serial) = (Some cf, b)"
    using aq b by (simp split: if_splits)
  from bucket_confirm_some [OF this] cf show "\<exists>i. key = await_key serial i \<and> to_number (id_of r) = Num (int i) \<and> code_of (return_of r) = Some 0
        \<and> i \<in> outstanding serial z \<and> key \<in> set (zk_awaiting z)"
    by (auto simp: outstanding_def)
qed

lemma confirms_effect:
  assumes "Resolved key result \<in> set (fst (each (confirm_one now serial) rs z))" "oc_ok result"
  shows "\<exists>r \<in> set rs. \<exists>i. key = await_key serial i \<and> to_number (id_of r) = Num (int i) \<and> code_of (return_of r) = Some 0
        \<and> i \<in> outstanding serial z \<and> key \<in> set (zk_awaiting z)"
  using assms(1)
proof (induction rs arbitrary: z)
  case (Cons r rs)
  obtain out z1 where one: "confirm_one now serial r z = (out, z1)" by fastforce
  note effect = confirm_one_effect [OF one]
  from Cons.prems consider "Resolved key result \<in> set out" | "Resolved key result \<in> set (fst (each (confirm_one now serial) rs z1))"
    by (auto simp: one split: prod.splits)
  then show ?case
  proof cases
    case 1
    from effect(3) [OF this assms(2)] show ?thesis by simp
  next
    case 2
    from Cons.IH [OF this] obtain x i where "x \<in> set rs" "key = await_key serial i" "to_number (id_of x) = Num (int i)"
      "code_of (return_of x) = Some 0" "i \<in> outstanding serial z1" "key \<in> set (zk_awaiting z1)" by blast
    then show ?thesis using effect(1,2) by (intro bexI [of _ x] exI [of _ i]) auto
  qed
qed simp

lemma expirations_fail: "Resolved key result \<in> set (fst (each (expire_one serial) items z)) \<Longrightarrow> \<not> oc_ok result"
proof (induction items arbitrary: z)
  case (Cons i items)
  obtain out z1 where one: "expire_one serial i z = (out, z1)" by fastforce
  have "set out \<subseteq> {Resolved (await_key serial (pi_id i)) timed_out}"
    using one by (cases "await_key serial (pi_id i) \<in> set (zk_awaiting z)") (auto simp: expire_one_def resolve_def)
  then have "Resolved key result \<in> set out \<Longrightarrow> \<not> oc_ok result" by (auto simp: timed_out_def)
  moreover have "Resolved key result \<in> set out \<or> Resolved key result \<in> set (fst (each (expire_one serial) items z1))"
    using Cons.prems by (auto simp: one split: prod.splits)
  ultimately show ?case using Cons.IH by blast
qed simp

lemma uploads_resolve_nothing: "Resolved key result \<notin> set (fst (each (ingest_record V now serial table device) rs z))"
proof (induction rs arbitrary: z)
  case (Cons r rs)
  have "Resolved key result \<notin> set (fst (ingest_record V now serial table device r z))" by (simp add: ingest_record_def)
  then show ?case using Cons by (auto split: prod.splits) (metis fst_conv)+
qed simp

lemma receiving_resolves_nothing:
  "Resolved key result \<notin> set (fst (absorb_device_info now serial body z))"
  "Resolved key result \<notin> set (fst (ingest V now serial table body z))"
  by (simp_all add: uploads_resolve_nothing absorb_device_info_def ingest_def Let_def split: option.split)

text \<open>
  C16: an operation is reported as done only when the terminal it was sent to reports, under the command's
  own number, a result that reads as zero, for a command that was delivered to it and is still unconfirmed.
\<close>
theorem success_was_reported:
  assumes "handle_push V now fresh req z = (r, out, z')" "Resolved key result \<in> set out" "operation_result result = Inr ()"
  shows "path_of req = js ''/iclock/devicecmd''
    \<and> (\<exists>rec \<in> set (result_records (zr_params req) (if zr_method req = js ''POST'' then zr_body req else [])).
         \<exists>i. key = await_key (serial_of req) i \<and> to_number (id_of rec) = Num (int i) \<and> code_of (return_of rec) = Some 0
           \<and> i \<in> outstanding (serial_of req) z \<and> key \<in> set (zk_awaiting z))"
proof -
  let ?z = "count (\<lambda>s. s\<lparr>ps_requests := ps_requests s + 1\<rparr>) z"
  obtain v g where d: "decide (pv_sha V) (pv_controller V) now (inbound_of req) (zk_gate ?z) = (v, g)" by fastforce
  let ?zg = "?z\<lparr>zk_gate := g\<rparr>" and ?body = "if zr_method req = js ''POST'' then zr_body req else []"
  have ok: "oc_ok result" using assms(3) by (simp add: operation_result_def split: if_splits)
  have s: "serve V now fresh req (path_of req) (serial_of req) ?zg = (r, out, z')"
    using assms(1,2) unfolding handle_push_def Let_def d by (auto split: verdict.splits if_splits)
  have out: "out = fst (snd (serve V now fresh req (path_of req) (serial_of req) ?zg))" unfolding s by simp
  have expired: "Resolved key result \<notin> set (fst (snd (fetch_commands V now serial y)))" for serial y
    using expirations_fail ok by (simp add: fetch_commands_def split_beta Let_def) blast
  have at: "path_of req = js ''/iclock/devicecmd''"
    using assms(2) unfolding out serve_def Let_def by (auto simp: split_beta receiving_resolves_nothing expired split: if_split_asm)
  have res: "Resolved key result \<in> set (fst (each (confirm_one now (serial_of req)) (result_records (zr_params req) ?body) ?zg))"
    using assms(2) at unfolding out serve_def Let_def by (simp add: split_beta)
  have "outstanding (serial_of req) ?zg = outstanding (serial_of req) z" "zk_awaiting ?zg = zk_awaiting z"
    by (simp_all add: outstanding_def count_def)
  with confirms_effect [OF res ok] at show ?thesis by (metis (no_types, lifting))
qed

text \<open>
  A result whose return code is empty counts as success: the number of the empty text is zero,
  so the operation that waits is answered as applied although the terminal reported no code.
\<close>
theorem empty_return_counts_as_success:
  assumes "req = \<lparr>zr_method = js ''GET'', zr_path = js ''/iclock/devicecmd'', zr_params = [(js ''SN'', s), (js ''ID'', t), (js ''Return'', [])],
      zr_body = [], zr_remote = ip, zr_headers = headers, zr_url = url\<rparr>"
    and "fst (decide (pv_sha V) (pv_controller V) now (inbound_of req) (zk_gate z)) = Admitted src"
    and "trim s = s" "s \<noteq> []" "t \<noteq> []" "number_of_text t = Num (int i)"
    and "i \<in> outstanding s z" "await_key s i \<in> set (zk_awaiting z)"
  shows "\<exists>result. Resolved (await_key s i) result \<in> set (fst (snd (handle_push V now fresh req z)))
    \<and> oc_code result = Some 0 \<and> oc_meaning result = Some (js ''applied by the terminal'') \<and> operation_result result = Inr ()"
proof -
  let ?z = "count (\<lambda>s. s\<lparr>ps_requests := ps_requests s + 1\<rparr>) z"
  obtain g where d: "decide (pv_sha V) (pv_controller V) now (inbound_of req) (zk_gate ?z) = (Admitted src, g)"
    using assms(2) by (metis count_gate prod.collapse)
  let ?zg = "?z\<lparr>zk_gate := g\<rparr>"
  have parts: "path_of req = js ''/iclock/devicecmd''" "serial_of req = s"
    using assms(3) by (simp_all add: assms(1) path_of_def serial_of_def param_def js_def)
  let ?r = "[(js ''SN'', Str s), (js ''ID'', Str t), (js ''Return'', Str [])] :: options"
  have "result_records (zr_params req) [] = [?r]"
    using assms(5) by (simp add: assms(1) result_records_def query_record_def result_line_def param_def set_field_def js_def)
  then have "handle_push V now fresh req z
      = (case each (confirm_one now s) [?r] ?zg of (out, z1) \<Rightarrow> ((200, ok_line), out, z1))"
    using assms(4) unfolding handle_push_def Let_def d serve_def parts by (simp add: assms(1) starts_with_def js_def)
  then have out: "fst (snd (handle_push V now fresh req z)) = fst (confirm_one now s ?r ?zg)"
    by (simp add: split_beta)
  obtain item at where item: "map_of (bk_delivered (bucket_of (zk_queue z) s)) i = Some (item, at)"
    using assms(7) unfolding outstanding_def by (metis map_of_eq_None_iff option.exhaust surj_pair)
  have "to_number (Str ([] :: jstr)) = Num 0" by (simp add: number_of_text_def)
  moreover have "get_prop (Obj ?r) (js ''ID'') = Str t" "get_prop (Obj ?r) (js ''Return'') = Str []" by (simp_all add: js_def)
  ultimately show ?thesis
    unfolding out confirm_one_def
    using item assms(3,4,6,8)
    by (simp add: confirm_command_def in_bucket_def bucket_confirm_def code_of_def meaning_of_def return_meanings_def
        resolve_def operation_result_def count_def)
qed

subsection \<open>How commands are framed\<close>

definition one_line :: "jstr \<Rightarrow> bool" where
  "one_line s \<longleftrightarrow> list_all (\<lambda>c. c \<noteq> 10 \<and> c \<noteq> 13) s"

definition one_field :: "jstr \<Rightarrow> bool" where
  "one_field s \<longleftrightarrow> one_line s \<and> 9 \<notin> set s"

lemma field_breaks_iff: "field_breaks s \<longleftrightarrow> \<not> one_field s"
  by (auto simp: field_breaks_def one_field_def one_line_def list_all_iff list_ex_iff)

lemma one_line_append: "one_line (s @ t) \<longleftrightarrow> one_line s \<and> one_line t"
  by (simp add: one_line_def)

lemma one_field_append: "one_field (s @ t) \<longleftrightarrow> one_field s \<and> one_field t"
  by (auto simp: one_field_def one_line_def)

lemma one_field_names:
  "list_all (\<lambda>n. one_field (js n @ js ''='')) [''PIN'', ''Name'', ''Pri'', ''Card'', ''Grp'', ''TZ'', ''Verify'', ''Enable'', ''StartDatetime'', ''EndDatetime'']"
  by code_simp

lemma emit_fields_safe:
  "emit_fields fs = Inr parts \<Longrightarrow> list_all (\<lambda>(n, v). one_field (js n @ js ''='')) fs \<Longrightarrow> list_all one_field parts"
proof (induction fs arbitrary: parts)
  case (Cons f fs)
  obtain n v where f: "f = (n, v)" by fastforce
  show ?case
  proof (cases "nullish v \<or> v = Str []")
    case False
    then obtain rest where "emit_fields fs = Inr rest" "parts = (js n @ js ''='' @ to_string v) # rest" "\<not> field_breaks (to_string v)"
      using Cons.prems(1) by (auto simp: f assert_field_safe_def rbind_Inr_iff split: if_splits)
    then show ?thesis using Cons.IH [of rest] Cons.prems(2) one_field_append [of "js n @ js ''=''" "to_string v"]
      by (simp add: f field_breaks_iff)
  qed (use Cons in \<open>simp add: f\<close>)
qed simp

lemma user_fields_named: "list_all (\<lambda>(n, v). one_field (js n @ js ''='')) (user_fields f)"
  using one_field_names by (simp add: user_fields_def)

lemma join_one_line: "list_all one_line parts \<Longrightarrow> one_line (join [9] parts)"
  by (induction "[9] :: jstr" parts rule: join.induct) (auto simp: one_line_def)

definition valid_pin :: "jval \<Rightarrow> options \<Rightarrow> jstr \<Rightarrow> bool" where
  "valid_pin employee options pin \<longleftrightarrow>
    pin = trim (to_string_or_empty employee) \<and> pin \<noteq> [] \<and> length pin \<le> pin_max
    \<and> (case pp_max (pin_policy_of options) of None \<Rightarrow> True | Some n \<Rightarrow> length pin \<le> n)
    \<and> (numeric_pin pin \<or> pp_strings (pin_policy_of options) \<and> one_field pin)"

lemma validate_terminal_pin_iff: "validate_terminal_pin employee options = Inr pin \<longleftrightarrow> valid_pin employee options pin"
  by (auto simp: validate_terminal_pin_def valid_pin_def Let_def field_breaks_iff split: option.splits if_splits)

lemma numeric_one_field: "numeric_pin s \<Longrightarrow> one_field s"
  by (auto simp: numeric_pin_def one_field_def one_line_def list_all_iff is_digit_def)

lemma valid_pin_one_field: "valid_pin employee options pin \<Longrightarrow> one_field pin"
  using numeric_one_field by (auto simp: valid_pin_def)

lemma update_framed:
  assumes "encode_user_update pin f = Inr command"
  shows "\<exists>parts. command = js ''DATA UPDATE USERINFO '' @ join [9] ((js ''PIN='' @ pin) # parts)
    \<and> list_all one_field ((js ''PIN='' @ pin) # parts)"
proof -
  from assms obtain parts where "\<not> field_breaks pin" "emit_fields (user_fields f) = Inr parts"
    "command = js ''DATA UPDATE USERINFO '' @ join [9] ((js ''PIN='' @ pin) # parts)"
    by (auto simp: encode_user_update_def assert_field_safe_def rbind_Inr_iff split: if_splits)
  moreover have "one_field (js ''PIN='')" by code_simp
  ultimately show ?thesis using emit_fields_safe [OF _ user_fields_named] by (auto simp: field_breaks_iff one_field_append)
qed

definition upserts :: "jstr set" where
  "upserts = {js ''upsert_person'', js ''upsert_card'', js ''enable_card'', js ''upsert_visitor''}"


end
