(* ===== verification/SignIn.thy ===== *)
theory SignIn
  imports EstateTime
begin

text \<open>
  Model of \<^verbatim>\<open>src/src/sign-in.ts\<close>: session lifetimes and the session cookie, reading of
  addresses, reset codes and timestamps, the throttle windows, the password rule and the wording of
  the failures. SHA-256 is a parameter on texts, random bytes are handed in, and instants are
  milliseconds.
\<close>

definition session_seconds :: int where "session_seconds = 60 * 60 * 12"
definition remember_me_seconds :: int where "remember_me_seconds = 60 * 60 * 24 * 30"
definition gate_selection_seconds :: int where "gate_selection_seconds = 5 * 60"
definition session_cookie_name :: jstr where "session_cookie_name = js ''estatemate_session''"

definition reset_code_ttl_default :: int where "reset_code_ttl_default = 30"
definition reset_code_ttl_min :: int where "reset_code_ttl_min = 5"
definition reset_code_ttl_max :: int where "reset_code_ttl_max = 120"
definition reset_code_max_attempts :: nat where "reset_code_max_attempts = 5"
definition reset_code_alphabet :: jstr where "reset_code_alphabet = js ''23456789ABCDEFGHJKMNPQRSTUVWXYZ''"
definition reset_code_length :: nat where "reset_code_length = 8"
definition reset_reference_length :: nat where "reset_reference_length = 6"
definition reset_request_pending_days :: int where "reset_request_pending_days = 7"
definition reset_request_reuse_hours :: int where "reset_request_reuse_hours = 12"
definition min_password_length :: nat where "min_password_length = 12"
definition max_password_length :: nat where "max_password_length = 200"

definition sign_in_clients :: "jstr list" where
  "sign_in_clients = [js ''portal'', js ''desktop'', js ''android'']"

subsection \<open>Failure codes\<close>

datatype problem_code =
    Validation | InvalidCredentials | AccountInactive | AccountExpired | TooManyAttempts
  | InvalidResetCode | ResetCodeExpired | WeakPassword | ServiceUnavailable

fun sign_in_text :: "problem_code \<Rightarrow> jstr" where
  "sign_in_text Validation = js ''Enter the details the form asks for and try again.''"
| "sign_in_text InvalidCredentials = js ''That email and password do not match an active account.''"
| "sign_in_text AccountInactive = js ''This account has been deactivated. Ask the estate office to reactivate it.''"
| "sign_in_text AccountExpired = js ''This account has expired. Ask the estate office for a new one.''"
| "sign_in_text TooManyAttempts = js ''Too many attempts. Wait a few minutes, then try again, or reset your password.''"
| "sign_in_text InvalidResetCode = js ''That reset code is not right, or it has already been used.''"
| "sign_in_text ResetCodeExpired = js ''That reset code has expired. Request a new one.''"
| "sign_in_text WeakPassword = js ''Choose a password of at least '' @ show_nat min_password_length @ js '' characters.''"
| "sign_in_text ServiceUnavailable = js ''The estate server could not complete that request. Try again in a moment.''"

definition sign_in_message :: "problem_code \<Rightarrow> jstr option \<Rightarrow> jstr" where
  "sign_in_message code override =
    (case override of
       Some t \<Rightarrow> if trim t \<noteq> [] then trim t else sign_in_text code
     | None \<Rightarrow> sign_in_text code)"

text \<open>The body and status of a refusal; the seconds are what \<open>Retry-After\<close> is computed from.\<close>

record problem =
  pb_status :: nat
  pb_code :: problem_code
  pb_error :: jstr
  pb_retry :: "int option"

definition sign_in_problem :: "nat \<Rightarrow> problem_code \<Rightarrow> jstr \<Rightarrow> int option \<Rightarrow> problem" where
  "sign_in_problem status code message retry =
    \<lparr>pb_status = status, pb_code = code, pb_error = sign_in_message code (Some message), pb_retry = retry\<rparr>"

definition retry_after_header :: "problem \<Rightarrow> int option" where
  "retry_after_header p = map_option (\<lambda>s. max 1 s) (pb_retry p)"

subsection \<open>Reading the form\<close>

definition read_boolean_flag :: "jval \<Rightarrow> bool" where
  "read_boolean_flag v =
    (case v of
       Bool b \<Rightarrow> b
     | Str s \<Rightarrow> lower (trim s) \<in> {js ''true'', js ''1'', js ''on'', js ''yes''}
     | _ \<Rightarrow> False)"

definition session_seconds_for :: "jval \<Rightarrow> int" where
  "session_seconds_for remember = (if read_boolean_flag remember then remember_me_seconds else session_seconds)"

definition normalize_email :: "jval \<Rightarrow> jstr" where
  "normalize_email v = (case v of Str s \<Rightarrow> lower (trim s) | _ \<Rightarrow> [])"

text \<open>\<open>/^[^\s@]+@[^\s@]+\.[^\s@]+$/\<close>: one at sign, no white space, a dot inside the domain.\<close>

definition looks_like_email :: "jstr \<Rightarrow> bool" where
  "looks_like_email s =
    (let name = takeWhile (\<lambda>c. c \<noteq> 64) s; domain = drop (length name + 1) s
     in length name < length s \<and> name \<noteq> [] \<and> list_all (\<lambda>c. \<not> is_ws c) s \<and> 64 \<notin> set domain
        \<and> 46 \<in> set (butlast (tl domain)))"

definition read_requested_from :: "jval \<Rightarrow> jstr" where
  "read_requested_from v =
    (let t = (case v of Str s \<Rightarrow> lower (trim s) | _ \<Rightarrow> [])
     in if t \<in> set sign_in_clients then t else js ''unknown'')"

definition read_self_service_enabled :: "jval \<Rightarrow> bool" where
  "read_self_service_enabled v \<longleftrightarrow> lower (trim (to_string_or_empty v)) = js ''true''"

definition read_reset_code_minutes :: "jval \<Rightarrow> int" where
  "read_reset_code_minutes v =
    (let t = (case v of Num i \<Rightarrow> show_int i | NumText s \<Rightarrow> s | _ \<Rightarrow> trim (to_string_or_empty v)) in
     if t = [] \<or> 3 < length t \<or> \<not> list_all is_digit t then reset_code_ttl_default
     else let m = int (digits_val t)
       in if m < reset_code_ttl_min \<or> reset_code_ttl_max < m then reset_code_ttl_default else m)"

text \<open>The address of the caller; the hash keeps 32 characters of a salted digest.\<close>

definition request_address :: "(jstr \<Rightarrow> jstr option) \<Rightarrow> jstr" where
  "request_address header =
    (let direct = coalesce (map_option trim (header (js ''CF-Connecting-IP''))) [];
         first = coalesce (map_option (\<lambda>f. trim (hd (split_on 44 f))) (header (js ''X-Forwarded-For''))) []
     in if direct \<noteq> [] then direct else if first \<noteq> [] then first else js ''unknown'')"

definition attempt_source_hash :: "(jstr \<Rightarrow> jstr) \<Rightarrow> jstr \<Rightarrow> jstr \<Rightarrow> jstr" where
  "attempt_source_hash sha secret address = take 32 (sha (secret @ js ''|'' @ address))"

subsection \<open>The session cookie\<close>

text \<open>\<open>encodeURIComponent\<close> on ASCII texts, such as a token: base64url parts joined by dots.\<close>

definition uri_plain :: "nat \<Rightarrow> bool" where
  "uri_plain c \<longleftrightarrow> is_alnum c \<or> c \<in> set (js ''-_.!~*()'') \<or> c = 39"

definition upper_hex :: "nat \<Rightarrow> nat" where
  "upper_hex d = (if d < 10 then 48 + d else 55 + d)"

definition encode_ascii :: "jstr \<Rightarrow> jstr" where
  "encode_ascii s = concat (map (\<lambda>c. if uri_plain c then [c] else [37, upper_hex (c div 16), upper_hex (c mod 16)]) s)"

definition session_cookie :: "jstr option \<Rightarrow> int \<Rightarrow> jstr" where
  "session_cookie token max_age =
    session_cookie_name @ js ''='' @ (case token of None \<Rightarrow> [] | Some t \<Rightarrow> encode_ascii t)
    @ js ''; HttpOnly; Secure; SameSite=Strict; Path=/; Max-Age='' @ show_int (max 0 max_age)"

definition cleared_session_cookie :: jstr where
  "cleared_session_cookie = session_cookie None 0"

subsection \<open>Reset codes and references\<close>

definition random_char :: "nat \<Rightarrow> nat" where
  "random_char byte = reset_code_alphabet ! (byte mod length reset_code_alphabet)"

definition generate_reset_code :: "(nat \<Rightarrow> nat) \<Rightarrow> nat \<Rightarrow> jstr" where
  "generate_reset_code bytes n = map (\<lambda>i. random_char (bytes (n + i))) [0..<reset_code_length]"

definition normalize_reset_code :: "jval \<Rightarrow> jstr" where
  "normalize_reset_code v =
    (case v of Str s \<Rightarrow> filter (\<lambda>c. is_digit c \<or> is_upper c) (upper s) | _ \<Rightarrow> [])"

definition format_reset_code :: "jstr \<Rightarrow> jstr" where
  "format_reset_code code =
    (let n = normalize_reset_code (Str code)
     in if length n \<noteq> reset_code_length then n else take 4 n @ js ''-'' @ drop 4 n)"

definition generate_reset_reference :: "(nat \<Rightarrow> nat) \<Rightarrow> nat \<Rightarrow> jstr" where
  "generate_reset_reference bytes n = js ''PR-'' @ map (\<lambda>i. random_char (bytes (n + i))) [0..<reset_reference_length]"

definition reset_code_hash :: "(jstr \<Rightarrow> jstr) \<Rightarrow> jstr \<Rightarrow> jstr" where
  "reset_code_hash sha code = sha (js ''reset-code|'' @ normalize_reset_code (Str code))"

definition reset_code_matches :: "(jstr \<Rightarrow> jstr) \<Rightarrow> jstr \<Rightarrow> jstr \<Rightarrow> bool" where
  "reset_code_matches sha code stored \<longleftrightarrow> reset_code_hash sha code = stored"

subsection \<open>Timestamps\<close>

text \<open>\<open>value.replace(' ', 'T')\<close> replaces the first space.\<close>

fun replace_first :: "nat \<Rightarrow> nat \<Rightarrow> jstr \<Rightarrow> jstr" where
  "replace_first a b [] = []"
| "replace_first a b (c # s) = (if c = a then b # s else c # replace_first a b s)"

definition parse_sqlite_utc :: "platform \<Rightarrow> jstr option \<Rightarrow> int option" where
  "parse_sqlite_utc P value =
    (case value of
       None \<Rightarrow> None
     | Some v \<Rightarrow> if v = [] then None
                else date_parse P (if 84 \<in> set v then v else replace_first 32 84 v @ js ''Z''))"

definition sqlite_utc :: "int \<Rightarrow> jstr" where
  "sqlite_utc t = replace_first 84 32 (take 19 (iso_string t))"

definition reset_expiry :: "int \<Rightarrow> int \<Rightarrow> jstr" where
  "reset_expiry minutes now = sqlite_utc (now + minutes * 60000)"

definition ceil_div :: "int \<Rightarrow> int \<Rightarrow> int" where
  "ceil_div a b = - ((- a) div b)"

definition retry_after_seconds :: "int option \<Rightarrow> int \<Rightarrow> int \<Rightarrow> int" where
  "retry_after_seconds oldest window_minutes now =
    (case oldest of
       None \<Rightarrow> window_minutes * 60
     | Some t \<Rightarrow> max 0 (ceil_div (t + window_minutes * 60000 - now) 1000))"

definition retry_hint :: "int \<Rightarrow> jstr" where
  "retry_hint seconds =
    (let r = max 1 seconds; plural = (\<lambda>n. if n = 1 then [] else js ''s'')
     in if r < 60 then js ''Try again in '' @ show_int r @ js '' second'' @ plural r @ js ''.''
        else let m = ceil_div r 60
          in js ''Try again in '' @ show_int m @ js '' minute'' @ plural m @ js ''.'')"

definition session_issued_before_password_change :: "int option \<Rightarrow> int option \<Rightarrow> bool" where
  "session_issued_before_password_change changed issued =
    (case (changed, issued) of (Some c, Some i) \<Rightarrow> i * 1000 < c - 5 * 1000 | _ \<Rightarrow> False)"

subsection \<open>The password rule and the throttles\<close>

definition password_problem :: "jval \<Rightarrow> jstr \<Rightarrow> jstr option" where
  "password_problem password email =
    (let v = (case password of Str s \<Rightarrow> s | _ \<Rightarrow> []) in
     if trim v = [] then Some (js ''Your new password cannot be empty or only spaces.'')
     else if length v < min_password_length
     then Some (js ''Your new password must be at least '' @ show_nat min_password_length @ js '' characters long.'')
     else if max_password_length < length v
     then Some (js ''Your new password must be no longer than '' @ show_nat max_password_length @ js '' characters.'')
     else if email \<noteq> [] \<and> lower v = normalize_email (Str email)
     then Some (js ''Your new password cannot be your own email address.'')
     else None)"

record throttle =
  th_per_source :: nat
  th_per_email :: nat
  th_minutes :: int

definition login_throttle :: throttle where
  "login_throttle = \<lparr>th_per_source = 8, th_per_email = 25, th_minutes = 15\<rparr>"

definition forgot_throttle :: throttle where
  "forgot_throttle = \<lparr>th_per_source = 3, th_per_email = 10, th_minutes = 15\<rparr>"

subsection \<open>Codes and timestamps are read as they were written\<close>

lemma upper_fixed: "list_all (\<lambda>c. is_digit c \<or> is_upper c) s \<Longrightarrow> upper s = s"
proof (induction s)
  case (Cons c s)
  then have "upper_unit c = [c]"
    by (auto simp: upper_unit_def upper_special_def is_lower_def is_digit_def is_upper_def)
  with Cons show ?case by (simp add: upper_def)
qed simp

lemma normalized_code_units: "list_all (\<lambda>c. is_digit c \<or> is_upper c) (normalize_reset_code v)"
  by (auto simp: normalize_reset_code_def list_all_iff split: jval.splits)

lemma normalize_fixed: "list_all (\<lambda>c. is_digit c \<or> is_upper c) s \<Longrightarrow> normalize_reset_code (Str s) = s"
  by (simp add: normalize_reset_code_def upper_fixed) (simp add: list_all_iff)

lemma shown_code_reads_back: "normalize_reset_code (Str (format_reset_code code)) = normalize_reset_code (Str code)"
proof -
  let ?n = "normalize_reset_code (Str code)"
  have n: "list_all (\<lambda>c. is_digit c \<or> is_upper c) ?n" by (rule normalized_code_units)
  have sub: "list_all (\<lambda>c. is_digit c \<or> is_upper c) (take 4 ?n)" "list_all (\<lambda>c. is_digit c \<or> is_upper c) (drop 4 ?n)"
    using n unfolding list_all_iff by (meson in_set_takeD in_set_dropD)+
  then have part: "upper (take 4 ?n) = take 4 ?n" "upper (drop 4 ?n) = drop 4 ?n"
    "filter (\<lambda>c. is_digit c \<or> is_upper c) (take 4 ?n) = take 4 ?n" "filter (\<lambda>c. is_digit c \<or> is_upper c) (drop 4 ?n) = drop 4 ?n"
    by (simp_all add: upper_fixed) (simp_all add: list_all_iff)
  have "upper (take 4 ?n @ js ''-'' @ drop 4 ?n) = take 4 ?n @ js ''-'' @ drop 4 ?n"
    using part by (simp add: upper_def js_def upper_unit_def is_lower_def upper_special_def)
  then have "normalize_reset_code (Str (take 4 ?n @ js ''-'' @ drop 4 ?n)) = take 4 ?n @ drop 4 ?n"
    using part by (simp add: normalize_reset_code_def [of "Str (take 4 ?n @ _)"] js_def is_digit_def is_upper_def)
  then show ?thesis using n by (simp add: format_reset_code_def Let_def normalize_fixed)
qed

lemma replace_first_at: "a \<notin> set s \<Longrightarrow> replace_first a b (s @ [a] @ t) = s @ [b] @ t"
  by (induction s) auto

lemma digits_w_props:
  assumes "0 < w" "0 \<le> n" "n < 10 ^ w"
  shows "length (digits_w w n) = w" "list_all is_digit (digits_w w n)"
proof -
  have "nat n < 10 ^ w" using assms by (simp add: nat_less_iff)
  then have "length (show_nat (nat n)) \<le> w" using assms length_show_nat by blast
  then show "length (digits_w w n) = w" by (simp add: digits_w_def pad_start_def)
  show "list_all is_digit (digits_w w n)"
    using show_nat_digits by (auto simp: digits_w_def pad_start_def list_all_iff is_digit_def)
qed

lemma sqlite_utc_reads_back:
  assumes "0 \<le> f_year (fields_of t)" "f_year (fields_of t) \<le> 9999" "\<bar>t\<bar> \<le> 8640000000000000" "date_parse P = ecma_parse"
  shows "parse_sqlite_utc P (Some (sqlite_utc t)) = Some (t div 1000 * 1000)"
proof -
  let ?f = "fields_of t"
  note v = valid_fields_of [of t] and two = valid_fields_two_digits [OF valid_fields_of [of t]]
  let ?d = "digits_w 4 (f_year ?f) @ [45] @ digits_w 2 (f_month ?f) @ [45] @ digits_w 2 (f_day ?f)" and ?h = "hms_text ?f"
  have w: "length (digits_w 4 (f_year ?f)) = 4" "list_all is_digit (digits_w 4 (f_year ?f))"
    "length (digits_w 2 (f_month ?f)) = 2" "list_all is_digit (digits_w 2 (f_month ?f))"
    "length (digits_w 2 (f_day ?f)) = 2" "list_all is_digit (digits_w 2 (f_day ?f))"
    "length (digits_w 2 (f_hour ?f)) = 2" "list_all is_digit (digits_w 2 (f_hour ?f))"
    "length (digits_w 2 (f_minute ?f)) = 2" "list_all is_digit (digits_w 2 (f_minute ?f))"
    "length (digits_w 2 (f_second ?f)) = 2" "list_all is_digit (digits_w 2 (f_second ?f))"
    using two assms by (auto intro!: digits_w_props)
  have no: "84 \<notin> set ?d" "32 \<notin> set ?d" "84 \<notin> set ?h" "32 \<notin> set ?h"
    using w by (auto simp: hms_text_def list_all_iff is_digit_def)
  have iso: "iso_string t = ?d @ [84] @ ?h @ [46] @ digits_w 3 (f_ms ?f) @ [90]"
    using assms by (simp add: iso_string_def Let_def date_text_def year_text_def)
  have "take 19 (iso_string t) = ?d @ [84] @ ?h"
    unfolding iso using w by (simp add: hms_text_def)
  then have s: "sqlite_utc t = ?d @ [32] @ ?h"
    using replace_first_at [OF no(1)] by (simp only: sqlite_utc_def)
  have "replace_first 32 84 (?d @ [32] @ ?h) = ?d @ [84] @ ?h"
    using no(2) by (rule replace_first_at)
  moreover have "84 \<notin> set (?d @ [32] @ ?h)" using no by simp
  ultimately have "parse_sqlite_utc P (Some (sqlite_utc t)) = ecma_parse (?d @ [84] @ ?h @ js ''Z'')"
    by (simp add: parse_sqlite_utc_def s assms(4))
  also have "\<dots> = time_clip (make_date (?f\<lparr>f_ms := 0\<rparr>))"
    using two v assms
    by (simp add: ecma_parse_def hms_text_def parse_secs_def parse_zone_def js_def valid_fields_def make_date_def)
  also have "make_date (?f\<lparr>f_ms := 0\<rparr>) = make_date ?f - f_ms ?f"
    by (simp add: make_date_def make_time_def)
  also have "f_ms ?f = t mod 1000"
    by (simp add: fields_of_def Let_def ms_per_day_def mod_mod_cancel)
  also have "make_date ?f - t mod 1000 = t div 1000 * 1000"
    by (simp add: make_date_fields_of minus_mod_eq_div_mult)
  finally have "parse_sqlite_utc P (Some (sqlite_utc t)) = time_clip (t div 1000 * 1000)" .
  moreover have "\<bar>t div 1000 * 1000\<bar> \<le> 8640000000000000"
    using zdiv_mono1 [of "- 8640000000000000" t 1000] zdiv_mono1 [of t 8640000000000000 1000] assms(3)
    by (simp add: abs_le_iff)
  ultimately show ?thesis by (simp add: time_clip_def)
qed
end
