(* ===== verification/SnapshotServer.thy ===== *)
theory SnapshotServer
  imports SignIn "HOL-Library.List_Lexorder" "HOL-Library.Product_Lexorder" "HOL-Library.Multiset"
begin

text \<open>
  The credential snapshot the Worker serves to its bridges (\<open>snapshotSince\<close> and
  \<open>handleIsapiAgentCredentialSnapshot\<close> of \<^verbatim>\<open>src/src/index.ts\<close>), over the columns
  its queries read. Values and stored timestamps are texts and are compared as texts, as SQLite and
  JavaScript do for the ASCII texts these columns hold. The authentication of the agent is a
  precondition.
\<close>

subsection \<open>The instant a delta starts at\<close>

text \<open>\<open>/^\d{4}-\d{2}-\d{2} \d{2}:\d{2}:\d{2}$/\<close>, and \<open>/(?:[zZ]|[+-]\d{2}:?\d{2})$/\<close>.\<close>

definition stored_format :: "jstr \<Rightarrow> bool" where
  "stored_format s = match_shape (js ''dddd-dd-dd dd:dd:dd'') s"

definition has_zone :: "jstr \<Rightarrow> bool" where
  "has_zone s \<longleftrightarrow>
    s \<noteq> [] \<and> last s \<in> {90, 122}
    \<or> list_ex (\<lambda>shape. match_shape shape (slice_last (length shape) s)) [js ''+dd:dd'', js ''-dd:dd'', js ''+dddd'', js ''-dddd'']"

definition snapshot_since :: "platform \<Rightarrow> jstr \<Rightarrow> jstr" where
  "snapshot_since P value =
    (let raw = trim value in
     if raw = [] then []
     else if stored_format raw then raw
     else case date_parse P (if has_zone raw then raw else replace_first 32 84 raw @ js ''Z'') of
       None \<Rightarrow> []
     | Some t \<Rightarrow> sqlite_utc t)"

subsection \<open>The rows\<close>

record snap_card =
  sc_uid :: jstr
  sc_status :: jstr
  sc_resident :: jstr
  sc_member :: "jstr option"
  sc_expires :: "jstr option"
  sc_updated :: jstr

record snap_user =
  su_id :: jstr
  su_employee :: "jstr option"
  su_status :: jstr
  su_updated :: jstr

record snap_member =
  sm_id :: jstr
  sm_primary :: jstr
  sm_employee :: "jstr option"
  sm_status :: jstr
  sm_updated :: jstr

record estate =
  es_cards :: "snap_card list"
  es_users :: "snap_user list"
  es_members :: "snap_member list"

datatype credential_kind = CardKind | EmployeeKind

definition kind_name :: "credential_kind \<Rightarrow> jstr" where
  "kind_name k = (case k of CardKind \<Rightarrow> js ''card'' | EmployeeKind \<Rightarrow> js ''employee'')"

text \<open>A credential as a page carries it; \<open>ci_from\<close> and \<open>ci_devices\<close> are fields the bridge looks at
  and this endpoint never sends.\<close>

record credential =
  ci_kind :: credential_kind
  ci_value :: jstr
  ci_person :: "jstr option"
  ci_employee :: "jstr option"
  ci_status :: "jstr option"
  ci_until :: "jstr option"
  ci_from :: "jstr option"
  ci_devices :: "jstr list option"
  ci_updated :: jstr

definition active :: jstr where "active = js ''active''"

definition listed_credential :: "credential_kind \<Rightarrow> jstr \<Rightarrow> jstr \<Rightarrow> jstr option \<Rightarrow> jstr option \<Rightarrow> jstr \<Rightarrow> credential" where
  "listed_credential k v person employee until updated =
    \<lparr>ci_kind = k, ci_value = v, ci_person = Some person, ci_employee = employee, ci_status = Some active,
     ci_until = until, ci_from = None, ci_devices = None, ci_updated = updated\<rparr>"

definition user_of :: "estate \<Rightarrow> jstr \<Rightarrow> snap_user option" where
  "user_of es i = List.find (\<lambda>u. su_id u = i) (es_users es)"

definition member_of :: "estate \<Rightarrow> jstr option \<Rightarrow> snap_member option" where
  "member_of es i = (case i of None \<Rightarrow> None | Some m \<Rightarrow> List.find (\<lambda>x. sm_id x = m) (es_members es))"

text \<open>\<open>?1 = '' OR updated_at > ?1\<close> and \<open>?2 = '' OR value >= ?2\<close>.\<close>

definition since_ok :: "jstr \<Rightarrow> jstr \<Rightarrow> bool" where
  "since_ok since updated \<longleftrightarrow> since = [] \<or> since < updated"

definition from_ok :: "jstr \<Rightarrow> jstr \<Rightarrow> bool" where
  "from_ok start v \<longleftrightarrow> start = [] \<or> start \<le> v"

definition card_usable :: "estate \<Rightarrow> snap_card \<Rightarrow> bool" where
  "card_usable es c \<longleftrightarrow>
    sc_status c = active
    \<and> (case user_of es (sc_resident c) of None \<Rightarrow> False | Some u \<Rightarrow> su_status u = active)
    \<and> (case member_of es (sc_member c) of None \<Rightarrow> True | Some m \<Rightarrow> sm_status m = active)"

definition card_credential :: "estate \<Rightarrow> snap_card \<Rightarrow> credential" where
  "card_credential es c =
    (let own = (case user_of es (sc_resident c) of None \<Rightarrow> None | Some u \<Rightarrow> su_employee u);
         theirs = (case member_of es (sc_member c) of None \<Rightarrow> None | Some m \<Rightarrow> sm_employee m)
     in listed_credential CardKind (sc_uid c) (sc_resident c) (case theirs of None \<Rightarrow> own | Some e \<Rightarrow> Some e) (sc_expires c) (sc_updated c))"

definition usable_cards :: "estate \<Rightarrow> credential list" where
  "usable_cards es = map (card_credential es) (filter (card_usable es) (es_cards es))"

definition window_rows :: "jstr \<Rightarrow> jstr \<Rightarrow> nat \<Rightarrow> credential list \<Rightarrow> credential list" where
  "window_rows since start n rows =
    take n (sort_key ci_value (filter (\<lambda>r. since_ok since (ci_updated r) \<and> from_ok start (ci_value r)) rows))"

definition card_rows :: "estate \<Rightarrow> jstr \<Rightarrow> jstr \<Rightarrow> nat \<Rightarrow> credential list" where
  "card_rows es since start n = window_rows since start n (usable_cards es)"

definition user_rows :: "estate \<Rightarrow> credential list" where
  "user_rows es = concat (map (\<lambda>u. case su_employee u of
       Some e \<Rightarrow> if su_status u = active then [listed_credential EmployeeKind e (su_id u) (Some e) None (su_updated u)] else []
     | None \<Rightarrow> []) (es_users es))"

definition member_rows :: "estate \<Rightarrow> credential list" where
  "member_rows es = concat (map (\<lambda>m. case sm_employee m of
       Some e \<Rightarrow> if sm_status m = active then [listed_credential EmployeeKind e (sm_primary m) (Some e) None (sm_updated m)] else []
     | None \<Rightarrow> []) (es_members es))"

definition employee_rows :: "estate \<Rightarrow> jstr \<Rightarrow> jstr \<Rightarrow> nat \<Rightarrow> credential list" where
  "employee_rows es since start n = window_rows since start n (user_rows es @ member_rows es)"

subsection \<open>A page\<close>

definition after_cursor :: "jstr \<Rightarrow> jstr \<Rightarrow> jstr \<Rightarrow> credential \<Rightarrow> bool" where
  "after_cursor cursor v k r \<longleftrightarrow> cursor = [] \<or> v < ci_value r \<or> ci_value r = v \<and> k < kind_name (ci_kind r)"

text \<open>The stable sort by value, then by the name of the kind.\<close>

definition place :: "credential \<Rightarrow> jstr \<times> jstr" where
  "place r = (ci_value r, kind_name (ci_kind r))"

definition sort_credentials :: "credential list \<Rightarrow> credential list" where
  "sort_credentials rows = sort_key place rows"

record snapshot_page =
  sp_version :: jstr
  sp_full :: bool
  sp_items :: "credential list"
  sp_removed :: "(credential_kind \<times> jstr) list"
  sp_next :: "jstr option"

definition removals :: "estate \<Rightarrow> jstr \<Rightarrow> (credential_kind \<times> jstr) list" where
  "removals es since =
    filter (\<lambda>(k, v). v \<noteq> [])
      (map (\<lambda>c. (CardKind, sc_uid c)) (filter (\<lambda>c. sc_status c \<noteq> active \<and> since < sc_updated c) (es_cards es))
       @ concat (map (\<lambda>u. case su_employee u of Some e \<Rightarrow> if su_status u \<noteq> active \<and> since < su_updated u then [(EmployeeKind, e)] else [] | None \<Rightarrow> [])
           (es_users es))
       @ concat (map (\<lambda>m. case sm_employee m of Some e \<Rightarrow> if sm_status m \<noteq> active \<and> since < sm_updated m then [(EmployeeKind, e)] else [] | None \<Rightarrow> [])
           (es_members es)))"

definition page_version :: "credential list \<Rightarrow> jstr \<Rightarrow> jstr" where
  "page_version items server_time =
    (let latest = foldl (\<lambda>latest r. if ci_updated r \<noteq> [] \<and> (latest = [] \<or> latest < ci_updated r) then ci_updated r else latest) [] items
     in if latest = [] then server_time else latest)"

definition cursor_of :: "credential \<Rightarrow> jstr" where
  "cursor_of r = ci_value r @ js ''|'' @ kind_name (ci_kind r)"

definition remaining_rows :: "estate \<Rightarrow> jstr \<Rightarrow> jstr \<Rightarrow> nat \<Rightarrow> credential list" where
  "remaining_rows es since cursor limit =
    (let parts = split_on 124 cursor;
         v = (if cursor = [] then [] else hd parts); k = (if cursor = [] \<or> length parts < 2 then [] else parts ! 1)
     in sort_credentials (filter (after_cursor cursor v k) (card_rows es since v (limit + 1) @ employee_rows es since v (limit + 1))))"

definition snapshot :: "int \<Rightarrow> estate \<Rightarrow> jstr \<Rightarrow> jstr \<Rightarrow> nat \<Rightarrow> snapshot_page" where
  "snapshot now es since cursor limit =
    (let full = (cursor = [] \<and> since = []); merged = remaining_rows es since cursor limit; items = take limit merged
     in \<lparr>sp_version = page_version items (iso_string now), sp_full = full, sp_items = items,
         sp_removed = (if \<not> full \<and> since \<noteq> [] then removals es since else []),
         sp_next = (if limit < length merged then Some (cursor_of (last items)) else None)\<rparr>)"

text \<open>The limit of the query: a whole number between 100 and 5000, 2000 when it is not a number.\<close>

definition page_limit :: "int option \<Rightarrow> nat" where
  "page_limit requested = nat (min 5000 (max 100 (coalesce requested 2000)))"

definition credential_snapshot :: "platform \<Rightarrow> int \<Rightarrow> estate \<Rightarrow> int option \<Rightarrow> jstr \<Rightarrow> jstr \<Rightarrow> snapshot_page" where
  "credential_snapshot P now es requested since cursor =
    snapshot now es (snapshot_since P since) (trim cursor) (page_limit requested)"

subsection \<open>A page is the next stretch of the ordered credentials\<close>

lemma take_insort:
  "n \<le> length (filter (\<lambda>y. f y < f x) L) \<Longrightarrow> sorted (map f L) \<Longrightarrow> take n (insort_key f x L) = take n L"
proof (induction L arbitrary: n)
  case (Cons y L)
  show ?case
  proof (cases "f x \<le> f y")
    case True
    then have "filter (\<lambda>y. f y < f x) (y # L) = []" using Cons.prems(2) by (auto simp: filter_empty_conv)
    with Cons.prems(1) show ?thesis by simp
  next
    case False
    with Cons show ?thesis by (cases n) (auto simp: not_le)
  qed
qed simp

lemma length_filter_insort: "length (filter P L) \<le> length (filter P (insort_key f x L))"
  by (induction L) auto

lemma length_filter_sort: "length (filter P (sort_key f L)) = length (filter P L)"
  by (metis mset_filter mset_sort size_mset)

text \<open>Elements with n smaller ones in the list do not change its n smallest.\<close>

lemma take_sort_extend:
  assumes "\<And>x. x \<in> set C \<Longrightarrow> n \<le> length (filter (\<lambda>y. f y < f x) B)"
  shows "take n (sort_key f (C @ B)) = take n (sort_key f B)"
  using assms
proof (induction C)
  case (Cons x C)
  have "n \<le> length (filter (\<lambda>y. f y < f x) (sort_key f (C @ B)))"
    unfolding length_filter_sort using Cons.prems [of x] by simp
  then have "take n (insort_key f x (sort_key f (C @ B))) = take n (sort_key f (C @ B))" by (intro take_insort) simp_all
  with Cons show ?case by simp
qed simp

lemma distinct_singleton: "set xs \<subseteq> {v} \<Longrightarrow> distinct xs \<Longrightarrow> length xs \<le> 1"
  by (cases xs rule: remdups_adj.cases) auto

lemma distinct_map_sort_key: "distinct (map f (sort_key g xs)) \<longleftrightarrow> distinct (map f xs)"
  by (rule mset_eq_imp_distinct_iff) simp

lemma enough_before:
  assumes sorted: "sorted (map f A)" and dist: "distinct (map f A)"
    and pass: "\<And>r. r \<in> set A \<Longrightarrow> F r \<or> f r = v" and x: "x \<in> set (drop (Suc n) A)"
  shows "n \<le> length (filter (\<lambda>y. f y < f x) (filter F (take (Suc n) A)))"
proof -
  let ?T = "take (Suc n) A"
  have split: "A = ?T @ drop (Suc n) A" by simp
  have less: "f y < f x" if "y \<in> set ?T" for y
  proof -
    have "sorted (map f (?T @ drop (Suc n) A))" "distinct (map f (?T @ drop (Suc n) A))" using sorted dist by simp_all
    then have "f y \<le> f x" "f y \<noteq> f x" using that x unfolding map_append sorted_append distinct_append by fastforce+
    then show ?thesis by simp
  qed
  have "length (filter (\<lambda>r. \<not> F r) ?T) \<le> 1"
  proof -
    have "set (map f (filter (\<lambda>r. \<not> F r) ?T)) \<subseteq> {v}" using pass by (auto dest: in_set_takeD)
    moreover have "distinct (map f (filter (\<lambda>r. \<not> F r) ?T))"
      using dist by (intro distinct_map_filter) (metis distinct_take take_map)
    ultimately have "length (map f (filter (\<lambda>r. \<not> F r) ?T)) \<le> 1" by (intro distinct_singleton)
    then show ?thesis by simp
  qed
  moreover have "length ?T = Suc n" using x by (cases "Suc n \<le> length A") auto
  ultimately have "n \<le> length (filter F ?T)" using sum_length_filter_compl [of F ?T] by linarith
  moreover have "filter (\<lambda>y. f y < f x) (filter F ?T) = filter F ?T"
    using less by (intro filter_True) auto
  ultimately show ?thesis by simp
qed

definition all_credentials :: "estate \<Rightarrow> credential list" where
  "all_credentials es = usable_cards es @ user_rows es @ member_rows es"

definition cursor_value :: "jstr \<Rightarrow> jstr" where
  "cursor_value cursor = (if cursor = [] then [] else hd (split_on 124 cursor))"

definition cursor_kind :: "jstr \<Rightarrow> jstr" where
  "cursor_kind cursor = (if cursor = [] \<or> length (split_on 124 cursor) < 2 then [] else split_on 124 cursor ! 1)"

definition to_come :: "estate \<Rightarrow> jstr \<Rightarrow> jstr \<Rightarrow> credential list" where
  "to_come es since cursor = sort_credentials
     (filter (\<lambda>r. since_ok since (ci_updated r) \<and> after_cursor cursor (cursor_value cursor) (cursor_kind cursor) r) (all_credentials es))"

lemma kinds:
  "r \<in> set (usable_cards es) \<Longrightarrow> ci_kind r = CardKind"
  "r \<in> set (user_rows es @ member_rows es) \<Longrightarrow> ci_kind r = EmployeeKind"
  by (auto simp: usable_cards_def card_credential_def listed_credential_def user_rows_def member_rows_def Let_def
      split: option.splits if_splits)

lemma place_less: "ci_kind a = ci_kind b \<Longrightarrow> place a < place b \<longleftrightarrow> ci_value a < ci_value b"
  by (auto simp: place_def less_prod_def)

lemma distinct_values:
  assumes "distinct (map place rows)" "\<And>r. r \<in> set rows \<Longrightarrow> ci_kind r = k"
  shows "distinct (map ci_value rows)"
proof -
  have "map place rows = map (\<lambda>v. (v, kind_name k)) (map ci_value rows)" using assms(2) by (simp add: place_def)
  then show ?thesis using assms(1) by (metis distinct_map)
qed

lemma Nil_less_iff [simp]: "([] :: jstr) < v \<longleftrightarrow> v \<noteq> []"
  by (cases v) simp_all

lemma remaining_is_next:
  assumes "distinct (map place (all_credentials es))"
  shows "take limit (remaining_rows es since cursor limit) = take limit (to_come es since cursor)"
proof -
  let ?v = "cursor_value cursor" and ?k = "cursor_kind cursor"
  let ?F = "after_cursor cursor ?v ?k" and ?W = "\<lambda>r. since_ok since (ci_updated r) \<and> from_ok ?v (ci_value r)"
  let ?cards = "usable_cards es" and ?people = "user_rows es @ member_rows es"
  define A where "A = sort_key ci_value (filter ?W ?cards)"
  define E where "E = sort_key ci_value (filter ?W ?people)"
  let ?B = "filter ?F (take (Suc limit) A @ take (Suc limit) E)" and ?C = "filter ?F (drop (Suc limit) A @ drop (Suc limit) E)"
  have rows: "remaining_rows es since cursor limit = sort_key place ?B"
    by (simp add: remaining_rows_def Let_def card_rows_def employee_rows_def window_rows_def A_def E_def
        sort_credentials_def cursor_value_def cursor_kind_def)
  have dist: "distinct (map place ?cards)" "distinct (map place ?people)" using assms by (auto simp: all_credentials_def)
  have dA: "distinct (map ci_value A)" "\<And>r. r \<in> set A \<Longrightarrow> ci_kind r = CardKind"
    using distinct_values [OF dist(1), of CardKind] kinds(1) by (auto simp: A_def distinct_map_sort_key intro: distinct_map_filter)
  have dE: "distinct (map ci_value E)" "\<And>r. r \<in> set E \<Longrightarrow> ci_kind r = EmployeeKind"
    using distinct_values [OF dist(2), of EmployeeKind] kinds(2)
    by (auto simp: E_def distinct_map_sort_key simp del: map_append filter_append intro: distinct_map_filter)
  have pass: "?F r \<or> ci_value r = ?v" if "r \<in> set A \<or> r \<in> set E" for r
    using that by (auto simp: A_def E_def from_ok_def after_cursor_def le_less cursor_value_def)
  have many: "limit \<le> length (filter (\<lambda>y. place y < place x) ?B)" if x: "x \<in> set ?C" for x
  proof -
    have one: "limit \<le> length (filter (\<lambda>y. place y < place x) (filter ?F (take (Suc limit) L)))"
      if "sorted (map ci_value L)" "distinct (map ci_value L)" "x \<in> set (drop (Suc limit) L)"
        "\<And>r. r \<in> set L \<Longrightarrow> ?F r \<or> ci_value r = ?v" "\<And>r. r \<in> set L \<Longrightarrow> ci_kind r = kd" for L kd
    proof -
      have "limit \<le> length (filter (\<lambda>y. ci_value y < ci_value x) (filter ?F (take (Suc limit) L)))"
        using that(1-4) by (intro enough_before [where v = ?v]) auto
      moreover have "filter (\<lambda>y. ci_value y < ci_value x) (filter ?F (take (Suc limit) L))
          = filter (\<lambda>y. place y < place x) (filter ?F (take (Suc limit) L))"
        using that(5) [OF in_set_takeD] that(5) [OF in_set_dropD [OF that(3)]]
        by (intro filter_cong) (auto simp: place_less)
      ultimately show ?thesis by simp
    qed
    from x consider "x \<in> set (drop (Suc limit) A)" | "x \<in> set (drop (Suc limit) E)" by auto
    then show ?thesis
    proof cases
      case 1
      then have "limit \<le> length (filter (\<lambda>y. place y < place x) (filter ?F (take (Suc limit) A)))"
        using dA pass by (intro one) (auto simp: A_def)
      then show ?thesis by simp
    next
      case 2
      then have "limit \<le> length (filter (\<lambda>y. place y < place x) (filter ?F (take (Suc limit) E)))"
        using dE pass by (intro one) (auto simp: E_def)
      then show ?thesis by simp
    qed
  qed
  have halves: "filter ?F L = filter ?F (take n L) @ filter ?F (drop n L)" for n L
    by (metis append_take_drop_id filter_append)
  have FW: "(?W r \<and> ?F r) = (since_ok since (ci_updated r) \<and> ?F r)" for r
    by (auto simp: from_ok_def after_cursor_def cursor_value_def)
  have FF: "filter ?F (filter ?W L) = filter (\<lambda>r. since_ok since (ci_updated r) \<and> ?F r) L" for L
    using FW by (simp only: filter_filter)
  have m: "mset (filter ?F (sort_key ci_value L)) = mset (filter ?F L)" for L
    by simp
  let ?rows = "filter (\<lambda>r. since_ok since (ci_updated r) \<and> ?F r) (all_credentials es)"
  have "mset (?C @ ?B) = mset (filter ?F A) + mset (filter ?F E)"
    using halves [of A "Suc limit"] halves [of E "Suc limit"] by simp
  also have "\<dots> = mset ?rows"
    unfolding A_def E_def m FF all_credentials_def by simp
  finally have same: "mset (?C @ ?B) = mset ?rows" .
  have "inj_on place (set ?rows)"
    using assms by (auto simp: distinct_map intro: inj_on_subset)
  then have "sort_key place ?rows = sort_key place (?C @ ?B)"
    using same by (intro sort_key_eq_sort_key) simp_all
  then have "to_come es since cursor = sort_key place (?C @ ?B)"
    by (simp only: to_come_def sort_credentials_def)
  then show ?thesis using rows take_sort_extend [of ?C limit place ?B] many by simp
qed

text \<open>
  The items of a page are the next credentials in the order of their values, after the
  cursor and up to the limit, of all that are usable and changed since the given instant; although
  each query is cut off on its own, nothing is skipped, repeated or out of place.
\<close>
theorem page_is_the_next_stretch:
  assumes "distinct (map place (all_credentials es))"
  shows "sp_items (snapshot now es since cursor limit) = take limit (to_come es since cursor)"
  using remaining_is_next [OF assms, of limit since cursor] by (simp add: snapshot_def Let_def)

subsection \<open>The pages end too early\<close>

text \<open>
  Once only cards are left to send, the page after a card is declared the last one
  however many cards remain: the row of the cursor is fetched again and dropped, so the rows left never
  exceed the limit. The credentials behind it never reach the bridge.
\<close>
theorem paging_ends_too_early:
  assumes "distinct (map place (all_credentials es))"
    and "r \<in> set (usable_cards es)" "ci_value r \<noteq> []" "124 \<notin> set (ci_value r)"
    and "list_all (\<lambda>q. ci_value q < ci_value r) (user_rows es @ member_rows es)"
  shows "sp_next (snapshot now es [] (cursor_of r) limit) = None
    \<and> length (sp_items (snapshot now es [] (cursor_of r) limit)) \<le> limit
    \<and> length (to_come es [] (cursor_of r)) = length (filter (\<lambda>q. ci_value r < ci_value q) (usable_cards es))"
proof -
  let ?c = "cursor_of r" and ?v = "ci_value r"
  have kind: "ci_kind r = CardKind" using kinds(1) assms(2) by blast
  have parts: "split_on 124 ?c = [?v, js ''card'']"
    using assms(4) by (simp add: cursor_of_def kind kind_name_def js_def split_on_append split_on_no_sep)
  have c: "?c \<noteq> []" "cursor_value ?c = ?v" "cursor_kind ?c = js ''card''"
    by (simp_all add: cursor_value_def cursor_kind_def parts) (simp_all add: cursor_of_def)
  have after: "after_cursor ?c ?v (js ''card'') q \<longleftrightarrow> ?v < ci_value q" if "q \<in> set (usable_cards es)" for q
    using that kinds(1) c(1) by (auto simp: after_cursor_def kind_name_def)
  have lower: "ci_value q < ?v" if "q \<in> set (user_rows es @ member_rows es)" for q
    using assms(5) that by (simp only: list_all_iff)
  have "filter (\<lambda>q. since_ok [] (ci_updated q) \<and> from_ok ?v (ci_value q)) (user_rows es @ member_rows es) = []"
    using assms(3) lower by (fastforce simp: from_ok_def filter_empty_conv dest: leD)
  then have none: "employee_rows es [] ?v n = []" for n
    by (simp only: employee_rows_def window_rows_def) simp
  define S where "S = sort_key ci_value (filter (\<lambda>q. ?v \<le> ci_value q) (usable_cards es))"
  have cards: "card_rows es [] ?v n = take n S" for n
    using assms(3) by (simp add: card_rows_def window_rows_def since_ok_def from_ok_def S_def)
  have "distinct (map place (usable_cards es))" using assms(1) by (simp add: all_credentials_def)
  then have "distinct (map ci_value (usable_cards es))" using kinds(1) by (rule distinct_values)
  then have dS: "distinct (map ci_value S)" by (auto simp: S_def distinct_map_sort_key intro: distinct_map_filter)
  have rS: "r \<in> set S" using assms(2) by (simp add: S_def)
  then obtain x S' where S': "S = x # S'" by (cases S) auto
  have sorted: "sorted (map ci_value S)" by (simp add: S_def)
  have "x \<in> set S" by (simp add: S')
  then have "?v \<le> ci_value x" by (simp add: S_def)
  then have x: "ci_value x = ?v" using rS sorted by (auto simp: S')
  have later: "?v < ci_value q" if "q \<in> set S'" for q
    using that sorted dS x unfolding S' by (auto simp: le_less)
  have "filter (after_cursor ?c ?v (js ''card'')) (take (limit + 1) S) = take limit S'"
  proof -
    have "after_cursor ?c ?v (js ''card'') q" if "q \<in> set (take limit S')" for q
      using that later c(1) by (auto simp: after_cursor_def dest: in_set_takeD)
    moreover have "\<not> after_cursor ?c ?v (js ''card'') x"
      using x after [of x] \<open>x \<in> set S\<close> by (simp add: S_def)
    ultimately show ?thesis by (simp add: S' filter_True)
  qed
  then have rows: "remaining_rows es [] ?c limit = sort_credentials (take limit S')"
    using c(1) by (simp add: remaining_rows_def Let_def parts none cards)
  have "length (to_come es [] ?c) = length (filter (\<lambda>q. after_cursor ?c ?v (js ''card'') q) (all_credentials es))"
    by (simp add: to_come_def sort_credentials_def since_ok_def c)
  also have "filter (\<lambda>q. after_cursor ?c ?v (js ''card'') q) (all_credentials es) = filter (\<lambda>q. ?v < ci_value q) (usable_cards es)"
  proof -
    have "filter (\<lambda>q. after_cursor ?c ?v (js ''card'') q) (user_rows es @ member_rows es) = []"
      using lower c(1) by (fastforce simp: after_cursor_def filter_empty_conv dest: less_asym)
    moreover have "filter (\<lambda>q. after_cursor ?c ?v (js ''card'') q) (usable_cards es) = filter (\<lambda>q. ?v < ci_value q) (usable_cards es)"
      using after by (intro filter_cong) auto
    ultimately show ?thesis unfolding all_credentials_def by simp
  qed
  finally show ?thesis by (simp add: snapshot_def Let_def rows sort_credentials_def)
qed

subsection \<open>A sample estate\<close>

definition sample_card :: "string \<Rightarrow> snap_card" where
  "sample_card uid = \<lparr>sc_uid = js uid, sc_status = active, sc_resident = js ''u1'', sc_member = None, sc_expires = None,
     sc_updated = js ''2026-10-01 08:00:00''\<rparr>"

definition sample_estate :: estate where
  "sample_estate = \<lparr>es_cards = map sample_card [''A3'', ''A1'', ''A4'', ''A2''],
     es_users = [\<lparr>su_id = js ''u1'', su_employee = Some (js ''7''), su_status = active, su_updated = js ''2026-10-01 08:00:00''\<rparr>],
     es_members = []\<rparr>"

lemma page_is_the_next_stretch_witness:
  "sp_items (snapshot 0 sample_estate [] [] 2) = take 2 (to_come sample_estate [] [])
   \<and> map ci_value (sp_items (snapshot 0 sample_estate [] [] 2)) = [js ''7'', js ''A1'']"
proof -
  have "distinct (map place (all_credentials sample_estate))" by code_simp
  moreover have "map ci_value (sp_items (snapshot 0 sample_estate [] [] 2)) = [js ''7'', js ''A1'']" by code_simp
  ultimately show ?thesis using page_is_the_next_stretch by blast
qed

lemma paging_ends_too_early_witness:
  "sp_next (snapshot 0 sample_estate [] [] 2) = Some (js ''A1|card'') \<and> sp_next (snapshot 0 sample_estate [] (js ''A1|card'') 2) = None
   \<and> length (to_come sample_estate [] (js ''A1|card'')) = 3"
proof -
  let ?r = "card_credential sample_estate (sample_card ''A1'')"
  have c: "cursor_of ?r = js ''A1|card''" by code_simp
  have "distinct (map place (all_credentials sample_estate))" by code_simp
  moreover have "?r \<in> set (usable_cards sample_estate)"
    by (simp add: usable_cards_def sample_estate_def sample_card_def card_usable_def user_of_def member_of_def)
  moreover have "ci_value ?r \<noteq> []" "124 \<notin> set (ci_value ?r)" by code_simp+
  moreover have "list_all (\<lambda>q. ci_value q < ci_value ?r) (user_rows sample_estate @ member_rows sample_estate)" by code_simp
  ultimately have "sp_next (snapshot 0 sample_estate [] (cursor_of ?r) 2) = None"
    using paging_ends_too_early by blast
  moreover have "sp_next (snapshot 0 sample_estate [] [] 2) = Some (js ''A1|card'')" by code_simp
  moreover have "length (to_come sample_estate [] (js ''A1|card'')) = 3" by code_simp
  ultimately show ?thesis by (simp add: c)
qed

end
