(* ===== verification/TerminalEvent.thy ===== *)
theory TerminalEvent
  imports JsonParse
begin

text \<open>
  Reading the document a terminal reports, XML or JSON (\<open>parseTerminalEvent\<close> of
  \<^verbatim>\<open>isapi-bridge/remote-verify.mjs\<close>). A door number that is an integer beyond 2^53 is
  not told from a number that is none.
\<close>

subsection \<open>Tags\<close>

text \<open>What follows, and what precedes, the first occurrence of a text, its ASCII letters in either case.\<close>

definition same_at :: "jstr \<Rightarrow> jstr \<Rightarrow> bool" where
  "same_at pat s \<longleftrightarrow> nocase (take (length pat) s) = nocase pat"

fun after_text :: "jstr \<Rightarrow> jstr \<Rightarrow> jstr option" where
  "after_text pat [] = None"
| "after_text pat (c # s) = (if same_at pat (c # s) then Some (drop (length pat) (c # s)) else after_text pat s)"

fun before_text :: "jstr \<Rightarrow> jstr \<Rightarrow> jstr option" where
  "before_text pat [] = None"
| "before_text pat (c # s) = (if same_at pat (c # s) then Some [] else map_option (\<lambda>u. c # u) (before_text pat s))"

text \<open>\<open><tag[^>]*>([\s\S]*?)</tag>\<close>: a longer tag with the same beginning opens as well.\<close>

definition xml_tag :: "jstr \<Rightarrow> string \<Rightarrow> jstr option" where
  "xml_tag document tag =
    (case after_text (js ''<'' @ js tag) document of
       None \<Rightarrow> None
     | Some r \<Rightarrow>
         (case dropWhile (\<lambda>c. c \<noteq> 62) r of
            [] \<Rightarrow> None
          | _ # content \<Rightarrow> map_option trim (before_text (js ''</'' @ js tag @ js ''>'') content)))"

definition some_text :: "jstr option \<Rightarrow> jstr option" where
  "some_text v = (if v = Some [] then None else v)"

fun pick_tag :: "jstr \<Rightarrow> jstr \<Rightarrow> string list \<Rightarrow> jstr option" where
  "pick_tag body document [] = None"
| "pick_tag body document (n # ns) =
    (case some_text (case xml_tag body n of None \<Rightarrow> xml_tag document n | Some v \<Rightarrow> Some v) of
       None \<Rightarrow> pick_tag body document ns
     | Some v \<Rightarrow> Some v)"

fun pick_member :: "jval \<Rightarrow> string list \<Rightarrow> jstr option" where
  "pick_member event [] = None"
| "pick_member event (n # ns) =
    (let v = get_prop event (js n)
     in if nullish v \<or> trim (to_string v) = [] then pick_member event ns else Some (trim (to_string v)))"

subsection \<open>Events\<close>

record terminal_event =
  te_card :: "jstr option"
  te_employee :: "jstr option"
  te_name :: "jstr option"
  te_door :: int
  te_type :: "jstr option"
  te_serial :: "jstr option"
  te_ip :: "jstr option"
  te_json :: bool

definition event_door :: "jstr option \<Rightarrow> int" where
  "event_door t = (case t of None \<Rightarrow> 1 | Some s \<Rightarrow> (case number_of_text s of Num i \<Rightarrow> if 0 < i then i else 1 | _ \<Rightarrow> 1))"

definition json_source :: "jval \<Rightarrow> jval" where
  "json_source parsed =
    (let inner = (if truthy parsed
         then (let a = get_prop parsed (js ''AccessControllerEvent''); b = get_prop parsed (js ''EventNotificationAlert'')
               in if truthy a then a else if truthy b then b else get_prop parsed (js ''accessControllerEvent''))
         else parsed)
     in if \<not> nullish inner then inner
        else case parsed of Arr (v # _) \<Rightarrow> v | Arr [] \<Rightarrow> Undef | _ \<Rightarrow> parsed)"

definition json_event :: "jval \<Rightarrow> terminal_event" where
  "json_event source =
    (let event = nullish_or (get_prop source (js ''AccessControllerEvent'')) source
     in \<lparr>te_card = pick_member event [''cardNo'', ''cardNumber'', ''card''],
         te_employee = pick_member event [''employeeNoString'', ''employeeNo'', ''employeeID''],
         te_name = pick_member event [''name'', ''personName''],
         te_door = event_door (pick_member event [''doorNo'', ''door'']),
         te_type = pick_member event [''eventType'', ''major''],
         te_serial = pick_member event [''serialNo''], te_ip = pick_member event [''ipAddress''], te_json = True\<rparr>)"

definition access_part :: "jstr \<Rightarrow> jstr" where
  "access_part t =
    (let open_tag = js ''<AccessControllerEvent''; close_tag = js ''</AccessControllerEvent>''
     in if \<not> contains t open_tag then t
        else case after_text open_tag t of
          None \<Rightarrow> t
        | Some r \<Rightarrow>
            (case before_text close_tag r of
               None \<Rightarrow> t
             | Some u \<Rightarrow> take (length open_tag + length u + length close_tag) (drop (length t - length r - length open_tag) t)))"

definition xml_event :: "jstr \<Rightarrow> terminal_event option" where
  "xml_event t =
    (let body = access_part t; card_no = pick_tag body t [''cardNo'', ''cardNumber''];
         employee = pick_tag body t [''employeeNoString'', ''employeeNo'', ''employeeID'']
     in if card_no = None \<and> employee = None then None
        else Some \<lparr>te_card = card_no, te_employee = employee, te_name = pick_tag body t [''name'', ''personName''],
               te_door = event_door (case xml_tag body ''doorNo'' of None \<Rightarrow> xml_tag body ''door'' | Some d \<Rightarrow> Some d),
               te_type = pick_tag body t [''eventType'', ''major''], te_serial = pick_tag body t [''serialNo''],
               te_ip = pick_tag body t [''ipAddress''], te_json = False\<rparr>)"

definition looks_json :: "jstr \<Rightarrow> jstr \<Rightarrow> bool" where
  "looks_json t content_type \<longleftrightarrow>
    contains content_type (js ''json'') \<or> (content_type = [] \<and> (starts_with t (js ''{'') \<or> starts_with t (js ''['')))"

definition parse_terminal_event :: "jstr \<Rightarrow> jstr \<Rightarrow> terminal_event option" where
  "parse_terminal_event document content_type =
    (let t = trim document;
         source = (if looks_json t content_type then (case json_parse t of None \<Rightarrow> Null | Some v \<Rightarrow> json_source v) else Null)
     in if t = [] then None
        else if is_object source then Some (json_event source)
        else xml_event t)"

lemma event_door_positive: "1 \<le> event_door t"
  by (simp add: event_door_def split: option.splits jval.splits)

lemma json_event_door: "1 \<le> te_door (json_event source)"
  by (simp add: json_event_def Let_def event_door_positive)

lemma xml_event_door: "xml_event t = Some e \<Longrightarrow> 1 \<le> te_door e"
  by (simp add: xml_event_def Let_def split: if_split_asm) (drule sym, simp add: event_door_positive)

lemma event_names_a_door:
  assumes "parse_terminal_event document content_type = Some e"
  shows "1 \<le> te_door e"
proof -
  have "(\<exists>source. e = json_event source) \<or> xml_event (trim document) = Some e"
    using assms unfolding parse_terminal_event_def Let_def by (metis option.distinct(1) option.inject)
  then show ?thesis using json_event_door xml_event_door by blast
qed

end
