(* ===== verification/RemoteVerify.thy ===== *)
theory RemoteVerify
  imports SnapshotServer TerminalEvent "HOL-Library.AList"
begin

text \<open>
  Remote network verification on the bridge: the credential cache and its synchronisation, the
  decision and the cooldown of \<^verbatim>\<open>isapi-bridge/remote-verify.mjs\<close>, and the step
  \<open>beginRemoteVerification\<close> of \<^verbatim>\<open>isapi-bridge/agent.mjs\<close> that opens a door. The
  maps of the code keep insertion order and are association lists. A door command that is sent is an
  output; what the terminal answers is not modelled, nor are log lines.
\<close>

subsection \<open>Card numbers\<close>

definition normalize_card_number :: "jstr \<Rightarrow> jstr" where
  "normalize_card_number v = upper (trim v)"

definition hex_letter :: "nat \<Rightarrow> bool" where
  "hex_letter c \<longleftrightarrow> is_digit c \<or> (65 \<le> c \<and> c \<le> 70) \<or> (97 \<le> c \<and> c \<le> 102)"

fun byte_pairs :: "jstr \<Rightarrow> jstr list" where
  "byte_pairs (a # b # s) = [a, b] # byte_pairs s"
| "byte_pairs _ = []"

definition card_format :: "jstr \<Rightarrow> jstr \<Rightarrow> jstr list" where
  "card_format name v =
    (if name = js ''exact'' then [v]
     else if name = js ''padded10''
     then (if v \<noteq> [] \<and> list_all is_digit v \<and> length v < 10 then [pad_start 10 48 v] else [])
     else if name = js ''hexReversed''
     then (if v \<noteq> [] \<and> list_all hex_letter v \<and> even (length v) then [upper (concat (rev (byte_pairs v)))] else [])
     else [])"

definition default_card_formats :: "jstr list" where
  "default_card_formats = [js ''exact'', js ''padded10'']"

definition add_candidate :: "jstr \<Rightarrow> jstr list \<Rightarrow> jstr list" where
  "add_candidate v out =
    (let n = normalize_card_number v in if n = [] \<or> n \<in> set out then out else out @ [n])"

definition card_number_candidates :: "jstr \<Rightarrow> jstr list \<Rightarrow> jstr list" where
  "card_number_candidates v formats =
    (let base = normalize_card_number v;
         out = fold add_candidate (concat (map (\<lambda>f. card_format f base) formats)) []
     in if base = [] then [] else if out = [] then [base] else out)"

subsection \<open>The cache\<close>

definition credential_key :: "credential_kind \<Rightarrow> jstr \<Rightarrow> jstr" where
  "credential_key k v = kind_name k @ js '':'' @ upper (trim v)"

record cache =
  ca_items :: "(jstr \<times> credential) list"
  ca_formats :: "jstr list"
  ca_version :: "jstr option"
  ca_last_sync :: "int option"
  ca_failed_at :: "int option"
  ca_error :: "jstr option"
  ca_latency :: "int option"
  ca_needs_full :: bool
  ca_syncs :: nat
  ca_removed :: nat

definition new_cache :: "jstr list \<Rightarrow> cache" where
  "new_cache formats = \<lparr>ca_items = [], ca_formats = formats, ca_version = None, ca_last_sync = None, ca_failed_at = None,
     ca_error = None, ca_latency = None, ca_needs_full = False, ca_syncs = 0, ca_removed = 0\<rparr>"

definition cache_ready :: "cache \<Rightarrow> bool" where
  "cache_ready c \<longleftrightarrow> ca_last_sync c \<noteq> None"

text \<open>\<open>Math.round\<close> of the age in seconds.\<close>

definition age_seconds :: "int \<Rightarrow> cache \<Rightarrow> int option" where
  "age_seconds now c = (case ca_last_sync c of None \<Rightarrow> None | Some t \<Rightarrow> Some (max 0 ((now - t + 500) div 1000)))"

definition put_item :: "credential \<Rightarrow> (jstr \<times> credential) list \<Rightarrow> (jstr \<times> credential) list" where
  "put_item item items =
    (if ci_value item = [] then items else AList.update (credential_key (ci_kind item) (ci_value item)) item items)"

definition drop_item :: "credential_kind \<times> jstr \<Rightarrow> (jstr \<times> credential) list \<Rightarrow> (jstr \<times> credential) list" where
  "drop_item gone items = (case gone of (k, v) \<Rightarrow> AList.delete (credential_key k v) items)"

definition apply_page :: "snapshot_page \<Rightarrow> bool \<Rightarrow> cache \<Rightarrow> cache" where
  "apply_page page full c =
    c\<lparr>ca_items := fold drop_item (sp_removed page) (fold put_item (sp_items page) (if full then [] else ca_items c)),
      ca_removed := ca_removed c + length (sp_removed page),
      ca_version := (if sp_version page = [] then ca_version c else Some (sp_version page))\<rparr>"

text \<open>The pages as they are fetched: the number of pages so far, the cursor and the instant asked for.\<close>

type_synonym fetcher = "nat \<Rightarrow> jstr option \<Rightarrow> jstr option \<Rightarrow> (jstr, snapshot_page) result"

fun sync_pages :: "fetcher \<Rightarrow> jstr option \<Rightarrow> nat \<Rightarrow> nat \<Rightarrow> jstr option \<Rightarrow> cache \<Rightarrow> (jstr, unit) result \<times> nat \<times> cache" where
  "sync_pages fetch since 0 pages cursor c =
    (Inl (js ''credential snapshot did not finish within '' @ show_nat pages @ js '' pages''), pages, c)"
| "sync_pages fetch since (Suc n) pages cursor c =
    (case fetch pages cursor since of
       Inl e \<Rightarrow> (Inl e, pages, c)
     | Inr page \<Rightarrow>
         (let c' = apply_page page (sp_full page \<or> pages = 0 \<and> since = None) c in
          case sp_next page of
            None \<Rightarrow> (Inr (), pages + 1, c')
          | Some cur \<Rightarrow> if cur = [] then (Inr (), pages + 1, c') else sync_pages fetch since n (pages + 1) (Some cur) c'))"

definition max_snapshot_pages :: nat where "max_snapshot_pages = 500"

definition pending_since :: "cache \<Rightarrow> jstr option" where
  "pending_since c = (if ca_needs_full c then None else map_option iso_string (ca_last_sync c))"

definition sync :: "fetcher \<Rightarrow> int \<Rightarrow> int \<Rightarrow> cache \<Rightarrow> (jstr, unit) result \<times> nat \<times> cache" where
  "sync fetch started finished c =
    (case sync_pages fetch (pending_since c) max_snapshot_pages 0 None c of
       (Inr _, pages, c') \<Rightarrow>
         (Inr (), pages, c'\<lparr>ca_needs_full := False, ca_last_sync := Some finished, ca_latency := Some (finished - started),
                          ca_error := None, ca_syncs := ca_syncs c' + 1\<rparr>)
     | (Inl e, pages, c') \<Rightarrow>
         (Inl e, pages, c'\<lparr>ca_error := Some e, ca_failed_at := Some finished, ca_needs_full := True\<rparr>))"

record hit =
  hi_item :: credential
  hi_kind :: credential_kind
  hi_value :: jstr

fun first_hit :: "(jstr \<times> credential) list \<Rightarrow> jstr list \<Rightarrow> hit option" where
  "first_hit items [] = None"
| "first_hit items (v # vs) =
    (case map_of items (credential_key CardKind v) of
       Some i \<Rightarrow> Some \<lparr>hi_item = i, hi_kind = CardKind, hi_value = v\<rparr>
     | None \<Rightarrow> first_hit items vs)"

definition card_hit :: "cache \<Rightarrow> jstr \<Rightarrow> hit option" where
  "card_hit c v =
    (case first_hit (ca_items c) (card_number_candidates v (ca_formats c)) of
       Some h \<Rightarrow> Some h
     | None \<Rightarrow>
         (case map_of (ca_items c) (credential_key CardKind v) of
            Some i \<Rightarrow> Some \<lparr>hi_item = i, hi_kind = CardKind, hi_value = normalize_card_number v\<rparr>
          | None \<Rightarrow> None))"

definition employee_hit :: "cache \<Rightarrow> jstr \<Rightarrow> hit option" where
  "employee_hit c v =
    (case map_of (ca_items c) (credential_key EmployeeKind v) of
       Some i \<Rightarrow> Some \<lparr>hi_item = i, hi_kind = EmployeeKind, hi_value = trim v\<rparr>
     | None \<Rightarrow> None)"

definition lookup_credential :: "cache \<Rightarrow> jstr option \<Rightarrow> jstr option \<Rightarrow> hit option" where
  "lookup_credential c card_no employee =
    (case (case some_text card_no of None \<Rightarrow> None | Some v \<Rightarrow> card_hit c v) of
       Some h \<Rightarrow> Some h
     | None \<Rightarrow> (case some_text employee of None \<Rightarrow> None | Some v \<Rightarrow> employee_hit c v))"

subsection \<open>The decision\<close>

datatype denial_reason =
    CacheNotReady | NoCredential | UnknownCredential | NotActive | CredentialExpired | NotYetValid | NotAtThisGate

datatype ruling = Refuse denial_reason "hit option" | Grant hit

definition decide_credential :: "platform \<Rightarrow> int \<Rightarrow> cache \<Rightarrow> jstr option \<Rightarrow> jstr option \<Rightarrow> jstr \<Rightarrow> ruling" where
  "decide_credential P now c card_no employee device =
    (if \<not> cache_ready c then Refuse CacheNotReady None
     else if some_text card_no = None \<and> some_text employee = None then Refuse NoCredential None
     else case lookup_credential c card_no employee of
       None \<Rightarrow> Refuse UnknownCredential None
     | Some h \<Rightarrow>
        (let i = hi_item h in
         if some_text (ci_status i) \<noteq> None \<and> ci_status i \<noteq> Some active then Refuse NotActive (Some h)
         else if (case some_text (ci_until i) of None \<Rightarrow> False
                  | Some t \<Rightarrow> (case date_parse P t of None \<Rightarrow> False | Some u \<Rightarrow> u \<le> now)) then Refuse CredentialExpired (Some h)
         else if (case some_text (ci_from i) of None \<Rightarrow> False
                  | Some t \<Rightarrow> (case date_parse P t of None \<Rightarrow> False | Some f \<Rightarrow> now < f)) then Refuse NotYetValid (Some h)
         else if device \<noteq> [] \<and> (case ci_devices i of None \<Rightarrow> False | Some ds \<Rightarrow> ds \<noteq> [] \<and> device \<notin> set ds) then Refuse NotAtThisGate (Some h)
         else Grant h))"

subsection \<open>The cooldown\<close>

record tracker =
  tk_last :: "(jstr \<times> int) list"
  tk_max :: nat

definition tracker_set :: "jstr \<Rightarrow> int \<Rightarrow> tracker \<Rightarrow> tracker" where
  "tracker_set key now t =
    (let last = (if tk_max t \<le> length (tk_last t) \<and> map_of (tk_last t) key = None then tl (tk_last t) else tk_last t)
     in t\<lparr>tk_last := AList.update key now last\<rparr>)"

definition tracker_allow :: "jstr \<Rightarrow> int \<Rightarrow> int \<Rightarrow> tracker \<Rightarrow> bool \<times> tracker" where
  "tracker_allow key cooldown now t =
    (if cooldown \<le> 0 then (True, t)
     else case map_of (tk_last t) key of
       Some p \<Rightarrow> if now - p < cooldown then (False, t) else (True, tracker_set key now t)
     | None \<Rightarrow> (True, tracker_set key now t))"

definition cooldown_key :: "jstr \<Rightarrow> hit \<Rightarrow> jstr" where
  "cooldown_key device h = device @ js ''|'' @ kind_name (hi_kind h) @ js ''|'' @ hi_value h"

subsection \<open>From an event to a door\<close>

record reader =
  rd_id :: jstr
  rd_enabled :: bool
  rd_door :: int
  rd_cooldown :: int

record bridge =
  br_enabled :: bool
  br_cache :: cache
  br_tracker :: tracker
  br_decisions :: nat
  br_granted :: nat
  br_denied :: nat
  br_suppressed :: nat

datatype door_outcome = NotOurs | DoorRefused denial_reason | DoorSuppressed | DoorOpened int hit

definition clamp_door :: "int \<Rightarrow> int" where
  "clamp_door d = (if 1 \<le> d \<and> d \<le> 8 then d else 1)"

definition begin_remote_verification :: "platform \<Rightarrow> int \<Rightarrow> reader \<Rightarrow> jstr \<Rightarrow> bridge \<Rightarrow> door_outcome \<times> bridge" where
  "begin_remote_verification P now rd document b =
    (if \<not> br_enabled b \<or> \<not> rd_enabled rd then (NotOurs, b)
     else case parse_terminal_event document [] of
       None \<Rightarrow> (NotOurs, b)
     | Some e \<Rightarrow>
        (let b = b\<lparr>br_decisions := br_decisions b + 1\<rparr> in
         case decide_credential P now (br_cache b) (te_card e) (te_employee e) (rd_id rd) of
           Refuse r _ \<Rightarrow> (DoorRefused r, b\<lparr>br_denied := br_denied b + 1\<rparr>)
         | Grant h \<Rightarrow>
             (case tracker_allow (cooldown_key (rd_id rd) h) (rd_cooldown rd) now (br_tracker b) of
                (False, _) \<Rightarrow> (DoorSuppressed, b\<lparr>br_granted := br_granted b + 1, br_suppressed := br_suppressed b + 1\<rparr>)
              | (True, t) \<Rightarrow>
                  (DoorOpened (clamp_door (if te_door e \<noteq> 0 then te_door e else if rd_door rd \<noteq> 0 then rd_door rd else 1)) h,
                   b\<lparr>br_granted := br_granted b + 1, br_tracker := t\<rparr>))))"

end
