(* ===== verification/RemoteGate.thy ===== *)
theory RemoteGate
  imports RemoteVerify
begin

text \<open>
  What remote verification guarantees at a door: a door opens only for a credential of the loaded snapshot
  that is in force at that gate and not within its cooldown; repeated presentations open a door at most
  once per cooldown; the two ways in which the loaded snapshot departs from the estate.
\<close>

subsection \<open>A door opens for a credential in force\<close>

definition not_after :: "platform \<Rightarrow> int \<Rightarrow> jstr option \<Rightarrow> bool" where
  "not_after P now t = (case some_text t of None \<Rightarrow> True
     | Some s \<Rightarrow> (case date_parse P s of None \<Rightarrow> True | Some u \<Rightarrow> now < u))"

definition not_before :: "platform \<Rightarrow> int \<Rightarrow> jstr option \<Rightarrow> bool" where
  "not_before P now t = (case some_text t of None \<Rightarrow> True
     | Some s \<Rightarrow> (case date_parse P s of None \<Rightarrow> True | Some f \<Rightarrow> f \<le> now))"

definition allowed_at_gate :: "jstr \<Rightarrow> jstr list option \<Rightarrow> bool" where
  "allowed_at_gate device ds = (device = [] \<or> ds = None \<or> ds = Some [] \<or> device \<in> set (the ds))"

definition in_force :: "platform \<Rightarrow> int \<Rightarrow> jstr \<Rightarrow> credential \<Rightarrow> bool" where
  "in_force P now device i \<longleftrightarrow>
    (some_text (ci_status i) = None \<or> ci_status i = Some active)
    \<and> not_after P now (ci_until i) \<and> not_before P now (ci_from i) \<and> allowed_at_gate device (ci_devices i)"

definition cooled_down :: "jstr \<Rightarrow> int \<Rightarrow> int \<Rightarrow> tracker \<Rightarrow> bool" where
  "cooled_down key cooldown now t \<longleftrightarrow>
    cooldown \<le> 0 \<or> (case map_of (tk_last t) key of None \<Rightarrow> True | Some p \<Rightarrow> cooldown \<le> now - p)"

lemma tracker_allow_iff: "fst (tracker_allow key cooldown now t) \<longleftrightarrow> cooled_down key cooldown now t"
  by (auto simp: tracker_allow_def cooled_down_def split: option.splits)

lemma decide_grants_iff:
  "decide_credential P now c card_no employee device = Grant h \<longleftrightarrow>
     cache_ready c \<and> lookup_credential c card_no employee = Some h \<and> in_force P now device (hi_item h)"
proof (cases "lookup_credential c card_no employee")
  case None
  then show ?thesis by (simp add: decide_credential_def)
next
  case (Some k)
  have "\<not> (some_text card_no = None \<and> some_text employee = None)"
    using Some by (cases "some_text card_no"; cases "some_text employee") (auto simp: lookup_credential_def)
  moreover have "(case some_text (ci_until i) of None \<Rightarrow> False
                  | Some t \<Rightarrow> (case date_parse P t of None \<Rightarrow> False | Some u \<Rightarrow> u \<le> now)) \<longleftrightarrow> \<not> not_after P now (ci_until i)"
    "(case some_text (ci_from i) of None \<Rightarrow> False
                  | Some t \<Rightarrow> (case date_parse P t of None \<Rightarrow> False | Some f \<Rightarrow> now < f)) \<longleftrightarrow> \<not> not_before P now (ci_from i)"
    "(device \<noteq> [] \<and> (case ci_devices i of None \<Rightarrow> False | Some ds \<Rightarrow> ds \<noteq> [] \<and> device \<notin> set ds))
      \<longleftrightarrow> \<not> allowed_at_gate device (ci_devices i)" for i
    by (auto simp: not_after_def not_before_def allowed_at_gate_def split: option.splits)
  ultimately show ?thesis using Some by (auto simp: decide_credential_def Let_def in_force_def)
qed

definition presented :: "jstr list \<Rightarrow> jstr option \<Rightarrow> jstr option \<Rightarrow> hit \<Rightarrow> jstr \<Rightarrow> bool" where
  "presented formats card_no employee h v \<longleftrightarrow>
    (case hi_kind h of
       CardKind \<Rightarrow> (case card_no of None \<Rightarrow> False | Some n \<Rightarrow> v = n \<or> v \<in> set (card_number_candidates n formats))
     | EmployeeKind \<Rightarrow> employee = Some v)"

lemma first_hit_in: "first_hit items vs = Some h \<Longrightarrow>
    hi_kind h = CardKind \<and> hi_value h \<in> set vs \<and> map_of items (credential_key CardKind (hi_value h)) = Some (hi_item h)"
  by (induction vs) (auto split: option.splits)

lemma lookup_found:
  assumes "lookup_credential c card_no employee = Some h"
  shows "\<exists>v. presented (ca_formats c) card_no employee h v \<and> map_of (ca_items c) (credential_key (hi_kind h) v) = Some (hi_item h)"
proof (cases "case some_text card_no of None \<Rightarrow> None | Some v \<Rightarrow> card_hit c v")
  case None
  with assms obtain v where "some_text employee = Some v" "employee_hit c v = Some h"
    by (auto simp: lookup_credential_def split: option.splits)
  then show ?thesis
    by (auto simp: employee_hit_def some_text_def presented_def split: option.splits if_splits)
next
  case (Some g)
  with assms have "g = h" by (simp add: lookup_credential_def)
  with Some obtain n where n: "card_no = Some n" "card_hit c n = Some h"
    by (auto simp: some_text_def split: option.splits if_splits)
  show ?thesis
  proof (cases "first_hit (ca_items c) (card_number_candidates n (ca_formats c))")
    case None
    then show ?thesis using n by (auto simp: card_hit_def presented_def split: option.splits)
  next
    case (Some k)
    then have "k = h" using n by (simp add: card_hit_def)
    then show ?thesis using first_hit_in [OF Some] n by (intro exI [of _ "hi_value h"]) (simp add: presented_def)
  qed
qed

lemma begin_opens_iff:
  "(\<exists>b'. begin_remote_verification P now rd document b = (DoorOpened d h, b')) \<longleftrightarrow>
     br_enabled b \<and> rd_enabled rd
     \<and> (\<exists>e. parse_terminal_event document [] = Some e
          \<and> decide_credential P now (br_cache b) (te_card e) (te_employee e) (rd_id rd) = Grant h
          \<and> cooled_down (cooldown_key (rd_id rd) h) (rd_cooldown rd) now (br_tracker b)
          \<and> d = clamp_door (te_door e))"
proof (cases "br_enabled b \<and> rd_enabled rd")
  case True
  note on = this
  show ?thesis
  proof (cases "parse_terminal_event document []")
    case None
    then show ?thesis using on by (simp add: begin_remote_verification_def)
  next
    case (Some e)
    have "te_door e \<noteq> 0" using event_names_a_door [OF Some] by simp
    then show ?thesis using on Some
      by (auto simp: begin_remote_verification_def Let_def tracker_allow_iff [symmetric]
          split: ruling.splits prod.splits bool.splits)
  qed
qed (auto simp: begin_remote_verification_def)

lemma clamp_door_range: "1 \<le> clamp_door d \<and> clamp_door d \<le> 8"
  by (simp add: clamp_door_def)

text \<open>
  C11: a door opens on its own only where the bridge and the terminal have remote verification switched on,
  a snapshot has been loaded, and the terminal reported a credential that the snapshot holds under a number
  it was presented with, that is active, neither expired nor ahead of its time, allowed at this gate and
  out of its cooldown; the door is one of the eight.
\<close>
theorem door_opens_for_credential_in_force:
  assumes "begin_remote_verification P now rd document b = (DoorOpened d h, b')"
  shows "br_enabled b \<and> rd_enabled rd \<and> cache_ready (br_cache b)
    \<and> (\<exists>e v. parse_terminal_event document [] = Some e
          \<and> presented (ca_formats (br_cache b)) (te_card e) (te_employee e) h v
          \<and> map_of (ca_items (br_cache b)) (credential_key (hi_kind h) v) = Some (hi_item h))
    \<and> in_force P now (rd_id rd) (hi_item h)
    \<and> cooled_down (cooldown_key (rd_id rd) h) (rd_cooldown rd) now (br_tracker b)
    \<and> 1 \<le> d \<and> d \<le> 8"
proof -
  from assms begin_opens_iff obtain e where e: "br_enabled b" "rd_enabled rd" "parse_terminal_event document [] = Some e"
    "decide_credential P now (br_cache b) (te_card e) (te_employee e) (rd_id rd) = Grant h"
    "cooled_down (cooldown_key (rd_id rd) h) (rd_cooldown rd) now (br_tracker b)" "d = clamp_door (te_door e)"
    by blast
  then show ?thesis using lookup_found clamp_door_range unfolding decide_grants_iff by blast
qed

subsection \<open>At most once per cooldown\<close>

fun doors_opened :: "platform \<Rightarrow> (int \<times> reader \<times> jstr) list \<Rightarrow> bridge \<Rightarrow> (jstr \<times> int) list" where
  "doors_opened P [] b = []"
| "doors_opened P ((now, rd, document) # events) b =
    (case begin_remote_verification P now rd document b of
       (DoorOpened d h, b') \<Rightarrow> (cooldown_key (rd_id rd) h, now) # doors_opened P events b'
     | (_, b') \<Rightarrow> doors_opened P events b')"

definition apart :: "int \<Rightarrow> jstr \<times> int \<Rightarrow> jstr \<times> int \<Rightarrow> bool" where
  "apart cooldown a b \<longleftrightarrow> fst a = fst b \<longrightarrow> cooldown \<le> snd b - snd a"

lemma begin_tracker:
  assumes "begin_remote_verification P now rd document b = (r, b')" "0 < rd_cooldown rd"
  shows "(case r of
      DoorOpened d h \<Rightarrow> br_tracker b' = tracker_set (cooldown_key (rd_id rd) h) now (br_tracker b)
        \<and> cooled_down (cooldown_key (rd_id rd) h) (rd_cooldown rd) now (br_tracker b)
    | _ \<Rightarrow> br_tracker b' = br_tracker b)"
  using assms
  by (auto simp: begin_remote_verification_def tracker_allow_def cooled_down_def Let_def
      split: if_splits option.splits ruling.splits prod.splits bool.splits)

lemma tracker_set_room:
  assumes "length (tk_last t) < tk_max t \<or> map_of (tk_last t) key \<noteq> None" "distinct (map fst (tk_last t))"
  shows "map_of (tk_last (tracker_set key now t)) = (map_of (tk_last t))(key \<mapsto> now)"
    "tk_max (tracker_set key now t) = tk_max t" "distinct (map fst (tk_last (tracker_set key now t)))"
    "fst ` set (tk_last (tracker_set key now t)) = insert key (fst ` set (tk_last t))"
proof -
  have eq: "tk_last (tracker_set key now t) = AList.update key now (tk_last t)"
    using assms(1) by (auto simp: tracker_set_def Let_def)
  show "map_of (tk_last (tracker_set key now t)) = (map_of (tk_last t))(key \<mapsto> now)"
    by (simp add: eq update_conv')
  show "tk_max (tracker_set key now t) = tk_max t" by (simp add: tracker_set_def Let_def)
  show "distinct (map fst (tk_last (tracker_set key now t)))"
    using assms(2) by (simp add: eq distinct_update)
  show "fst ` set (tk_last (tracker_set key now t)) = insert key (fst ` set (tk_last t))"
    using dom_update [of key now "tk_last t"] by (simp add: eq)
qed

lemma doors_opened_apart:
  assumes "0 < cooldown" "\<And>event. event \<in> set events \<Longrightarrow> cooldown \<le> rd_cooldown (fst (snd event))"
    and "distinct (map fst (tk_last (br_tracker b)))"
    and "card (fst ` set (tk_last (br_tracker b)) \<union> fst ` set (doors_opened P events b)) \<le> tk_max (br_tracker b)"
  shows "sorted_wrt (apart cooldown) (doors_opened P events b)
    \<and> (\<forall>x \<in> set (doors_opened P events b). case map_of (tk_last (br_tracker b)) (fst x) of None \<Rightarrow> True | Some p \<Rightarrow> cooldown \<le> snd x - p)"
  using assms(2-)
proof (induction P events b rule: doors_opened.induct)
  case (2 P now rd document events b)
  obtain r b' where r: "begin_remote_verification P now rd document b = (r, b')" by fastforce
  have cd: "cooldown \<le> rd_cooldown rd" "0 < rd_cooldown rd" using "2.prems"(1) [of "(now, rd, document)"] assms(1) by simp_all
  show ?case
  proof (cases r)
    case (DoorOpened d h)
    let ?key = "cooldown_key (rd_id rd) h" and ?t = "br_tracker b"
    have tr: "br_tracker b' = tracker_set ?key now ?t" "cooled_down ?key (rd_cooldown rd) now ?t"
      using begin_tracker [OF r cd(2)] by (simp_all add: DoorOpened)
    have eq: "doors_opened P ((now, rd, document) # events) b = (?key, now) # doors_opened P events b'"
      by (simp add: r DoorOpened)
    have room: "length (tk_last ?t) < tk_max ?t \<or> map_of (tk_last ?t) ?key \<noteq> None"
    proof (cases "?key \<in> fst ` set (tk_last ?t)")
      case False
      have "Suc (card (fst ` set (tk_last ?t))) = card (insert ?key (fst ` set (tk_last ?t)))" using False by simp
      also have "\<dots> \<le> tk_max ?t"
        using "2.prems"(3) unfolding eq by (rule order_trans [rotated]) (auto intro!: card_mono)
      finally show ?thesis using "2.prems"(2) by (metis Suc_le_lessD distinct_card length_map set_map)
    qed (simp add: map_of_eq_None_iff)
    note set = tracker_set_room [OF room "2.prems"(2)]
    have IH: "sorted_wrt (apart cooldown) (doors_opened P events b')
      \<and> (\<forall>x \<in> set (doors_opened P events b'). case map_of (tk_last (br_tracker b')) (fst x) of None \<Rightarrow> True | Some p \<Rightarrow> cooldown \<le> snd x - p)"
      by (rule "2.IH"(4) [OF r [symmetric] DoorOpened]) (use "2.prems"(1,2) "2.prems"(3) [unfolded eq] in \<open>simp_all add: tr set\<close>)
    have later: "cooldown \<le> n - now" if "(?key, n) \<in> set (doors_opened P events b')" for n
      using IH that by (force simp: tr set)
    have head: "case map_of (tk_last ?t) ?key of None \<Rightarrow> True | Some p \<Rightarrow> cooldown \<le> now - p"
      using tr(2) cd assms(1) by (auto simp: cooled_down_def split: option.splits)
    have rest: "case map_of (tk_last ?t) (fst x) of None \<Rightarrow> True | Some p \<Rightarrow> cooldown \<le> snd x - p"
      if x: "x \<in> set (doors_opened P events b')" for x
    proof (cases "fst x = ?key")
      case True
      then have "cooldown \<le> snd x - now" using later [of "snd x"] x by (metis prod.collapse)
      then show ?thesis using head assms(1) by (auto simp: True split: option.splits)
    next
      case False
      then show ?thesis using IH x by (fastforce simp: tr set)
    qed
    have "apart cooldown (?key, now) x" if "x \<in> set (doors_opened P events b')" for x
      using later [of "snd x"] that unfolding apart_def by (metis fst_conv snd_conv prod.collapse)
    then show ?thesis unfolding eq using IH head rest by (auto split: option.split)
  next
    case NotOurs
    then show ?thesis using 2 r begin_tracker [OF r cd(2)] by simp
  next
    case (DoorRefused x)
    then show ?thesis using 2 r begin_tracker [OF r cd(2)] by simp
  next
    case DoorSuppressed
    then show ?thesis using 2 r begin_tracker [OF r cd(2)] by simp
  qed
qed simp


subsection \<open>What the loaded snapshot holds\<close>

definition item_key :: "credential \<Rightarrow> jstr" where
  "item_key i = credential_key (ci_kind i) (ci_value i)"

definition held :: "cache \<Rightarrow> credential_kind \<Rightarrow> jstr \<Rightarrow> credential option" where
  "held c k v = map_of (ca_items c) (credential_key k v)"

definition removed_keys :: "snapshot_page \<Rightarrow> jstr set" where
  "removed_keys page = (\<lambda>(k, v). credential_key k v) ` set (sp_removed page)"

lemma map_of_drop_items:
  "map_of (fold drop_item gone items) key
    = (if key \<in> (\<lambda>(k, v). credential_key k v) ` set gone then None else map_of items key)"
  by (induction gone arbitrary: items) (auto simp: drop_item_def delete_conv')

lemma map_of_put_items_other:
  "key \<notin> item_key ` set new \<Longrightarrow> map_of (fold put_item new items) key = map_of items key"
  by (induction new arbitrary: items) (auto simp: put_item_def item_key_def update_conv')

lemma put_item_some: "ci_value i \<noteq> [] \<Longrightarrow> put_item i items = AList.update (item_key i) i items"
  by (simp add: put_item_def item_key_def)

lemma map_of_put_items:
  assumes "distinct (map item_key new)" "i \<in> set new" "ci_value i \<noteq> []"
  shows "map_of (fold put_item new items) (item_key i) = Some i"
  using assms
proof (induction new arbitrary: items)
  case (Cons j new)
  show ?case
  proof (cases "i = j")
    case True
    then have "item_key i \<notin> item_key ` set new" using Cons.prems(1) by simp
    from map_of_put_items_other [OF this] show ?thesis
      using True Cons.prems(3) by (simp add: put_item_some update_conv')
  qed (use Cons in simp)
qed simp

lemma held_apply_page:
  "held (apply_page page full c) k v =
    (if credential_key k v \<in> removed_keys page then None
     else map_of (fold put_item (sp_items page) (if full then [] else ca_items c)) (credential_key k v))"
  by (simp add: held_def apply_page_def map_of_drop_items removed_keys_def)

text \<open>
  C13: a bridge whose first refresh is answered in one page holds exactly the credentials the
  estate finds usable: every number leads to the credential the estate's list holds under it, and to none
  when the list has none.
\<close>
theorem refresh_holds_what_is_usable:
  assumes "ca_last_sync c = None" "fetch 0 None None = Inr (snapshot now es [] [] limit)"
    and "length (all_credentials es) \<le> limit" "distinct (map item_key (all_credentials es))"
    and "list_all (\<lambda>i. ci_value i \<noteq> []) (all_credentials es)"
  shows "case sync fetch started finished c of (r, pages, c') \<Rightarrow>
    r = Inr () \<and> pages = 1 \<and> cache_ready c'
    \<and> held c' k v = List.find (\<lambda>i. item_key i = credential_key k v) (all_credentials es)"
proof -
  let ?page = "snapshot now es [] [] limit" and ?all = "all_credentials es"
  have "map item_key ?all = map (\<lambda>(w, n). n @ js '':'' @ upper (trim w)) (map place ?all)"
    by (simp add: item_key_def place_def credential_key_def)
  then have place: "distinct (map place ?all)" using assms(4) by (metis distinct_map)
  have "length (remaining_rows es [] [] limit) \<le> length ?all"
    by (simp add: remaining_rows_def sort_credentials_def card_rows_def employee_rows_def window_rows_def all_credentials_def
        since_ok_def from_ok_def after_cursor_def)
  then have last_page: "sp_next ?page = None" using assms(3) by (simp add: snapshot_def Let_def)
  have "sp_items ?page = take limit (to_come es [] [])"
    using remaining_is_next [OF place] by (simp add: snapshot_def Let_def)
  then have items: "sp_items ?page = sort_credentials ?all"
    using assms(3) by (simp add: to_come_def since_ok_def after_cursor_def sort_credentials_def)
  have rest: "sp_full ?page" "sp_removed ?page = []" by (simp_all add: snapshot_def Let_def)
  obtain n where pages: "max_snapshot_pages = Suc n" using that [of 499] by (simp add: max_snapshot_pages_def)
  obtain c' where sync: "sync fetch started finished c = (Inr (), 1, c')" and c': "ca_items c' = fold put_item (sort_credentials ?all) []"
      "ca_last_sync c' = Some finished"
    using assms(1,2) by (simp add: sync_def pending_since_def pages last_page rest Let_def apply_page_def items)
  have same: "set (sort_credentials ?all) = set ?all" "distinct (map item_key (sort_credentials ?all))"
    using assms(4) by (simp_all add: sort_credentials_def distinct_map)
  have "held c' k v = List.find (\<lambda>i. item_key i = credential_key k v) ?all"
  proof (cases "List.find (\<lambda>i. item_key i = credential_key k v) ?all")
    case None
    then have "credential_key k v \<notin> item_key ` set (sort_credentials ?all)" by (auto simp: find_None_iff same)
    from map_of_put_items_other [OF this] show ?thesis using None by (simp add: held_def c')
  next
    case (Some i)
    then have "i \<in> set (sort_credentials ?all)" "item_key i = credential_key k v" "ci_value i \<noteq> []"
      using assms(5) by (auto simp: find_Some_iff same list_all_iff)
    then show ?thesis using map_of_put_items [OF same(2)] Some by (metis c'(1) held_def)
  qed
  then show ?thesis by (simp add: sync cache_ready_def c')
qed

text \<open>
  A refresh that asked for the whole set and breaks off after its first page leaves the bridge ready,
  with nothing but that page: what was loaded before is forgotten, whatever the page does not hold is
  unknown at every gate, and the next attempt is due only with the next refresh.
\<close>
theorem failed_refresh_forgets:
  assumes "cache_ready c" "ca_needs_full c"
    and "fetch 0 None None = Inr page" "sp_next page = Some cursor" "cursor \<noteq> []" "fetch 1 (Some cursor) None = Inl e"
    and "card_no \<noteq> []"
    and "list_all (\<lambda>n. credential_key CardKind n \<notin> item_key ` set (sp_items page)) (card_no # card_number_candidates card_no (ca_formats c))"
  shows "case sync fetch started finished c of (r, pages, c') \<Rightarrow>
    r = Inl e \<and> pages = 1 \<and> cache_ready c' \<and> ca_last_sync c' = ca_last_sync c
    \<and> decide_credential P now c' (Some card_no) None device = Refuse UnknownCredential None"
proof -
  let ?c = "(apply_page page True c)\<lparr>ca_error := Some e, ca_failed_at := Some finished, ca_needs_full := True\<rparr>"
  obtain n where pages: "max_snapshot_pages = Suc (Suc n)" using that [of 498] by (simp add: max_snapshot_pages_def)
  have sync: "sync fetch started finished c = (Inl e, 1, ?c)"
    using assms(2-6) by (simp add: sync_def pending_since_def pages Let_def)
  have items: "map_of (ca_items ?c) (credential_key CardKind n) = None"
    if "n \<in> set (card_no # card_number_candidates card_no (ca_formats c))" for n
  proof -
    have "credential_key CardKind n \<notin> item_key ` set (sp_items page)" using assms(8) that unfolding list_all_iff by blast
    then show ?thesis by (simp add: apply_page_def map_of_drop_items map_of_put_items_other)
  qed
  have formats: "ca_formats ?c = ca_formats c" by (simp add: apply_page_def)
  have none: "first_hit (ca_items ?c) vs = None"
    if "set vs \<subseteq> set (card_number_candidates card_no (ca_formats c))" for vs
    using that by (induction vs) (use items in auto)
  have "card_hit ?c card_no = None"
    unfolding card_hit_def formats using none items by simp
  then have "lookup_credential ?c (Some card_no) None = None"
    using assms(7) by (simp add: lookup_credential_def some_text_def)
  then have "decide_credential P now ?c (Some card_no) None device = Refuse UnknownCredential None"
    using assms(1,7) by (simp add: decide_credential_def some_text_def cache_ready_def apply_page_def)
  then show ?thesis using assms(1) by (simp add: sync cache_ready_def apply_page_def)
qed

lemma keys_of_kinds: "credential_key CardKind v \<noteq> credential_key EmployeeKind w"
  by (simp add: credential_key_def kind_name_def js_def)

lemma window_rows_subset: "set (window_rows since start n rows) \<subseteq> set rows"
  by (auto simp: window_rows_def dest: in_set_takeD)

lemma remaining_rows_subset: "set (remaining_rows es since cursor limit) \<subseteq> set (all_credentials es)"
  using window_rows_subset unfolding remaining_rows_def Let_def sort_credentials_def card_rows_def employee_rows_def all_credentials_def
  by fastforce

lemma page_items_usable: "i \<in> set (sp_items (snapshot now es since cursor limit)) \<Longrightarrow> i \<in> set (all_credentials es)"
  using remaining_rows_subset by (fastforce simp: snapshot_def Let_def dest: in_set_takeD)

lemma unusable_card_not_listed:
  assumes "x \<in> set (es_cards es)" "\<not> card_usable es x"
    and "distinct (map (\<lambda>y. credential_key CardKind (sc_uid y)) (es_cards es))"
  shows "credential_key CardKind (sc_uid x) \<notin> item_key ` set (sp_items (snapshot now es since cursor limit))"
proof
  assume "credential_key CardKind (sc_uid x) \<in> item_key ` set (sp_items (snapshot now es since cursor limit))"
  then obtain i where i: "i \<in> set (all_credentials es)" "item_key i = credential_key CardKind (sc_uid x)"
    using page_items_usable by (smt (verit) imageE)
  then have "ci_kind i = CardKind" using keys_of_kinds by (cases "ci_kind i") (simp_all add: item_key_def, metis)
  then have "i \<in> set (usable_cards es)"
    using i(1) kinds(2) [of i es] unfolding all_credentials_def by auto
  then obtain y where y: "y \<in> set (es_cards es)" "card_usable es y" "i = card_credential es y"
    by (auto simp: usable_cards_def)
  then have "item_key i = credential_key CardKind (sc_uid y)"
    by (simp add: item_key_def card_credential_def listed_credential_def Let_def)
  then have "x = y" using i(2) assms(1,3) y(1) by (auto simp: distinct_map inj_on_def)
  then show False using assms(2) y(2) by simp
qed

lemma active_card_not_removed:
  assumes "x \<in> set (es_cards es)" "sc_status x = active"
    and "distinct (map (\<lambda>y. credential_key CardKind (sc_uid y)) (es_cards es))"
  shows "credential_key CardKind (sc_uid x) \<notin> removed_keys (snapshot now es since cursor limit)"
proof
  assume "credential_key CardKind (sc_uid x) \<in> removed_keys (snapshot now es since cursor limit)"
  then obtain k v where kv: "(k, v) \<in> set (removals es since)" "credential_key k v = credential_key CardKind (sc_uid x)"
    by (auto simp: removed_keys_def snapshot_def Let_def split: if_splits)
  have "k = CardKind" using kv(2) keys_of_kinds by (cases k) (simp, metis)
  then obtain y where y: "y \<in> set (es_cards es)" "sc_status y \<noteq> active" "v = sc_uid y"
    using kv(1) by (auto simp: removals_def split: option.splits if_splits)
  then have "x = y" using kv(2) \<open>k = CardKind\<close> assms(1,3) by (auto simp: distinct_map inj_on_def)
  then show False using assms(2) y(2) by simp
qed

text \<open>
  C14: a person who is deactivated keeps opening the gate with a card that was not suspended itself: a full
  snapshot no longer lists the card, but no delta, however far back it reaches, removes it from a bridge.
\<close>
theorem delta_keeps_cards_of_deactivated:
  assumes "x \<in> set (es_cards es)" "sc_status x = active"
    and "case user_of es (sc_resident x) of None \<Rightarrow> False | Some u \<Rightarrow> su_status u \<noteq> active"
    and "distinct (map (\<lambda>y. credential_key CardKind (sc_uid y)) (es_cards es))" "since \<noteq> []"
  shows "held (apply_page (snapshot now es since cursor limit) False c) CardKind (sc_uid x) = held c CardKind (sc_uid x)
    \<and> held (apply_page (snapshot now es [] [] limit) True c) CardKind (sc_uid x) = None"
proof -
  have "\<not> card_usable es x" using assms(3) by (auto simp: card_usable_def split: option.splits)
  note unlisted = unusable_card_not_listed [OF assms(1) this assms(4)]
  have "credential_key CardKind (sc_uid x) \<notin> removed_keys (snapshot now es since cursor limit)"
    using assms(1,2,4) by (rule active_card_not_removed)
  then show ?thesis using map_of_put_items_other [OF unlisted] by (simp add: held_apply_page) (simp add: held_def)
qed

subsection \<open>A gate at work\<close>

definition sample_cache :: cache where
  "sample_cache = (apply_page (snapshot 0 sample_estate [] [] 500) True (new_cache default_card_formats))\<lparr>ca_last_sync := Some 0\<rparr>"

definition sample_reader :: reader where
  "sample_reader = \<lparr>rd_id = js ''g1'', rd_enabled = True, rd_door = 1, rd_cooldown = 1500\<rparr>"

definition sample_bridge :: bridge where
  "sample_bridge = \<lparr>br_enabled = True, br_cache = sample_cache, br_tracker = \<lparr>tk_last = [], tk_max = 5000\<rparr>,
     br_decisions = 0, br_granted = 0, br_denied = 0, br_suppressed = 0\<rparr>"

definition card_event :: "string \<Rightarrow> jstr" where
  "card_event n = [123, 34] @ js ''cardNo'' @ [34, 58, 34] @ js n @ [34, 125]"

definition sample_hit :: "string \<Rightarrow> hit" where
  "sample_hit n = \<lparr>hi_item = card_credential sample_estate (sample_card n), hi_kind = CardKind, hi_value = js n\<rparr>"

lemma sample_swipe:
  "fst (begin_remote_verification lagos_host 5000 sample_reader (card_event ''A1'') sample_bridge) = DoorOpened 1 (sample_hit ''A1'')"
  by code_simp

lemma door_opens_for_credential_in_force_witness:
  "fst (begin_remote_verification lagos_host 5000 sample_reader (card_event ''A1'') sample_bridge) = DoorOpened 1 (sample_hit ''A1'')
   \<and> in_force lagos_host 5000 (js ''g1'') (hi_item (sample_hit ''A1''))"
proof -
  obtain b where "begin_remote_verification lagos_host 5000 sample_reader (card_event ''A1'') sample_bridge = (DoorOpened 1 (sample_hit ''A1''), b)"
    using sample_swipe by (metis prod.collapse)
  from door_opens_for_credential_in_force [OF this] show ?thesis using sample_swipe by (simp add: sample_reader_def)
qed

definition sample_swipes :: "(int \<times> reader \<times> jstr) list" where
  "sample_swipes = map (\<lambda>(t, n). (t, sample_reader, card_event n)) [(5000, ''A1''), (5900, ''A1''), (6000, ''A2''), (6600, ''A1'')]"

lemma sample_doors:
  "doors_opened lagos_host sample_swipes sample_bridge
    = [(js ''g1|card|A1'', 5000), (js ''g1|card|A2'', 6000), (js ''g1|card|A1'', 6600)]"
  by code_simp


lemma refresh_holds_what_is_usable_witness:
  "fst (sync (\<lambda>pages cursor since. Inr (snapshot 0 sample_estate [] [] 500)) 0 40 (new_cache default_card_formats)) = Inr ()
   \<and> held (snd (snd (sync (\<lambda>pages cursor since. Inr (snapshot 0 sample_estate [] [] 500)) 0 40 (new_cache default_card_formats))))
       CardKind (js ''a4'') = Some (card_credential sample_estate (sample_card ''A4''))"
proof -
  let ?fetch = "\<lambda>pages cursor since. Inr (snapshot 0 sample_estate [] [] 500) :: (jstr, snapshot_page) result"
  have "length (all_credentials sample_estate) \<le> 500" "distinct (map item_key (all_credentials sample_estate))"
    "list_all (\<lambda>i. ci_value i \<noteq> []) (all_credentials sample_estate)"
    "List.find (\<lambda>i. item_key i = credential_key CardKind (js ''a4'')) (all_credentials sample_estate)
      = Some (card_credential sample_estate (sample_card ''A4''))"
    by code_simp+
  then show ?thesis
    using refresh_holds_what_is_usable [where c = "new_cache default_card_formats" and fetch = ?fetch
        and now = 0 and es = sample_estate and limit = 500 and started = 0 and finished = 40 and k = CardKind and v = "js ''a4''"]
    by (simp add: new_cache_def split: prod.splits)
qed

definition broken_off :: fetcher where
  "broken_off pages cursor since = (if pages = 0 then Inr (snapshot 0 sample_estate [] [] 2) else Inl (js ''HTTP 503''))"

lemma failed_refresh_forgets_witness:
  "decide_credential lagos_host 5000 sample_cache (Some (js ''A3'')) None (js ''g1'') = Grant (sample_hit ''A3'')
   \<and> (case sync broken_off 4000 4100 (sample_cache\<lparr>ca_needs_full := True\<rparr>) of (r, pages, c') \<Rightarrow>
        cache_ready c' \<and> decide_credential lagos_host 5000 c' (Some (js ''A3'')) None (js ''g1'') = Refuse UnknownCredential None)"
proof -
  have "decide_credential lagos_host 5000 sample_cache (Some (js ''A3'')) None (js ''g1'') = Grant (sample_hit ''A3'')"
    by code_simp
  moreover have "cache_ready sample_cache" by (simp add: cache_ready_def sample_cache_def)
  moreover have "sp_next (snapshot 0 sample_estate [] [] 2) = Some (js ''A1|card'')" by code_simp
  moreover have "list_all (\<lambda>n. credential_key CardKind n \<notin> item_key ` set (sp_items (snapshot 0 sample_estate [] [] 2)))
      (js ''A3'' # card_number_candidates (js ''A3'') (ca_formats sample_cache))" by code_simp
  ultimately show ?thesis
    using failed_refresh_forgets [where c = "sample_cache\<lparr>ca_needs_full := True\<rparr>" and fetch = broken_off
        and page = "snapshot 0 sample_estate [] [] 2" and cursor = "js ''A1|card''" and e = "js ''HTTP 503''" and card_no = "js ''A3''"
        and started = 4000 and finished = 4100 and P = lagos_host and now = 5000 and device = "js ''g1''"]
    by (simp add: broken_off_def cache_ready_def js_def split: prod.splits)
qed

definition deactivated_estate :: estate where
  "deactivated_estate = sample_estate\<lparr>es_users :=
     [\<lparr>su_id = js ''u1'', su_employee = Some (js ''7''), su_status = js ''suspended'', su_updated = js ''2026-10-02 08:00:00''\<rparr>]\<rparr>"

lemma delta_keeps_cards_of_deactivated_witness:
  "held (apply_page (snapshot 0 deactivated_estate (js ''2026-10-01 12:00:00'') [] 500) False sample_cache) CardKind (js ''A1'')
     = Some (card_credential sample_estate (sample_card ''A1''))
   \<and> held (apply_page (snapshot 0 deactivated_estate [] [] 500) True sample_cache) CardKind (js ''A1'') = None"
proof -
  have x: "sample_card ''A1'' \<in> set (es_cards deactivated_estate)"
    by (simp add: deactivated_estate_def sample_estate_def)
  have "sc_status (sample_card ''A1'') = active" "js ''2026-10-01 12:00:00'' \<noteq> []" "sc_uid (sample_card ''A1'') = js ''A1''"
    by (simp_all add: sample_card_def js_def)
  moreover have "case user_of deactivated_estate (sc_resident (sample_card ''A1'')) of None \<Rightarrow> False | Some u \<Rightarrow> su_status u \<noteq> active"
    by code_simp
  moreover have "distinct (map (\<lambda>y. credential_key CardKind (sc_uid y)) (es_cards deactivated_estate))" by code_simp
  moreover have "held sample_cache CardKind (js ''A1'') = Some (card_credential sample_estate (sample_card ''A1''))" by code_simp
  ultimately show ?thesis
    using delta_keeps_cards_of_deactivated [OF x, of "js ''2026-10-01 12:00:00''" 0 "[]" 500 sample_cache] by metis
qed

end
