(* ===== verification/ZkEvents.thy ===== *)
theory ZkEvents
  imports ZkDelivery RemoteGate
begin

text \<open>
  From a punch at a ZKTeco terminal to the decision on its door: the event document the PUSH listener makes
  of an uploaded record is read back by remote verification as the person and card of that record.
\<close>

lemma get_prop_Cons: "get_prop (Obj ((k', v) # fs)) k = (if k = k' then v else get_prop (Obj fs) k)"
  by simp

lemma digits_w_units: "units (digits_w w n)"
proof -
  have "c < 65536" if "c \<in> set (show_nat m)" for c m
    using show_nat_digits [of m] that by (auto simp: list_all_iff is_digit_def)
  then show ?thesis by (auto simp: digits_w_def pad_start_def units_def list_all_iff)
qed

lemma iso_string_units: "units (iso_string t)"
  by (simp add: iso_string_def Let_def date_text_def hms_text_def year_text_def digits_w_units)

text \<open>The values of an uploaded record.\<close>

fun text_value :: "jval \<Rightarrow> bool" where
  "text_value Undef = True"
| "text_value (Str s) = units s"
| "text_value _ = False"

definition text_record :: "options \<Rightarrow> bool" where
  "text_record r \<longleftrightarrow> list_all (\<lambda>(k, v). text_value v) r"

lemma text_record_prop: "text_record r \<Longrightarrow> text_value (get_prop (Obj r) k)"
  by (auto simp: text_record_def list_all_iff dest!: map_of_SomeD split: option.splits)

definition field_text :: "options \<Rightarrow> string list \<Rightarrow> jstr" where
  "field_text r names = to_string_or_empty (first_of (Obj r) names)"

lemma first_of_text:
  assumes "text_record r"
  shows "nullish_or (first_of (Obj r) names) (Str []) = Str (field_text r names)" "units (field_text r names)"
proof -
  have "first_of (Obj r) names = Null \<or> (\<exists>s. first_of (Obj r) names = Str s \<and> units s)"
  proof (induction names)
    case (Cons k ks)
    have "text_value (get_prop (Obj r) (js k))" using assms by (rule text_record_prop)
    then show ?case using Cons by (cases "get_prop (Obj r) (js k)") (auto simp: nullish_or_def simp del: get_prop.simps)
  qed simp
  then show "nullish_or (first_of (Obj r) names) (Str []) = Str (field_text r names)" "units (field_text r names)"
    by (auto simp: field_text_def nullish_or_def)
qed

definition event_body :: "platform \<Rightarrow> int \<Rightarrow> int \<Rightarrow> options \<Rightarrow> (jstr \<times> jval) list" where
  "event_body P minutes now r =
    [(js ''employeeNoString'', Str (field_text r [''PIN'', ''UserID'', ''pin''])), (js ''cardNo'', Str (field_text r [''Card'', ''cardNo'', ''CardNo''])),
     (js ''dateTime'', Str (push_timestamp_to_iso P minutes now (first_of (Obj r) [''Time'', ''DateTime'', ''timestamp'']))),
     (js ''verifyMode'', Str (field_text r [''VerifyMode'', ''verifyMode''])), (js ''doorNo'', Num 1),
     (js ''workCode'', Str (field_text r [''WorkCode''])), (js ''statusCode'', Str (field_text r [''Status'', ''status''])),
     (js ''profileKey'', Str (js ''zkteco_push''))]"

definition event_document :: "(jstr \<times> jval) list \<Rightarrow> (jstr \<times> jval) list" where
  "event_document body = [(js ''eventType'', Str (js ''access_controller_event'')), (js ''majorEventType'', Num 5),
     (js ''minorEventType'', Num 0), (js ''accessControllerEvent'', Obj body)]"

lemma access_event_document_text:
  assumes "text_record r"
  shows "access_event_document P minutes now r = Obj (event_document (event_body P minutes now r))"
proof -
  have "nullish_or (get_prop (Obj r) (js ''WorkCode'')) (Str []) = Str (field_text r [''WorkCode''])"
    using first_of_text(1) [OF assms, of "[''WorkCode'']"] by (simp add: nullish_or_def del: get_prop.simps split: if_splits)
  then show ?thesis
    using first_of_text(1) [OF assms]
    by (simp add: access_event_document_def event_document_def event_body_def Let_def text_or_empty_def field_text_def
        del: first_of.simps get_prop.simps)
qed

lemma event_document_printable:
  assumes "text_record r"
  shows "printable (Obj (event_document (event_body P minutes now r)))"
  using first_of_text(2) [OF assms]
  by (simp add: event_document_def event_body_def max_safe_def push_timestamp_to_iso_def iso_string_units)

lemma json_text_object: "fs \<noteq> [] \<Longrightarrow> trim (json_text (Obj fs)) = json_text (Obj fs) \<and> starts_with (json_text (Obj fs)) (js ''{'')"
proof -
  let ?m = "join (js '','') (map (\<lambda>(k, t). json_quote k @ js '':'' @ t)
      (filter (\<lambda>(k, t). t \<noteq> []) (map (\<lambda>(k, v). (k, if v = Undef then [] else json_text v)) fs)))"
  have t: "json_text (Obj fs) = 123 # ?m @ [125]" by (simp add: js_def)
  have "trim_start (123 # u) = 123 # u" "trim_end (u @ [125]) = u @ [125]" for u
    by (simp_all add: trim_start_def trim_end_def is_ws_def)
  then have "trim (123 # ?m @ [125]) = 123 # ?m @ [125]" by (metis append_Cons trim_def)
  then show ?thesis unfolding t by (simp add: starts_with_def js_def)
qed

text \<open>
  C24: the document made of an uploaded record is read by remote verification as an event at door 1 of
  the record's person, by number, and of its card, where it has one; nothing else in the record
  changes who is decided upon.
\<close>
theorem punch_read_as_its_person:
  assumes "text_record r"
  shows "parse_terminal_event (json_text (access_event_document P minutes now r)) [] =
    Some \<lparr>te_card = some_text (Some (trim (field_text r [''Card'', ''cardNo'', ''CardNo'']))),
          te_employee = some_text (Some (trim (field_text r [''PIN'', ''UserID'', ''pin'']))),
          te_name = None, te_door = 1, te_type = None, te_serial = None, te_ip = None, te_json = True\<rparr>"
proof -
  let ?body = "event_body P minutes now r"
  let ?doc = "Obj (event_document ?body)"
  have doc: "access_event_document P minutes now r = ?doc" by (rule access_event_document_text [OF assms])
  have "json_parse (json_text ?doc) = Some ?doc" by (rule json_parse_text [OF event_document_printable [OF assms]])
  moreover have "json_source ?doc = Obj ?body"
    by (simp add: json_source_def event_document_def Let_def)
  moreover have "trim (json_text ?doc) = json_text ?doc" "looks_json (json_text ?doc) []" "json_text ?doc \<noteq> []"
    using json_text_object [of "event_document ?body"] by (auto simp: looks_json_def event_document_def starts_with_def js_def simp del: json_text.simps)
  ultimately have "parse_terminal_event (json_text ?doc) [] = Some (json_event (Obj ?body))"
    by (simp add: parse_terminal_event_def Let_def del: json_text.simps)
  moreover have "trim (show_int 1) = [49]" "number_of_text [49] = Num 1" by code_simp+
  then have "json_event (Obj ?body) =
      \<lparr>te_card = some_text (Some (trim (field_text r [''Card'', ''cardNo'', ''CardNo'']))),
       te_employee = some_text (Some (trim (field_text r [''PIN'', ''UserID'', ''pin'']))),
       te_name = None, te_door = 1, te_type = None, te_serial = None, te_ip = None, te_json = True\<rparr>"
    by (simp add: json_event_def event_body_def nullish_or_def Let_def some_text_def event_door_def)
  ultimately show ?thesis by (simp only: doc)
qed

subsection \<open>A terminal at work\<close>

definition sample_env :: "jstr push_env" where
  "sample_env = \<lparr>pv_sha = (\<lambda>s. s), pv_controller = create_inbound default_inbound, pv_platform = lagos_host, pv_minutes = 60,
     pv_resolve = (\<lambda>serial opts. Some \<lparr>ln_device = js ''g2'', ln_name = js ''Gate 2''\<rparr>), pv_ack_timeout = 180000\<rparr>"

definition terminal_request :: "string \<Rightarrow> (string \<times> jstr) list \<Rightarrow> push_request" where
  "terminal_request path ps = \<lparr>zr_method = js ''GET'', zr_path = js ''/iclock/'' @ js path,
     zr_params = (js ''SN'', js ''Z1'') # map (\<lambda>(k, v). (js k, v)) ps, zr_body = [], zr_remote = Str (js ''10.0.0.9''),
     zr_headers = Obj [], zr_url = Str []\<rparr>"

definition new_card :: push_step where
  "new_card = Start_operation 1000 (js ''Z1'') (js ''upsert_card'') (Obj [(js ''cardUid'', Str (js ''4711'')), (js ''name'', Str (js ''Ada''))])
     (Str (js ''12'')) True"

definition poll :: "int \<Rightarrow> push_step" where
  "poll now = Request now ([], []) (terminal_request ''getrequest'' [])"

definition answer :: "string \<Rightarrow> push_request" where
  "answer code = terminal_request ''devicecmd'' [(''ID'', js ''1''), (''Return'', js code)]"

definition one_delivered :: listener where
  "one_delivered = after_steps sample_env [new_card, poll 2000] new_listener"

definition sample_steps :: "push_step list" where
  "sample_steps = [new_card, poll 2000, new_card]"

lemma commands_arrive_in_order_witness:
  "handed sample_env (js ''Z1'') sample_steps new_listener @ waiting (js ''Z1'') (after_steps sample_env sample_steps new_listener)
     = accepted_lines sample_env (js ''Z1'') sample_steps new_listener
   \<and> length (split_on 10 (handed sample_env (js ''Z1'') sample_steps new_listener)) = 2"
proof -
  have "length (split_on 10 (handed sample_env (js ''Z1'') sample_steps new_listener)) = 2" by code_simp
  moreover have "trim (js ''Z1'') \<noteq> []" by code_simp
  ultimately show ?thesis using commands_arrive_in_order by blast
qed

definition applied :: outcome where
  "applied = \<lparr>oc_ok = True, oc_error = None, oc_code = Some 0, oc_meaning = Some (js ''applied by the terminal''), oc_waited = Some 500\<rparr>"

lemma sample_answer:
  "fst (snd (handle_push sample_env 2500 ([], []) (answer ''0'') one_delivered)) = [Resolved (js ''Z1:1'') applied]"
  by code_simp

lemma success_was_reported_witness:
  "path_of (answer ''0'') = js ''/iclock/devicecmd'' \<and> outstanding (js ''Z1'') one_delivered = {1}
   \<and> Resolved (js ''Z1:1'') applied \<in> set (fst (snd (handle_push sample_env 2500 ([], []) (answer ''0'') one_delivered)))"
proof -
  obtain r out z' where h: "handle_push sample_env 2500 ([], []) (answer ''0'') one_delivered = (r, out, z')" by (metis prod_cases3)
  then have res: "Resolved (js ''Z1:1'') applied \<in> set out" using sample_answer by simp
  have "operation_result applied = Inr ()" by (simp add: operation_result_def applied_def)
  from success_was_reported [OF h res this] have "path_of (answer ''0'') = js ''/iclock/devicecmd''" by blast
  moreover have "outstanding (js ''Z1'') one_delivered = {1}" by code_simp
  ultimately show ?thesis using res by (simp add: h)
qed

lemma empty_return_counts_as_success_witness:
  "\<exists>result. Resolved (js ''Z1:1'') result \<in> set (fst (snd (handle_push sample_env 2500 ([], []) (answer []) one_delivered)))
    \<and> operation_result result = Inr ()"
proof -
  have "answer [] = \<lparr>zr_method = js ''GET'', zr_path = js ''/iclock/devicecmd'',
      zr_params = [(js ''SN'', js ''Z1''), (js ''ID'', js ''1''), (js ''Return'', [])], zr_body = [], zr_remote = Str (js ''10.0.0.9''),
      zr_headers = Obj [], zr_url = Str []\<rparr>"
    by (simp add: answer_def terminal_request_def js_def)
  moreover have "fst (decide (pv_sha sample_env) (pv_controller sample_env) 2500 (inbound_of (answer [])) (zk_gate one_delivered)) = Admitted (js ''10.0.0.9'')"
    by code_simp
  moreover have "trim (js ''Z1'') = js ''Z1''" "js ''Z1'' \<noteq> []" "js ''1'' \<noteq> []" "number_of_text (js ''1'') = Num (int 1)" by code_simp+
  moreover have "1 \<in> outstanding (js ''Z1'') one_delivered" "await_key (js ''Z1'') 1 \<in> set (zk_awaiting one_delivered)"
    by code_simp+
  ultimately have "\<exists>result. Resolved (await_key (js ''Z1'') 1) result \<in> set (fst (snd (handle_push sample_env 2500 ([], []) (answer []) one_delivered)))
      \<and> oc_code result = Some 0 \<and> oc_meaning result = Some (js ''applied by the terminal'') \<and> operation_result result = Inr ()"
    by (rule empty_return_counts_as_success)
  moreover have "await_key (js ''Z1'') 1 = js ''Z1:1''" by code_simp
  ultimately show ?thesis by auto
qed

definition card_command :: jstr where
  "card_command = js ''DATA UPDATE USERINFO '' @ join [9]
     (map js [''PIN=12'', ''Pri=0'', ''Card=4711'', ''Grp=1'', ''TZ=0000000100000000'', ''Verify=0'', ''Enable=1''])"


definition sample_punch :: options where
  "sample_punch = [(js ''PIN'', Str (js ''12'')), (js ''Time'', Str (js ''2026-10-01 08:00:00''))]"

lemma punch_read_as_its_person_witness:
  "parse_terminal_event (json_text (access_event_document lagos_host 60 0 sample_punch)) []
    = Some \<lparr>te_card = None, te_employee = Some (js ''12''), te_name = None, te_door = 1, te_type = None, te_serial = None, te_ip = None, te_json = True\<rparr>"
proof -
  have r: "text_record sample_punch" by (simp add: text_record_def sample_punch_def)
  have "some_text (Some (trim (field_text sample_punch [''PIN'', ''UserID'', ''pin'']))) = Some (js ''12'')"
    "some_text (Some (trim (field_text sample_punch [''Card'', ''cardNo'', ''CardNo'']))) = None"
    by code_simp+
  then show ?thesis using punch_read_as_its_person [OF r, of lagos_host 60 0] by (simp only:)
qed

end
