(* ===== verification/Database.thy ===== *)
theory Database
  imports EstateTime
begin

text \<open>
  The tables the handlers read and write, as lists of records in row order, and what the host
  supplies: \<open>crypto.randomUUID\<close> (the n-th identifier drawn), SQLite's \<open>datetime\<close> of
  a stored text, as seconds, and the platform of \<^verbatim>\<open>EstateTime\<close>. A column filled by
  \<open>datetime('now')\<close> holds seconds; statuses with a CHECK constraint are datatypes where the
  handlers branch on them.
\<close>

record host =
  h_uuid :: "nat \<Rightarrow> jstr"
  h_sql_seconds :: "jstr \<Rightarrow> int option"
  h_platform :: platform

definition sql_now :: "int \<Rightarrow> int" where
  "sql_now now = now div 1000"

text \<open>\<open>datetime(t) <= datetime('now')\<close>; a comparison with null is not true.\<close>

definition due_by :: "host \<Rightarrow> jstr \<Rightarrow> int \<Rightarrow> bool" where
  "due_by H t now = (case h_sql_seconds H t of None \<Rightarrow> False | Some s \<Rightarrow> s \<le> sql_now now)"

definition after_now :: "host \<Rightarrow> jstr \<Rightarrow> int \<Rightarrow> bool" where
  "after_now H t now = (case h_sql_seconds H t of None \<Rightarrow> False | Some s \<Rightarrow> sql_now now < s)"

lemma due_not_after: "due_by H t now \<Longrightarrow> \<not> after_now H t now"
  by (auto simp: due_by_def after_now_def split: option.splits)

subsection \<open>Devices and operations\<close>

record device =
  d_id :: jstr
  d_name :: jstr
  d_gate_name :: jstr
  d_pattern :: jstr
  d_profile :: jstr
  d_status :: jstr
  d_deleted :: bool
  d_last_sync :: "int option"
  d_last_sync_status :: "jstr option"

record device_config =
  cfg_device :: jstr
  cfg_agent :: "jstr option"
  cfg_sync_enabled :: bool
  cfg_host :: jstr
  cfg_port :: int
  cfg_username :: "jstr option"
  cfg_protocol :: jstr
  cfg_last_sync :: "int option"
  cfg_last_status :: "jstr option"
  cfg_last_error :: "jstr option"

datatype op_status = Pending | ManualAction | Sent | Applied | Failed

text \<open>The columns the two operation tables share.\<close>

record op_row =
  o_id :: jstr
  o_device :: jstr
  o_operation :: jstr
  o_payload :: jstr
  o_status :: op_status
  o_attempts :: nat
  o_error :: "jstr option"
  o_agent :: "jstr option"
  o_created :: int
  o_updated :: int
  o_synced :: "int option"

record visitor_op = op_row +
  o_request :: jstr

record device_op = op_row +
  o_card :: "jstr option"
  o_fingerprint :: "jstr option"
  o_capture :: "jstr option"
  o_user :: "jstr option"
  o_member :: "jstr option"
  o_instruction :: "jstr option"
  o_result :: "jstr option"

subsection \<open>Visitor passes and gate scans\<close>

datatype account_state = NoAccount | Provisioned | RemovalQueued | Removed

record visitor =
  v_id :: jstr
  v_resident :: jstr
  v_property :: "jstr option"
  v_name :: jstr
  v_phone :: "jstr option"
  v_pin :: jstr
  v_qr :: jstr
  v_credential :: "jstr option"
  v_barcode :: "jstr option"
  v_credential_mode :: jstr
  v_device :: "jstr option"
  v_gate_scope :: jstr
  v_requires_approval :: int
  v_require_gate_id :: int
  v_status :: jstr
  v_valid_from :: jstr
  v_valid_until :: jstr
  v_person_type :: jstr
  v_visit_times :: int
  v_purpose :: "jstr option"
  v_purpose_other :: "jstr option"
  v_remark :: "jstr option"
  v_checked_in_at :: "int option"
  v_checked_in_by :: "jstr option"
  v_checked_out_at :: "int option"
  v_rejected_at :: "int option"
  v_rejected_by :: "jstr option"
  v_rejection_note :: "jstr option"
  v_gate_proof :: "jstr option"
  v_gate_verified_at :: "int option"
  v_gate_verified_by :: "jstr option"
  v_account :: account_state
  v_provisioned_at :: "int option"
  v_removed_at :: "int option"
  v_removed_reason :: "jstr option"
  v_created :: int

record scan =
  s_id :: jstr
  s_visitor :: "jstr option"
  s_by :: jstr
  s_source :: jstr
  s_masked :: jstr
  s_decision :: jstr
  s_action :: "jstr option"
  s_note :: "jstr option"

record stored_file =
  sf_key :: jstr
  sf_uploader :: jstr
  sf_status :: jstr
  sf_entity_type :: "jstr option"
  sf_entity :: "jstr option"

subsection \<open>People and properties\<close>

record user =
  u_id :: jstr
  u_name :: jstr
  u_employee :: "jstr option"
  u_status :: jstr
  u_role :: jstr
  u_property :: "jstr option"

record household_member =
  m_id :: jstr
  m_name :: jstr
  m_employee :: "jstr option"
  m_status :: jstr
  m_property :: jstr
  m_primary :: jstr
  m_linked :: "jstr option"
  m_can_visitors :: bool
  m_can_bills :: bool

record ownership =
  ow_id :: jstr
  ow_property :: jstr
  ow_resident :: jstr
  ow_status :: jstr
  ow_approved_at :: int
  ow_revoked_by :: "jstr option"
  ow_reason :: "jstr option"

record tenancy =
  tn_property :: jstr
  tn_tenant :: jstr
  tn_status :: jstr
  tn_start :: jstr
  tn_end :: "jstr option"
  tn_can_visitors :: bool
  tn_can_maintenance :: bool
  tn_billing :: jstr

record transfer =
  tr_id :: jstr
  tr_property :: jstr
  tr_from :: jstr
  tr_to :: jstr
  tr_status :: jstr
  tr_failure :: "jstr option"
  tr_completed :: "int option"

record access_card =
  ac_id :: jstr
  ac_uid :: jstr
  ac_status :: jstr
  ac_resident :: "jstr option"
  ac_member :: "jstr option"
  ac_reason :: "jstr option"
  ac_auto :: bool

record fingerprint =
  fp_id :: jstr
  fp_no :: nat
  fp_label :: "jstr option"
  fp_employee :: "jstr option"
  fp_status :: jstr
  fp_resident :: jstr
  fp_member :: "jstr option"
  fp_reason :: "jstr option"
  fp_auto :: bool
  fp_device :: "jstr option"
  fp_by :: "jstr option"

record capture =
  cp_id :: jstr
  cp_device :: jstr
  cp_resident :: jstr
  cp_member :: "jstr option"
  cp_employee :: "jstr option"
  cp_name :: jstr
  cp_finger_no :: nat
  cp_label :: "jstr option"
  cp_by :: "jstr option"
  cp_status :: jstr
  cp_template :: "jstr option"
  cp_error :: "jstr option"
  cp_expires :: int
  cp_updated :: int

datatype person_kind = Account | Dependant

datatype person_sync_state = Synced | PendingSync | Missing | Manual | RemovedPerson

record person_state =
  ps_id :: jstr
  ps_kind :: person_kind
  ps_person :: jstr
  ps_device :: jstr
  ps_employee :: "jstr option"
  ps_name :: "jstr option"
  ps_state :: person_sync_state
  ps_fingers :: nat
  ps_cards :: nat
  ps_last_op :: "jstr option"
  ps_error :: "jstr option"
  ps_synced :: "int option"
  ps_updated :: int

record access_point =
  ap_device :: jstr
  ap_channel :: int
  ap_enabled :: bool

record isapi_agent =
  ag_id :: jstr
  ag_capabilities :: "jstr option"
  ag_deleted :: bool

text \<open>A row of \<open>card_status_changes\<close> or of \<open>fingerprint_status_changes\<close>.\<close>

record credential_change =
  cc_id :: jstr
  cc_credential :: jstr
  cc_old :: jstr
  cc_new :: jstr
  cc_reason :: jstr
  cc_by :: "jstr option"

record sync_log =
  sl_id :: jstr
  sl_device :: jstr
  sl_agent :: jstr
  sl_operation :: "jstr option"
  sl_type :: jstr
  sl_status :: jstr
  sl_message :: "jstr option"
  sl_duration :: "int option"

text \<open>The database; \<open>t_draws\<close> counts the identifiers drawn so far.\<close>

record db =
  t_visitors :: "visitor list"
  t_scans :: "scan list"
  t_devices :: "device list"
  t_configs :: "device_config list"
  t_agents :: "isapi_agent list"
  t_points :: "access_point list"
  t_visitor_ops :: "visitor_op list"
  t_device_ops :: "device_op list"
  t_files :: "stored_file list"
  t_users :: "user list"
  t_members :: "household_member list"
  t_ownerships :: "ownership list"
  t_tenancies :: "tenancy list"
  t_transfers :: "transfer list"
  t_cards :: "access_card list"
  t_fingers :: "fingerprint list"
  t_captures :: "capture list"
  t_person_states :: "person_state list"
  t_card_changes :: "credential_change list"
  t_finger_changes :: "credential_change list"
  t_sync_logs :: "sync_log list"
  t_settings :: "jstr \<rightharpoonup> jstr"
  t_draws :: nat

definition empty_db :: db where
  "empty_db = \<lparr>t_visitors = [], t_scans = [], t_devices = [], t_configs = [], t_agents = [], t_points = [],
     t_visitor_ops = [], t_device_ops = [], t_files = [], t_users = [], t_members = [], t_ownerships = [],
     t_tenancies = [], t_transfers = [], t_cards = [], t_fingers = [], t_captures = [],
     t_person_states = [], t_card_changes = [], t_finger_changes = [], t_sync_logs = [], t_settings = Map.empty, t_draws = 0\<rparr>"

text \<open>\<open>date(t)\<close> as a day number.\<close>

definition sql_day :: "host \<Rightarrow> jstr \<Rightarrow> int option" where
  "sql_day H t = map_option (\<lambda>s. s div 86400) (h_sql_seconds H t)"

definition today :: "int \<Rightarrow> int" where
  "today now = sql_now now div 86400"

definition estate_time_zone :: "host \<Rightarrow> db \<Rightarrow> jstr" where
  "estate_time_zone H db =
     normalize_time_zone (h_platform H) (case t_settings db (js ''estate_timezone'') of None \<Rightarrow> Undef | Some t \<Rightarrow> Str t)"

text \<open>A nullable text that is neither null nor empty.\<close>

definition truthy_text :: "jstr option \<Rightarrow> bool" where
  "truthy_text x \<longleftrightarrow> (case x of None \<Rightarrow> False | Some s \<Rightarrow> s \<noteq> [])"

subsection \<open>Delivery\<close>

definition pending_operation_patterns :: "jstr list" where
  "pending_operation_patterns =
     [js ''isapi_bridge'', js ''windows_agent'', js ''isapi_windows_agent'']"

definition is_pending_pattern :: "jstr \<Rightarrow> bool" where
  "is_pending_pattern p \<longleftrightarrow> p \<noteq> [] \<and> p \<in> set pending_operation_patterns"

definition device_has_linked_agent :: "db \<Rightarrow> jstr \<Rightarrow> bool" where
  "device_has_linked_agent db dev \<longleftrightarrow>
     list_ex (\<lambda>c. cfg_device c = dev \<and> cfg_agent c \<noteq> None \<and> cfg_sync_enabled c) (t_configs db)"

definition enabled_devices :: "db \<Rightarrow> device list" where
  "enabled_devices db = filter (\<lambda>d. d_status d \<noteq> js ''disabled'' \<and> \<not> d_deleted d) (t_devices db)"

definition visitor_operation_delivery :: "db \<Rightarrow> device \<Rightarrow> op_status" where
  "visitor_operation_delivery db d =
     (if is_pending_pattern (d_pattern d) \<and> device_has_linked_agent db (d_id d) then Pending else ManualAction)"

lemma delivery_not_failed [simp]:
  "visitor_operation_delivery db d \<noteq> Failed" "visitor_operation_delivery db d \<noteq> Applied"
  "visitor_operation_delivery db d \<noteq> Sent"
  by (simp_all add: visitor_operation_delivery_def)

definition draw :: "host \<Rightarrow> db \<Rightarrow> jstr" where
  "draw H db = h_uuid H (t_draws db)"

definition drawn :: "nat \<Rightarrow> db \<Rightarrow> db" where
  "drawn n db = db\<lparr>t_draws := t_draws db + n\<rparr>"

text \<open>A row of \<open>device_operations\<close> as the INSERT statements start it.\<close>

definition new_device_op :: "jstr \<Rightarrow> jstr \<Rightarrow> jstr \<Rightarrow> jstr \<Rightarrow> op_status \<Rightarrow> int \<Rightarrow> device_op" where
  "new_device_op i dev opn payload st now =
     \<lparr>o_id = i, o_device = dev, o_operation = opn, o_payload = payload, o_status = st, o_attempts = 0,
      o_error = None, o_agent = None, o_created = sql_now now, o_updated = sql_now now, o_synced = None,
      o_card = None, o_fingerprint = None, o_capture = None, o_user = None, o_member = None,
      o_instruction = None, o_result = None\<rparr>"

definition add_device_op :: "device_op \<Rightarrow> db \<Rightarrow> db" where
  "add_device_op r db = db\<lparr>t_device_ops := t_device_ops db @ [r]\<rparr>"

subsection \<open>A host to evaluate on\<close>

definition sample_uuid :: "nat \<Rightarrow> jstr" where "sample_uuid n = js ''id-'' @ show_nat n"

definition sample_seconds :: "jstr \<Rightarrow> int option" where
  "sample_seconds s = (case ecma_parse s of None \<Rightarrow> None | Some t \<Rightarrow> Some (t div 1000))"

definition sample_config :: "jstr \<Rightarrow> jstr \<Rightarrow> device_config" where
  "sample_config dev agent = \<lparr>cfg_device = dev, cfg_agent = Some agent, cfg_sync_enabled = True,
     cfg_host = js ''192.168.1.20'', cfg_port = 80, cfg_username = None, cfg_protocol = js ''http'',
     cfg_last_sync = None, cfg_last_status = None, cfg_last_error = None\<rparr>"

definition sample_host :: host where
  "sample_host = \<lparr>h_uuid = sample_uuid, h_sql_seconds = sample_seconds, h_platform = lagos_host\<rparr>"

lemmas sample_host_defs = sample_host_def sample_uuid_def sample_seconds_def

lemma sample_uuid_inj: "inj (h_uuid sample_host)"
  by (auto simp: sample_host_defs inj_def show_nat_inj)

lemma sample_host_iso [simp]:
  assumes "civil t"
  shows "h_sql_seconds sample_host (iso_string t) = Some (t div 1000)"
    "date_parse (h_platform sample_host) (iso_string t) = Some t"
  using assms by (simp_all add: sample_host_defs lagos_host_def)

end
