(* ===== verification/OperationQueue.thy ===== *)
theory OperationQueue
  imports Database
begin

text \<open>
  Planning the operations a visitor pass needs on a list of terminals, as
  \<open>queueVisitorDeviceOperations\<close> and \<open>queueVisitorDeviceRemovals\<close> of
  \<^verbatim>\<open>index.ts\<close> both do: read the operations the pass already has, decide per terminal
  whether a row is inserted or refreshed, and run the statements as one batch. The locale
  \<open>device_planner\<close> states what the decision of one terminal must satisfy, and derives that the
  batch settles every terminal, that planning again changes nothing, and that no second operation
  is created for a terminal.
\<close>

datatype statement =
    InsertOp visitor_op
  | RefreshOp jstr jstr "op_status option" int

definition refresh_row :: "jstr \<Rightarrow> op_status option \<Rightarrow> int \<Rightarrow> visitor_op \<Rightarrow> visitor_op" where
  "refresh_row payload st at r =
     r\<lparr>o_payload := payload, o_status := coalesce st (o_status r), o_error := None, o_updated := at\<rparr>"

fun exec_statement :: "statement \<Rightarrow> visitor_op list \<Rightarrow> visitor_op list" where
  "exec_statement (InsertOp r) rows = rows @ [r]"
| "exec_statement (RefreshOp i payload st at) rows =
     update_where (\<lambda>r. o_id r = i) (refresh_row payload st at) rows"

definition run_batch :: "statement list \<Rightarrow> visitor_op list \<Rightarrow> visitor_op list" where
  "run_batch sts rows = fold exec_statement sts rows"

text \<open>
  The row the lookup \<open>byDevice.get(device.id)\<close> finds: a Map built from the rows of the
  pass and of one operation keeps the last row of a terminal.
\<close>

definition current_op :: "jstr \<Rightarrow> jstr \<Rightarrow> visitor_op list \<Rightarrow> jstr \<Rightarrow> visitor_op option" where
  "current_op req opn rows dev =
     List.find (\<lambda>r. o_device r = dev) (rev (filter (\<lambda>r. o_request r = req \<and> o_operation r = opn) rows))"

fun inserts :: "statement \<Rightarrow> bool" where
  "inserts (InsertOp _) = True"
| "inserts (RefreshOp _ _ _ _) = False"

text \<open>
  The loop over the terminals: \<open>decide\<close> sees the row found for the terminal and the number of
  identifiers drawn so far; every statement counts as one queued operation.
\<close>

type_synonym decision = "visitor_op option \<Rightarrow> nat \<Rightarrow> device \<Rightarrow> statement option"

fun plan :: "decision \<Rightarrow> (jstr \<Rightarrow> visitor_op option) \<Rightarrow> nat \<Rightarrow> device list \<Rightarrow> statement list \<times> nat" where
  "plan decide by_device n [] = ([], n)"
| "plan decide by_device n (d # ds) =
    (case decide (by_device (d_id d)) n d of
       None \<Rightarrow> plan decide by_device n ds
     | Some s \<Rightarrow>
         let (ss, m) = plan decide by_device (if inserts s then Suc n else n) ds in (s # ss, m))"

subsection \<open>Lookup after a statement\<close>

definition op_key :: "visitor_op \<Rightarrow> jstr \<times> jstr \<times> jstr" where
  "op_key r = (o_request r, o_operation r, o_device r)"

lemma op_key_refresh [simp]: "op_key (refresh_row p st at r) = op_key r"
  and o_id_refresh [simp]: "o_id (refresh_row p st at r) = o_id r"
  and o_request_refresh [simp]: "o_request (refresh_row p st at r) = o_request r"
  and o_operation_refresh [simp]: "o_operation (refresh_row p st at r) = o_operation r"
  and o_device_refresh [simp]: "o_device (refresh_row p st at r) = o_device r"
  by (simp_all add: refresh_row_def op_key_def)

lemma find_map_update:
  assumes "\<And>r. P (f r) = P r"
  shows "List.find P (map f xs) = map_option f (List.find P xs)"
  using assms by (induction xs) auto

lemma filter_map_same:
  assumes "\<And>r. Q (f r) = Q r"
  shows "filter Q (map f xs) = map f (filter Q xs)"
  using assms by (induction xs) auto

lemma current_op_insert:
  "current_op req opn (rows @ [r]) dev =
     (if op_key r = (req, opn, dev) then Some r else current_op req opn rows dev)"
  by (auto simp: current_op_def op_key_def)

lemma current_op_update:
  assumes "\<And>r. op_key (f r) = op_key r"
  shows "current_op req opn (update_where P f rows) dev
    = map_option (\<lambda>r. if P r then f r else r) (current_op req opn rows dev)"
proof -
  let ?g = "\<lambda>r. if P r then f r else r"
  have g: "o_request (?g r) = o_request r" "o_operation (?g r) = o_operation r" "o_device (?g r) = o_device r" for r
    using assms [of r] by (simp_all add: op_key_def)
  show ?thesis
    unfolding current_op_def update_where_def
    by (subst filter_map_same) (simp_all add: g rev_map find_map_update)
qed

lemma current_op_SomeD:
  "current_op req opn rows dev = Some r \<Longrightarrow> r \<in> set rows \<and> op_key r = (req, opn, dev)"
  using find_Some_set [of _ "rev (filter (\<lambda>r. o_request r = req \<and> o_operation r = opn) rows)" r]
  by (auto simp: current_op_def op_key_def)

lemma current_op_None_iff:
  "current_op req opn rows dev = None \<longleftrightarrow> (\<forall>r\<in>set rows. op_key r \<noteq> (req, opn, dev))"
  by (auto simp: current_op_def op_key_def find_None_iff_set)

subsection \<open>Rows with distinct identifiers\<close>

definition rows_wf :: "host \<Rightarrow> visitor_op list \<Rightarrow> nat \<Rightarrow> bool" where
  "rows_wf H rows n \<longleftrightarrow> inj (h_uuid H) \<and> distinct (map o_id rows) \<and> (\<forall>r\<in>set rows. \<forall>m\<ge>n. o_id r \<noteq> h_uuid H m)"

definition one_op_per_key :: "visitor_op list \<Rightarrow> bool" where
  "one_op_per_key rows \<longleftrightarrow> distinct (map op_key rows)"

lemma same_id_same_row:
  assumes "rows_wf H rows n" "r \<in> set rows" "q \<in> set rows" "o_id r = o_id q"
  shows "r = q"
  using assms unfolding rows_wf_def by (metis distinct_map inj_onD)

lemma map_id_update [simp]:
  "map o_id (update_where P (refresh_row p st at) rows) = map o_id rows"
  "map op_key (update_where P (refresh_row p st at) rows) = map op_key rows"
  by (simp_all add: map_update_where)

lemma rows_wf_update: "rows_wf H rows n \<Longrightarrow> rows_wf H (update_where P (refresh_row p st at) rows) n"
  unfolding rows_wf_def by (metis (no_types, lifting) image_eqI image_set imageE map_id_update(1))

lemma rows_wf_insert:
  assumes "rows_wf H rows n" "o_id r = h_uuid H n"
  shows "rows_wf H (rows @ [r]) (Suc n)"
proof -
  have inj: "inj (h_uuid H)" using assms(1) by (simp add: rows_wf_def)
  have "o_id r \<notin> set (map o_id rows)"
    using assms(1,2) unfolding rows_wf_def by fastforce
  then have "distinct (map o_id (rows @ [r]))" using assms(1) by (simp add: rows_wf_def)
  moreover have "o_id q \<noteq> h_uuid H m" if "q \<in> set (rows @ [r])" "Suc n \<le> m" for q m
    using that assms(1,2) by (auto simp: rows_wf_def inj_eq [OF inj])
  ultimately show ?thesis using inj by (simp add: rows_wf_def)
qed

subsection \<open>The contract of a decision\<close>

locale device_planner =
  fixes H :: host and req opn :: jstr and decide :: decision
  assumes decide_new: "\<exists>r. decide None n d = Some (InsertOp r) \<and> op_key r = (req, opn, d_id d)
        \<and> o_id r = h_uuid H n \<and> (\<forall>m. decide (Some r) m d = None)"
    and decide_stable: "decide (Some c) n d = None \<Longrightarrow> decide (Some c) m d = None"
    and decide_old: "decide (Some c) n d = Some s \<Longrightarrow>
        \<exists>p st at. s = RefreshOp (o_id c) p st at \<and> (\<forall>m. decide (Some (refresh_row p st at c)) m d = None)"
begin

definition settled :: "visitor_op list \<Rightarrow> device \<Rightarrow> bool" where
  "settled rows d \<longleftrightarrow> (\<exists>r. current_op req opn rows (d_id d) = Some r \<and> (\<forall>m. decide (Some r) m d = None))"

text \<open>What one statement does to the rows.\<close>

lemma exec_one:
  assumes wf: "rows_wf H rows n" and s: "decide (current_op req opn rows (d_id d)) n d = Some s"
  shows "rows_wf H (exec_statement s rows) (if inserts s then Suc n else n)"
    "settled (exec_statement s rows) d"
    "\<And>e. e \<noteq> d_id d \<Longrightarrow> current_op req opn (exec_statement s rows) e = current_op req opn rows e"
    "\<And>q o' e. (q, o') \<noteq> (req, opn) \<Longrightarrow> current_op q o' (exec_statement s rows) e = current_op q o' rows e"
    "one_op_per_key rows \<Longrightarrow> one_op_per_key (exec_statement s rows)"
proof -
  have "rows_wf H (exec_statement s rows) (if inserts s then Suc n else n)
    \<and> settled (exec_statement s rows) d
    \<and> (\<forall>e. e \<noteq> d_id d \<longrightarrow> current_op req opn (exec_statement s rows) e = current_op req opn rows e)
    \<and> (\<forall>q o' e. (q, o') \<noteq> (req, opn) \<longrightarrow> current_op q o' (exec_statement s rows) e = current_op q o' rows e)
    \<and> (one_op_per_key rows \<longrightarrow> one_op_per_key (exec_statement s rows))"
  proof (cases "current_op req opn rows (d_id d)")
    case None
    obtain r where "decide None n d = Some (InsertOp r)"
      and r: "op_key r = (req, opn, d_id d)" "o_id r = h_uuid H n" "\<forall>m. decide (Some r) m d = None"
      using decide_new by blast
    with s None have "s = InsertOp r" by simp
    moreover have "rows_wf H (rows @ [r]) (Suc n)" by (rule rows_wf_insert [OF wf r(2)])
    moreover have "op_key r \<notin> set (map op_key rows)" using None r(1) by (auto simp: current_op_None_iff)
    ultimately show ?thesis using r by (auto simp: current_op_insert settled_def one_op_per_key_def)
  next
    case (Some c)
    obtain p st at where s': "s = RefreshOp (o_id c) p st at"
      and st: "\<forall>m. decide (Some (refresh_row p st at c)) m d = None"
      using decide_old s Some by metis
    have c: "c \<in> set rows" "op_key c = (req, opn, d_id d)" using current_op_SomeD [OF Some] by auto
    have upd: "current_op q o' (exec_statement s rows) e
        = map_option (\<lambda>r. if o_id r = o_id c then refresh_row p st at r else r) (current_op q o' rows e)" for q o' e
      by (simp add: s' current_op_update)
    have same: "current_op q o' (exec_statement s rows) e = current_op q o' rows e"
      if "(q, o', e) \<noteq> op_key c" for q o' e
    proof (cases "current_op q o' rows e")
      case (Some x)
      then have "x \<in> set rows" "op_key x = (q, o', e)" by (auto dest: current_op_SomeD)
      then have "o_id x \<noteq> o_id c" using that same_id_same_row [OF wf _ c(1)] by metis
      then show ?thesis using Some by (simp add: upd)
    qed (simp add: upd)
    have "settled (exec_statement s rows) d"
      using Some st by (simp add: settled_def upd)
    moreover have "rows_wf H (exec_statement s rows) n" by (simp add: s' rows_wf_update wf)
    moreover have "one_op_per_key rows \<longrightarrow> one_op_per_key (exec_statement s rows)"
      by (simp add: s' one_op_per_key_def)
    ultimately show ?thesis using same c(2) by (auto simp: s')
  qed
  then show "rows_wf H (exec_statement s rows) (if inserts s then Suc n else n)"
    "settled (exec_statement s rows) d"
    "\<And>e. e \<noteq> d_id d \<Longrightarrow> current_op req opn (exec_statement s rows) e = current_op req opn rows e"
    "\<And>q o' e. (q, o') \<noteq> (req, opn) \<Longrightarrow> current_op q o' (exec_statement s rows) e = current_op q o' rows e"
    "one_op_per_key rows \<Longrightarrow> one_op_per_key (exec_statement s rows)"
    by blast+
qed

text \<open>The whole batch, by induction on the terminals still to visit.\<close>

lemma batch:
  assumes "rows_wf H rows n" "distinct (map d_id ds)"
    and "\<And>d. d \<in> set ds \<Longrightarrow> current_op req opn rows (d_id d) = by_device (d_id d)"
    and "plan decide by_device n ds = (sts, n')"
  shows "rows_wf H (run_batch sts rows) n' \<and> n \<le> n'
    \<and> (\<forall>d\<in>set ds. settled (run_batch sts rows) d)
    \<and> (\<forall>e. e \<notin> d_id ` set ds \<longrightarrow> current_op req opn (run_batch sts rows) e = current_op req opn rows e)
    \<and> (\<forall>q o' e. (q, o') \<noteq> (req, opn) \<longrightarrow> current_op q o' (run_batch sts rows) e = current_op q o' rows e)
    \<and> (one_op_per_key rows \<longrightarrow> one_op_per_key (run_batch sts rows))"
  using assms
proof (induction ds arbitrary: rows n sts)
  case Nil
  then show ?case by (simp add: run_batch_def)
next
  case (Cons d ds)
  have cur: "current_op req opn rows (d_id d) = by_device (d_id d)" using Cons.prems(3) by simp
  have dist: "distinct (map d_id ds)" "d_id d \<notin> d_id ` set ds" using Cons.prems(2) by auto
  show ?case
  proof (cases "decide (by_device (d_id d)) n d")
    case None
    then have plan: "plan decide by_device n ds = (sts, n')" using Cons.prems(4) by simp
    note IH = Cons.IH [OF Cons.prems(1) dist(1) _ plan]
    have IH': "rows_wf H (run_batch sts rows) n' \<and> n \<le> n'
      \<and> (\<forall>d\<in>set ds. settled (run_batch sts rows) d)
      \<and> (\<forall>e. e \<notin> d_id ` set ds \<longrightarrow> current_op req opn (run_batch sts rows) e = current_op req opn rows e)
      \<and> (\<forall>q o' e. (q, o') \<noteq> (req, opn) \<longrightarrow> current_op q o' (run_batch sts rows) e = current_op q o' rows e)
      \<and> (one_op_per_key rows \<longrightarrow> one_op_per_key (run_batch sts rows))"
      by (rule IH) (use Cons.prems(3) in simp)
    obtain r where r: "by_device (d_id d) = Some r"
      using None decide_new [of n d] by (cases "by_device (d_id d)") auto
    have "\<forall>m. decide (Some r) m d = None"
      using None r decide_stable [of r n d] by simp
    then have "settled (run_batch sts rows) d"
      using IH' dist(2) cur r by (auto simp: settled_def)
    with IH' show ?thesis by auto
  next
    case (Some s)
    let ?rows = "exec_statement s rows" and ?n = "if inserts s then Suc n else n"
    obtain ss where plan: "plan decide by_device ?n ds = (ss, n')" and sts: "sts = s # ss"
      using Cons.prems(4) Some by (auto simp: Let_def split: prod.splits)
    have s: "decide (current_op req opn rows (d_id d)) n d = Some s" using Some cur by simp
    note one = exec_one [OF Cons.prems(1) s]
    have "current_op req opn ?rows (d_id e) = by_device (d_id e)" if "e \<in> set ds" for e
    proof -
      have "d_id e \<noteq> d_id d" using dist(2) that by (metis image_eqI)
      then show ?thesis using one(3) Cons.prems(3) that by simp
    qed
    note IH = Cons.IH [OF one(1) dist(1) this plan]
    have run: "run_batch sts rows = run_batch ss ?rows" by (simp add: sts run_batch_def)
    have "settled (run_batch ss ?rows) d"
      using IH one(2) dist(2) by (simp add: settled_def)
    moreover have "n \<le> n'" using IH by (simp split: if_splits)
    ultimately show ?thesis using IH one by (auto simp: run)
  qed
qed

text \<open>Planning again over settled terminals yields no statement.\<close>

lemma plan_settled:
  assumes "\<And>d. d \<in> set ds \<Longrightarrow> settled rows d"
  shows "plan decide (current_op req opn rows) n ds = ([], n)"
  using assms
proof (induction ds)
  case (Cons d ds)
  then have "decide (current_op req opn rows (d_id d)) n d = None" by (fastforce simp: settled_def)
  then show ?case using Cons by simp
qed simp

end

end
