(* ===== verification/VisitorAccount.thy ===== *)
theory VisitorAccount
  imports JsValue
begin

text \<open>
  Model of \<^verbatim>\<open>src/src/visitor-account.ts\<close>: the readers that turn a submitted value
  into the person type, visit count, purpose, remark and validity of a visitor account, their
  labels, and the validity window. A reader returns the value to store together with an optional
  rejection text. The locale \<open>bounded_reader\<close> is the contract the numeric readers share.
\<close>

definition visitor_pin_digits :: nat where "visitor_pin_digits = 6"
definition visit_times_min :: int where "visit_times_min = 1"
definition visit_times_max :: int where "visit_times_max = 10"
definition visitor_validity_min_days :: int where "visitor_validity_min_days = 1"
definition visitor_validity_max_ceiling_days :: int where "visitor_validity_max_ceiling_days = 30"
definition visitor_default_validity_days :: int where "visitor_default_validity_days = 1"
definition visitor_default_max_validity_days :: int where "visitor_default_max_validity_days = 7"
definition visitor_purpose_other_max :: nat where "visitor_purpose_other_max = 120"
definition visitor_remark_max :: nat where "visitor_remark_max = 500"
definition day_ms :: int where "day_ms = 24 * 60 * 60 * 1000"

lemmas visitor_constants = visitor_pin_digits_def visit_times_min_def visit_times_max_def
  visitor_validity_min_days_def visitor_validity_max_ceiling_days_def
  visitor_default_validity_days_def visitor_default_max_validity_days_def
  visitor_purpose_other_max_def visitor_remark_max_def day_ms_def

datatype person_type = Visitor | Normal

fun person_type_id :: "person_type \<Rightarrow> jstr" where
  "person_type_id Visitor = js ''visitor''"
| "person_type_id Normal = js ''normal''"

definition visitor_person_types :: "person_type list" where
  "visitor_person_types = [Visitor, Normal]"

definition visitor_purpose_options :: "(jstr \<times> jstr) list" where
  "visitor_purpose_options =
    [(js ''family_social'', js ''Family or social visit''),
     (js ''delivery'', js ''Delivery or collection''),
     (js ''service_repair'', js ''Service, repair or maintenance''),
     (js ''business'', js ''Business or official''),
     (js ''domestic_staff'', js ''Domestic staff or caregiver''),
     (js ''event'', js ''Event or celebration''),
     (js ''other'', js ''Other '' @ [8212] @ js '' state it below'')]"

definition visitor_purpose_ids :: "jstr list" where
  "visitor_purpose_ids = map fst visitor_purpose_options"

subsection \<open>Readers\<close>

record 'a read_result =
  rr_value :: 'a
  rr_error :: "jstr option"

definition accepted :: "'a \<Rightarrow> 'a read_result" where
  "accepted v = \<lparr>rr_value = v, rr_error = None\<rparr>"

definition refused :: "'a \<Rightarrow> jstr \<Rightarrow> 'a read_result" where
  "refused v e = \<lparr>rr_value = v, rr_error = Some e\<rparr>"

lemma read_result_simps [simp]:
  "rr_value (accepted v) = v" "rr_error (accepted v) = None"
  "rr_value (refused v e) = v" "rr_error (refused v e) = Some e"
  by (simp_all add: accepted_def refused_def)

text \<open>The trimmed text of a value, \<open>None\<close> when it is nullish or blank.\<close>

definition text_of :: "jval \<Rightarrow> jstr option" where
  "text_of v =
    (if nullish v then None
     else let t = trim (to_string v) in if t = [] then None else Some t)"

lemma text_of_SomeD: "text_of v = Some t \<Longrightarrow> t \<noteq> [] \<and> t = trim (to_string v) \<and> \<not> nullish v"
  by (auto simp: text_of_def Let_def split: if_splits)

definition read_visitor_person_type :: "jval \<Rightarrow> person_type \<Rightarrow> person_type read_result" where
  "read_visitor_person_type v fallback =
    (case map_option lower (text_of v) of
       None \<Rightarrow> accepted fallback
     | Some requested \<Rightarrow>
         (case List.find (\<lambda>t. person_type_id t = requested) visitor_person_types of
            None \<Rightarrow> refused fallback (js ''personType must be one of: visitor, normal'')
          | Some t \<Rightarrow> accepted t))"

text \<open>The pattern \<open>/^\d{1,3}$/\<close>.\<close>

definition one_to_three_digits :: "jstr \<Rightarrow> bool" where
  "one_to_three_digits s \<longleftrightarrow> s \<noteq> [] \<and> length s \<le> 3 \<and> list_all is_digit s"

definition whole_number_error :: jstr where
  "whole_number_error = js ''visitTimes must be a whole number between 1 and 10''"

definition range_error :: jstr where
  "range_error = js ''visitTimes must be between 1 and 10''"

definition read_visit_times :: "jval \<Rightarrow> int read_result" where
  "read_visit_times v =
    (case text_of v of
       None \<Rightarrow> accepted visit_times_min
     | Some raw \<Rightarrow>
         if \<not> one_to_three_digits raw then refused visit_times_min whole_number_error
         else let times = int (digits_val raw) in
           if times < visit_times_min \<or> times > visit_times_max
           then refused visit_times_min range_error
           else accepted times)"

record purpose_reading =
  pr_purpose :: "jstr option"
  pr_other :: "jstr option"

definition read_visitor_purpose :: "jval \<Rightarrow> jval \<Rightarrow> purpose_reading read_result" where
  "read_visitor_purpose v other =
    (let empty = \<lparr>pr_purpose = None, pr_other = None\<rparr> in
     case map_option lower (text_of v) of
       None \<Rightarrow> accepted empty
     | Some purpose \<Rightarrow>
         if purpose \<notin> set visitor_purpose_ids
         then refused empty (js ''purposeOfVisit must be one of: '' @ join (js '', '') visitor_purpose_ids)
         else if purpose \<noteq> js ''other''
         then accepted \<lparr>pr_purpose = Some purpose, pr_other = None\<rparr>
         else (case text_of other of
           None \<Rightarrow> refused empty (js ''Describe the purpose of visit when you choose \"Other\"'')
         | Some typed \<Rightarrow>
             if length typed > visitor_purpose_other_max
             then refused empty (js ''The purpose of visit must be 120 characters or fewer'')
             else accepted \<lparr>pr_purpose = Some (js ''other''), pr_other = Some typed\<rparr>))"

definition read_visitor_remark :: "jval \<Rightarrow> jstr option read_result" where
  "read_visitor_remark v =
    (case text_of v of
       None \<Rightarrow> accepted None
     | Some remark \<Rightarrow>
         if length remark > visitor_remark_max
         then refused None (js ''The remark must be 500 characters or fewer'')
         else accepted (Some remark))"

subsection \<open>Labels\<close>

definition visitor_purpose_label :: "jval \<Rightarrow> jval \<Rightarrow> jstr" where
  "visitor_purpose_label purpose other =
    (case map_option lower (text_of purpose) of
       None \<Rightarrow> []
     | Some pid \<Rightarrow>
         (case map_of visitor_purpose_options pid of
            None \<Rightarrow> pid
          | Some label \<Rightarrow>
              if pid = js ''other'' then coalesce (text_of other) (js ''Other'') else label))"

definition visitor_person_type_label :: "jval \<Rightarrow> jstr" where
  "visitor_person_type_label v =
    (case map_option lower (text_of v) of
       None \<Rightarrow> []
     | Some t \<Rightarrow>
         if t = js ''visitor'' then js ''Visitor''
         else if t = js ''normal'' then js ''Normal user'' else t)"

subsection \<open>Validity\<close>

definition read_validity_days :: "jval \<Rightarrow> int \<Rightarrow> int \<Rightarrow> int \<Rightarrow> int" where
  "read_validity_days v fallback lo hi =
    (case text_of v of
       None \<Rightarrow> fallback
     | Some raw \<Rightarrow>
         if \<not> one_to_three_digits raw then fallback
         else min hi (max lo (int (digits_val raw))))"

definition read_visitor_default_validity_days :: "jval \<Rightarrow> int" where
  "read_visitor_default_validity_days v =
     read_validity_days v visitor_default_validity_days visitor_validity_min_days
       visitor_validity_max_ceiling_days"

definition read_visitor_max_validity_days :: "jval \<Rightarrow> int \<Rightarrow> int" where
  "read_visitor_max_validity_days v default_days =
     read_validity_days v (max visitor_default_max_validity_days default_days)
       (max visitor_validity_min_days default_days) visitor_validity_max_ceiling_days"

definition validity_days_to_ms :: "int \<Rightarrow> int" where
  "validity_days_to_ms days = days * day_ms"

definition within_visitor_validity :: "int \<Rightarrow> int \<Rightarrow> int \<Rightarrow> bool" where
  "within_visitor_validity from_ms until_ms max_days \<longleftrightarrow>
     until_ms - from_ms \<le> validity_days_to_ms max_days + 60000"

definition visitor_validity_error :: "int \<Rightarrow> jstr" where
  "visitor_validity_error max_days =
     js ''A visitor pass cannot be valid for more than '' @ show_int max_days @ js '' day''
     @ (if max_days = 1 then [] else js ''s'')
     @ js ''. Ask an administrator to raise the limit in Settings if the estate needs longer.''"

text \<open>
  \<open>visitorAccountRules\<close> of \<^verbatim>\<open>index.ts\<close>: the three settings, read through the
  readers above; a failed query leaves every setting undefined.
\<close>

record visitor_rules =
  vr_default_days :: int
  vr_max_days :: int
  vr_person_type :: person_type

definition setting :: "(jstr \<rightharpoonup> jstr) \<Rightarrow> jstr \<Rightarrow> jval" where
  "setting m k = (case m k of None \<Rightarrow> Undef | Some v \<Rightarrow> Str v)"

definition visitor_account_rules :: "(jstr \<rightharpoonup> jstr) \<Rightarrow> visitor_rules" where
  "visitor_account_rules settings =
    (let default_days = read_visitor_default_validity_days (setting settings (js ''visitor_default_validity_days'')) in
     \<lparr>vr_default_days = default_days,
      vr_max_days = read_visitor_max_validity_days (setting settings (js ''visitor_max_validity_days'')) default_days,
      vr_person_type = rr_value (read_visitor_person_type (setting settings (js ''visitor_person_type'')) Visitor)\<rparr>)"

subsection \<open>The contract of a numeric reader\<close>

text \<open>
  A numeric reader never fails: whatever is submitted, its value lies in the supported range; and
  a number of the range, written in decimal, is read back.
\<close>

locale bounded_reader =
  fixes read :: "jval \<Rightarrow> int" and lo hi :: int
  assumes in_range: "lo \<le> read v \<and> read v \<le> hi"
    and reads_back: "lo \<le> n \<Longrightarrow> n \<le> hi \<Longrightarrow> read (Str (show_nat (nat n))) = n"
begin

lemma range_exact: "lo \<le> hi \<Longrightarrow> range read = {lo..hi}"
proof -
  assume "lo \<le> hi"
  have "n \<in> range read" if "lo \<le> n" "n \<le> hi" for n
    using reads_back [OF that] by (metis rangeI)
  then show ?thesis using in_range by auto
qed

lemma stable: "read (Str (show_nat (nat (read v)))) = read v"
  using in_range reads_back by simp

end

lemma text_of_show_nat [simp]: "text_of (Str (show_nat n)) = Some (show_nat n)"
proof -
  have "trim (show_nat n) = show_nat n"
    using show_nat_digits is_digit_alnum by (intro trim_alnum) (auto simp: list_all_iff)
  then show ?thesis by (simp add: text_of_def Let_def)
qed

lemma one_to_three_show_nat: "n < 1000 \<Longrightarrow> one_to_three_digits (show_nat n)"
  using length_show_nat [of 3 n] show_nat_digits by (simp add: one_to_three_digits_def)

interpretation visit_times: bounded_reader "\<lambda>v. rr_value (read_visit_times v)" 1 10
proof
  fix v n
  show "1 \<le> rr_value (read_visit_times v) \<and> rr_value (read_visit_times v) \<le> 10"
    by (auto simp: read_visit_times_def Let_def visitor_constants split: option.splits)
  show "rr_value (read_visit_times (Str (show_nat (nat n)))) = n" if "1 \<le> n" "n \<le> 10"
    using that by (simp add: read_visit_times_def one_to_three_show_nat visitor_constants)
qed

interpretation default_days: bounded_reader read_visitor_default_validity_days 1 30
proof
  fix v n
  show "1 \<le> read_visitor_default_validity_days v \<and> read_visitor_default_validity_days v \<le> 30"
    by (auto simp: read_visitor_default_validity_days_def read_validity_days_def visitor_constants
        split: option.splits)
  show "read_visitor_default_validity_days (Str (show_nat (nat n))) = n" if "1 \<le> n" "n \<le> 30"
    using that by (simp add: read_visitor_default_validity_days_def read_validity_days_def
        one_to_three_show_nat visitor_constants)
qed

lemma max_days_bounds:
  assumes "1 \<le> d" "d \<le> 30"
  shows "d \<le> read_visitor_max_validity_days v d" "read_visitor_max_validity_days v d \<le> 30"
  using assms by (auto simp: read_visitor_max_validity_days_def read_validity_days_def
      visitor_constants split: option.splits)

end
