(* ===== verification/Identity.thy ===== *)
theory Identity
  imports JsValue
begin

text \<open>
  Models of \<^verbatim>\<open>src/src/card-number.ts\<close>, \<^verbatim>\<open>employee-id.ts\<close> and
  \<^verbatim>\<open>agent-kinds.ts\<close>: card numbers, the terminal identity of a person or a visitor,
  and the kinds of device agent.
\<close>

subsection \<open>Card numbers\<close>

definition digits_only :: "jstr \<Rightarrow> bool" where
  "digits_only s \<longleftrightarrow> s \<noteq> [] \<and> list_all is_digit s"

definition is_digits_only_card_number :: "jval \<Rightarrow> bool" where
  "is_digits_only_card_number v = (case v of Str s \<Rightarrow> digits_only s | _ \<Rightarrow> False)"

definition card_number_validation_error :: "jval \<Rightarrow> jstr option" where
  "card_number_validation_error v =
    (case v of
       Str s \<Rightarrow>
         if s = [] then Some (js ''Card number is required'')
         else if is_digits_only_card_number v then None
         else Some (js ''Card number may contain digits only'')
     | _ \<Rightarrow> Some (js ''Card number must be text so leading zeroes are preserved''))"

lemma card_number_error_None_iff:
  "card_number_validation_error v = None \<longleftrightarrow> is_digits_only_card_number v"
  by (auto simp: card_number_validation_error_def is_digits_only_card_number_def digits_only_def
      split: jval.splits)

subsection \<open>Employee IDs\<close>

definition employee_id_max :: nat where "employee_id_max = 30"

text \<open>The pattern \<open>/^[A-Za-z0-9]+$/\<close>.\<close>

definition employee_id_pattern :: "jstr \<Rightarrow> bool" where
  "employee_id_pattern s \<longleftrightarrow> s \<noteq> [] \<and> list_all is_alnum s"

record employee_id_reading =
  er_value :: "jstr option"
  er_error :: "jstr option"

definition read_employee_id :: "jval \<Rightarrow> employee_id_reading" where
  "read_employee_id v =
    (if nullish v then \<lparr>er_value = None, er_error = None\<rparr>
     else if \<not> (case v of Str _ \<Rightarrow> True | Num _ \<Rightarrow> True | NumText _ \<Rightarrow> True | _ \<Rightarrow> False)
     then \<lparr>er_value = None, er_error = Some (js ''Employee ID must be text'')\<rparr>
     else let text = trim (to_string v) in
       if text = [] then \<lparr>er_value = None, er_error = None\<rparr>
       else if length text > employee_id_max
       then \<lparr>er_value = None, er_error = Some
         (js ''Employee ID must not exceed 30 characters (this one has '' @ show_nat (length text) @ js '')'')\<rparr>
       else if \<not> employee_id_pattern text
       then \<lparr>er_value = None, er_error = Some (js ''Employee ID may only contain letters and numbers'')\<rparr>
       else \<lparr>er_value = Some text, er_error = None\<rparr>)"

definition employee_id_from_uuid :: "jval \<Rightarrow> jstr option" where
  "employee_id_from_uuid v =
    (let compact = lower (replace_unit 45 [] (trim (to_string_or_empty v))) in
     if compact = [] \<or> length compact > 36 then None
     else if \<not> employee_id_pattern compact then None
     else Some (slice_last employee_id_max compact))"

definition device_employee_no :: "jstr \<Rightarrow> jstr \<Rightarrow> jstr" where
  "device_employee_no pfx ident =
    (let composed = pfx @ ident in
     if length composed \<le> employee_id_max then composed
     else let room = int employee_id_max - int (length ident) in
       if room \<ge> 1 then slice_to (nat room) pfx @ ident
       else slice_last employee_id_max ident)"

lemma employee_id_value_valid:
  assumes "er_value (read_employee_id v) = Some t"
  shows "employee_id_pattern t" "length t \<le> employee_id_max" "trim t = t" "er_error (read_employee_id v) = None"
  using assms by (auto simp: read_employee_id_def Let_def split: if_splits)

lemma read_employee_id_accepts:
  assumes "employee_id_pattern t" "length t \<le> employee_id_max"
  shows "read_employee_id (Str t) = \<lparr>er_value = Some t, er_error = None\<rparr>"
  using assms trim_alnum [of t]
  by (simp add: read_employee_id_def Let_def employee_id_pattern_def)

lemma device_employee_no_length: "length (device_employee_no p i) \<le> employee_id_max"
  by (simp add: device_employee_no_def Let_def slice_to_def slice_last_def employee_id_max_def)
    linarith

lemma device_employee_no_pattern:
  assumes "list_all is_alnum p" "employee_id_pattern i"
  shows "employee_id_pattern (device_employee_no p i)"
proof -
  have "set (slice_to n p) \<subseteq> set p" for n
    by (simp add: slice_to_def set_take_subset)
  moreover have "set (slice_last n i) \<subseteq> set i" for n
    by (simp add: slice_last_def set_drop_subset)
  moreover have "slice_last employee_id_max i \<noteq> []" if "length i \<ge> employee_id_max"
    using that by (simp add: slice_last_def employee_id_max_def)
  ultimately show ?thesis
    using assms unfolding device_employee_no_def Let_def employee_id_pattern_def list_all_iff
    by (auto simp: employee_id_max_def split: if_splits) blast+
qed

lemma device_employee_no_suffix:
  assumes "length i \<le> employee_id_max"
  shows "\<exists>q. device_employee_no p i = q @ i \<and> set q \<subseteq> set p"
proof (cases "length (p @ i) \<le> employee_id_max \<or> length i = employee_id_max")
  case True
  then show ?thesis using assms
    by (auto simp: device_employee_no_def Let_def slice_last_def)
next
  case False
  then have "device_employee_no p i = take (employee_id_max - length i) p @ i"
    using assms by (simp add: device_employee_no_def Let_def slice_to_def nat_diff_distrib)
  then show ?thesis by (metis set_take_subset)
qed

text \<open>The identifier can be read back as the longest suffix of digits.\<close>

lemma takeWhile_rev_digits:
  assumes "list_all is_digit i" "\<forall>c\<in>set q. \<not> is_digit c"
  shows "rev (takeWhile is_digit (rev (q @ i))) = i"
proof -
  have i: "takeWhile is_digit (rev i @ rev q) = rev i @ takeWhile is_digit (rev q)"
    using assms(1) by (intro takeWhile_append2) (simp add: list_all_iff)
  moreover have "takeWhile is_digit (rev q) = []"
    using assms(2) by (metis hd_in_set set_rev takeWhile_eq_Nil_iff)
  ultimately show ?thesis by simp
qed

subsection \<open>Agent kinds\<close>

datatype agent_kind = Bridge | Esp32 | PiBridge | PiGate

fun kind_id :: "agent_kind \<Rightarrow> jstr" where
  "kind_id Bridge = js ''bridge''"
| "kind_id Esp32 = js ''esp32''"
| "kind_id PiBridge = js ''pi_bridge''"
| "kind_id PiGate = js ''pi_gate''"

definition agent_kinds :: "agent_kind list" where "agent_kinds = [Bridge, Esp32, PiBridge, PiGate]"
definition bridge_agent_kinds :: "agent_kind list" where "bridge_agent_kinds = [Bridge, PiBridge]"
definition controller_agent_kinds :: "agent_kind list" where "controller_agent_kinds = [Esp32, PiGate]"

definition is_bridge_kind :: "jstr \<Rightarrow> bool" where
  "is_bridge_kind k \<longleftrightarrow> k \<in> set (map kind_id bridge_agent_kinds)"

definition is_controller_kind :: "jstr \<Rightarrow> bool" where
  "is_controller_kind k \<longleftrightarrow> k \<in> set (map kind_id controller_agent_kinds)"

definition normalize_agent_kind :: "jval \<Rightarrow> agent_kind" where
  "normalize_agent_kind v =
    (let k = lower (trim (to_string_or_empty v)) in
     case List.find (\<lambda>a. kind_id a = k) agent_kinds of None \<Rightarrow> Bridge | Some a \<Rightarrow> a)"

definition agent_kind_label :: "jval \<Rightarrow> jstr" where
  "agent_kind_label v =
    (case normalize_agent_kind v of
       Esp32 \<Rightarrow> js ''ESP32 gate controller''
     | PiBridge \<Rightarrow> js ''Raspberry Pi (bridge)''
     | PiGate \<Rightarrow> js ''Raspberry Pi gate controller''
     | Bridge \<Rightarrow> [])"

datatype platform_id = Windows | Linux | Darwin | OtherPlatform

record agent_kind_choice =
  ch_kind :: agent_kind
  ch_platform :: platform_id

definition requested_kinds :: "(jstr \<times> agent_kind_choice) list" where
  "requested_kinds =
    [(js ''windows'', \<lparr>ch_kind = Bridge, ch_platform = Windows\<rparr>),
     (js ''linux'', \<lparr>ch_kind = Bridge, ch_platform = Linux\<rparr>),
     (js ''darwin'', \<lparr>ch_kind = Bridge, ch_platform = Darwin\<rparr>),
     (js ''other'', \<lparr>ch_kind = Bridge, ch_platform = OtherPlatform\<rparr>),
     (js ''esp32'', \<lparr>ch_kind = Esp32, ch_platform = OtherPlatform\<rparr>),
     (js ''pi_bridge'', \<lparr>ch_kind = PiBridge, ch_platform = Linux\<rparr>),
     (js ''pi_gate'', \<lparr>ch_kind = PiGate, ch_platform = OtherPlatform\<rparr>)]"

text \<open>
  The source indexes a plain object literal, so a name inherited from the prototype of objects is
  found too; \<open>object_prototype_names\<close> are those names in lower case (every other inherited
  name has a capital letter, which the lower-cased key cannot have).
\<close>

definition object_prototype_names :: "jstr list" where
  "object_prototype_names = [js ''constructor'', js ''__proto__'']"

datatype kind_resolution = Choice agent_kind_choice | Inherited | Unknown

definition resolve_requested_agent_kind :: "jstr option \<Rightarrow> kind_resolution" where
  "resolve_requested_agent_kind requested =
    (let v = lower (trim (coalesce requested (js ''windows''))) in
     case map_of requested_kinds v of
       Some c \<Rightarrow> Choice c
     | None \<Rightarrow> if v \<in> set object_prototype_names then Inherited else Unknown)"

definition agent_kind_ext_for :: "agent_kind \<Rightarrow> agent_kind option" where
  "agent_kind_ext_for k = (if k = PiBridge \<or> k = PiGate then Some k else None)"

text \<open>
  \<open>agentKindSql\<close> is \<open>COALESCE(agent_kind_ext, agent_kind)\<close> over a row whose legacy
  column holds \<open>bridge\<close> or \<open>esp32\<close>; this is what the expression evaluates to.
\<close>

definition effective_kind :: "agent_kind option \<Rightarrow> agent_kind \<Rightarrow> agent_kind" where
  "effective_kind ext legacy = coalesce ext legacy"

text \<open>The legacy column the route that creates an agent writes (\<^verbatim>\<open>index.ts\<close>).\<close>

definition legacy_kind_for :: "agent_kind \<Rightarrow> agent_kind" where
  "legacy_kind_for k = (if k = Esp32 then Esp32 else Bridge)"

lemma kind_id_inj [simp]: "kind_id a = kind_id b \<longleftrightarrow> a = b"
  by (cases a; cases b) simp_all

lemma normalize_kind_id: "normalize_agent_kind (Str (kind_id k)) = k"
proof -
  have "normalize_agent_kind (Str (kind_id Bridge)) = Bridge"
    "normalize_agent_kind (Str (kind_id Esp32)) = Esp32"
    "normalize_agent_kind (Str (kind_id PiBridge)) = PiBridge"
    "normalize_agent_kind (Str (kind_id PiGate)) = PiGate"
    by code_simp+
  then show ?thesis by (cases k) (simp_all only:)
qed

subsection \<open>Properties\<close>

text \<open>
  The terminal identity composed for a visitor always fits the 30-character policy, is accepted
  unchanged by the Employee ID reader, and distinguishes visitors: with a prefix free of digits,
  two numeric identifiers of at most 30 digits give the same terminal identity only when they are
  the same identifier.
\<close>

theorem visitor_identity_faithful:
  assumes p: "list_all is_alnum p" "list_all (\<lambda>c. \<not> is_digit c) p"
    and i: "digits_only i" "length i \<le> employee_id_max"
    and j: "digits_only j" "length j \<le> employee_id_max"
  shows "read_employee_id (Str (device_employee_no p i))
      = \<lparr>er_value = Some (device_employee_no p i), er_error = None\<rparr>
    \<and> (device_employee_no p i = device_employee_no p j \<longleftrightarrow> i = j)"
proof -
  have pat: "employee_id_pattern i"
    using i is_digit_alnum by (auto simp: digits_only_def employee_id_pattern_def list_all_iff)
  have readback: "rev (takeWhile is_digit (rev (device_employee_no p k))) = k"
    if "digits_only k" "length k \<le> employee_id_max" for k
  proof -
    from device_employee_no_suffix [OF that(2), of p]
    obtain q where q: "device_employee_no p k = q @ k" "set q \<subseteq> set p" by blast
    have "list_all is_digit k" using that(1) by (simp add: digits_only_def)
    moreover have "\<forall>c\<in>set q. \<not> is_digit c" using q(2) p(2) by (auto simp: list_all_iff)
    ultimately show ?thesis unfolding q(1) by (rule takeWhile_rev_digits)
  qed
  have "device_employee_no p i = device_employee_no p j \<longleftrightarrow> i = j"
    using readback [OF i] readback [OF j] by metis
  then show ?thesis
    using read_employee_id_accepts [OF device_employee_no_pattern [OF p(1) pat] device_employee_no_length]
    by simp
qed

theorem visitor_identity_faithful_witness:
  "device_employee_no (js ''visitor'') (js ''004412345678'') \<noteq> device_employee_no (js ''visitor'') (js ''004412345679'')"
proof -
  have "list_all is_alnum (js ''visitor'')" "list_all (\<lambda>c. \<not> is_digit c) (js ''visitor'')"
    "digits_only (js ''004412345678'')" "length (js ''004412345678'') \<le> employee_id_max"
    "digits_only (js ''004412345679'')" "length (js ''004412345679'') \<le> employee_id_max"
    by code_simp+
  from visitor_identity_faithful [OF this] show ?thesis by simp
qed

text \<open>
  C36: an Employee ID that the reader lets through has one to thirty letters and digits, is already
  trimmed and is a fixed point of the reader; a reading never carries both a value and an error.
\<close>

theorem employee_id_reading_sound:
  "(\<forall>t. er_value (read_employee_id v) = Some t \<longrightarrow>
      employee_id_pattern t \<and> length t \<le> 30 \<and> trim t = t
      \<and> read_employee_id (Str t) = \<lparr>er_value = Some t, er_error = None\<rparr>)
   \<and> (er_value (read_employee_id v) = None \<or> er_error (read_employee_id v) = None)"
proof (cases "er_value (read_employee_id v)")
  case (Some t)
  then show ?thesis
    using employee_id_value_valid [OF Some] read_employee_id_accepts [of t]
    by (simp add: employee_id_max_def)
qed simp

theorem employee_id_reading_sound_witness:
  "employee_id_pattern (js ''EMP001'') \<and> read_employee_id (Str (js ''EMP001'')) = \<lparr>er_value = Some (js ''EMP001''), er_error = None\<rparr>"
proof -
  have "er_value (read_employee_id (Str (js '' EMP001 ''))) = Some (js ''EMP001'')" by code_simp
  then show ?thesis using employee_id_reading_sound [of "Str (js '' EMP001 '')"] by blast
qed

text \<open>
  What the route that creates an agent stores for a requested kind - the extension column next
  to the legacy column - reads back as that kind, and every effective kind is a bridge host or a
  gate controller, never both.
\<close>

theorem agent_kind_storage_roundtrip:
  "effective_kind (agent_kind_ext_for k) (legacy_kind_for k) = k
   \<and> (is_bridge_kind (kind_id k) \<longleftrightarrow> \<not> is_controller_kind (kind_id k))
   \<and> legacy_kind_for k \<in> {Bridge, Esp32} \<and> normalize_agent_kind (Str (kind_id k)) = k"
  by (cases k) (simp_all add: effective_kind_def agent_kind_ext_for_def legacy_kind_for_def
      is_bridge_kind_def is_controller_kind_def bridge_agent_kinds_def controller_agent_kinds_def
      normalize_kind_id del: kind_id.simps)

text \<open>
  Only the seven documented names resolve to an agent kind, except that the names
  \<open>constructor\<close> and \<open>__proto__\<close>, which objects inherit, are not refused: the lookup
  finds the inherited property, so the route's check for an unknown platform does not fire.
\<close>

theorem requested_kind_resolution:
  "((\<exists>c. resolve_requested_agent_kind (Some r) = Choice c) \<longleftrightarrow> lower (trim r) \<in> fst ` set requested_kinds)
   \<and> (resolve_requested_agent_kind (Some r) = Inherited \<longleftrightarrow> lower (trim r) \<in> set object_prototype_names)"
proof -
  define k where "k = lower (trim r)"
  have proto: "map_of requested_kinds j = None" if "j \<in> set object_prototype_names" for j
    using that by (auto simp: requested_kinds_def object_prototype_names_def)
  show ?thesis
  proof (cases "map_of requested_kinds k")
    case None
    then have "k \<notin> fst ` set requested_kinds" by (simp only: map_of_eq_None_iff not_False_eq_True)
    with None show ?thesis
      unfolding resolve_requested_agent_kind_def Let_def coalesce_simps k_def [symmetric]
      by (simp only: option.case) simp
  next
    case (Some c)
    then have "k \<in> fst ` set requested_kinds"
      by (metis map_of_eq_None_iff option.distinct(1))
    moreover have "k \<notin> set object_prototype_names" using Some proto by fastforce
    ultimately show ?thesis using Some
      unfolding resolve_requested_agent_kind_def Let_def coalesce_simps k_def [symmetric]
      by (simp only: option.case) simp
  qed
qed

end
