(* ===== verification/VisitorDevices.thy ===== *)
theory VisitorDevices
  imports OperationQueue VisitorAccount Identity "HOL-Library.List_Lexorder"
begin

text \<open>
  The life of a visitor's account on the terminals (\<^verbatim>\<open>index.ts\<close>, from
  \<open>queueVisitorDeviceOperations\<close> to \<open>refreshVisitorDeviceAccountState\<close>): a pass is
  provisioned on every enabled terminal, kept in step while it is valid, removed from every
  enabled terminal when it ends, and recorded as removed once every removal is confirmed.
\<close>

subsection \<open>Provisioning\<close>

definition new_visitor_op :: "jstr \<Rightarrow> jstr \<Rightarrow> jstr \<Rightarrow> jstr \<Rightarrow> jstr \<Rightarrow> op_status \<Rightarrow> int \<Rightarrow> visitor_op" where
  "new_visitor_op i req dev opn payload st at =
     \<lparr>o_id = i, o_device = dev, o_operation = opn, o_payload = payload, o_status = st, o_attempts = 0,
      o_error = None, o_agent = None, o_created = at, o_updated = at, o_synced = None, o_request = req\<rparr>"

definition upsert_op :: jstr where "upsert_op = js ''upsert_visitor''"
definition revoke_op :: jstr where "revoke_op = js ''revoke_visitor''"

definition upsert_decision :: "host \<Rightarrow> db \<Rightarrow> jstr \<Rightarrow> jstr \<Rightarrow> int \<Rightarrow> decision" where
  "upsert_decision H db req payload at current n d =
    (let status = visitor_operation_delivery db d in
     case current of
       None \<Rightarrow> Some (InsertOp (new_visitor_op (h_uuid H n) req (d_id d) upsert_op payload status at))
     | Some c \<Rightarrow>
         if o_status c = Failed then Some (RefreshOp (o_id c) payload (Some status) at)
         else if o_status c = Pending \<and> o_payload c \<noteq> payload then Some (RefreshOp (o_id c) payload None at)
         else None)"

definition target_devices :: "db \<Rightarrow> jstr option \<Rightarrow> device list" where
  "target_devices db target =
     (if truthy_text target then filter (\<lambda>d. Some (d_id d) = target) (enabled_devices db)
      else enabled_devices db)"

definition queue_visitor_device_operations ::
    "host \<Rightarrow> int \<Rightarrow> jstr \<Rightarrow> jstr option \<Rightarrow> jval \<Rightarrow> db \<Rightarrow> nat \<times> db" where
  "queue_visitor_device_operations H now req target payload db =
    (let devices = target_devices db target; at = sql_now now in
     if devices = [] then (0, db)
     else let (sts, n) = plan (upsert_decision H db req (json_text payload) at)
                (current_op req upsert_op (t_visitor_ops db)) (t_draws db) devices
       in (length sts,
           db\<lparr>t_visitor_ops := run_batch sts (t_visitor_ops db), t_draws := n,
              t_visitors := update_where
                (\<lambda>v. v_id v = req \<and> v_account v \<in> {NoAccount, RemovalQueued, Removed})
                (\<lambda>v. v\<lparr>v_account := Provisioned,
                       v_provisioned_at := Some (coalesce (v_provisioned_at v) at),
                       v_removed_at := None\<rparr>)
                (t_visitors db)\<rparr>))"

definition visitor_payload :: "jstr \<Rightarrow> jstr \<Rightarrow> jstr \<Rightarrow> jstr \<Rightarrow> jstr \<Rightarrow> jstr \<Rightarrow> bool \<Rightarrow> person_type \<Rightarrow> int \<Rightarrow> jval" where
  "visitor_payload cred name pin vfrom vuntil tz approval ptype visits = Obj
     [(js ''credentialNumber'', Str cred),
      (js ''employeeNo'', Str (device_employee_no (js ''visitor'') cred)),
      (js ''visitorName'', Str name), (js ''department'', Str (js ''Company'')), (js ''pin'', Str pin),
      (js ''validFrom'', Str vfrom), (js ''validUntil'', Str vuntil), (js ''timeZone'', Str tz),
      (js ''enabled'', Bool False), (js ''requiresSecurityApproval'', Bool approval),
      (js ''personType'', Str (person_type_id ptype)), (js ''visitTimes'', Num visits)]"

definition live_pass :: "host \<Rightarrow> int \<Rightarrow> visitor \<Rightarrow> bool" where
  "live_pass H now v \<longleftrightarrow> v_status v \<in> {js ''active'', js ''checked_in''} \<and> after_now H (v_valid_until v) now"

definition sync_one_pass :: "host \<Rightarrow> int \<Rightarrow> jstr \<Rightarrow> visitor \<Rightarrow> nat \<times> db \<Rightarrow> nat \<times> db" where
  "sync_one_pass H now tz v acc =
    (let (queued, db) = acc in
     case v_credential v of
       Some cred \<Rightarrow>
         if cred = [] then acc
         else let (k, db') = queue_visitor_device_operations H now (v_id v)
                  (if v_gate_scope v = js ''gate'' then v_device v else None)
                  (visitor_payload cred (v_name v) (v_pin v) (v_valid_from v) (v_valid_until v) tz
                     (v_requires_approval v \<noteq> 0)
                     (rr_value (read_visitor_person_type (Str (v_person_type v)) Visitor))
                     (rr_value (read_visit_times (Num (v_visit_times v)))))
                  db
              in (queued + k, db')
     | None \<Rightarrow> acc)"

record sync_summary =
  sy_passes :: nat
  sy_devices :: nat
  sy_queued :: nat

definition sync_active_visitor_passes :: "host \<Rightarrow> int \<Rightarrow> db \<Rightarrow> sync_summary \<times> db" where
  "sync_active_visitor_passes H now db =
    (let passes = take 500 (sort_key v_created (filter (live_pass H now) (t_visitors db))) in
     if passes = [] then (\<lparr>sy_passes = 0, sy_devices = 0, sy_queued = 0\<rparr>, db)
     else let (queued, db') = fold (sync_one_pass H now (estate_time_zone H db)) passes (0, db)
       in (\<lparr>sy_passes = length passes, sy_devices = length (enabled_devices db), sy_queued = queued\<rparr>, db'))"

subsection \<open>Removal\<close>

definition revoke_payload :: "jstr \<Rightarrow> jstr \<Rightarrow> jstr \<Rightarrow> jval" where
  "revoke_payload cred name reason = Obj
     [(js ''credentialNumber'', Str cred),
      (js ''employeeNo'', Str (device_employee_no (js ''visitor'') cred)),
      (js ''visitorName'', Str name), (js ''enabled'', Bool False), (js ''reason'', Str reason)]"

definition revoke_decision :: "host \<Rightarrow> db \<Rightarrow> jstr \<Rightarrow> jstr \<Rightarrow> int \<Rightarrow> decision" where
  "revoke_decision H db req payload at current n d =
    (case current of
       None \<Rightarrow> Some (InsertOp (new_visitor_op (h_uuid H n) req (d_id d) revoke_op payload
                 (visitor_operation_delivery db d) at))
     | Some c \<Rightarrow>
         if o_status c \<noteq> Failed then None
         else Some (RefreshOp (o_id c) payload (Some (visitor_operation_delivery db d)) at))"

definition queue_visitor_device_removals :: "host \<Rightarrow> int \<Rightarrow> visitor \<Rightarrow> jstr \<Rightarrow> db \<Rightarrow> nat \<times> db" where
  "queue_visitor_device_removals H now v reason db =
    (if \<not> truthy_text (v_credential v) then (0, db)
     else let devices = enabled_devices db; at = sql_now now in
       if devices = [] then
         (0, db\<lparr>t_visitors := update_where (\<lambda>r. v_id r = v_id v \<and> v_account r \<noteq> Removed)
              (\<lambda>r. r\<lparr>v_account := Removed, v_removed_at := Some at, v_removed_reason := Some reason\<rparr>)
              (t_visitors db)\<rparr>)
       else let payload = json_text (revoke_payload (the (v_credential v)) (v_name v) reason);
                (sts, n) = plan (revoke_decision H db (v_id v) payload at)
                  (current_op (v_id v) revoke_op (t_visitor_ops db)) (t_draws db) devices
         in (length sts,
             db\<lparr>t_visitor_ops := run_batch sts (t_visitor_ops db), t_draws := n,
                t_visitors := update_where (\<lambda>r. v_id r = v_id v \<and> v_account r = Provisioned)
                  (\<lambda>r. r\<lparr>v_account := RemovalQueued, v_removed_reason := Some reason\<rparr>) (t_visitors db)\<rparr>))"

definition expired_reason :: jstr where "expired_reason = js ''visitor pass validity expired''"
definition revoked_reason :: jstr where "revoked_reason = js ''visitor pass revoked''"

text \<open>The reason compares in milliseconds, the selection below in SQLite's seconds.\<close>

definition removal_reason :: "host \<Rightarrow> int \<Rightarrow> visitor \<Rightarrow> jstr" where
  "removal_reason H now v =
    (if v_valid_until v \<noteq> [] \<and>
        (case date_parse (h_platform H) (v_valid_until v) of None \<Rightarrow> False | Some t \<Rightarrow> t \<le> now)
     then expired_reason else revoked_reason)"

definition release_one :: "host \<Rightarrow> int \<Rightarrow> visitor \<Rightarrow> nat \<times> db \<Rightarrow> nat \<times> db" where
  "release_one H now v acc =
    (let (queued, db) = acc;
         (k, db') = queue_visitor_device_removals H now v (removal_reason H now v) db
     in (queued + k, db'))"

definition expire_passes :: "host \<Rightarrow> int \<Rightarrow> visitor list \<Rightarrow> visitor list" where
  "expire_passes H now vs =
     update_where (\<lambda>v. v_status v = js ''active'' \<and> due_by H (v_valid_until v) now)
       (\<lambda>v. v\<lparr>v_status := js ''expired''\<rparr>) vs"

definition release_due :: "host \<Rightarrow> int \<Rightarrow> visitor \<Rightarrow> bool" where
  "release_due H now v \<longleftrightarrow>
     v_account v = Provisioned \<and> (due_by H (v_valid_until v) now \<or> v_status v = js ''revoked'')"

record sweep_summary =
  sw_expired :: nat
  sw_passes :: nat
  sw_queued :: nat

definition release_expired_visitor_device_accounts :: "host \<Rightarrow> int \<Rightarrow> db \<Rightarrow> sweep_summary \<times> db" where
  "release_expired_visitor_device_accounts H now db =
    (let expired = length (filter (\<lambda>v. v_status v = js ''active'' \<and> due_by H (v_valid_until v) now) (t_visitors db));
         db1 = db\<lparr>t_visitors := expire_passes H now (t_visitors db)\<rparr>;
         due = take 200 (sort_key v_valid_until (filter (release_due H now) (t_visitors db1)));
         (queued, db2) = fold (release_one H now) due (0, db1)
     in (\<lparr>sw_expired = expired, sw_passes = length due, sw_queued = queued\<rparr>, db2))"

definition refresh_visitor_device_account_state :: "int \<Rightarrow> jstr \<Rightarrow> db \<Rightarrow> db" where
  "refresh_visitor_device_account_state now req db =
    (let revokes = filter (\<lambda>r. o_request r = req \<and> o_operation r = revoke_op) (t_visitor_ops db);
         applied_ops = filter (\<lambda>r. o_status r = Applied) revokes in
     case List.find (\<lambda>v. v_id v = req) (t_visitors db) of
       None \<Rightarrow> db
     | Some v \<Rightarrow>
         if v_account v \<noteq> RemovalQueued then db
         else if length revokes > 0 \<and> length applied_ops \<ge> length revokes then
           db\<lparr>t_visitors := update_where (\<lambda>r. v_id r = req)
                (\<lambda>r. r\<lparr>v_account := Removed, v_removed_at := Some (sql_now now)\<rparr>) (t_visitors db)\<rparr>
         else db)"

subsection \<open>Both decisions satisfy the planner's contract\<close>

interpretation upserts: device_planner H req upsert_op "upsert_decision H db req payload at"
  for H db req payload at
proof
  fix n d
  show "\<exists>r. upsert_decision H db req payload at None n d = Some (InsertOp r)
      \<and> op_key r = (req, upsert_op, d_id d) \<and> o_id r = h_uuid H n
      \<and> (\<forall>m. upsert_decision H db req payload at (Some r) m d = None)"
    by (simp add: upsert_decision_def new_visitor_op_def op_key_def)
next
  fix c n d m
  show "upsert_decision H db req payload at (Some c) n d = None \<Longrightarrow>
      upsert_decision H db req payload at (Some c) m d = None"
    by (simp add: upsert_decision_def Let_def split: if_splits)
next
  fix c n d s
  show "upsert_decision H db req payload at (Some c) n d = Some s \<Longrightarrow> \<exists>p st at'. s = RefreshOp (o_id c) p st at'
      \<and> (\<forall>m. upsert_decision H db req payload at (Some (refresh_row p st at' c)) m d = None)"
    by (cases "o_status c = Failed")
      (fastforce simp: upsert_decision_def Let_def refresh_row_def split: if_splits
        intro: exI [of _ payload] exI [of _ at] exI [of _ "Some (visitor_operation_delivery db d)"]
          exI [of _ "None :: op_status option"])+
qed

interpretation revokes: device_planner H req revoke_op "revoke_decision H db req payload at"
  for H db req payload at
proof
  fix n d
  show "\<exists>r. revoke_decision H db req payload at None n d = Some (InsertOp r)
      \<and> op_key r = (req, revoke_op, d_id d) \<and> o_id r = h_uuid H n
      \<and> (\<forall>m. revoke_decision H db req payload at (Some r) m d = None)"
    by (simp add: revoke_decision_def new_visitor_op_def op_key_def)
next
  fix c n d m
  show "revoke_decision H db req payload at (Some c) n d = None \<Longrightarrow>
      revoke_decision H db req payload at (Some c) m d = None"
    by (simp add: revoke_decision_def split: if_splits)
next
  fix c n d s
  show "revoke_decision H db req payload at (Some c) n d = Some s \<Longrightarrow> \<exists>p st at'. s = RefreshOp (o_id c) p st at'
      \<and> (\<forall>m. revoke_decision H db req payload at (Some (refresh_row p st at' c)) m d = None)"
    by (fastforce simp: revoke_decision_def refresh_row_def split: if_splits
        intro: exI [of _ payload] exI [of _ at] exI [of _ "Some (visitor_operation_delivery db d)"])
qed

text \<open>What the two contracts say of a terminal that needs nothing more.\<close>

definition upsert_settled :: "jstr \<Rightarrow> jstr \<Rightarrow> visitor_op list \<Rightarrow> device \<Rightarrow> bool" where
  "upsert_settled req payload rows d \<longleftrightarrow>
     (\<exists>r. current_op req upsert_op rows (d_id d) = Some r \<and> o_status r \<noteq> Failed
        \<and> (o_status r = Pending \<longrightarrow> o_payload r = payload))"

definition revoke_settled :: "jstr \<Rightarrow> visitor_op list \<Rightarrow> device \<Rightarrow> bool" where
  "revoke_settled req rows d \<longleftrightarrow>
     (\<exists>r. current_op req revoke_op rows (d_id d) = Some r \<and> o_status r \<noteq> Failed)"

lemma upsert_settled_eq [simp]:
  "device_planner.settled req upsert_op (upsert_decision H db req payload at) rows d = upsert_settled req payload rows d"
  by (auto simp: upserts.settled_def upsert_decision_def Let_def upsert_settled_def)

lemma revoke_settled_eq [simp]:
  "device_planner.settled req revoke_op (revoke_decision H db req payload at) rows d = revoke_settled req rows d"
  by (auto simp: revokes.settled_def revoke_decision_def revoke_settled_def)

subsection \<open>The invariant of the tables\<close>

definition db_ok :: "host \<Rightarrow> db \<Rightarrow> bool" where
  "db_ok H db \<longleftrightarrow> rows_wf H (t_visitor_ops db) (t_draws db)
     \<and> distinct (map d_id (t_devices db)) \<and> distinct (map v_id (t_visitors db))"

lemma distinct_enabled: "db_ok H db \<Longrightarrow> distinct (map d_id (enabled_devices db))"
  by (simp add: db_ok_def enabled_devices_def distinct_map_filter)

lemma distinct_target: "db_ok H db \<Longrightarrow> distinct (map d_id (target_devices db t))"
  using distinct_enabled by (auto simp: target_devices_def distinct_map_filter)

lemma map_v_id_update [simp]:
  "(\<And>v. v_id (f v) = v_id v) \<Longrightarrow> map v_id (update_where P f vs) = map v_id vs"
  by (rule map_update_where)

lemma upsert_revoke_distinct [simp]: "upsert_op \<noteq> revoke_op" "revoke_op \<noteq> upsert_op"
  by (simp_all add: upsert_op_def revoke_op_def)

lemma upserts_queued:
  assumes ok: "db_ok H db" and q: "queue_visitor_device_operations H now req target payload db = (k, db')"
  shows "db_ok H db'" "enabled_devices db' = enabled_devices db"
    "\<And>d. d \<in> set (target_devices db target) \<Longrightarrow>
       upsert_settled req (json_text payload) (t_visitor_ops db') d"
    "\<And>r opn e. (r, opn) \<noteq> (req, upsert_op) \<Longrightarrow>
       current_op r opn (t_visitor_ops db') e = current_op r opn (t_visitor_ops db) e"
    "one_op_per_key (t_visitor_ops db) \<Longrightarrow> one_op_per_key (t_visitor_ops db')"
    "t_devices db' = t_devices db" "t_configs db' = t_configs db" "t_scans db' = t_scans db"
proof -
  have "db_ok H db' \<and> enabled_devices db' = enabled_devices db
    \<and> (\<forall>d\<in>set (target_devices db target). upsert_settled req (json_text payload) (t_visitor_ops db') d)
    \<and> (\<forall>r opn e. (r, opn) \<noteq> (req, upsert_op) \<longrightarrow>
         current_op r opn (t_visitor_ops db') e = current_op r opn (t_visitor_ops db) e)
    \<and> (one_op_per_key (t_visitor_ops db) \<longrightarrow> one_op_per_key (t_visitor_ops db'))
    \<and> t_devices db' = t_devices db \<and> t_configs db' = t_configs db \<and> t_scans db' = t_scans db"
  proof (cases "target_devices db target = []")
    case True
    then show ?thesis using q ok by (simp add: queue_visitor_device_operations_def)
  next
    case False
    obtain sts n where plan: "plan (upsert_decision H db req (json_text payload) (sql_now now))
        (current_op req upsert_op (t_visitor_ops db)) (t_draws db) (target_devices db target) = (sts, n)"
      by fastforce
    have wf: "rows_wf H (t_visitor_ops db) (t_draws db)" using ok by (simp add: db_ok_def)
    note b = upserts.batch [OF wf distinct_target [OF ok] refl plan]
    have "db' = db\<lparr>t_visitor_ops := run_batch sts (t_visitor_ops db), t_draws := n,
        t_visitors := t_visitors db'\<rparr>" "map v_id (t_visitors db') = map v_id (t_visitors db)"
      using q False plan by (auto simp: queue_visitor_device_operations_def Let_def)
    then show ?thesis using b ok
      by (cases db') (auto simp: db_ok_def enabled_devices_def)
  qed
  then show "db_ok H db'" "enabled_devices db' = enabled_devices db"
    "\<And>d. d \<in> set (target_devices db target) \<Longrightarrow>
       upsert_settled req (json_text payload) (t_visitor_ops db') d"
    "\<And>r opn e. (r, opn) \<noteq> (req, upsert_op) \<Longrightarrow>
       current_op r opn (t_visitor_ops db') e = current_op r opn (t_visitor_ops db) e"
    "one_op_per_key (t_visitor_ops db) \<Longrightarrow> one_op_per_key (t_visitor_ops db')"
    "t_devices db' = t_devices db" "t_configs db' = t_configs db" "t_scans db' = t_scans db"
    by blast+
qed

subsection \<open>The removal of one pass\<close>

definition removed_row :: "db \<Rightarrow> int \<Rightarrow> jstr \<Rightarrow> visitor \<Rightarrow> visitor" where
  "removed_row db now reason v =
     (if enabled_devices db = [] then v\<lparr>v_account := Removed, v_removed_at := Some (sql_now now), v_removed_reason := Some reason\<rparr>
      else v\<lparr>v_account := RemovalQueued, v_removed_reason := Some reason\<rparr>)"

lemma v_id_removed_row [simp]: "v_id (removed_row db now reason v) = v_id v"
  by (simp add: removed_row_def)

lemma removals_queued:
  assumes ok: "db_ok H db" and q: "queue_visitor_device_removals H now v reason db = (k, db')"
  shows "db_ok H db'"
    "t_devices db' = t_devices db" "t_configs db' = t_configs db" "t_scans db' = t_scans db"
    "t_settings db' = t_settings db"
    "map v_id (t_visitors db') = map v_id (t_visitors db)"
    "\<And>d. truthy_text (v_credential v) \<Longrightarrow> d \<in> set (enabled_devices db) \<Longrightarrow> revoke_settled (v_id v) (t_visitor_ops db') d"
    "\<And>r opn e. (r, opn) \<noteq> (v_id v, revoke_op) \<Longrightarrow>
       current_op r opn (t_visitor_ops db') e = current_op r opn (t_visitor_ops db) e"
    "one_op_per_key (t_visitor_ops db) \<Longrightarrow> one_op_per_key (t_visitor_ops db')"
    "\<And>w. w \<in> set (t_visitors db) \<Longrightarrow> v_id w \<noteq> v_id v \<Longrightarrow> w \<in> set (t_visitors db')"
    "truthy_text (v_credential v) \<Longrightarrow> v \<in> set (t_visitors db) \<Longrightarrow> v_account v = Provisioned \<Longrightarrow>
       removed_row db now reason v \<in> set (t_visitors db')"
proof -
  have "db_ok H db' \<and> t_devices db' = t_devices db \<and> t_configs db' = t_configs db \<and> t_scans db' = t_scans db
    \<and> t_settings db' = t_settings db \<and> map v_id (t_visitors db') = map v_id (t_visitors db)
    \<and> (truthy_text (v_credential v) \<longrightarrow> (\<forall>d\<in>set (enabled_devices db). revoke_settled (v_id v) (t_visitor_ops db') d))
    \<and> (\<forall>r opn e. (r, opn) \<noteq> (v_id v, revoke_op) \<longrightarrow>
         current_op r opn (t_visitor_ops db') e = current_op r opn (t_visitor_ops db) e)
    \<and> (one_op_per_key (t_visitor_ops db) \<longrightarrow> one_op_per_key (t_visitor_ops db'))
    \<and> (\<forall>w\<in>set (t_visitors db). v_id w \<noteq> v_id v \<longrightarrow> w \<in> set (t_visitors db'))
    \<and> (truthy_text (v_credential v) \<longrightarrow> v \<in> set (t_visitors db) \<longrightarrow> v_account v = Provisioned \<longrightarrow>
         removed_row db now reason v \<in> set (t_visitors db'))"
  proof (cases "truthy_text (v_credential v) \<and> enabled_devices db \<noteq> []")
    case False
    have "removed_row db now reason v \<in> set (t_visitors db')"
      if "truthy_text (v_credential v)" "v \<in> set (t_visitors db)" "v_account v = Provisioned"
    proof -
      have none: "enabled_devices db = []" using False that(1) by simp
      then have vis: "t_visitors db' = update_where (\<lambda>r. v_id r = v_id v \<and> v_account r \<noteq> Removed)
          (\<lambda>r. r\<lparr>v_account := Removed, v_removed_at := Some (sql_now now), v_removed_reason := Some reason\<rparr>)
          (t_visitors db)"
        using q that(1) by (auto simp: queue_visitor_device_removals_def)
      show ?thesis unfolding vis using that none
        by (intro update_whereI [of v]) (simp_all add: removed_row_def)
    qed
    then show ?thesis using q ok False
      by (auto simp: queue_visitor_device_removals_def db_ok_def
          intro: update_where_keep split: if_splits)
  next
    case True
    obtain sts n where plan: "plan (revoke_decision H db (v_id v)
          (json_text (revoke_payload (the (v_credential v)) (v_name v) reason)) (sql_now now))
        (current_op (v_id v) revoke_op (t_visitor_ops db)) (t_draws db) (enabled_devices db) = (sts, n)"
      by fastforce
    have wf: "rows_wf H (t_visitor_ops db) (t_draws db)" using ok by (simp add: db_ok_def)
    note b = revokes.batch [OF wf distinct_enabled [OF ok] refl plan]
    have "db' = db\<lparr>t_visitor_ops := run_batch sts (t_visitor_ops db), t_draws := n,
        t_visitors := update_where (\<lambda>r. v_id r = v_id v \<and> v_account r = Provisioned)
          (\<lambda>r. r\<lparr>v_account := RemovalQueued, v_removed_reason := Some reason\<rparr>) (t_visitors db)\<rparr>"
      using q True plan by (simp add: queue_visitor_device_removals_def Let_def)
    then have rows: "t_visitor_ops db' = run_batch sts (t_visitor_ops db)" "t_draws db' = n"
      and tables: "t_devices db' = t_devices db" "t_configs db' = t_configs db" "t_scans db' = t_scans db"
        "t_settings db' = t_settings db"
      and vis: "t_visitors db' = update_where (\<lambda>r. v_id r = v_id v \<and> v_account r = Provisioned)
          (\<lambda>r. r\<lparr>v_account := RemovalQueued, v_removed_reason := Some reason\<rparr>) (t_visitors db)"
      by simp_all
    have "map v_id (t_visitors db') = map v_id (t_visitors db)" unfolding vis by simp
    moreover have "\<forall>w\<in>set (t_visitors db). v_id w \<noteq> v_id v \<longrightarrow> w \<in> set (t_visitors db')"
      unfolding vis by (simp add: update_where_keep)
    moreover have "removed_row db now reason v \<in> set (t_visitors db')"
      if "v \<in> set (t_visitors db)" "v_account v = Provisioned"
      using True that unfolding vis by (auto simp: removed_row_def intro!: update_whereI [of v])
    moreover have "db_ok H db'" using b ok calculation(1) by (simp add: db_ok_def rows tables)
    moreover have "\<forall>d\<in>set (enabled_devices db). revoke_settled (v_id v) (t_visitor_ops db') d"
      using b by (simp add: rows)
    moreover have "\<forall>r opn e. (r, opn) \<noteq> (v_id v, revoke_op) \<longrightarrow>
         current_op r opn (t_visitor_ops db') e = current_op r opn (t_visitor_ops db) e"
      using b unfolding rows by blast
    moreover have "one_op_per_key (t_visitor_ops db) \<longrightarrow> one_op_per_key (t_visitor_ops db')"
      using b by (simp add: rows)
    ultimately show ?thesis using tables by blast
  qed
  note c = this
  note c2 = conjunct2 [OF c] note c3 = conjunct2 [OF c2] note c4 = conjunct2 [OF c3]
  note c5 = conjunct2 [OF c4] note c6 = conjunct2 [OF c5] note c7 = conjunct2 [OF c6]
  note c8 = conjunct2 [OF c7] note c9 = conjunct2 [OF c8] note c10 = conjunct2 [OF c9]
  show "db_ok H db'" using c by (rule conjunct1)
  show "t_devices db' = t_devices db" using c2 by (rule conjunct1)
  show "t_configs db' = t_configs db" using c3 by (rule conjunct1)
  show "t_scans db' = t_scans db" using c4 by (rule conjunct1)
  show "t_settings db' = t_settings db" using c5 by (rule conjunct1)
  show "map v_id (t_visitors db') = map v_id (t_visitors db)" using c6 by (rule conjunct1)
  show "revoke_settled (v_id v) (t_visitor_ops db') d"
    if "truthy_text (v_credential v)" "d \<in> set (enabled_devices db)" for d
    using conjunct1 [OF c7] that by blast
  show "current_op r opn (t_visitor_ops db') e = current_op r opn (t_visitor_ops db) e"
    if "(r, opn) \<noteq> (v_id v, revoke_op)" for r opn e
    using conjunct1 [OF c8] that by blast
  show "one_op_per_key (t_visitor_ops db')" if "one_op_per_key (t_visitor_ops db)"
    using conjunct1 [OF c9] that by blast
  show "w \<in> set (t_visitors db')" if "w \<in> set (t_visitors db)" "v_id w \<noteq> v_id v" for w
    using conjunct1 [OF c10] that by blast
  show "removed_row db now reason v \<in> set (t_visitors db')"
    if "truthy_text (v_credential v)" "v \<in> set (t_visitors db)" "v_account v = Provisioned"
    using conjunct2 [OF c10] that by blast
qed

subsection \<open>The sweep\<close>

definition released :: "host \<Rightarrow> int \<Rightarrow> device list \<Rightarrow> visitor \<Rightarrow> db \<Rightarrow> bool" where
  "released H now ds v db \<longleftrightarrow>
     (\<forall>d\<in>set ds. revoke_settled (v_id v) (t_visitor_ops db) d)
     \<and> removed_row db now (removal_reason H now v) v \<in> set (t_visitors db)"

lemma enabled_devices_cong: "t_devices db' = t_devices db \<Longrightarrow> enabled_devices db' = enabled_devices db"
  by (simp add: enabled_devices_def)

lemma removed_row_cong: "t_devices db' = t_devices db \<Longrightarrow> removed_row db' now r v = removed_row db now r v"
  by (simp add: removed_row_def enabled_devices_def)

lemma revoke_settled_cong:
  "(\<And>e. current_op r revoke_op rows' e = current_op r revoke_op rows e) \<Longrightarrow>
     revoke_settled r rows' d = revoke_settled r rows d"
  by (simp add: revoke_settled_def)

lemma release_fold:
  assumes "db_ok H db" "distinct (map v_id vs)"
    and "\<And>v. v \<in> set vs \<Longrightarrow> v \<in> set (t_visitors db) \<and> v_account v = Provisioned"
    and "fold (release_one H now) vs (q, db) = (q', db')"
  shows "db_ok H db' \<and> t_devices db' = t_devices db \<and> map v_id (t_visitors db') = map v_id (t_visitors db)
    \<and> (\<forall>v\<in>set vs. truthy_text (v_credential v) \<longrightarrow> released H now (enabled_devices db) v db')
    \<and> (\<forall>r. r \<notin> v_id ` set vs \<longrightarrow> (\<forall>d. revoke_settled r (t_visitor_ops db) d \<longrightarrow> revoke_settled r (t_visitor_ops db') d))
    \<and> (\<forall>w\<in>set (t_visitors db). v_id w \<notin> v_id ` set vs \<longrightarrow> w \<in> set (t_visitors db'))
    \<and> (one_op_per_key (t_visitor_ops db) \<longrightarrow> one_op_per_key (t_visitor_ops db'))"
  using assms
proof (induction vs arbitrary: q db)
  case Nil
  then show ?case by simp
next
  case (Cons v vs)
  obtain k db1 where q1: "queue_visitor_device_removals H now v (removal_reason H now v) db = (k, db1)"
    by fastforce
  note one = removals_queued [OF Cons.prems(1) q1]
  have v: "v \<in> set (t_visitors db)" "v_account v = Provisioned"
    using Cons.prems(3) by simp_all
  have rest: "fold (release_one H now) vs (q + k, db1) = (q', db')"
  proof -
    have "release_one H now v (q, db) = (q + k, db1)" by (simp add: release_one_def q1)
    then show ?thesis using Cons.prems(4) by simp
  qed
  have dist: "distinct (map v_id vs)" "v_id v \<notin> v_id ` set vs" using Cons.prems(2) by auto
  have "w \<in> set (t_visitors db1) \<and> v_account w = Provisioned"
    if "w \<in> set vs" for w
    using Cons.prems(3) [of w] one(10) [of w] dist(2) that by (metis image_eqI list.set_intros(2))
  from Cons.IH [OF one(1) dist(1) this rest]
  have IH: "db_ok H db'" "t_devices db' = t_devices db1" "map v_id (t_visitors db') = map v_id (t_visitors db1)"
    "\<forall>v\<in>set vs. truthy_text (v_credential v) \<longrightarrow> released H now (enabled_devices db1) v db'"
    "\<And>r d. r \<notin> v_id ` set vs \<Longrightarrow> revoke_settled r (t_visitor_ops db1) d \<Longrightarrow> revoke_settled r (t_visitor_ops db') d"
    "\<And>w. w\<in>set (t_visitors db1) \<Longrightarrow> v_id w \<notin> v_id ` set vs \<Longrightarrow> w \<in> set (t_visitors db')"
    "one_op_per_key (t_visitor_ops db1) \<longrightarrow> one_op_per_key (t_visitor_ops db')"
    by blast+
  have dev: "t_devices db' = t_devices db" using IH(2) one(2) by simp
  have "released H now (enabled_devices db) v db'" if "truthy_text (v_credential v)"
    using one(7) [OF that] one(11) [OF that v(1) v(2)] IH(5) [OF dist(2)]
      IH(6) [of "removed_row db now (removal_reason H now v) v"] dist(2)
    unfolding released_def removed_row_cong [OF dev] v_id_removed_row by blast
  moreover have "\<forall>d. revoke_settled r (t_visitor_ops db) d \<longrightarrow> revoke_settled r (t_visitor_ops db') d"
    if "r \<notin> v_id ` set (v # vs)" for r
  proof -
    have "(r, revoke_op) \<noteq> (v_id v, revoke_op)" using that by simp
    then have "revoke_settled r (t_visitor_ops db1) d = revoke_settled r (t_visitor_ops db) d" for d
      using one(8) by (intro revoke_settled_cong) blast
    then show ?thesis using IH(5) that by simp
  qed
  moreover have "w \<in> set (t_visitors db')" if "w \<in> set (t_visitors db)" "v_id w \<notin> v_id ` set (v # vs)" for w
    using that one(10) IH(6) by simp
  ultimately show ?case
    using IH(1,3,4,7) one(6,9) dev enabled_devices_cong [OF one(2)] by auto
qed

subsection \<open>Properties\<close>

lemma expire_passes_facts:
  "map v_id (expire_passes H now vs) = map v_id vs"
  "v \<in> set vs \<Longrightarrow> \<not> (v_status v = js ''active'' \<and> due_by H (v_valid_until v) now) \<Longrightarrow> v \<in> set (expire_passes H now vs)"
  by (simp_all add: expire_passes_def update_where_keep)


text \<open>A database with one pass, one linked terminal and one that is not.\<close>

definition sample_device :: "jstr \<Rightarrow> jstr \<Rightarrow> device" where
  "sample_device i pattern = \<lparr>d_id = i, d_name = js ''Main gate'', d_gate_name = js ''Main'', d_pattern = pattern, d_profile = js ''generic_isapi'',
     d_status = js ''online'', d_deleted = False, d_last_sync = None, d_last_sync_status = None\<rparr>"

definition sample_visitor :: visitor where
  "sample_visitor = \<lparr>v_id = js ''v1'', v_resident = js ''r1'', v_property = None, v_name = js ''Ada'', v_phone = None,
     v_pin = js ''123456'', v_qr = js ''qr'', v_credential = Some (js ''004412345678''), v_barcode = None,
     v_credential_mode = js ''hybrid'', v_device = None, v_gate_scope = js ''both'', v_requires_approval = 1,
     v_require_gate_id = 0, v_status = js ''active'', v_valid_from = js ''2026-09-21T14:13:20.000Z'',
     v_valid_until = js ''2026-09-21T15:13:20.500Z'', v_person_type = js ''visitor'', v_visit_times = 1, v_purpose = None,
     v_purpose_other = None, v_remark = None, v_checked_in_at = None, v_checked_in_by = None,
     v_checked_out_at = None, v_rejected_at = None, v_rejected_by = None, v_rejection_note = None,
     v_gate_proof = None, v_gate_verified_at = None, v_gate_verified_by = None, v_account = Provisioned,
     v_provisioned_at = Some 1790000000, v_removed_at = None, v_removed_reason = None, v_created = 1790000000\<rparr>"

definition sample_db :: db where
  "sample_db = empty_db\<lparr>t_visitors := [sample_visitor],
     t_devices := [sample_device (js ''d1'') (js ''isapi_bridge''), sample_device (js ''d2'') (js ''manual'')],
     t_configs := [sample_config (js ''d1'') (js ''a1'')]\<rparr>"

lemma sample_db_ok: "db_ok sample_host sample_db"
proof -
  have "distinct (map d_id (t_devices sample_db))" "distinct (map v_id (t_visitors sample_db))" by code_simp+
  moreover have "t_visitor_ops sample_db = []" by (simp add: sample_db_def empty_db_def)
  ultimately show ?thesis by (simp add: db_ok_def rows_wf_def sample_uuid_inj)
qed


text \<open>
  C31: provisioning is idempotent and keeps one account operation per pass and terminal. After it,
  every target terminal has an operation that has not failed and, while it waits, carries the
  current account; doing it again, at any later time, queues nothing and leaves the operations as
  they are.
\<close>

theorem provisioning_idempotent:
  assumes ok: "db_ok H db" and q: "queue_visitor_device_operations H now req target payload db = (k, db')"
  shows "(\<forall>d\<in>set (target_devices db target). \<exists>r. current_op req upsert_op (t_visitor_ops db') (d_id d) = Some r
            \<and> o_status r \<noteq> Failed \<and> (o_status r = Pending \<longrightarrow> o_payload r = json_text payload))
    \<and> (one_op_per_key (t_visitor_ops db) \<longrightarrow> one_op_per_key (t_visitor_ops db'))
    \<and> fst (queue_visitor_device_operations H now' req target payload db') = 0
    \<and> t_visitor_ops (snd (queue_visitor_device_operations H now' req target payload db')) = t_visitor_ops db'"
proof -
  note u = upserts_queued [OF ok q]
  have "target_devices db' target = target_devices db target" using u(2) by (simp add: target_devices_def)
  then have "plan (upsert_decision H db' req (json_text payload) at)
      (current_op req upsert_op (t_visitor_ops db')) n (target_devices db' target) = ([], n)" for at n
    using u(3) by (intro upserts.plan_settled) simp
  then have "fst (queue_visitor_device_operations H now' req target payload db') = 0
      \<and> t_visitor_ops (snd (queue_visitor_device_operations H now' req target payload db')) = t_visitor_ops db'"
    by (simp add: queue_visitor_device_operations_def Let_def run_batch_def)
  then show ?thesis using u(3,5) by (auto simp: upsert_settled_def)
qed

theorem provisioning_idempotent_witness:
  "fst (queue_visitor_device_operations sample_host 7000 (js ''v1'') None Null
     (snd (queue_visitor_device_operations sample_host 5000 (js ''v1'') None Null sample_db))) = 0"
  using provisioning_idempotent [OF sample_db_ok prod.collapse [symmetric]] by blast

text \<open>
  A pass is recorded as removed by the refresh exactly when its removal was queued and every
  removal it has is confirmed, and it has at least one.
\<close>

theorem removed_only_when_all_confirmed:
  assumes ok: "db_ok H db" and v: "v \<in> set (t_visitors db)" "v_account v = RemovalQueued"
  shows "(\<exists>w\<in>set (t_visitors (refresh_visitor_device_account_state now (v_id v) db)).
            v_id w = v_id v \<and> v_account w = Removed)
    \<longleftrightarrow> (\<exists>r\<in>set (t_visitor_ops db). o_request r = v_id v \<and> o_operation r = revoke_op)
      \<and> (\<forall>r\<in>set (t_visitor_ops db). o_request r = v_id v \<longrightarrow> o_operation r = revoke_op \<longrightarrow> o_status r = Applied)"
proof -
  let ?revokes = "filter (\<lambda>r. o_request r = v_id v \<and> o_operation r = revoke_op) (t_visitor_ops db)"
  let ?applied = "filter (\<lambda>r. o_status r = Applied) ?revokes"
  have uniq: "w = v" if "w \<in> set (t_visitors db)" "v_id w = v_id v" for w
    using ok v(1) that by (auto simp: db_ok_def distinct_map dest: inj_onD)
  then have find: "List.find (\<lambda>w. v_id w = v_id v) (t_visitors db) = Some v"
    using v(1) by (cases "List.find (\<lambda>w. v_id w = v_id v) (t_visitors db)")
      (auto simp: find_None_iff_set dest: find_Some_set)
  have all: "length ?applied \<ge> length ?revokes \<longleftrightarrow> (\<forall>r\<in>set ?revokes. o_status r = Applied)"
    by (rule filter_full_iff)
  show ?thesis
  proof (cases "?revokes \<noteq> [] \<and> length ?applied \<ge> length ?revokes")
    case True
    then have "t_visitors (refresh_visitor_device_account_state now (v_id v) db)
        = update_where (\<lambda>r. v_id r = v_id v) (\<lambda>r. r\<lparr>v_account := Removed, v_removed_at := Some (sql_now now)\<rparr>)
            (t_visitors db)"
      using find v(2) by (simp add: refresh_visitor_device_account_state_def)
    then have "\<exists>w\<in>set (t_visitors (refresh_visitor_device_account_state now (v_id v) db)).
        v_id w = v_id v \<and> v_account w = Removed"
      using v(1) by (auto intro!: bexI [OF _ update_whereI [OF v(1) _ refl]])
    moreover have "hd ?revokes \<in> set ?revokes" using True by (intro hd_in_set) blast
    ultimately show ?thesis using True all by auto
  next
    case False
    then have "refresh_visitor_device_account_state now (v_id v) db = db"
      using find v(2) by (auto simp: refresh_visitor_device_account_state_def Let_def)
    then have "\<not> (\<exists>w\<in>set (t_visitors (refresh_visitor_device_account_state now (v_id v) db)).
        v_id w = v_id v \<and> v_account w = Removed)"
      using uniq v(2) by (metis account_state.distinct(11))
    then show ?thesis using False all by (auto simp: filter_empty_conv)
  qed
qed

theorem removed_only_when_all_confirmed_witness:
  "\<exists>w\<in>set (t_visitors (refresh_visitor_device_account_state 0 (js ''v1'')
      (sample_db\<lparr>t_visitors := [sample_visitor\<lparr>v_account := RemovalQueued\<rparr>],
         t_visitor_ops := [new_visitor_op (js ''x'') (js ''v1'') (js ''d1'') revoke_op [] Applied 0]\<rparr>))).
      v_account w = Removed"
proof -
  let ?v = "sample_visitor\<lparr>v_account := RemovalQueued\<rparr>"
  let ?db = "sample_db\<lparr>t_visitors := [?v],
         t_visitor_ops := [new_visitor_op (js ''x'') (js ''v1'') (js ''d1'') revoke_op [] Applied 0]\<rparr>"
  have id: "v_id ?v = js ''v1''" by (simp add: sample_visitor_def)
  have ne: "js ''x'' \<noteq> h_uuid sample_host m" for m by (simp add: sample_host_defs js_def)
  have "db_ok sample_host ?db"
    using sample_db_ok ne by (simp add: db_ok_def rows_wf_def new_visitor_op_def sample_db_def)
  from removed_only_when_all_confirmed [OF this, of ?v 0] show ?thesis
    by (auto simp: id new_visitor_op_def)
qed

text \<open>
  The sweep selects in whole seconds but names the reason in milliseconds. A pass that ends
  within the current second is marked expired and released before its end, and the reason recorded
  for the removal is that it was revoked, although nobody revoked it.
\<close>

theorem last_second_reported_as_revoked:
  assumes "h_sql_seconds H (iso_string t) = Some (t div 1000)"
    and "date_parse (h_platform H) (iso_string t) = Some t"
    and "v_valid_until v = iso_string t" "v_status v = js ''active''" "v_account v = Provisioned"
    and "t div 1000 * 1000 \<le> now" "now < t"
  shows "v\<lparr>v_status := js ''expired''\<rparr> \<in> set (expire_passes H now [v])
    \<and> release_due H now (v\<lparr>v_status := js ''expired''\<rparr>)
    \<and> removal_reason H now (v\<lparr>v_status := js ''expired''\<rparr>) = revoked_reason"
proof -
  have "t div 1000 \<le> now div 1000"
    using zdiv_mono1 [OF assms(6), of 1000] by simp
  then have "due_by H (v_valid_until v) now" using assms by (simp add: due_by_def sql_now_def)
  then show ?thesis using assms
    by (simp add: expire_passes_def release_due_def removal_reason_def)
qed

theorem last_second_reported_as_revoked_witness:
  "removal_reason sample_host 1790003600100
     (sample_visitor\<lparr>v_valid_until := iso_string 1790003600500, v_status := js ''expired''\<rparr>) = revoked_reason"
proof -
  let ?v = "sample_visitor\<lparr>v_valid_until := iso_string 1790003600500\<rparr>"
  have "h_sql_seconds sample_host (iso_string 1790003600500) = Some (1790003600500 div 1000)"
    "date_parse (h_platform sample_host) (iso_string 1790003600500) = Some 1790003600500"
    "v_valid_until ?v = iso_string 1790003600500" "v_status ?v = js ''active''" "v_account ?v = Provisioned"
    "1790003600500 div 1000 * 1000 \<le> (1790003600100::int)" "1790003600100 < (1790003600500::int)"
    by (simp_all add: civil_def sample_visitor_def)
  from last_second_reported_as_revoked [OF this] show ?thesis by simp
qed

end
