(* ===== verification/VisitorPass.thy ===== *)
theory VisitorPass
  imports EstateTime
begin

text \<open>
  Model of \<^verbatim>\<open>src/src/visitor-pass.ts\<close>: whether a visitor pass may be accepted now, and the
  exact condition that blocks it. The reasons are a datatype; \<open>reason_text\<close> prints the
  sentence the gate shows.
\<close>

text \<open>
  The columns the decision reads. The counts are the values of INTEGER columns and of a
  \<open>COUNT(*)\<close>: integers, null, or text.
\<close>

record pass_window =
  pw_valid_from :: jval
  pw_valid_until :: jval
  pw_status :: jval
  pw_visit_times :: jval
  pw_visits_used :: jval

datatype pass_reason =
    RevokedPass
  | CheckedOutPass
  | ExpiredPass
  | PendingPass
  | UnreadableWindow
  | NotActiveYet int
  | WindowEnded int
  | VisitsSpent int

fun reason_text :: "platform \<Rightarrow> jstr \<Rightarrow> pass_reason \<Rightarrow> jstr" where
  "reason_text P tz RevokedPass = js ''This pass was revoked by the estate and cannot be used''"
| "reason_text P tz CheckedOutPass = js ''This visitor already checked out. Ask the host to issue a new pass''"
| "reason_text P tz ExpiredPass = js ''This pass has expired and cannot be used''"
| "reason_text P tz PendingPass = js ''This pass is still awaiting approval by the estate''"
| "reason_text P tz UnreadableWindow =
     js ''This pass has an unreadable validity window. Reissue it before accepting entry''"
| "reason_text P tz (NotActiveYet s) =
     js ''This pass is not active yet. It becomes valid at '' @ format_estate_date_time P (Num s) tz @ js '' estate time''"
| "reason_text P tz (WindowEnded e) =
     js ''This pass expired at '' @ format_estate_date_time P (Num e) tz @ js '' estate time''"
| "reason_text P tz (VisitsSpent n) =
     js ''This pass has used all '' @ show_int n @ js '' permitted visit'' @ (if n = 1 then [] else js ''s'')
     @ js ''. Ask the host to issue a new pass''"

record evaluation =
  ev_valid :: bool
  ev_reason :: "pass_reason option"
  ev_starts :: "int option"
  ev_ends :: "int option"

text \<open>
  \<open>Number(value ?? 0)\<close> as a finite integer; \<open>None\<close> is NaN (text that is not a
  decimal integer, which those columns never hold, is read as NaN).
\<close>

definition signed_digits :: "jstr \<Rightarrow> int option" where
  "signed_digits t =
    (case t of
       [] \<Rightarrow> None
     | c # r \<Rightarrow>
         if c = 45 then (if r \<noteq> [] \<and> list_all is_digit r then Some (- int (digits_val r)) else None)
         else if c = 43 then (if r \<noteq> [] \<and> list_all is_digit r then Some (int (digits_val r)) else None)
         else if list_all is_digit t then Some (int (digits_val t)) else None)"

definition count_of :: "jval \<Rightarrow> int option" where
  "count_of v =
    (case v of
       Undef \<Rightarrow> Some 0
     | Null \<Rightarrow> Some 0
     | Bool b \<Rightarrow> Some (if b then 1 else 0)
     | Num n \<Rightarrow> Some n
     | Str s \<Rightarrow> (if trim s = [] then Some 0 else signed_digits (trim s))
     | _ \<Rightarrow> None)"

definition allowance_spent :: "pass_window \<Rightarrow> int option" where
  "allowance_spent w =
    (case (count_of (pw_visit_times w), count_of (pw_visits_used w)) of
       (Some n, Some u) \<Rightarrow> if n \<ge> 1 \<and> u \<ge> n then Some n else None
     | _ \<Rightarrow> None)"

definition blocking_status :: "jstr \<Rightarrow> pass_reason option" where
  "blocking_status s =
    (if s = js ''revoked'' then Some RevokedPass
     else if s = js ''checked_out'' then Some CheckedOutPass
     else if s = js ''expired'' then Some ExpiredPass
     else if s = js ''pending'' then Some PendingPass
     else None)"

definition evaluate_visitor_pass :: "platform \<Rightarrow> pass_window \<Rightarrow> jstr \<Rightarrow> int \<Rightarrow> evaluation" where
  "evaluate_visitor_pass P w tz now =
    (let starts = parse_estate_instant_ms P (pw_valid_from w) tz Start;
         ends = parse_estate_instant_ms P (pw_valid_until w) tz End;
         reject = (\<lambda>r. \<lparr>ev_valid = False, ev_reason = Some r, ev_starts = starts, ev_ends = ends\<rparr>)
     in case blocking_status (lower (to_string_or_empty (pw_status w))) of
       Some r \<Rightarrow> reject r
     | None \<Rightarrow>
         (case (starts, ends) of
            (Some s, Some e) \<Rightarrow>
              if now < s then reject (NotActiveYet s)
              else if now > e then reject (WindowEnded e)
              else (case allowance_spent w of
                      Some n \<Rightarrow> reject (VisitsSpent n)
                    | None \<Rightarrow> \<lparr>ev_valid = True, ev_reason = None, ev_starts = starts, ev_ends = ends\<rparr>)
          | _ \<Rightarrow> reject UnreadableWindow))"

subsection \<open>When a pass is accepted\<close>

lemma evaluation_valid_iff:
  "ev_valid (evaluate_visitor_pass P w tz now) \<longleftrightarrow>
     blocking_status (lower (to_string_or_empty (pw_status w))) = None
     \<and> (\<exists>s e. parse_estate_instant_ms P (pw_valid_from w) tz Start = Some s
          \<and> parse_estate_instant_ms P (pw_valid_until w) tz End = Some e \<and> s \<le> now \<and> now \<le> e)
     \<and> allowance_spent w = None"
  by (auto simp: evaluate_visitor_pass_def Let_def split: option.splits)

lemma evaluation_reason_iff:
  "ev_reason (evaluate_visitor_pass P w tz now) = None \<longleftrightarrow> ev_valid (evaluate_visitor_pass P w tz now)"
  by (auto simp: evaluate_visitor_pass_def Let_def split: option.splits)

lemma blocking_status_simps [simp]:
  "blocking_status (js ''active'') = None"
  "blocking_status (js ''checked_in'') = None"
  by (simp_all add: blocking_status_def)

lemma lower_status [simp]:
  "lower (js ''active'') = js ''active''" "lower (js ''checked_in'') = js ''checked_in''"
  "lower (js ''revoked'') = js ''revoked''" "lower (js ''expired'') = js ''expired''"
  "lower (js ''pending'') = js ''pending''" "lower (js ''checked_out'') = js ''checked_out''"
  by code_simp+

subsection \<open>Properties\<close>

text \<open>
  A pass is accepted exactly when its status does not block it, both ends of its window can be
  read in the estate's zone, the current instant lies between them (both ends included), and a
  visit allowance of at least one has not been used up; and a reason is given exactly for a refusal.
\<close>

theorem pass_accepted_iff:
  "(ev_valid (evaluate_visitor_pass P w tz now) \<longleftrightarrow>
      lower (to_string_or_empty (pw_status w)) \<notin> {js ''revoked'', js ''checked_out'', js ''expired'', js ''pending''}
      \<and> (\<exists>s e. parse_estate_instant_ms P (pw_valid_from w) tz Start = Some s
           \<and> parse_estate_instant_ms P (pw_valid_until w) tz End = Some e \<and> s \<le> now \<and> now \<le> e)
      \<and> \<not> (\<exists>t u. count_of (pw_visit_times w) = Some t \<and> count_of (pw_visits_used w) = Some u \<and> 1 \<le> t \<and> t \<le> u))
   \<and> (ev_reason (evaluate_visitor_pass P w tz now) = None \<longleftrightarrow> ev_valid (evaluate_visitor_pass P w tz now))"
proof -
  have "blocking_status t = None \<longleftrightarrow> t \<notin> {js ''revoked'', js ''checked_out'', js ''expired'', js ''pending''}" for t
    by (simp add: blocking_status_def)
  moreover have "allowance_spent w = None \<longleftrightarrow>
      \<not> (\<exists>t u. count_of (pw_visit_times w) = Some t \<and> count_of (pw_visits_used w) = Some u \<and> 1 \<le> t \<and> t \<le> u)"
    by (auto simp: allowance_spent_def split: option.splits)
  ultimately show ?thesis
    unfolding evaluation_valid_iff evaluation_reason_iff by simp
qed



end
