(* ===== verification/Properties.thy ===== *)
theory Properties
  imports Database
begin

text \<open>
  Who may act for a property (\<open>propertyRelationship\<close>, \<open>isPrimaryResident\<close> and the
  default property of a new visitor pass, \<^verbatim>\<open>index.ts\<close>) and the transfer of an ownership.
\<close>

definition tenancy_running :: "host \<Rightarrow> int \<Rightarrow> tenancy \<Rightarrow> bool" where
  "tenancy_running H now t \<longleftrightarrow>
     tn_status t = js ''active''
     \<and> (case sql_day H (tn_start t) of None \<Rightarrow> False | Some d \<Rightarrow> d \<le> today now)
     \<and> (case tn_end t of None \<Rightarrow> True
         | Some e \<Rightarrow> (case sql_day H e of None \<Rightarrow> False | Some d \<Rightarrow> d \<ge> today now))"

definition owns :: "db \<Rightarrow> jstr \<Rightarrow> jstr \<Rightarrow> bool" where
  "owns db user p \<longleftrightarrow>
     list_ex (\<lambda>o'. ow_property o' = p \<and> ow_resident o' = user \<and> ow_status o' = js ''active'') (t_ownerships db)"

definition tenanted :: "host \<Rightarrow> int \<Rightarrow> db \<Rightarrow> jstr \<Rightarrow> bool" where
  "tenanted H now db p \<longleftrightarrow> list_ex (\<lambda>t. tn_property t = p \<and> tenancy_running H now t) (t_tenancies db)"

datatype relationship_kind = Owner | Tenant | DependantOf

record relationship_row =
  rel_kind :: relationship_kind
  rel_visitors :: bool
  rel_maintenance :: bool
  rel_bills :: bool

text \<open>The three branches of the UNION ALL in order of priority; the first row is taken.\<close>

definition property_relationship :: "host \<Rightarrow> int \<Rightarrow> db \<Rightarrow> jstr \<Rightarrow> jstr \<Rightarrow> relationship_row option" where
  "property_relationship H now db user p =
    (if owns db user p then
       Some \<lparr>rel_kind = Owner, rel_visitors = (\<not> tenanted H now db p), rel_maintenance = True, rel_bills = True\<rparr>
     else case List.find (\<lambda>t. tn_property t = p \<and> tn_tenant t = user \<and> tenancy_running H now t) (t_tenancies db) of
       Some t \<Rightarrow> Some \<lparr>rel_kind = Tenant, rel_visitors = tn_can_visitors t, rel_maintenance = tn_can_maintenance t,
                   rel_bills = (tn_billing t = js ''tenant'')\<rparr>
     | None \<Rightarrow>
         (case List.find (\<lambda>m. m_property m = p \<and> m_linked m = Some user \<and> m_status m = js ''active'') (t_members db) of
            Some m \<Rightarrow> Some \<lparr>rel_kind = DependantOf, rel_visitors = m_can_visitors m, rel_maintenance = True,
                        rel_bills = m_can_bills m\<rparr>
          | None \<Rightarrow> None))"

definition is_primary_resident :: "host \<Rightarrow> int \<Rightarrow> db \<Rightarrow> jstr \<Rightarrow> jstr \<Rightarrow> bool" where
  "is_primary_resident H now db user p \<longleftrightarrow>
     list_ex (\<lambda>t. tn_property t = p \<and> tn_tenant t = user \<and> tenancy_running H now t) (t_tenancies db)
     \<or> (owns db user p \<and> \<not> tenanted H now db p)"

text \<open>
  The properties the route that creates a pass considers when none is named; UNION removes
  duplicates, and the query is cut at two rows.
\<close>

definition visitor_properties :: "host \<Rightarrow> int \<Rightarrow> db \<Rightarrow> jstr \<Rightarrow> jstr list" where
  "visitor_properties H now db user = remdups
     (map ow_property (filter (\<lambda>o'. ow_resident o' = user \<and> ow_status o' = js ''active'') (t_ownerships db))
      @ map tn_property (filter (\<lambda>t. tn_tenant t = user \<and> tn_can_visitors t \<and> tenancy_running H now t) (t_tenancies db))
      @ map m_property (filter (\<lambda>m. m_linked m = Some user \<and> m_status m = js ''active'' \<and> m_can_visitors m) (t_members db)))"

subsection \<open>Ownership transfer\<close>

definition no_longer_open :: jstr where "no_longer_open = js ''Transfer is no longer open''"
definition owner_changed :: jstr where
  "owner_changed = js ''Current ownership changed before the transfer could complete''"

text \<open>
  The thrown error is paired with the state, since the failing branch has already marked the
  request. The batch revokes the found ownership, adds the new one, and moves the main property
  of both people.
\<close>

definition first_owned :: "ownership list \<Rightarrow> jstr \<Rightarrow> jstr option" where
  "first_owned os user =
     (case sort_key ow_approved_at (filter (\<lambda>o'. ow_resident o' = user \<and> ow_status o' = js ''active'') os) of
        [] \<Rightarrow> None | o' # _ \<Rightarrow> Some (ow_property o'))"

definition complete_property_transfer ::
    "host \<Rightarrow> int \<Rightarrow> jstr \<Rightarrow> jstr option \<Rightarrow> db \<Rightarrow> (jstr, unit) result \<times> db" where
  "complete_property_transfer H now tid actor db =
    (case List.find (\<lambda>t. tr_id t = tid \<and> tr_status t \<in> {js ''pending'', js ''scheduled''}) (t_transfers db) of
       None \<Rightarrow> (Inl no_longer_open, db)
     | Some t \<Rightarrow>
         (case List.find (\<lambda>o'. ow_property o' = tr_property t \<and> ow_resident o' = tr_from t
                 \<and> ow_status o' = js ''active'') (t_ownerships db) of
            None \<Rightarrow>
              (Inl owner_changed,
               db\<lparr>t_transfers := update_where (\<lambda>r. tr_id r = tr_id t)
                    (\<lambda>r. r\<lparr>tr_status := js ''failed'',
                           tr_failure := Some (js ''Current ownership changed before transfer'')\<rparr>) (t_transfers db)\<rparr>)
          | Some old \<Rightarrow>
              let fresh = h_uuid H (t_draws db);
                  os = update_where (\<lambda>r. ow_id r = ow_id old)
                         (\<lambda>r. r\<lparr>ow_status := js ''revoked'', ow_revoked_by := actor,
                                ow_reason := Some (js ''approved ownership transfer'')\<rparr>) (t_ownerships db)
                       @ [\<lparr>ow_id = fresh, ow_property = tr_property t, ow_resident = tr_to t,
                           ow_status = js ''active'', ow_approved_at = sql_now now, ow_revoked_by = None,
                           ow_reason = None\<rparr>];
                  us = update_where (\<lambda>u. u_id u = tr_to t)
                         (\<lambda>u. u\<lparr>u_property := Some (coalesce (u_property u) (tr_property t))\<rparr>) (t_users db)
              in (Inr (), db\<lparr>t_ownerships := os,
                    t_users := update_where (\<lambda>u. u_id u = tr_from t) (\<lambda>u. u\<lparr>u_property := first_owned os (tr_from t)\<rparr>) us,
                    t_transfers := update_where (\<lambda>r. tr_id r = tr_id t)
                      (\<lambda>r. r\<lparr>tr_status := js ''completed'', tr_completed := Some (sql_now now)\<rparr>) (t_transfers db),
                    t_draws := Suc (t_draws db)\<rparr>)))"

subsection \<open>One owner per property\<close>

text \<open>The partial unique index \<open>idx_property_one_active_owner\<close>.\<close>

definition active_owner_rows :: "ownership list \<Rightarrow> jstr \<Rightarrow> ownership list" where
  "active_owner_rows os p = filter (\<lambda>o'. ow_property o' = p \<and> ow_status o' = js ''active'') os"

definition one_owner :: "ownership list \<Rightarrow> bool" where
  "one_owner os \<longleftrightarrow> (\<forall>p. length (active_owner_rows os p) \<le> 1)"

lemma owns_iff: "owns db u p \<longleftrightarrow> (\<exists>o'\<in>set (active_owner_rows (t_ownerships db) p). ow_resident o' = u)"
  by (auto simp: owns_def active_owner_rows_def list_ex_iff)

lemma single_member: "length xs \<le> 1 \<Longrightarrow> x \<in> set xs \<Longrightarrow> xs = [x]"
  by (cases xs) auto

lemma transfer_rows:
  assumes one: "one_owner os" and old: "old \<in> set os" "ow_status old = js ''active''" "ow_property old = p"
    and ids: "distinct (map ow_id os)" and f: "\<And>r. ow_status (f r) = js ''revoked''" and new: "ow_property r = p" "ow_status r = js ''active''"
  shows "active_owner_rows (update_where (\<lambda>q. ow_id q = ow_id old) f os @ [r]) q
    = (if q = p then [r] else active_owner_rows os q)"
proof -
  have "filter (\<lambda>o'. ow_property o' = q \<and> ow_status o' = js ''active'') (update_where (\<lambda>q. ow_id q = ow_id old) f os)
      = filter (\<lambda>o'. ow_property o' = q \<and> ow_status o' = js ''active'' \<and> ow_id o' \<noteq> ow_id old) os" for q
    using f by (induction os) auto
  moreover have "filter (\<lambda>o'. ow_property o' = p \<and> ow_status o' = js ''active'' \<and> ow_id o' \<noteq> ow_id old) os = []"
  proof -
    have "old \<in> set (active_owner_rows os p)" using old by (simp add: active_owner_rows_def)
    then have "active_owner_rows os p = [old]" using one single_member by (metis one_owner_def)
    then have "x = old" if "x \<in> set os" "ow_property x = p" "ow_status x = js ''active''" for x
    proof -
      have "x \<in> set (active_owner_rows os p)" using that by (simp add: active_owner_rows_def)
      then show ?thesis using \<open>active_owner_rows os p = [old]\<close> by simp
    qed
    then show ?thesis by (auto simp: filter_empty_conv)
  qed
  moreover have "filter (\<lambda>o'. ow_property o' = q \<and> ow_status o' = js ''active'' \<and> ow_id o' \<noteq> ow_id old) os
      = filter (\<lambda>o'. ow_property o' = q \<and> ow_status o' = js ''active'') os" if "q \<noteq> p" for q
    using ids old that by (intro filter_cong) (auto simp: distinct_map dest: inj_onD)
  ultimately show ?thesis using new by (auto simp: active_owner_rows_def)
qed

subsection \<open>Properties\<close>

text \<open>
  C35: completing an open transfer whose current owner is still in place hands the property over:
  afterwards the new owner owns it, the old one does not, every other property has the same
  owner, each property still has at most one active owner, and the request is closed, so that it
  cannot be completed again.
\<close>

theorem transfer_hands_over:
  assumes one: "one_owner (t_ownerships db)" and ids: "distinct (map ow_id (t_ownerships db))"
    "distinct (map tr_id (t_transfers db))"
    and t: "t \<in> set (t_transfers db)" "tr_status t = js ''pending'' \<or> tr_status t = js ''scheduled''"
    and owner: "owns db (tr_from t) (tr_property t)" and ne: "tr_from t \<noteq> tr_to t"
    and run: "complete_property_transfer H now (tr_id t) actor db = (res, db')"
  shows "res = Inr () \<and> owns db' (tr_to t) (tr_property t) \<and> \<not> owns db' (tr_from t) (tr_property t)
    \<and> (\<forall>u q. q \<noteq> tr_property t \<longrightarrow> owns db' u q = owns db u q) \<and> one_owner (t_ownerships db')
    \<and> fst (complete_property_transfer H now' (tr_id t) actor' db') = Inl no_longer_open"
proof -
  let ?open = "\<lambda>r. tr_id r = tr_id t \<and> tr_status r \<in> {js ''pending'', js ''scheduled''}"
  let ?own = "\<lambda>o'. ow_property o' = tr_property t \<and> ow_resident o' = tr_from t \<and> ow_status o' = js ''active''"
  have "r = t" if "r \<in> set (t_transfers db)" "tr_id r = tr_id t" for r
    using ids(2) t(1) that by (auto simp: distinct_map dest: inj_onD)
  then have ft: "List.find ?open (t_transfers db) = Some t"
    using t by (cases "List.find ?open (t_transfers db)") (auto simp: find_None_iff_set dest: find_Some_set)
  obtain old where fo: "List.find ?own (t_ownerships db) = Some old"
    using owner by (cases "List.find ?own (t_ownerships db)") (auto simp: find_None_iff_set owns_def list_ex_iff)
  then have old: "old \<in> set (t_ownerships db)" "ow_status old = js ''active''" "ow_property old = tr_property t"
    using find_Some_set [OF fo] by simp_all
  let ?f = "\<lambda>r. r\<lparr>ow_status := js ''revoked'', ow_revoked_by := actor, ow_reason := Some (js ''approved ownership transfer'')\<rparr>"
  let ?r = "\<lparr>ow_id = h_uuid H (t_draws db), ow_property = tr_property t, ow_resident = tr_to t,
      ow_status = js ''active'', ow_approved_at = sql_now now, ow_revoked_by = None, ow_reason = None\<rparr>"
  have os: "t_ownerships db' = update_where (\<lambda>q. ow_id q = ow_id old) ?f (t_ownerships db) @ [?r]"
    and ts: "t_transfers db' = update_where (\<lambda>r. tr_id r = tr_id t)
      (\<lambda>r. r\<lparr>tr_status := js ''completed'', tr_completed := Some (sql_now now)\<rparr>) (t_transfers db)"
    and res: "res = Inr ()"
    using run by (simp_all only: complete_property_transfer_def ft fo option.case Let_def prod.inject db.simps)
      (erule conjE; drule sym; simp)+
  have rows: "active_owner_rows (t_ownerships db') q
      = (if q = tr_property t then [?r] else active_owner_rows (t_ownerships db) q)" for q
    unfolding os by (rule transfer_rows [OF one old ids(1)]) simp_all
  have "List.find ?open (t_transfers db') = None"
    unfolding ts find_None_iff_set update_where_def by auto
  then have "fst (complete_property_transfer H now' (tr_id t) actor' db') = Inl no_longer_open"
    by (simp add: complete_property_transfer_def)
  then show ?thesis using res rows one ne by (auto simp: owns_iff one_owner_def)
qed

definition sample_property_db :: db where
  "sample_property_db = empty_db\<lparr>
     t_ownerships := [\<lparr>ow_id = js ''o1'', ow_property = js ''p1'', ow_resident = js ''ada'', ow_status = js ''active'',
        ow_approved_at = 0, ow_revoked_by = None, ow_reason = None\<rparr>],
     t_tenancies := [\<lparr>tn_property = js ''p1'', tn_tenant = js ''tunde'', tn_status = js ''active'',
        tn_start = iso_string 0, tn_end = None, tn_can_visitors = True, tn_can_maintenance = True,
        tn_billing = js ''owner''\<rparr>],
     t_transfers := [\<lparr>tr_id = js ''t1'', tr_property = js ''p1'', tr_from = js ''ada'', tr_to = js ''bola'',
        tr_status = js ''pending'', tr_failure = None, tr_completed = None\<rparr>]\<rparr>"

theorem transfer_hands_over_witness:
  "owns (snd (complete_property_transfer sample_host 5000 (js ''t1'') None sample_property_db)) (js ''bola'') (js ''p1'')"
proof -
  let ?t = "\<lparr>tr_id = js ''t1'', tr_property = js ''p1'', tr_from = js ''ada'', tr_to = js ''bola'',
        tr_status = js ''pending'', tr_failure = None, tr_completed = None\<rparr>"
  have "one_owner (t_ownerships sample_property_db)"
    by (simp add: one_owner_def active_owner_rows_def sample_property_db_def)
  moreover have "distinct (map ow_id (t_ownerships sample_property_db))"
    "distinct (map tr_id (t_transfers sample_property_db))" "?t \<in> set (t_transfers sample_property_db)"
    "tr_status ?t = js ''pending'' \<or> tr_status ?t = js ''scheduled''"
    "owns sample_property_db (tr_from ?t) (tr_property ?t)" "tr_from ?t \<noteq> tr_to ?t"
    by (simp_all add: sample_property_db_def owns_def)
  ultimately show ?thesis
    using transfer_hands_over [OF _ _ _ _ _ _ _ prod.collapse [symmetric], of sample_property_db ?t sample_host 5000 None]
    by simp
qed

text \<open>
  An owner whose property is let to a running tenancy may not create visitors for it when the
  property is named, yet the same property is offered by the query that looks for a default, so
  leaving the property out gets round the restriction.
\<close>

theorem default_property_skips_tenancy_rule:
  assumes "owns db u p" "tenanted H now db p"
  shows "(\<exists>r. property_relationship H now db u p = Some r \<and> rel_kind r = Owner \<and> \<not> rel_visitors r)
    \<and> p \<in> set (visitor_properties H now db u)"
  using assms by (auto simp: property_relationship_def visitor_properties_def owns_def list_ex_iff)

theorem default_property_skips_tenancy_rule_witness:
  "visitor_properties sample_host 5000 sample_property_db (js ''ada'') = [js ''p1'']
    \<and> js ''p1'' \<in> set (visitor_properties sample_host 5000 sample_property_db (js ''ada''))"
proof -
  have o': "owns sample_property_db (js ''ada'') (js ''p1'')" by (simp add: sample_property_db_def owns_def)
  have t: "tenanted sample_host 5000 sample_property_db (js ''p1'')"
    by (simp add: tenanted_def sample_property_db_def tenancy_running_def sql_day_def civil_def today_def sql_now_def)
  have "visitor_properties sample_host 5000 sample_property_db (js ''ada'') = [js ''p1'']"
    by (simp add: visitor_properties_def sample_property_db_def empty_db_def)
  then show ?thesis using default_property_skips_tenancy_rule [OF o' t] by blast
qed

end
