(* ===== verification/Profiles.thy ===== *)
theory Profiles
  imports JsString
begin

text \<open>
  Model of \<^verbatim>\<open>src/src/hikvision-profiles.ts\<close>: the table of device profiles, the
  choice of a profile for a model or for an explicit request, and the supported connections. A
  model pattern is one of the four shapes of regular expression the table uses.
\<close>

datatype alias_field =
    AEventType | AEventId | ATimestamp | ACardUid | APersonName | AEmployeeNo | AStatus
  | ADescription | ADirection | ACredentialType | ADoorNo

text \<open>\<open>^LIT\<close>, \<open>^LIT.*(A|B)\<close>, \<open>^LIT\d\<close> and \<open>.*\<close>; the tested text is in upper case.\<close>

datatype model_pattern =
    Starts jstr
  | StartsThen jstr "jstr list"
  | StartsDigit jstr
  | AnyModel

definition line_terminator :: "nat \<Rightarrow> bool" where
  "line_terminator c \<longleftrightarrow> c \<in> {10, 13, 8232, 8233}"

fun matches_model :: "model_pattern \<Rightarrow> jstr \<Rightarrow> bool" where
  "matches_model (Starts p) s = starts_with s p"
| "matches_model (StartsThen p alts) s =
     (starts_with s p \<and>
      list_ex (\<lambda>a. contains (takeWhile (\<lambda>c. \<not> line_terminator c) (drop (length p) s)) a) alts)"
| "matches_model (StartsDigit p) s =
     (starts_with s p \<and> drop (length p) s \<noteq> [] \<and> is_digit (hd (drop (length p) s)))"
| "matches_model AnyModel s = True"

record profile =
  pf_key :: jstr
  pf_label :: jstr
  pf_family :: jstr
  pf_description :: jstr
  pf_models :: "model_pattern list"
  pf_pattern :: jstr
  pf_methods :: "jstr list"
  pf_connections :: "jstr list"
  pf_default :: jstr
  pf_aliases :: "alias_field \<Rightarrow> jstr list"
  pf_granted :: "jstr list"
  pf_denied :: "jstr list"

definition agent_connections :: "jstr list" where
  "agent_connections = [js ''isapi_bridge'', js ''windows_agent'', js ''isapi_windows_agent'', js ''manual_sync'']"

fun common_aliases :: "alias_field \<Rightarrow> jstr list" where
  "common_aliases AEventType = [js ''eventType'', js ''type'', js ''majorEventType'', js ''major'']"
| "common_aliases AEventId = [js ''eventID'', js ''eventId'', js ''serialNo'', js ''seq'', js ''eventNo'']"
| "common_aliases ATimestamp = [js ''dateTime'', js ''time'', js ''eventTime'', js ''occurTime'']"
| "common_aliases ACardUid = [js ''cardNo'', js ''cardNumber'', js ''credentialNo'', js ''cardReaderNo'']"
| "common_aliases APersonName = [js ''name'', js ''employeeName'', js ''personName'', js ''userName'']"
| "common_aliases AEmployeeNo = [js ''employeeNoString'', js ''employeeNo'', js ''personId'', js ''userID'']"
| "common_aliases AStatus = [js ''eventState'', js ''status'', js ''currentVerifyMode'', js ''verifyMode'']"
| "common_aliases ADescription =
     [js ''eventDescription'', js ''subEventType'', js ''minorEventType'', js ''minor'', js ''attendanceStatus'']"
| "common_aliases ADirection = [js ''direction'', js ''inOutType'', js ''attendanceStatus'', js ''enterOrExit'']"
| "common_aliases ACredentialType =
     [js ''currentVerifyMode'', js ''verifyMode'', js ''credentialType'', js ''authType'']"
| "common_aliases ADoorNo = [js ''doorNo'', js ''doorIndex'', js ''channelID'', js ''channelId'']"

definition aliases :: "(alias_field \<times> jstr list) list \<Rightarrow> alias_field \<Rightarrow> jstr list" where
  "aliases overrides f =
     (case map_of overrides f of None \<Rightarrow> [] | Some ks \<Rightarrow> ks) @ common_aliases f"

definition common_granted :: "jstr list" where
  "common_granted = [js ''granted'', js ''success'', js ''legal'', js ''pass'', js ''authenticated'',
     js ''allowed'', js ''normal'']"

definition common_denied :: "jstr list" where
  "common_denied = [js ''denied'', js ''invalid'', js ''failed'', js ''forbidden'', js ''illegal'',
     js ''expired'', js ''blacklist'', js ''blocklist'', js ''no permission'', js ''anti-passback'']"

definition profile_value_3xx :: profile where
  "profile_value_3xx = \<lparr>pf_key = js ''minmoe_value_3xx'',
     pf_label = js ''MinMoe Value Series (K1T3xx)'',
     pf_family = js ''MinMoe Value'',
     pf_description = js ''K1T320/321/331/341/342/343/344 and regional suffix variants.'',
     pf_models = [Starts (js ''DS-K1T3''), Starts (js ''K1T3'')],
     pf_pattern = js ''standalone_terminal'',
     pf_methods = [js ''face'', js ''card'', js ''fingerprint'', js ''PIN'', js ''QR where fitted''],
     pf_connections = agent_connections, pf_default = js ''isapi_bridge'',
     pf_aliases = aliases [(ACardUid, [js ''cardNoString'']),
        (AEmployeeNo, [js ''employeeNo''])],
     pf_granted = common_granted @ [js ''legalCardPass'', js ''faceMatch''],
     pf_denied = common_denied @ [js ''invalidCard'', js ''faceMismatch'']\<rparr>"

definition profile_pro_6xx :: profile where
  "profile_pro_6xx = \<lparr>pf_key = js ''minmoe_pro_6xx'',
     pf_label = js ''MinMoe Pro Series (K1T6xx)'',
     pf_family = js ''MinMoe Pro'',
     pf_description = js ''K1T671/672/673 and related Pro variants.'',
     pf_models = [Starts (js ''DS-K1T67''), Starts (js ''K1T67'')],
     pf_pattern = js ''standalone_terminal'',
     pf_methods = [js ''face'', js ''card'', js ''fingerprint'', js ''PIN'', js ''QR'', js ''mobile credential where fitted''],
     pf_connections = agent_connections, pf_default = js ''isapi_bridge'',
     pf_aliases = aliases [(ACredentialType, [js ''mask'', js ''helmet'', js ''recognitionMode''])],
     pf_granted = common_granted @ [js ''legalCardPass'', js ''faceMatch'', js ''multiVerifyPass''],
     pf_denied = common_denied @ [js ''invalidCard'', js ''faceMismatch'', js ''multiVerifyFailed'']\<rparr>"

definition profile_ultra_6xx :: profile where
  "profile_ultra_6xx = \<lparr>pf_key = js ''minmoe_ultra_6xx'',
     pf_label = js ''MinMoe Ultra Series (K1T68x and Ultra K1T67x)'',
     pf_family = js ''MinMoe Ultra'',
     pf_description = js ''K1T680/681 and Ultra-labelled K1T67x variants; explicit selection overrides mode'' @
       js ''l auto-detection.'',
     pf_models = [Starts (js ''DS-K1T68''), Starts (js ''K1T68'')],
     pf_pattern = js ''standalone_terminal'',
     pf_methods = [js ''face'', js ''card'', js ''fingerprint'', js ''PIN'', js ''QR'', js ''palm/iris where fitted''],
     pf_connections = agent_connections, pf_default = js ''isapi_bridge'',
     pf_aliases = aliases [(ACredentialType, [js ''irisMode'', js ''palmMode'', js ''recognitionMode''])],
     pf_granted = common_granted @ [js ''legalCardPass'', js ''faceMatch'', js ''palmMatch'', js ''irisMatch''],
     pf_denied = common_denied @ [js ''invalidCard'', js ''faceMismatch'', js ''palmMismatch'', js ''irisMismatch'']\<rparr>"

definition profile_turnstile_module :: profile where
  "profile_turnstile_module = \<lparr>pf_key = js ''minmoe_turnstile_module'',
     pf_label = js ''MinMoe face module for turnstiles'',
     pf_family = js ''MinMoe Module'',
     pf_description = js ''Embedded/turnstile face-recognition modules. Channel and direction mapping must '' @
       js ''be configured explicitly.'',
     pf_models = [Starts (js ''DS-K560''), Starts (js ''DS-K567''), StartsThen (js ''DS-K3'') [js ''FACE'']],
     pf_pattern = js ''turnstile_module'',
     pf_methods = [js ''face'', js ''card'', js ''QR where fitted''],
     pf_connections = agent_connections, pf_default = js ''isapi_bridge'',
     pf_aliases = aliases [(ADirection, [js ''laneDirection'']),
        (ADoorNo, [js ''laneNo'', js ''barrierNo''])],
     pf_granted = common_granted @ [js ''faceMatch'', js ''barrierOpen''],
     pf_denied = common_denied @ [js ''faceMismatch'', js ''barrierDenied'']\<rparr>"

definition profile_qr_terminal :: profile where
  "profile_qr_terminal = \<lparr>pf_key = js ''qr_terminal_k1t807_k1t502'',
     pf_label = js ''QR-capable K1T807 / K1T502 terminal'',
     pf_family = js ''QR Access Terminal'',
     pf_description = js ''DS-K1T807 QRE1 and DS-K1T502 QR/CQR/QRE1 variants with an integrated or fitted Q'' @
       js ''R reader.'',
     pf_models = [StartsThen (js ''DS-K1T807'') [js ''QR''], StartsThen (js ''K1T807'') [js ''QR''], StartsThen (js ''DS-K1T502'') [js ''QR'', js ''CQR''], StartsThen (js ''K1T502'') [js ''QR'', js ''CQR'']],
     pf_pattern = js ''standalone_terminal'',
     pf_methods = [js ''card'', js ''PIN'', js ''QR'', js ''fingerprint/Bluetooth where fitted''],
     pf_connections = agent_connections, pf_default = js ''isapi_bridge'',
     pf_aliases = aliases [(ACardUid, [js ''cardNoString'', js ''qrCode'']),
        (ACredentialType, [js ''qrCodeMode''])],
     pf_granted = common_granted @ [js ''legalCardPass'', js ''qrCodePass''],
     pf_denied = common_denied @ [js ''invalidCard'', js ''invalidQRCode'']\<rparr>"

definition profile_access_terminal_8xx :: profile where
  "profile_access_terminal_8xx = \<lparr>pf_key = js ''access_terminal_8xx'',
     pf_label = js ''K1T8xx card/fingerprint terminal'',
     pf_family = js ''Card / Fingerprint Terminal'',
     pf_description = js ''DS-K1T801/802/804/805/808 and related variants. DS-K1T808MFWX-B supports card, f'' @
       js ''ingerprint and PIN, not an integrated QR camera.'',
     pf_models = [Starts (js ''DS-K1T8''), Starts (js ''K1T8'')],
     pf_pattern = js ''standalone_terminal'',
     pf_methods = [js ''card'', js ''fingerprint where fitted'', js ''PIN''],
     pf_connections = agent_connections, pf_default = js ''isapi_bridge'',
     pf_aliases = aliases [(ACardUid, [js ''cardNoString''])],
     pf_granted = common_granted @ [js ''legalCardPass'', js ''fingerprintPass''],
     pf_denied = common_denied @ [js ''invalidCard'', js ''fingerprintMismatch'']\<rparr>"

definition profile_access_terminal_5xx :: profile where
  "profile_access_terminal_5xx = \<lparr>pf_key = js ''access_terminal_5xx'',
     pf_label = js ''K1T5xx access terminal'',
     pf_family = js ''Access Terminal'',
     pf_description = js ''K1T500/502 and related card/face access-terminal variants.'',
     pf_models = [Starts (js ''DS-K1T5''), Starts (js ''K1T5'')],
     pf_pattern = js ''standalone_terminal'',
     pf_methods = [js ''card'', js ''face where fitted'', js ''fingerprint where fitted'', js ''PIN''],
     pf_connections = agent_connections, pf_default = js ''isapi_bridge'',
     pf_aliases = aliases [(ACardUid, [js ''cardNoString''])],
     pf_granted = common_granted @ [js ''legalCardPass''],
     pf_denied = common_denied @ [js ''invalidCard'']\<rparr>"

definition profile_attendance_k1a :: profile where
  "profile_attendance_k1a = \<lparr>pf_key = js ''attendance_k1a'',
     pf_label = js ''K1A attendance / access terminal'',
     pf_family = js ''Time Attendance'',
     pf_description = js ''K1A-series attendance terminals when used for access events.'',
     pf_models = [Starts (js ''DS-K1A''), Starts (js ''K1A'')],
     pf_pattern = js ''attendance_terminal'',
     pf_methods = [js ''face'', js ''card'', js ''fingerprint'', js ''PIN''],
     pf_connections = agent_connections, pf_default = js ''isapi_bridge'',
     pf_aliases = aliases [(ADirection, [js ''attendanceStatus'', js ''label'']),
        (ATimestamp, [js ''attendanceTime''])],
     pf_granted = common_granted @ [js ''checkIn'', js ''checkOut''],
     pf_denied = common_denied\<rparr>"

definition profile_controller_k2600 :: profile where
  "profile_controller_k2600 = \<lparr>pf_key = js ''controller_k2600'',
     pf_label = js ''DS-K2600 network access controller'',
     pf_family = js ''Network Controller'',
     pf_description = js ''DS-K2601/2602/2604 multi-door controllers with reader/door channel mapping.'',
     pf_models = [Starts (js ''DS-K260''), Starts (js ''K260'')],
     pf_pattern = js ''multi_door_controller'',
     pf_methods = [js ''card'', js ''PIN'', js ''reader-dependent biometrics''],
     pf_connections = agent_connections, pf_default = js ''isapi_bridge'',
     pf_aliases = aliases [(ADoorNo, [js ''doorNo'', js ''cardReaderNo'']),
        (ADirection, [js ''cardReaderKind''])],
     pf_granted = common_granted @ [js ''legalCardPass'', js ''normalCard''],
     pf_denied = common_denied @ [js ''invalidCard'', js ''interlock'', js ''antiPassback'']\<rparr>"

definition profile_controller_k2700_k2800 :: profile where
  "profile_controller_k2700_k2800 = \<lparr>pf_key = js ''controller_k2700_k2800'',
     pf_label = js ''DS-K2700 / K2800 controller family'',
     pf_family = js ''Network Controller'',
     pf_description = js ''Multi-door access controllers; capabilities differ significantly by generation a'' @
       js ''nd suffix.'',
     pf_models = [Starts (js ''DS-K27''), Starts (js ''DS-K28''), Starts (js ''K27''), Starts (js ''K28'')],
     pf_pattern = js ''multi_door_controller'',
     pf_methods = [js ''card'', js ''PIN'', js ''reader-dependent biometrics''],
     pf_connections = agent_connections, pf_default = js ''isapi_bridge'',
     pf_aliases = aliases [(ADoorNo, [js ''doorNo'', js ''readerNo'']),
        (ADirection, [js ''readerDirection''])],
     pf_granted = common_granted @ [js ''legalCardPass'', js ''normalCard''],
     pf_denied = common_denied @ [js ''invalidCard'', js ''interlock'', js ''antiPassback'']\<rparr>"

definition profile_generic_network_access :: profile where
  "profile_generic_network_access = \<lparr>pf_key = js ''generic_network_access'',
     pf_label = js ''Other network access-control device'',
     pf_family = js ''Vendor-neutral network access'',
     pf_description = js ''Explicit profile for a non-Hikvision controller or terminal that can send authen'' @
       js ''ticated JSON/XML HTTP events using mapped common fields.'',
     pf_models = [],
     pf_pattern = js ''standalone_terminal'',
     pf_methods = [js ''card'', js ''PIN'', js ''QR or biometrics when provided by the device''],
     pf_connections = [js ''manual_sync''], pf_default = js ''manual_sync'',
     pf_aliases = aliases [],
     pf_granted = common_granted,
     pf_denied = common_denied\<rparr>"

definition profile_zkteco_push :: profile where
  "profile_zkteco_push = \<lparr>pf_key = js ''zkteco_push'',
     pf_label = js ''ZKTeco/eSSL terminal on the PUSH (ADMS) transport'',
     pf_family = js ''Vendor-neutral access'',
     pf_description = js ''A ZKTeco access terminal that dials the EstateMate agent over the PUSH (ADMS/iCl'' @
       js ''ock) protocol. The agent translates a push record into the access-event shape Es'' @
       js ''tateMate normalises; events stay attributable by the terminal User ID. Capabilit'' @
       js ''y limits, including the numeric User ID rule, are recorded in docs/device-profil'' @
       js ''es/ZKTECO-PUSH.md.'',
     pf_models = [Starts (js ''ZK''), Starts (js ''ZAM''), Starts (js ''SF''), Starts (js ''SENSEFACE''), Starts (js ''SPEEDFACE''), Starts (js ''UA''), Starts (js ''MB''), StartsDigit (js ''X''), Starts (js ''IFACE''), Starts (js ''UFACE''), Starts (js ''EFACE''), Starts (js ''ICLOCK''), Starts (js ''K14''), Starts (js ''ESSL''), Starts (js ''INBIO''), Starts (js ''IN-BIO'')],
     pf_pattern = js ''standalone_terminal'',
     pf_methods = [js ''card'', js ''PIN''],
     pf_connections = agent_connections, pf_default = js ''isapi_bridge'',
     pf_aliases = aliases [(ACardUid, [js ''Card'', js ''cardNo'', js ''CardNo'', js ''credentialNo'']),
        (AEmployeeNo, [js ''PIN'', js ''UserID'', js ''employeeNoString'', js ''employeeNo'', js ''personId'', js ''userID'']),
        (APersonName, [js ''Name'', js ''name'', js ''employeeName'', js ''personName'']),
        (ATimestamp, [js ''Time'', js ''dateTime'', js ''time'', js ''eventTime'', js ''occurTime'']),
        (ACredentialType, [js ''VerifyMode'', js ''currentVerifyMode'', js ''verifyMode'', js ''credentialType'', js ''authType'']),
        (AStatus, [js ''Enable'', js ''eventState'', js ''status'', js ''currentVerifyMode'', js ''verifyMode'']),
        (ADescription, [js ''statusCode'', js ''workCode'', js ''eventDescription'', js ''subEventType'', js ''minorEventType'', js ''minor'', js ''attendanceStatus'']),
        (ADoorNo, [js ''doorNo'', js ''LockID'', js ''doorIndex'', js ''channelID'', js ''channelId''])],
     pf_granted = common_granted,
     pf_denied = common_denied\<rparr>"

definition profile_generic_isapi :: profile where
  "profile_generic_isapi = \<lparr>pf_key = js ''generic_isapi'',
     pf_label = js ''Generic Hikvision ISAPI access device'',
     pf_family = js ''Generic ISAPI'',
     pf_description = js ''Conservative fallback for unlisted models. Events are retained with unknown valu'' @
       js ''es instead of guessed mappings.'',
     pf_models = [AnyModel],
     pf_pattern = js ''standalone_terminal'',
     pf_methods = [js ''unknown''],
     pf_connections = agent_connections, pf_default = js ''isapi_bridge'',
     pf_aliases = aliases [],
     pf_granted = common_granted,
     pf_denied = common_denied\<rparr>"

definition hikvision_profiles :: "profile list" where
  "hikvision_profiles =
    [profile_value_3xx, profile_pro_6xx, profile_ultra_6xx, profile_turnstile_module, profile_qr_terminal, profile_access_terminal_8xx, profile_access_terminal_5xx, profile_attendance_k1a, profile_controller_k2600, profile_controller_k2700_k2800, profile_generic_network_access, profile_zkteco_push, profile_generic_isapi]"

definition generic_key :: jstr where "generic_key = js ''generic_isapi''"

definition get_hikvision_profile :: "jstr option \<Rightarrow> profile" where
  "get_hikvision_profile key =
     (case List.find (\<lambda>p. Some (pf_key p) = key) hikvision_profiles of
        Some p \<Rightarrow> p
      | None \<Rightarrow> the (List.find (\<lambda>p. pf_key p = generic_key) hikvision_profiles))"

definition resolve_hikvision_profile :: "jstr option \<Rightarrow> jstr option \<Rightarrow> profile" where
  "resolve_hikvision_profile model requested =
     (if (case requested of None \<Rightarrow> False | Some r \<Rightarrow> r \<noteq> [] \<and> r \<noteq> js ''auto'') then get_hikvision_profile requested
      else let normalized = (case model of None \<Rightarrow> [] | Some m \<Rightarrow> upper (trim m)) in
        case List.find (\<lambda>p. pf_key p \<noteq> generic_key \<and> list_ex (\<lambda>q. matches_model q normalized) (pf_models p))
               hikvision_profiles of
          Some p \<Rightarrow> p
        | None \<Rightarrow> get_hikvision_profile (Some generic_key))"

definition is_connection_supported :: "profile \<Rightarrow> jstr \<Rightarrow> bool" where
  "is_connection_supported p c \<longleftrightarrow> c \<in> set (pf_connections p)"

subsection \<open>The table\<close>

lemmas profile_defs = profile_value_3xx_def profile_pro_6xx_def profile_ultra_6xx_def
  profile_turnstile_module_def profile_qr_terminal_def profile_access_terminal_8xx_def
  profile_access_terminal_5xx_def profile_attendance_k1a_def profile_controller_k2600_def
  profile_controller_k2700_k2800_def profile_generic_network_access_def profile_zkteco_push_def
  profile_generic_isapi_def

lemma profile_keys: "distinct (map pf_key hikvision_profiles)"
  by (simp add: hikvision_profiles_def profile_defs)

lemma generic_in_table: "List.find (\<lambda>p. pf_key p = generic_key) hikvision_profiles = Some profile_generic_isapi"
  by (simp add: hikvision_profiles_def profile_defs generic_key_def)

lemma get_profile_by_key:
  assumes "p \<in> set hikvision_profiles"
  shows "get_hikvision_profile (Some (pf_key p)) = p"
proof -
  obtain q where q: "List.find (\<lambda>r. pf_key r = pf_key p) hikvision_profiles = Some q"
    using assms by (cases "List.find (\<lambda>r. pf_key r = pf_key p) hikvision_profiles") (auto simp: find_None_iff_set)
  then have "q \<in> set hikvision_profiles" "pf_key q = pf_key p" using find_Some_set [OF q] by auto
  then have "q = p" using assms profile_keys by (meson distinct_map inj_onD)
  with q show ?thesis by (simp add: get_hikvision_profile_def)
qed

lemma get_profile_in_table: "get_hikvision_profile k \<in> set hikvision_profiles"
proof (cases "List.find (\<lambda>p. Some (pf_key p) = k) hikvision_profiles")
  case None
  then show ?thesis
    using find_Some_set [OF generic_in_table] by (simp add: get_hikvision_profile_def generic_in_table)
next
  case (Some p)
  then show ?thesis using find_Some_set [OF Some] by (simp add: get_hikvision_profile_def)
qed

subsection \<open>Properties\<close>

text \<open>
  A requested profile is honoured whatever the model is, an unknown request falls back to the
  generic profile, and an automatic choice is either a profile one of whose patterns matches the
  model or, when none does, the generic one. Every profile offers its own default connection.
\<close>

theorem profile_choice:
  "(\<forall>p\<in>set hikvision_profiles. resolve_hikvision_profile model (Some (pf_key p)) = p
      \<and> is_connection_supported p (pf_default p))
   \<and> (\<forall>r. r \<noteq> [] \<longrightarrow> r \<noteq> js ''auto'' \<longrightarrow> r \<notin> pf_key ` set hikvision_profiles
        \<longrightarrow> resolve_hikvision_profile model (Some r) = profile_generic_isapi)
   \<and> (let p = resolve_hikvision_profile model (Some (js ''auto'')) in
        (p \<in> set hikvision_profiles \<and> (\<exists>q\<in>set (pf_models p). matches_model q (upper (trim (case model of None \<Rightarrow> [] | Some m \<Rightarrow> m)))))
        \<and> (p = profile_generic_isapi \<longleftrightarrow>
            (\<forall>p'\<in>set hikvision_profiles. \<forall>q\<in>set (pf_models p').
               matches_model q (upper (trim (case model of None \<Rightarrow> [] | Some m \<Rightarrow> m))) \<longrightarrow> pf_key p' = generic_key)))"
proof -
  have explicit: "resolve_hikvision_profile model (Some (pf_key p)) = p
      \<and> is_connection_supported p (pf_default p)" if p: "p \<in> set hikvision_profiles" for p
  proof -
    have "pf_key p \<noteq> [] \<and> pf_key p \<noteq> js ''auto'' \<and> pf_default p \<in> set (pf_connections p)"
      using p by (auto simp: hikvision_profiles_def profile_defs agent_connections_def)
    then show ?thesis
      using get_profile_by_key [OF p] by (simp add: resolve_hikvision_profile_def is_connection_supported_def)
  qed
  have unknown: "resolve_hikvision_profile model (Some r) = profile_generic_isapi"
    if "r \<noteq> []" "r \<noteq> js ''auto''" "r \<notin> pf_key ` set hikvision_profiles" for r
  proof -
    have "List.find (\<lambda>p. Some (pf_key p) = Some r) hikvision_profiles = None"
      using that(3) by (auto simp: find_None_iff_set)
    then show ?thesis using that(1,2)
      by (simp add: resolve_hikvision_profile_def get_hikvision_profile_def generic_in_table)
  qed
  define n where "n = upper (trim (case model of None \<Rightarrow> [] | Some m \<Rightarrow> m))"
  have n: "(case model of None \<Rightarrow> [] | Some m \<Rightarrow> upper (trim m)) = n"
    by (cases model) (simp_all add: n_def)
  let ?ok = "\<lambda>p. pf_key p \<noteq> generic_key \<and> list_ex (\<lambda>q. matches_model q n) (pf_models p)"
  define p where "p = resolve_hikvision_profile model (Some (js ''auto''))"
  have gen: "get_hikvision_profile (Some generic_key) = profile_generic_isapi"
    by (simp add: get_hikvision_profile_def generic_in_table)
  have p: "p = (case List.find ?ok hikvision_profiles of Some p \<Rightarrow> p | None \<Rightarrow> profile_generic_isapi)"
    by (simp add: p_def resolve_hikvision_profile_def n gen Let_def split: option.split)
  have key: "pf_key profile_generic_isapi = generic_key" "profile_generic_isapi \<in> set hikvision_profiles"
    "AnyModel \<in> set (pf_models profile_generic_isapi)"
    by (simp_all add: profile_generic_isapi_def generic_key_def hikvision_profiles_def)
  have auto: "p \<in> set hikvision_profiles \<and> (\<exists>q\<in>set (pf_models p). matches_model q n)
      \<and> (p = profile_generic_isapi \<longleftrightarrow>
          (\<forall>p'\<in>set hikvision_profiles. \<forall>q\<in>set (pf_models p'). matches_model q n \<longrightarrow> pf_key p' = generic_key))"
  proof (cases "List.find ?ok hikvision_profiles")
    case None
    then have "p = profile_generic_isapi" by (simp add: p)
    with None key show ?thesis by (auto simp: find_None_iff_set list_ex_iff intro: bexI [of _ AnyModel])
  next
    case (Some r)
    then have "r \<in> set hikvision_profiles" "?ok r" using find_Some_set [OF Some] by auto
    moreover have "p = r" using Some by (simp add: p)
    ultimately show ?thesis using key by (auto simp: list_ex_iff)
  qed
  show ?thesis
    using explicit unknown auto unfolding Let_def p_def n_def by blast
qed

theorem profile_choice_witness:
  "resolve_hikvision_profile (Some (js ''DS-K1T673'')) (Some (js ''zkteco_push'')) = profile_zkteco_push
   \<and> profile_zkteco_push \<in> set hikvision_profiles"
proof -
  have k: "pf_key profile_zkteco_push = js ''zkteco_push''" "profile_zkteco_push \<in> set hikvision_profiles"
    by (simp_all add: profile_zkteco_push_def hikvision_profiles_def)
  show ?thesis using profile_choice [of "Some (js ''DS-K1T673'')"] k by metis
qed

end
