(* ===== verification/VisitorGate.thy ===== *)
theory VisitorGate
  imports VisitorDevices VisitorPass Properties Profiles
begin

text \<open>
  The routes of \<^verbatim>\<open>index.ts\<close> that issue a visitor pass (\<open>POST /api/visitors\<close>),
  preview it at a gate (\<open>.../scan\<close>), decide on it (\<open>.../:id/decision\<close>) and revoke it
  remotely. A handler returns its response, or the status and text of an error, with the database
  it leaves. Random draws and the identity of the caller are arguments; audit entries are not
  modelled.
\<close>

type_synonym 'a response = "(nat \<times> jstr, 'a) result"

text \<open>What \<open>app.onError\<close> answers for a failed statement.\<close>

definition internal_error :: "nat \<times> jstr" where
  "internal_error = (500, js ''The server could not complete the request'')"

definition unique_error :: "nat \<times> jstr" where
  "unique_error = (409, js ''A record with that unique value already exists'')"

subsection \<open>Helpers\<close>

definition hex_or_dash :: "nat \<Rightarrow> bool" where
  "hex_or_dash c \<longleftrightarrow> is_digit c \<or> c = 45 \<or> (97 \<le> c \<and> c \<le> 102) \<or> (65 \<le> c \<and> c \<le> 70)"

text \<open>\<open>/^github\/[0-9a-f-]{36}$/i\<close>.\<close>

definition is_proof_key :: "jstr \<Rightarrow> bool" where
  "is_proof_key k \<longleftrightarrow> length k = 43 \<and> lower (take 7 k) = js ''github/'' \<and> list_all hex_or_dash (drop 7 k)"

fun dedup :: "'a list \<Rightarrow> 'a list" where
  "dedup [] = []"
| "dedup (x # xs) = x # filter (\<lambda>y. y \<noteq> x) (dedup xs)"

definition proof_keys :: "jval \<Rightarrow> jstr list" where
  "proof_keys v = (case v of Arr vs \<Rightarrow> take 5 (dedup (filter is_proof_key (map to_string vs))) | _ \<Rightarrow> [])"

definition link_proof_files :: "jstr list \<Rightarrow> jstr \<Rightarrow> jstr \<Rightarrow> jstr \<Rightarrow> db \<Rightarrow> db" where
  "link_proof_files keys etype eid uploader db =
     (if keys = [] then db
      else db\<lparr>t_files := update_where
            (\<lambda>f. sf_key f \<in> set keys \<and> sf_uploader f = uploader \<and> sf_status f = js ''active'' \<and> sf_entity f = None)
            (\<lambda>f. f\<lparr>sf_entity_type := Some etype, sf_entity := Some eid\<rparr>) (t_files db)\<rparr>)"

definition new_visitor_pin :: "nat \<Rightarrow> jstr" where
  "new_visitor_pin r = pad_start visitor_pin_digits 48 (show_nat (r mod 10 ^ visitor_pin_digits))"

definition credential_of :: "nat \<times> nat \<Rightarrow> jstr" where
  "credential_of r = pad_start 6 48 (show_nat (fst r mod 1000000)) @ pad_start 6 48 (show_nat (snd r mod 1000000))"

text \<open>Ten draws at most; \<open>None\<close> is the thrown error.\<close>

fun new_visitor_credential :: "db \<Rightarrow> (nat \<times> nat) list \<Rightarrow> jstr option" where
  "new_visitor_credential db [] = None"
| "new_visitor_credential db (r # rs) =
     (if list_ex (\<lambda>v. v_credential v = Some (credential_of r)) (t_visitors db)
      then new_visitor_credential db rs else Some (credential_of r))"

definition masked_credential :: "jstr \<Rightarrow> jstr" where
  "masked_credential s =
     (if length s \<le> 4 then js ''****''
      else replicate (min 8 (length s - 4)) 42 @ slice_last 4 s)"

text \<open>\<open>VISITS_USED_SQL\<close>.\<close>

definition visits_used :: "db \<Rightarrow> jstr \<Rightarrow> nat" where
  "visits_used db vid =
     length (filter (\<lambda>s. s_visitor s = Some vid \<and> s_decision s = js ''accepted'' \<and> s_action s = Some (js ''in''))
       (t_scans db))"

definition window_of :: "db \<Rightarrow> visitor \<Rightarrow> pass_window" where
  "window_of db v = \<lparr>pw_valid_from = Str (v_valid_from v), pw_valid_until = Str (v_valid_until v),
     pw_status = Str (v_status v), pw_visit_times = Num (v_visit_times v),
     pw_visits_used = Num (int (visits_used db (v_id v)))\<rparr>"

subsection \<open>Issuing a pass\<close>

record create_body =
  cb_name :: "jstr option"
  cb_phone :: "jstr option"
  cb_from :: "jstr option"
  cb_until :: "jstr option"
  cb_resident :: "jstr option"
  cb_property :: "jstr option"
  cb_device :: "jstr option"
  cb_proofs :: jval
  cb_gate_id :: jval
  cb_person_type :: jval
  cb_visit_times :: jval
  cb_purpose :: jval
  cb_purpose_other :: jval
  cb_remark :: jval

record actor =
  act_id :: jstr
  act_role :: jstr

record pass_draws =
  pd_id :: jstr
  pd_pin :: nat
  pd_qr :: jstr
  pd_credentials :: "(nat \<times> nat) list"

definition blank :: "jstr option \<Rightarrow> bool" where
  "blank x \<longleftrightarrow> (case x of None \<Rightarrow> True | Some s \<Rightarrow> trim s = [])"

definition requires_gate_id :: "jval \<Rightarrow> int" where
  "requires_gate_id v =
     (if v = Bool True \<or> v = Num 1 \<or> v = Str (js ''1'') \<or> v = Str (js ''mandatory'') then 1 else 0)"

definition credential_mode :: "device option \<Rightarrow> jstr" where
  "credential_mode dev =
     (case dev of
        None \<Rightarrow> js ''hybrid''
      | Some d \<Rightarrow> let ms = pf_methods (get_hikvision_profile (Some (d_profile d))) in
          if js ''QR'' \<in> set ms then js ''qr'' else if js ''PIN'' \<in> set ms then js ''pin'' else js ''hybrid'')"

record created_pass =
  cp_pass :: visitor
  cp_queued :: nat
  cp_validity_days :: int
  cp_account_state :: account_state

text \<open>The property the pass is for: the named one if the resident may, or the only default.\<close>

definition choose_property :: "host \<Rightarrow> int \<Rightarrow> db \<Rightarrow> jstr \<Rightarrow> jstr option \<Rightarrow> jstr response" where
  "choose_property H now db resident named =
     (if truthy_text named then
        (case property_relationship H now db resident (the named) of
           Some r \<Rightarrow> if rel_visitors r then Inr (the named)
                     else Inl (403, js ''This resident cannot create visitors for the selected property'')
         | None \<Rightarrow> Inl (403, js ''This resident cannot create visitors for the selected property''))
      else (case visitor_properties H now db resident of
           [] \<Rightarrow> Inl (400, js ''The resident has no property with visitor permission'')
         | [p] \<Rightarrow> Inr p
         | _ \<Rightarrow> Inl (400, js ''propertyId is required because the resident can manage multiple properties'')))"

definition choose_device :: "db \<Rightarrow> actor \<Rightarrow> jstr option \<Rightarrow> device option response" where
  "choose_device db who dev =
     (if truthy_text dev \<and> act_role who \<noteq> js ''resident'' then
        (case List.find (\<lambda>d. Some (d_id d) = dev) (enabled_devices db) of
           Some d \<Rightarrow> Inr (Some d)
         | None \<Rightarrow> Inl (404, js ''Selected access-control device is unavailable''))
      else Inr None)"

definition check_reading :: "'a read_result \<Rightarrow> 'a response" where
  "check_reading r = (case rr_error r of Some e \<Rightarrow> Inl (400, e) | None \<Rightarrow> Inr (rr_value r))"

record pass_request =
  rq_from :: int
  rq_until :: int
  rq_type :: person_type
  rq_visits :: int
  rq_purpose :: purpose_reading
  rq_remark :: "jstr option"
  rq_resident :: jstr
  rq_property :: jstr
  rq_device :: "device option"

text \<open>Every check of the handler, in its order; nothing is written before they all pass.\<close>

definition validate_pass :: "host \<Rightarrow> int \<Rightarrow> actor \<Rightarrow> create_body \<Rightarrow> db \<Rightarrow> pass_request response" where
  "validate_pass H now who b db =
    (let tz = estate_time_zone H db; P = h_platform H;
         rules = visitor_account_rules (t_settings db);
         operator = (act_role who = js ''admin'' \<or> act_role who = js ''manager'') in
     guard (\<not> blank (cb_name b) \<and> truthy_text (cb_from b) \<and> truthy_text (cb_until b))
       (400, js ''visitorName, validFrom and validUntil are required'')
     (rbind (check_reading (read_visitor_person_type (if operator then cb_person_type b else Undef) (vr_person_type rules)))
       (\<lambda>ptype. rbind (check_reading (read_visit_times (cb_visit_times b)))
       (\<lambda>visits. rbind (check_reading (read_visitor_purpose (cb_purpose b) (cb_purpose_other b)))
       (\<lambda>purpose. rbind (check_reading (read_visitor_remark (cb_remark b)))
       (\<lambda>remark.
         (case (parse_estate_instant_ms P (Str (the (cb_from b))) tz Start,
                parse_estate_instant_ms P (Str (the (cb_until b))) tz End) of
            (Some f, Some u) \<Rightarrow>
              guard (f < u) (400, js ''validUntil must be after validFrom'')
              (guard (within_visitor_validity f u (vr_max_days rules)) (400, visitor_validity_error (vr_max_days rules))
              (let resident = (if act_role who = js ''resident'' then Some (act_id who) else cb_resident b) in
               guard (truthy_text resident) (400, js ''residentId is required'')
               (rbind (choose_property H now db (the resident) (cb_property b))
                 (\<lambda>p. rbind (choose_device db who (cb_device b))
                   (\<lambda>dev. Inr \<lparr>rq_from = f, rq_until = u, rq_type = ptype, rq_visits = visits,
                       rq_purpose = purpose, rq_remark = remark, rq_resident = the resident,
                       rq_property = p, rq_device = dev\<rparr>)))))
          | _ \<Rightarrow> Inl (400, js ''validFrom and validUntil must be readable dates''))))))))"

definition new_pass_row :: "int \<Rightarrow> create_body \<Rightarrow> pass_draws \<Rightarrow> jstr \<Rightarrow> pass_request \<Rightarrow> visitor" where
  "new_pass_row now b d cred q =
     \<lparr>v_id = pd_id d, v_resident = rq_resident q, v_property = Some (rq_property q),
      v_name = trim (the (cb_name b)), v_phone = map_option trim (cb_phone b),
      v_pin = new_visitor_pin (pd_pin d), v_qr = pd_qr d, v_credential = Some cred, v_barcode = Some cred,
      v_credential_mode = credential_mode (rq_device q), v_device = map_option d_id (rq_device q),
      v_gate_scope = (if rq_device q = None then js ''both'' else js ''gate''),
      v_requires_approval = 1, v_require_gate_id = requires_gate_id (cb_gate_id b),
      v_status = js ''active'', v_valid_from = iso_string (rq_from q), v_valid_until = iso_string (rq_until q),
      v_person_type = person_type_id (rq_type q), v_visit_times = rq_visits q,
      v_purpose = pr_purpose (rq_purpose q), v_purpose_other = pr_other (rq_purpose q), v_remark = rq_remark q,
      v_checked_in_at = None, v_checked_in_by = None, v_checked_out_at = None, v_rejected_at = None,
      v_rejected_by = None, v_rejection_note = None, v_gate_proof = None, v_gate_verified_at = None,
      v_gate_verified_by = None, v_account = NoAccount, v_provisioned_at = None, v_removed_at = None,
      v_removed_reason = None, v_created = sql_now now\<rparr>"

text \<open>A visitor row clashes on its PIN, its QR token or its credential.\<close>

definition row_clashes :: "visitor \<Rightarrow> db \<Rightarrow> bool" where
  "row_clashes v db \<longleftrightarrow> list_ex (\<lambda>w. v_id w = v_id v \<or> v_pin w = v_pin v \<or> v_qr w = v_qr v
      \<or> (v_credential v \<noteq> None \<and> v_credential w = v_credential v)) (t_visitors db)"

definition create_visitor ::
    "host \<Rightarrow> int \<Rightarrow> actor \<Rightarrow> pass_draws \<Rightarrow> create_body \<Rightarrow> db \<Rightarrow> created_pass response \<times> db" where
  "create_visitor H now who d b db =
    (case validate_pass H now who b db of
       Inl e \<Rightarrow> (Inl e, db)
     | Inr q \<Rightarrow>
         (case new_visitor_credential db (take 10 (pd_credentials d)) of
            None \<Rightarrow> (Inl internal_error, db)
          | Some cred \<Rightarrow>
              let row = new_pass_row now b d cred q in
              if row_clashes row db then (Inl unique_error, db)
              else
                let db1 = link_proof_files (proof_keys (cb_proofs b)) (js ''visitor_request'') (pd_id d) (act_id who)
                            (db\<lparr>t_visitors := t_visitors db @ [row]\<rparr>);
                    (queued, db2) = queue_visitor_device_operations H now (pd_id d) (v_device row)
                      (visitor_payload cred (v_name row) (v_pin row) (v_valid_from row) (v_valid_until row)
                         (estate_time_zone H db) True (rq_type q) (rq_visits q)) db1
                in (Inr \<lparr>cp_pass = row, cp_queued = queued,
                     cp_validity_days = max 1 ((2 * (rq_until q - rq_from q) + 86400000) div 172800000),
                     cp_account_state =
                       (case List.find (\<lambda>v. v_id v = pd_id d) (t_visitors db2) of
                          None \<Rightarrow> NoAccount | Some v \<Rightarrow> v_account v)\<rparr>, db2)))"

subsection \<open>Scanning a pass\<close>

record scan_body =
  sb_code :: "jstr option"
  sb_source :: "jstr option"

record gate_actor = actor +
  act_gate :: "jstr option"

record scan_view =
  sv_scan :: jstr
  sv_valid :: bool
  sv_reason :: "pass_reason option"
  sv_visit_times :: int
  sv_visits_used :: int
  sv_remaining :: int

definition scan_row :: "jstr \<Rightarrow> jstr option \<Rightarrow> jstr \<Rightarrow> jstr \<Rightarrow> jstr \<Rightarrow> jstr \<Rightarrow> jstr option \<Rightarrow> scan" where
  "scan_row sid vid by src code decision note =
     \<lparr>s_id = sid, s_visitor = vid, s_by = by, s_source = src, s_masked = masked_credential code,
      s_decision = decision, s_action = None, s_note = note\<rparr>"

definition add_scan :: "scan \<Rightarrow> db \<Rightarrow> db" where
  "add_scan s db = db\<lparr>t_scans := t_scans db @ [s]\<rparr>"

definition carries_code :: "jstr \<Rightarrow> visitor \<Rightarrow> bool" where
  "carries_code code v \<longleftrightarrow>
     v_pin v = code \<or> v_qr v = code \<or> v_credential v = Some code \<or> v_barcode v = Some code"

definition scan_visitor ::
    "host \<Rightarrow> int \<Rightarrow> gate_actor \<Rightarrow> jstr \<Rightarrow> scan_body \<Rightarrow> db \<Rightarrow> scan_view response \<times> db" where
  "scan_visitor H now who sid b db =
    (if blank (sb_code b) then (Inl (400, js ''Visitor QR, barcode or PIN is required''), db)
     else
       let code = trim (the (sb_code b)); src = coalesce (sb_source b) (js ''manual'');
           db1 = snd (release_expired_visitor_device_accounts H now db) in
       case List.find (\<lambda>v. carries_code code v \<and> list_ex (\<lambda>u. u_id u = v_resident v) (t_users db1)) (t_visitors db1) of
         None \<Rightarrow> (Inl (404, js ''Visitor pass not found''),
                  add_scan (scan_row sid None (act_id who) src code (js ''invalid'') None) db1)
       | Some v \<Rightarrow>
           if truthy_text (act_gate who) \<and> v_gate_scope v = js ''gate'' \<and> v_device v \<noteq> act_gate who then
             (Inl (403, js ''This pass was issued for a different gate. Direct the visitor to that gate.''),
              add_scan (scan_row sid (Some (v_id v)) (act_id who) src code (js ''invalid'')
                (Some (js ''Presented at a gate the pass was not issued for''))) db1)
           else
             let e = evaluate_visitor_pass (h_platform H) (window_of db1 v) (estate_time_zone H db1) now;
                 times = rr_value (read_visit_times (Num (v_visit_times v)));
                 used = int (visits_used db1 (v_id v))
             in (Inr \<lparr>sv_scan = sid, sv_valid = ev_valid e, sv_reason = ev_reason e,
                   sv_visit_times = times, sv_visits_used = used, sv_remaining = max 0 (times - used)\<rparr>,
                 add_scan (scan_row sid (Some (v_id v)) (act_id who) src code (js ''previewed'') None) db1))"

subsection \<open>Deciding on a scan\<close>

record decision_body =
  db_decision :: "jstr option"
  db_action :: "jstr option"
  db_scan :: "jstr option"
  db_note :: "jstr option"
  db_proofs :: jval
  db_proof :: "jstr option"

record decision_view =
  dv_decision :: jstr
  dv_action :: "jstr option"
  dv_used :: int
  dv_remaining :: int

definition check_in_row :: "int \<Rightarrow> jstr \<Rightarrow> jstr option \<Rightarrow> visitor \<Rightarrow> visitor" where
  "check_in_row now by proof_key v =
     v\<lparr>v_status := js ''checked_in'', v_checked_in_at := Some (sql_now now), v_checked_in_by := Some by,
       v_gate_proof := (case proof_key of None \<Rightarrow> v_gate_proof v | Some k \<Rightarrow> Some k),
       v_gate_verified_at := (if proof_key = None then v_gate_verified_at v else Some (sql_now now)),
       v_gate_verified_by := (if proof_key = None then v_gate_verified_by v else Some by),
       v_rejected_at := None, v_rejected_by := None, v_rejection_note := None\<rparr>"

definition check_out_row :: "int \<Rightarrow> visitor \<Rightarrow> visitor" where
  "check_out_row now v = v\<lparr>v_status := js ''checked_out'', v_checked_out_at := Some (sql_now now)\<rparr>"

definition reject_row :: "int \<Rightarrow> jstr \<Rightarrow> jstr option \<Rightarrow> visitor \<Rightarrow> visitor" where
  "reject_row now by note v =
     v\<lparr>v_rejected_at := Some (sql_now now), v_rejected_by := Some by,
       v_rejection_note := Some (case note of None \<Rightarrow> js ''Rejected by gate security'' | Some n \<Rightarrow> trim n)\<rparr>"

definition update_visitor :: "jstr \<Rightarrow> (visitor \<Rightarrow> visitor) \<Rightarrow> db \<Rightarrow> db" where
  "update_visitor vid f db = db\<lparr>t_visitors := update_where (\<lambda>v. v_id v = vid) f (t_visitors db)\<rparr>"

definition was_inside :: "visitor \<Rightarrow> bool" where
  "was_inside v \<longleftrightarrow> v_status v = js ''checked_in'' \<or> (v_status v = js ''expired'' \<and> v_checked_in_at v \<noteq> None)"

definition gate_proofs :: "decision_body \<Rightarrow> jstr list" where
  "gate_proofs b = proof_keys
     (if nullish (db_proofs b)
      then (if truthy_text (db_proof b) then Arr [Str (the (db_proof b))] else Arr [])
      else db_proofs b)"

text \<open>
  The last statement stores the submitted action, not the defaulted one; the column only admits
  \<open>in\<close>, \<open>out\<close> and null, and a violation aborts after the visitor row was updated.
\<close>

definition record_decision :: "jstr \<Rightarrow> jstr \<Rightarrow> decision_body \<Rightarrow> db \<Rightarrow> unit response \<times> db" where
  "record_decision by decision b db =
     (if db_action b \<noteq> None \<and> the (db_action b) \<notin> {js ''in'', js ''out''} then (Inl internal_error, db)
      else (Inr (), db\<lparr>t_scans := update_where (\<lambda>s. Some (s_id s) = db_scan b \<and> s_by s = by)
             (\<lambda>s. s\<lparr>s_decision := decision, s_action := db_action b, s_note := map_option trim (db_note b)\<rparr>)
             (t_scans db)\<rparr>))"

definition apply_decision :: "int \<Rightarrow> actor \<Rightarrow> visitor \<Rightarrow> jstr \<Rightarrow> jstr \<Rightarrow> decision_body \<Rightarrow> db \<Rightarrow> db" where
  "apply_decision now who v decision action b db =
     (if decision = js ''accepted'' then
        let proofs = gate_proofs b;
            first_proof = (case proofs of [] \<Rightarrow> None | k # _ \<Rightarrow> Some k);
            db1 = (if proofs = [] then db
                   else link_proof_files proofs (js ''visitor_request'') (v_id v) (act_id who) db)
        in if action = js ''in'' then update_visitor (v_id v) (check_in_row now (act_id who) first_proof) db1
           else update_visitor (v_id v) (check_out_row now) db1
      else update_visitor (v_id v) (reject_row now (act_id who) (db_note b)) db)"

text \<open>The checks before anything is written, in the order of the handler.\<close>

definition decision_checks ::
    "host \<Rightarrow> int \<Rightarrow> actor \<Rightarrow> jstr \<Rightarrow> decision_body \<Rightarrow> db \<Rightarrow> (jstr \<times> visitor) response" where
  "decision_checks H now who vid b db =
    (let decision = coalesce (db_decision b) []; action = coalesce (db_action b) (js ''in'') in
     guard (decision \<in> {js ''accepted'', js ''rejected''}) (400, js ''decision must be accepted or rejected'')
     (guard (truthy_text (db_scan b)) (400, js ''Preview the scanned visitor code before making a decision'')
     (guard (list_ex (\<lambda>s. Some (s_id s) = db_scan b \<and> s_visitor s = Some vid \<and> s_by s = act_id who
               \<and> s_decision s = js ''previewed'') (t_scans db))
       (409, js ''This visitor scan is missing, already decided, or belongs to another security user'')
     (case List.find (\<lambda>v. v_id v = vid) (t_visitors db) of
        None \<Rightarrow> Inl (404, js ''Visitor pass not found'')
      | Some v \<Rightarrow>
          let e = evaluate_visitor_pass (h_platform H) (window_of db v) (estate_time_zone H db) now in
          guard (\<not> (decision = js ''accepted'' \<and> \<not> ev_valid e \<and> \<not> (action = js ''out'' \<and> was_inside v)))
            (403, (case ev_reason e of
                Some r \<Rightarrow> reason_text (h_platform H) (estate_time_zone H db) r
              | None \<Rightarrow> js ''Visitor pass is not valid now''))
          (guard (\<not> (decision = js ''accepted'' \<and> action = js ''in'' \<and> v_require_gate_id v = 1 \<and> gate_proofs b = []))
            (400, js ''Gate verification photo/ID image must be uploaded before granting entry for this visitor pass'')
          (Inr (decision, v)))))))"

definition decide_visitor ::
    "host \<Rightarrow> int \<Rightarrow> actor \<Rightarrow> jstr \<Rightarrow> decision_body \<Rightarrow> db \<Rightarrow> decision_view response \<times> db" where
  "decide_visitor H now who vid b db =
    (case decision_checks H now who vid b db of
       Inl e \<Rightarrow> (Inl e, db)
     | Inr (decision, v) \<Rightarrow>
         let action = coalesce (db_action b) (js ''in'');
             (r, db') = record_decision (act_id who) decision b (apply_decision now who v decision action b db);
             times = rr_value (read_visit_times (Num (v_visit_times v)));
             used = int (visits_used db vid) + (if decision = js ''accepted'' \<and> action = js ''in'' then 1 else 0)
         in (rbind r (\<lambda>_. Inr \<lparr>dv_decision = decision, dv_action = db_action b, dv_used = used,
               dv_remaining = max 0 (times - used)\<rparr>), db'))"

subsection \<open>The PIN check and the remote revocation\<close>

definition check_visitor_pin :: "jstr option \<Rightarrow> jstr option \<Rightarrow> db \<Rightarrow> unit response" where
  "check_visitor_pin pin action db =
     (if \<not> truthy_text pin \<or> \<not> truthy_text action then Inl (400, js ''pin and action are required'')
      else if list_ex (\<lambda>v. Some (v_pin v) = pin) (t_visitors db)
      then Inl (409, js ''Preview this visitor pass before accepting it'')
      else Inl (404, js ''Visitor pass not found''))"

fun revoke_statements :: "host \<Rightarrow> db \<Rightarrow> jstr \<Rightarrow> jstr \<Rightarrow> int \<Rightarrow> nat \<Rightarrow> device list \<Rightarrow> visitor_op list" where
  "revoke_statements H db vid payload at n [] = []"
| "revoke_statements H db vid payload at n (d # ds) =
     (if list_ex (\<lambda>r. o_request r = vid \<and> o_device r = d_id d \<and> o_operation r = revoke_op
            \<and> (o_status r = Pending \<or> o_status r = Sent)) (t_visitor_ops db)
      then revoke_statements H db vid payload at n ds
      else new_visitor_op (h_uuid H n) vid (d_id d) revoke_op payload (visitor_operation_delivery db d) at
             # revoke_statements H db vid payload at (Suc n) ds)"

definition mark_revoked :: "int \<Rightarrow> jstr \<Rightarrow> jstr \<Rightarrow> visitor \<Rightarrow> visitor" where
  "mark_revoked at by reason v = v\<lparr>v_status := js ''revoked'', v_rejected_at := Some at,
     v_rejected_by := Some by, v_rejection_note := Some reason\<rparr>"

definition mark_removal :: "jstr \<Rightarrow> visitor \<Rightarrow> visitor" where
  "mark_removal reason v = v\<lparr>v_account := RemovalQueued, v_removed_reason := Some (js ''revoked: '' @ reason)\<rparr>"

definition remote_targets :: "db \<Rightarrow> visitor \<Rightarrow> device list" where
  "remote_targets db v =
     (if v_gate_scope v = js ''gate'' \<and> truthy_text (v_device v)
      then filter (\<lambda>d. Some (d_id d) = v_device v) (enabled_devices db) else enabled_devices db)"

definition remote_payload :: "visitor \<Rightarrow> jstr \<Rightarrow> jstr" where
  "remote_payload v reason = json_text (Obj [(js ''credentialNumber'', nullable (v_credential v)),
     (js ''visitorName'', Str (v_name v)), (js ''enabled'', Bool False), (js ''reason'', Str reason)])"

definition commit_revocation :: "host \<Rightarrow> int \<Rightarrow> jstr \<Rightarrow> visitor \<Rightarrow> jstr \<Rightarrow> db \<Rightarrow> nat \<times> db" where
  "commit_revocation H now by v reason db =
    (let marked = update_where (\<lambda>r. v_id r = v_id v) (mark_revoked (sql_now now) by reason) (t_visitors db);
         rows = revoke_statements H db (v_id v) (remote_payload v reason) (sql_now now) (t_draws db) (remote_targets db v)
     in (length rows,
         db\<lparr>t_visitor_ops := t_visitor_ops db @ rows, t_draws := t_draws db + length rows,
            t_visitors := (if rows = [] then marked
              else update_where (\<lambda>r. v_id r = v_id v \<and> v_account r = Provisioned) (mark_removal reason) marked)\<rparr>))"

definition revoke_visitor_remotely ::
    "host \<Rightarrow> int \<Rightarrow> jstr \<Rightarrow> jstr \<Rightarrow> jstr option \<Rightarrow> db \<Rightarrow> nat response \<times> db" where
  "revoke_visitor_remotely H now by vid why db =
    (let reason = (case why of None \<Rightarrow> [] | Some r \<Rightarrow> trim r) in
     if length reason < 3 \<or> length reason > 200 then
       (Inl (400, js ''A reason between 3 and 200 characters is required''), db)
     else case List.find (\<lambda>v. v_id v = vid) (t_visitors db) of
       None \<Rightarrow> (Inl (404, js ''Visitor pass not found''), db)
     | Some v \<Rightarrow>
         if v_status v \<notin> {js ''active'', js ''checked_in'', js ''pending''} then
           (Inl (409, js ''Only a live pass can be revoked from here''), db)
         else let (k, db') = commit_revocation H now by v reason db in (Inr k, db'))"

subsection \<open>Sequences of requests at the gate\<close>

datatype gate_request =
    ScanRequest gate_actor jstr scan_body int
  | DecideRequest actor jstr decision_body int

text \<open>The pass admitted by a request: an accepted decision whose action is, or defaults to, in.\<close>

fun gate_step :: "host \<Rightarrow> gate_request \<Rightarrow> db \<Rightarrow> jstr option \<times> db" where
  "gate_step H (ScanRequest who sid b now) db = (None, snd (scan_visitor H now who sid b db))"
| "gate_step H (DecideRequest who vid b now) db =
     (case decide_visitor H now who vid b db of
        (Inr view, db') \<Rightarrow>
          (if dv_decision view = js ''accepted'' \<and> coalesce (dv_action view) (js ''in'') = js ''in''
           then Some vid else None, db')
      | (Inl _, db') \<Rightarrow> (None, db'))"

fun run_gate :: "host \<Rightarrow> gate_request list \<Rightarrow> db \<Rightarrow> jstr option list \<times> db" where
  "run_gate H [] db = ([], db)"
| "run_gate H (r # rs) db =
     (let (a, db1) = gate_step H r db; (as, db2) = run_gate H rs db1 in (a # as, db2))"

fun scan_ids :: "gate_request list \<Rightarrow> jstr list" where
  "scan_ids [] = []"
| "scan_ids (ScanRequest _ sid _ _ # rs) = sid # scan_ids rs"
| "scan_ids (DecideRequest _ _ _ _ # rs) = scan_ids rs"

fun names_action :: "gate_request \<Rightarrow> bool" where
  "names_action (ScanRequest _ _ _ _) = True"
| "names_action (DecideRequest _ _ b _) = (db_action b \<noteq> None)"

definition allowances :: "db \<Rightarrow> (jstr \<times> int) list" where
  "allowances db = map (\<lambda>v. (v_id v, v_visit_times v)) (t_visitors db)"

lemma allowances_removals: "allowances (snd (queue_visitor_device_removals H now v r db)) = allowances db"
  and scans_removals: "t_scans (snd (queue_visitor_device_removals H now v r db)) = t_scans db"
  by (simp_all add: queue_visitor_device_removals_def allowances_def Let_def map_update_where split: prod.split)

lemma snd_release_one:
  "snd (release_one H now v acc) = snd (queue_visitor_device_removals H now v (removal_reason H now v) (snd acc))"
  by (simp add: release_one_def split: prod.split)

lemma snd_sweep:
  "\<exists>vs. snd (release_expired_visitor_device_accounts H now db)
     = snd (fold (release_one H now) vs (0, db\<lparr>t_visitors := expire_passes H now (t_visitors db)\<rparr>))"
  by (rule exI [of _ "take 200 (sort_key v_valid_until (filter (release_due H now) (expire_passes H now (t_visitors db))))"])
    (simp add: release_expired_visitor_device_accounts_def Let_def split: prod.split)

lemma sweep_keeps:
  "allowances (snd (release_expired_visitor_device_accounts H now db)) = allowances db"
  "t_scans (snd (release_expired_visitor_device_accounts H now db)) = t_scans db"
proof -
  have fold: "allowances (snd (fold (release_one H now) vs acc)) = allowances (snd acc)
      \<and> t_scans (snd (fold (release_one H now) vs acc)) = t_scans (snd acc)" for vs acc
    by (induction vs arbitrary: acc) (simp_all add: snd_release_one allowances_removals scans_removals)
  have "allowances (db\<lparr>t_visitors := expire_passes H now (t_visitors db)\<rparr>) = allowances db"
    by (simp add: allowances_def expire_passes_def map_update_where)
  moreover obtain vs where "snd (release_expired_visitor_device_accounts H now db)
      = snd (fold (release_one H now) vs (0, db\<lparr>t_visitors := expire_passes H now (t_visitors db)\<rparr>))"
    using snd_sweep by blast
  ultimately show "allowances (snd (release_expired_visitor_device_accounts H now db)) = allowances db"
    "t_scans (snd (release_expired_visitor_device_accounts H now db)) = t_scans db"
    using fold by simp_all
qed

text \<open>A scan adds one row that is not an accepted check-in.\<close>

lemma scan_keeps:
  "allowances (snd (scan_visitor H now who sid b db)) = allowances db"
  "\<exists>new. t_scans (snd (scan_visitor H now who sid b db)) = t_scans db @ new
      \<and> (new = [] \<or> (\<exists>s. new = [s] \<and> s_id s = sid \<and> s_decision s \<noteq> js ''accepted''))"
  using sweep_keeps [of H now db]
  by (auto simp: scan_visitor_def Let_def add_scan_def scan_row_def allowances_def split: option.splits)

lemma visits_used_scan: "visits_used (snd (scan_visitor H now who sid b db)) w = visits_used db w"
  using scan_keeps(2) [of H now who sid b db] by (auto simp: visits_used_def)

text \<open>What a decision does to the scan rows.\<close>

definition decided_row :: "jstr \<Rightarrow> decision_body \<Rightarrow> scan \<Rightarrow> scan" where
  "decided_row decision b s = s\<lparr>s_decision := decision, s_action := db_action b, s_note := map_option trim (db_note b)\<rparr>"

lemma apply_decision_keeps:
  "allowances (apply_decision now who v decision action b db) = allowances db"
  "t_scans (apply_decision now who v decision action b db) = t_scans db"
  by (simp_all add: apply_decision_def Let_def update_visitor_def link_proof_files_def allowances_def
      map_update_where check_in_row_def check_out_row_def reject_row_def)

lemma decision_checksD:
  assumes "decision_checks H now who vid b db = Inr (decision, v)"
  shows "db_decision b = Some decision" "v \<in> set (t_visitors db)" "v_id v = vid"
    "\<exists>s\<in>set (t_scans db). Some (s_id s) = db_scan b \<and> s_visitor s = Some vid \<and> s_by s = act_id who
       \<and> s_decision s = js ''previewed''"
    "decision = js ''accepted'' \<Longrightarrow> coalesce (db_action b) (js ''in'') = js ''in'' \<Longrightarrow>
       ev_valid (evaluate_visitor_pass (h_platform H) (window_of db v) (estate_time_zone H db) now)"
proof -
  let ?d = "coalesce (db_decision b) []"
  have c: "?d \<in> {js ''accepted'', js ''rejected''}" "?d = decision"
    "\<exists>s\<in>set (t_scans db). Some (s_id s) = db_scan b \<and> s_visitor s = Some vid \<and> s_by s = act_id who
       \<and> s_decision s = js ''previewed''"
    "List.find (\<lambda>v. v_id v = vid) (t_visitors db) = Some v"
    "decision = js ''accepted'' \<longrightarrow> coalesce (db_action b) (js ''in'') = js ''in'' \<longrightarrow>
       ev_valid (evaluate_visitor_pass (h_platform H) (window_of db v) (estate_time_zone H db) now)"
    using assms by (auto simp: decision_checks_def Let_def guard_Inr_iff list_ex_iff split: option.splits)
  then show "db_decision b = Some decision" by (cases "db_decision b") auto
  show "v \<in> set (t_visitors db)" "v_id v = vid" using find_Some_set [OF c(4)] by auto
  show "\<exists>s\<in>set (t_scans db). Some (s_id s) = db_scan b \<and> s_visitor s = Some vid \<and> s_by s = act_id who
       \<and> s_decision s = js ''previewed''" by (rule c(3))
  show "decision = js ''accepted'' \<Longrightarrow> coalesce (db_action b) (js ''in'') = js ''in'' \<Longrightarrow>
       ev_valid (evaluate_visitor_pass (h_platform H) (window_of db v) (estate_time_zone H db) now)"
    using c(5) by blast
qed

lemma record_decision_keeps:
  assumes "record_decision by decision b db = (r, db')"
  shows "allowances db' = allowances db"
    "r = Inl e \<Longrightarrow> t_scans db' = t_scans db"
    "r = Inr u \<Longrightarrow> t_scans db' = update_where (\<lambda>s. Some (s_id s) = db_scan b \<and> s_by s = by) (decided_row decision b) (t_scans db)"
  using assms by (auto simp: record_decision_def allowances_def decided_row_def [abs_def] split: if_splits)

lemma decide_visitor_cases:
  assumes "decide_visitor H now who vid b db = (r, db')"
  obtains e where "r = Inl e" "t_scans db' = t_scans db" "allowances db' = allowances db"
  | decision v view where "decision_checks H now who vid b db = Inr (decision, v)" "r = Inr view"
      "dv_decision view = decision" "dv_action view = db_action b" "allowances db' = allowances db"
      "t_scans db' = update_where (\<lambda>s. Some (s_id s) = db_scan b \<and> s_by s = act_id who) (decided_row decision b) (t_scans db)"
proof (cases "decision_checks H now who vid b db")
  case (Inl e)
  then have "r = Inl e" "db' = db" using assms by (simp_all add: decide_visitor_def)
  then show ?thesis using that(1) by simp
next
  case (Inr q)
  obtain decision v where q: "q = (decision, v)" by fastforce
  let ?db1 = "apply_decision now who v decision (coalesce (db_action b) (js ''in'')) b db"
  obtain u db2 where rec2: "record_decision (act_id who) decision b ?db1 = (u, db2)" by fastforce
  have db2: "db2 = db'" and r2: "\<And>x. u = Inr x \<Longrightarrow> \<exists>view. r = Inr view \<and> dv_decision view = decision \<and> dv_action view = db_action b"
      "\<And>e. u = Inl e \<Longrightarrow> r = Inl e"
    using assms Inr q rec2 by (auto simp: decide_visitor_def Let_def)
  note rec = rec2 [unfolded db2]
  note keeps = record_decision_keeps [OF rec]
  show ?thesis
  proof (cases u)
    case (Inl e)
    then show ?thesis using r2(2) keeps(1,2) by (intro that(1)) (simp_all add: apply_decision_keeps)
  next
    case u: (Inr x)
    obtain view where "r = Inr view" "dv_decision view = decision" "dv_action view = db_action b" using r2(1) u by blast
    then show ?thesis using keeps(1,3) u Inr q by (intro that(2)) (simp_all add: apply_decision_keeps)
  qed
qed

text \<open>The decided scan is one row, which did not count before.\<close>

lemma visits_used_decided:
  assumes dist: "distinct (map s_id (t_scans db))" and s: "s \<in> set (t_scans db)" "Some (s_id s) = db_scan b"
    "s_visitor s = Some vid" "s_by s = by" "s_decision s = js ''previewed''"
    and upd: "t_scans db' = update_where (\<lambda>q. Some (s_id q) = db_scan b \<and> s_by q = by) (decided_row d b) (t_scans db)"
  shows "visits_used db' w = visits_used db w
    + (if w = vid \<and> d = js ''accepted'' \<and> db_action b = Some (js ''in'') then 1 else 0)"
proof -
  obtain xs ys where split: "t_scans db = xs @ s # ys" using split_list [OF s(1)] by blast
  let ?P = "\<lambda>q. Some (s_id q) = db_scan b \<and> s_by q = by"
  have other: "\<not> ?P q" if "q \<in> set xs \<union> set ys" for q
  proof
    assume "?P q"
    then have "s_id q = s_id s" using s(2) by (metis option.inject)
    with dist that show False unfolding split by (auto simp: image_iff)
  qed
  have "update_where ?P (decided_row d b) xs = xs" "update_where ?P (decided_row d b) ys = ys"
    using other by (auto intro!: update_where_none)
  then have "t_scans db' = xs @ decided_row d b s # ys"
    using upd s(2,4) by (simp add: split update_where_append)
  then show ?thesis using s by (auto simp: visits_used_def split decided_row_def)
qed

lemma scan_ids_decided:
  "map s_id (update_where P (decided_row d b) rows) = map s_id rows"
  by (simp add: map_update_where decided_row_def)

text \<open>One request: a pass is only admitted below its allowance, and an admission is counted.\<close>

lemma gate_step_counts:
  assumes dist: "distinct (map s_id (t_scans db))" and named: "names_action r"
    and step: "gate_step H r db = (a, db')"
  shows "allowances db' = allowances db"
    and "visits_used db' w = visits_used db w + (if a = Some w then 1 else 0)"
    and "a = Some w \<Longrightarrow> \<exists>v\<in>set (t_visitors db). v_id v = w \<and> (v_visit_times v \<ge> 1 \<longrightarrow> int (visits_used db w) < v_visit_times v)"
    and "\<exists>new. map s_id (t_scans db') = map s_id (t_scans db) @ new \<and> (new = [] \<or> new = scan_ids [r])"
proof -
  have "allowances db' = allowances db \<and> (\<forall>w. visits_used db' w = visits_used db w + (if a = Some w then 1 else 0))
    \<and> (\<forall>w. a = Some w \<longrightarrow> (\<exists>v\<in>set (t_visitors db). v_id v = w \<and> (v_visit_times v \<ge> 1 \<longrightarrow> int (visits_used db w) < v_visit_times v)))
    \<and> (\<exists>new. map s_id (t_scans db') = map s_id (t_scans db) @ new \<and> (new = [] \<or> new = scan_ids [r]))"
  proof (cases r)
    case (ScanRequest who sid b now)
    then have db': "db' = snd (scan_visitor H now who sid b db)" "a = None" using step by auto
    show ?thesis
      using scan_keeps [of H now who sid b db] visits_used_scan [of H now who sid b db]
      by (auto simp: db' ScanRequest)
  next
    case (DecideRequest who vid b now)
    obtain out where run: "decide_visitor H now who vid b db = (out, db')"
      using step DecideRequest by (auto split: prod.splits sum.splits if_splits)
    from run show ?thesis
    proof (cases rule: decide_visitor_cases)
      case (1 e)
      then have "a = None" using step DecideRequest run by simp
      then show ?thesis using 1 by (simp add: visits_used_def)
    next
      case (2 decision v view)
      note D = decision_checksD [OF 2(1)]
      obtain s where s: "s \<in> set (t_scans db)" "Some (s_id s) = db_scan b" "s_visitor s = Some vid"
        "s_by s = act_id who" "s_decision s = js ''previewed''" using D(4) by blast
      obtain action where act: "db_action b = Some action" using named DecideRequest by auto
      have a: "a = (if decision = js ''accepted'' \<and> action = js ''in'' then Some vid else None)"
        using step DecideRequest run 2 act by auto
      have "\<forall>w. visits_used db' w = visits_used db w + (if a = Some w then 1 else 0)"
        using visits_used_decided [OF dist s 2(6)] by (simp add: a act)
      moreover have "v_visit_times v \<ge> 1 \<longrightarrow> int (visits_used db vid) < v_visit_times v" if "a = Some w" for w
      proof -
        have "ev_valid (evaluate_visitor_pass (h_platform H) (window_of db v) (estate_time_zone H db) now)"
          using D(5) that a act by (auto split: if_splits)
        then have "allowance_spent (window_of db v) = None" by (simp add: evaluation_valid_iff)
        then show ?thesis using D(3) by (auto simp: allowance_spent_def window_of_def count_of_def split: if_splits)
      qed
      moreover have "map s_id (t_scans db') = map s_id (t_scans db)" using 2(6) by (simp add: scan_ids_decided)
      ultimately show ?thesis using 2(5) D(2,3) a by (auto split: if_splits)
    qed
  qed
  then show "allowances db' = allowances db"
    and "visits_used db' w = visits_used db w + (if a = Some w then 1 else 0)"
    and "a = Some w \<Longrightarrow> \<exists>v\<in>set (t_visitors db). v_id v = w \<and> (v_visit_times v \<ge> 1 \<longrightarrow> int (visits_used db w) < v_visit_times v)"
    and "\<exists>new. map s_id (t_scans db') = map s_id (t_scans db) @ new \<and> (new = [] \<or> new = scan_ids [r])"
    by blast+
qed

subsection \<open>Properties\<close>

text \<open>
  C1: whatever sequence of scans and decisions the gate makes, in which every decision names its
  action, the number of times a pass is admitted, together with the admissions already recorded,
  never exceeds the visits it allows, and the recorded count is exactly the number of admissions.
\<close>

theorem admissions_within_allowance:
  assumes "distinct (map s_id (t_scans db) @ scan_ids rs)" and "list_all names_action rs"
    and "distinct (map v_id (t_visitors db))" and "v \<in> set (t_visitors db)" and "1 \<le> v_visit_times v"
    and "int (visits_used db (v_id v)) \<le> v_visit_times v" and "run_gate H rs db = (as, db')"
  shows "visits_used db' (v_id v) = visits_used db (v_id v) + count_list as (Some (v_id v))
    \<and> int (visits_used db' (v_id v)) \<le> v_visit_times v"
proof -
  define w n where "w = v_id v" and "n = v_visit_times v"
  have "(w, n) \<in> set (allowances db)" using assms(4) by (auto simp: allowances_def w_def n_def)
  moreover have "distinct (map fst (allowances db))" using assms(3) by (simp add: allowances_def comp_def)
  moreover have "1 \<le> n" "int (visits_used db w) \<le> n" using assms(5,6) by (simp_all add: w_def n_def)
  ultimately have "visits_used db' w = visits_used db w + count_list as (Some w) \<and> int (visits_used db' w) \<le> n"
    using assms(1,2,7)
  proof (induction rs arbitrary: db as)
    case Nil
    then show ?case by simp
  next
    case (Cons r rs)
    obtain a db1 where step: "gate_step H r db = (a, db1)" by fastforce
    obtain as1 where run: "run_gate H rs db1 = (as1, db')" and as: "as = a # as1"
      using Cons.prems(7) step by (auto simp: Let_def split: prod.splits)
    have dist: "distinct (map s_id (t_scans db))" and named: "names_action r" using Cons.prems(5,6) by auto
    note G = gate_step_counts [OF dist named step]
    obtain new where new: "map s_id (t_scans db1) = map s_id (t_scans db) @ new" "new = [] \<or> new = scan_ids [r]"
      using G(4) by blast
    have "scan_ids (r # rs) = scan_ids [r] @ scan_ids rs" by (cases r) simp_all
    then have fresh: "distinct (map s_id (t_scans db1) @ scan_ids rs)"
      using Cons.prems(5) new by auto
    have bound: "int (visits_used db1 w) \<le> n"
    proof (cases "a = Some w")
      case True
      obtain u where u: "u \<in> set (t_visitors db)" "v_id u = w"
        "v_visit_times u \<ge> 1 \<longrightarrow> int (visits_used db w) < v_visit_times u" using G(3) [OF True] by blast
      have "(w, v_visit_times u) \<in> set (allowances db)" using u(1,2) by (force simp: allowances_def)
      then have "v_visit_times u = n" using Cons.prems(1,2) by (meson eq_key_imp_eq_value)
      then show ?thesis using u(3) Cons.prems(3) True G(2) [of w] by simp
    next
      case False
      then show ?thesis using Cons.prems(4) G(2) [of w] by simp
    qed
    have "visits_used db' w = visits_used db1 w + count_list as1 (Some w) \<and> int (visits_used db' w) \<le> n"
      by (rule Cons.IH [OF _ _ Cons.prems(3) bound fresh _ run]) (use Cons.prems(1,2,6) G(1) in simp_all)
    then show ?case using G(2) [of w] by (simp add: as)
  qed
  then show ?thesis by (simp add: w_def n_def)
qed

definition gate_visitor :: visitor where
  "gate_visitor = sample_visitor\<lparr>v_valid_from := js ''2026-09-22T10:00:00.000Z'',
     v_valid_until := js ''2026-09-22T12:00:00.000Z''\<rparr>"

definition gate_db :: db where
  "gate_db = sample_db\<lparr>t_visitors := [gate_visitor],
     t_scans := [scan_row (js ''s1'') (Some (js ''v1'')) (js ''guard'') (js ''manual'') (js ''123456'') (js ''previewed'') None]\<rparr>"

definition gate_guard :: actor where "gate_guard = \<lparr>act_id = js ''guard'', act_role = js ''security''\<rparr>"

definition accept_body :: "jstr option \<Rightarrow> decision_body" where
  "accept_body action = \<lparr>db_decision = Some (js ''accepted''), db_action = action, db_scan = Some (js ''s1''),
     db_note = None, db_proofs = Undef, db_proof = None\<rparr>"

definition gate_now :: int where "gate_now = 1790074800000"

lemma gate_checks:
  "decision_checks sample_host gate_now gate_guard (js ''v1'') (accept_body None) gate_db = Inr (js ''accepted'', gate_visitor)"
  by code_simp

theorem admissions_within_allowance_witness:
  "\<exists>as db'. run_gate sample_host
      [DecideRequest gate_guard (js ''v1'') (accept_body (Some (js ''in''))) gate_now,
       ScanRequest \<lparr>act_id = js ''guard'', act_role = js ''security'', act_gate = None\<rparr> (js ''s2'')
         \<lparr>sb_code = Some (js ''123456''), sb_source = None\<rparr> gate_now] gate_db = (as, db')
    \<and> visits_used db' (js ''v1'') = count_list as (Some (js ''v1'')) \<and> int (visits_used db' (js ''v1'')) \<le> 1"
proof -
  let ?rs = "[DecideRequest gate_guard (js ''v1'') (accept_body (Some (js ''in''))) gate_now,
       ScanRequest \<lparr>act_id = js ''guard'', act_role = js ''security'', act_gate = None\<rparr> (js ''s2'')
         \<lparr>sb_code = Some (js ''123456''), sb_source = None\<rparr> gate_now]"
  obtain as db' where run: "run_gate sample_host ?rs gate_db = (as, db')" by fastforce
  have "distinct (map s_id (t_scans gate_db) @ scan_ids ?rs)" "list_all names_action ?rs"
    "distinct (map v_id (t_visitors gate_db))" "gate_visitor \<in> set (t_visitors gate_db)"
    "1 \<le> v_visit_times gate_visitor" "int (visits_used gate_db (v_id gate_visitor)) \<le> v_visit_times gate_visitor"
    by (simp_all add: gate_db_def scan_row_def accept_body_def gate_visitor_def sample_visitor_def visits_used_def)
  note A = admissions_within_allowance [OF this run]
  have "v_id gate_visitor = js ''v1''" "v_visit_times gate_visitor = 1" "visits_used gate_db (js ''v1'') = 0"
    by (simp_all add: gate_visitor_def sample_visitor_def gate_db_def visits_used_def scan_row_def)
  with A run show ?thesis by auto
qed

text \<open>
  An accepted decision that leaves its action out checks the visitor in and answers that a
  visit was used, but stores no action with the scan, so the admission is not counted: the pass
  can be used again as if it had never been.
\<close>

theorem decision_without_action_not_counted:
  assumes ok: "decision_checks H now who vid b db = Inr (js ''accepted'', v)" and none: "db_action b = None"
    and dist: "distinct (map s_id (t_scans db))"
  shows "\<exists>view db'. decide_visitor H now who vid b db = (Inr view, db')
    \<and> dv_used view = int (visits_used db vid) + 1
    \<and> (\<exists>w\<in>set (t_visitors db'). v_id w = vid \<and> v_status w = js ''checked_in'')
    \<and> visits_used db' vid = visits_used db vid"
proof -
  note D = decision_checksD [OF ok]
  obtain s where s: "s \<in> set (t_scans db)" "Some (s_id s) = db_scan b" "s_visitor s = Some vid"
    "s_by s = act_id who" "s_decision s = js ''previewed''" using D(4) by blast
  define db1 where "db1 = apply_decision now who v (js ''accepted'') (js ''in'') b db"
  define db' where "db' = db1\<lparr>t_scans := update_where (\<lambda>q. Some (s_id q) = db_scan b \<and> s_by q = act_id who)
      (decided_row (js ''accepted'') b) (t_scans db1)\<rparr>"
  have rec: "record_decision (act_id who) (js ''accepted'') b db1 = (Inr (), db')"
    using none by (simp add: record_decision_def db'_def decided_row_def [abs_def])
  obtain view where run: "decide_visitor H now who vid b db = (Inr view, db')" "dv_used view = int (visits_used db vid) + 1"
    using ok none rec by (simp add: decide_visitor_def db1_def Let_def)
  have "t_scans db1 = t_scans db" by (simp add: db1_def apply_decision_keeps)
  then have "visits_used db' vid = visits_used db vid"
    using visits_used_decided [OF dist s, of db' "js ''accepted''" vid] none by (simp add: db'_def)
  moreover have "\<exists>w\<in>set (t_visitors db'). v_id w = vid \<and> v_status w = js ''checked_in''"
  proof -
    define k where "k = (case gate_proofs b of [] \<Rightarrow> None | k # _ \<Rightarrow> Some k)"
    have vis: "t_visitors db' = update_where (\<lambda>r. v_id r = v_id v) (check_in_row now (act_id who) k) (t_visitors db)"
      by (simp add: db'_def db1_def apply_decision_def Let_def link_proof_files_def update_visitor_def k_def)
    have "check_in_row now (act_id who) k v \<in> set (t_visitors db')"
      unfolding vis by (rule update_whereI [OF D(2)]) simp_all
    then show ?thesis using D(3) by (intro bexI) (simp_all add: check_in_row_def)
  qed
  ultimately show ?thesis using run by blast
qed

theorem decision_without_action_not_counted_witness:
  "\<exists>view db'. decide_visitor sample_host gate_now gate_guard (js ''v1'') (accept_body None) gate_db = (Inr view, db')
    \<and> dv_used view = 1 \<and> visits_used db' (js ''v1'') = 0"
proof -
  have "db_action (accept_body None) = None" "distinct (map s_id (t_scans gate_db))"
    by (simp_all add: accept_body_def gate_db_def)
  moreover have "visits_used gate_db (js ''v1'') = 0"
    by (simp add: visits_used_def gate_db_def scan_row_def)
  ultimately show ?thesis using decision_without_action_not_counted [OF gate_checks] by fastforce
qed

lemma revoke_statements_cover:
  assumes "d \<in> set ds"
    and "\<not> list_ex (\<lambda>r. o_request r = vid \<and> o_device r = d_id d \<and> o_operation r = revoke_op
            \<and> (o_status r = Pending \<or> o_status r = Sent)) (t_visitor_ops db)"
  shows "\<exists>r\<in>set (revoke_statements H db vid payload at n ds).
     op_key r = (vid, revoke_op, d_id d) \<and> o_status r = visitor_operation_delivery db d"
  using assms
proof (induction ds arbitrary: n)
  case (Cons e ds)
  show ?case
  proof (cases "d = e")
    case True
    with Cons.prems(2) show ?thesis by (simp add: new_visitor_op_def op_key_def)
  next
    case False
    with Cons.prems(1) have "d \<in> set ds" by simp
    from Cons.IH [OF this Cons.prems(2)] show ?thesis by (auto simp: Let_def)
  qed
qed simp

lemma revoke_effects:
  assumes ok: "revoke_visitor_remotely H now by vid why db = (Inr k, db')"
  obtains v reason where "v \<in> set (t_visitors db)" "v_id v = vid"
    "t_visitor_ops db' = t_visitor_ops db
       @ revoke_statements H db vid (remote_payload v reason) (sql_now now) (t_draws db) (remote_targets db v)"
    "\<exists>w\<in>set (t_visitors db'). v_id w = vid \<and> v_status w = js ''revoked''"
proof -
  obtain v reason where find: "List.find (\<lambda>v. v_id v = vid) (t_visitors db) = Some v"
    and run: "commit_revocation H now by v reason db = (k, db')"
    using ok by (auto simp: revoke_visitor_remotely_def Let_def split: if_splits option.splits prod.splits)
  then have v: "v \<in> set (t_visitors db)" "v_id v = vid" using find_Some_set [OF find] by auto
  let ?f = "mark_revoked (sql_now now) by reason" and ?g = "mark_removal reason"
  let ?vs = "update_where (\<lambda>r. v_id r = vid) ?f (t_visitors db)"
  have fv: "?f v \<in> set ?vs" by (rule update_whereI [OF v(1)]) (simp_all add: v)
  have st: "v_id (?f v) = vid" "v_status (?f v) = js ''revoked''" "v_id (?g (?f v)) = vid"
    "v_status (?g (?f v)) = js ''revoked''" "v_account (?f v) = v_account v"
    by (simp_all add: mark_revoked_def mark_removal_def v)
  have rows: "t_visitor_ops db' = t_visitor_ops db
       @ revoke_statements H db vid (remote_payload v reason) (sql_now now) (t_draws db) (remote_targets db v)"
    and vis: "t_visitors db' = ?vs \<or> t_visitors db' = update_where (\<lambda>r. v_id r = vid \<and> v_account r = Provisioned) ?g ?vs"
    using run v(2) by (auto simp: commit_revocation_def Let_def)
  have "?f v \<in> set (t_visitors db') \<or> ?g (?f v) \<in> set (t_visitors db')"
  proof (cases "t_visitors db' = ?vs")
    case False
    then have e: "t_visitors db' = update_where (\<lambda>r. v_id r = vid \<and> v_account r = Provisioned) ?g ?vs"
      using vis by blast
    show ?thesis unfolding e
      by (cases "v_account v = Provisioned")
        (auto intro: update_whereI [OF fv] update_where_keep [OF fv] simp: st)
  qed (use fv in simp)
  then have "\<exists>w\<in>set (t_visitors db'). v_id w = vid \<and> v_status w = js ''revoked''" using st by blast
  with v rows show ?thesis by (rule that)
qed

lemma remote_targets_both:
  assumes "\<forall>v\<in>set (t_visitors db). v_id v = vid \<longrightarrow> v_gate_scope v = js ''both''" "v \<in> set (t_visitors db)" "v_id v = vid"
  shows "remote_targets db v = enabled_devices db"
  using assms by (simp add: remote_targets_def)

text \<open>
  A remote revocation that is accepted marks the pass revoked and leaves, for every enabled
  terminal of an every-gate pass, an open removal (waiting, sent, or a task for an operator).
\<close>

theorem remote_revocation_reaches_terminals:
  assumes ok: "revoke_visitor_remotely H now by vid why db = (Inr k, db')"
    and both: "\<forall>v\<in>set (t_visitors db). v_id v = vid \<longrightarrow> v_gate_scope v = js ''both''"
  shows "(\<exists>w\<in>set (t_visitors db'). v_id w = vid \<and> v_status w = js ''revoked'')
    \<and> (\<forall>d\<in>set (enabled_devices db). \<exists>r\<in>set (t_visitor_ops db').
         op_key r = (vid, revoke_op, d_id d) \<and> o_status r \<in> {Pending, Sent, ManualAction})"
proof -
  obtain p at n where rows: "t_visitor_ops db' = t_visitor_ops db @ revoke_statements H db vid p at n (enabled_devices db)"
    and marked: "\<exists>w\<in>set (t_visitors db'). v_id w = vid \<and> v_status w = js ''revoked''"
    using revoke_effects [OF ok] remote_targets_both [OF both] by metis
  have "\<exists>r\<in>set (t_visitor_ops db'). op_key r = (vid, revoke_op, d_id d) \<and> o_status r \<in> {Pending, Sent, ManualAction}"
    if d: "d \<in> set (enabled_devices db)" for d
  proof (cases "list_ex (\<lambda>r. o_request r = vid \<and> o_device r = d_id d \<and> o_operation r = revoke_op
            \<and> (o_status r = Pending \<or> o_status r = Sent)) (t_visitor_ops db)")
    case True
    then show ?thesis by (auto simp: rows list_ex_iff op_key_def)
  next
    case False
    from revoke_statements_cover [OF d False, of H p at n] show ?thesis
      by (auto simp: rows visitor_operation_delivery_def split: if_splits)
  qed
  then show ?thesis using marked by blast
qed

theorem remote_revocation_reaches_terminals_witness:
  "\<exists>r\<in>set (t_visitor_ops (snd (revoke_visitor_remotely sample_host 0 (js ''admin'') (js ''v1'') (Some (js ''left'')) sample_db))).
     op_key r = (js ''v1'', revoke_op, js ''d2'') \<and> o_status r \<in> {Pending, Sent, ManualAction}"
proof -
  have "fst (revoke_visitor_remotely sample_host 0 (js ''admin'') (js ''v1'') (Some (js ''left'')) sample_db) = Inr 2"
    by code_simp
  then obtain db' where run: "revoke_visitor_remotely sample_host 0 (js ''admin'') (js ''v1'') (Some (js ''left'')) sample_db = (Inr 2, db')"
    by (metis prod.collapse)
  have "\<forall>v\<in>set (t_visitors sample_db). v_id v = js ''v1'' \<longrightarrow> v_gate_scope v = js ''both''"
    by (simp add: sample_db_def sample_visitor_def)
  from remote_revocation_reaches_terminals [OF run this]
  have "\<forall>d\<in>set (enabled_devices sample_db). \<exists>r\<in>set (t_visitor_ops db'). op_key r = (js ''v1'', revoke_op, d_id d)
      \<and> o_status r \<in> {Pending, Sent, ManualAction}" by blast
  moreover have "sample_device (js ''d2'') (js ''manual'') \<in> set (enabled_devices sample_db)" by code_simp
  moreover have "d_id (sample_device (js ''d2'') (js ''manual'')) = js ''d2''" by (simp add: sample_device_def)
  ultimately show ?thesis using run by (metis snd_conv)
qed

text \<open>
  The sweep reuses a removal that already exists for a terminal, the remote revocation only
  looks for one that is waiting or sent: where an operator's task is already open, a second
  removal is created for the same pass and terminal.
\<close>

theorem remote_revocation_duplicates_manual_task:
  assumes ok: "revoke_visitor_remotely H now by vid why db = (Inr k, db')"
    and both: "\<forall>v\<in>set (t_visitors db). v_id v = vid \<longrightarrow> v_gate_scope v = js ''both''"
    and d: "d \<in> set (enabled_devices db)"
    and r: "r \<in> set (t_visitor_ops db)" "op_key r = (vid, revoke_op, d_id d)"
    and none: "\<forall>q\<in>set (t_visitor_ops db). op_key q = (vid, revoke_op, d_id d) \<longrightarrow> o_status q = ManualAction"
  shows "\<not> one_op_per_key (t_visitor_ops db')"
proof -
  obtain p at n where rows: "t_visitor_ops db' = t_visitor_ops db @ revoke_statements H db vid p at n (enabled_devices db)"
    and marked: "\<exists>w\<in>set (t_visitors db'). v_id w = vid \<and> v_status w = js ''revoked''"
    using revoke_effects [OF ok] remote_targets_both [OF both] by metis
  have "\<not> list_ex (\<lambda>r. o_request r = vid \<and> o_device r = d_id d \<and> o_operation r = revoke_op
            \<and> (o_status r = Pending \<or> o_status r = Sent)) (t_visitor_ops db)"
    using none by (fastforce simp: list_ex_iff op_key_def)
  from revoke_statements_cover [OF d this, of H p at n]
  have "(vid, revoke_op, d_id d) \<in> op_key ` set (revoke_statements H db vid p at n (enabled_devices db))" by force
  moreover have "(vid, revoke_op, d_id d) \<in> op_key ` set (t_visitor_ops db)" using r by force
  ultimately show ?thesis by (auto simp: one_op_per_key_def rows)
qed

theorem remote_revocation_duplicates_manual_task_witness:
  "\<not> one_op_per_key (t_visitor_ops (snd (revoke_visitor_remotely sample_host 0 (js ''admin'') (js ''v1'') (Some (js ''left''))
      (sample_db\<lparr>t_visitor_ops := [new_visitor_op (js ''x'') (js ''v1'') (js ''d2'') revoke_op [] ManualAction 0]\<rparr>))))"
proof -
  let ?r = "new_visitor_op (js ''x'') (js ''v1'') (js ''d2'') revoke_op [] ManualAction 0"
  let ?db = "sample_db\<lparr>t_visitor_ops := [?r]\<rparr>"
  have "fst (revoke_visitor_remotely sample_host 0 (js ''admin'') (js ''v1'') (Some (js ''left'')) ?db) = Inr 2"
    by code_simp
  then obtain db' where run: "revoke_visitor_remotely sample_host 0 (js ''admin'') (js ''v1'') (Some (js ''left'')) ?db = (Inr 2, db')"
    by (metis prod.collapse)
  have "\<forall>v\<in>set (t_visitors ?db). v_id v = js ''v1'' \<longrightarrow> v_gate_scope v = js ''both''"
    by (simp add: sample_db_def sample_visitor_def)
  moreover have "sample_device (js ''d2'') (js ''manual'') \<in> set (enabled_devices ?db)" by code_simp
  moreover have "?r \<in> set (t_visitor_ops ?db)" by simp
  moreover have "op_key ?r = (js ''v1'', revoke_op, d_id (sample_device (js ''d2'') (js ''manual'')))"
    by (simp add: new_visitor_op_def op_key_def sample_device_def)
  moreover have "\<forall>q\<in>set (t_visitor_ops ?db). op_key q = (js ''v1'', revoke_op, d_id (sample_device (js ''d2'') (js ''manual'')))
      \<longrightarrow> o_status q = ManualAction" by (simp add: new_visitor_op_def)
  ultimately have "\<not> one_op_per_key (t_visitor_ops db')"
    by (rule remote_revocation_duplicates_manual_task [OF run])
  then show ?thesis using run by simp
qed

lemma length_pin: "length (new_visitor_pin r) = 6"
proof -
  have "length (show_nat (r mod 1000000)) \<le> 6" by (rule length_show_nat) simp_all
  then show ?thesis by (simp add: new_visitor_pin_def pad_start_def visitor_pin_digits_def)
qed

lemma validate_passD:
  assumes "validate_pass H now who b db = Inr q"
  defines "rules \<equiv> visitor_account_rules (t_settings db)"
  shows "parse_estate_instant_ms (h_platform H) (Str (the (cb_from b))) (estate_time_zone H db) Start = Some (rq_from q)"
    "parse_estate_instant_ms (h_platform H) (Str (the (cb_until b))) (estate_time_zone H db) End = Some (rq_until q)"
    "rq_from q < rq_until q" "within_visitor_validity (rq_from q) (rq_until q) (vr_max_days rules)"
    "1 \<le> rq_visits q \<and> rq_visits q \<le> 10"
proof -
  have visits: "check_reading (read_visit_times t) = Inr n \<Longrightarrow> 1 \<le> n \<and> n \<le> 10" for t n
    using visit_times.in_range [of t] by (auto simp: check_reading_def split: option.splits)
  show "parse_estate_instant_ms (h_platform H) (Str (the (cb_from b))) (estate_time_zone H db) Start = Some (rq_from q)"
    "parse_estate_instant_ms (h_platform H) (Str (the (cb_until b))) (estate_time_zone H db) End = Some (rq_until q)"
    "rq_from q < rq_until q" "within_visitor_validity (rq_from q) (rq_until q) (vr_max_days rules)"
    "1 \<le> rq_visits q \<and> rq_visits q \<le> 10"
    using assms(1)
    by (cases "parse_estate_instant_ms (h_platform H) (Str (the (cb_from b))) (estate_time_zone H db) Start";
        cases "parse_estate_instant_ms (h_platform H) (Str (the (cb_until b))) (estate_time_zone H db) End";
        auto simp: validate_pass_def Let_def guard_Inr_iff rbind_Inr_iff rules_def dest!: visits)+
qed

lemma max_days_30: "vr_max_days (visitor_account_rules m) \<le> 30"
  using default_days.in_range max_days_bounds(2) by (simp add: visitor_account_rules_def Let_def)

lemma credential_is_free:
  "new_visitor_credential db rs = Some c \<Longrightarrow> \<forall>v\<in>set (t_visitors db). v_credential v \<noteq> Some c"
  by (induction rs) (auto simp: list_ex_iff split: if_splits)

lemma create_visitor_succeeds:
  assumes "validate_pass H now who b db = Inr q"
    and "new_visitor_credential db (take 10 (pd_credentials d)) = Some cred"
    and "\<not> row_clashes (new_pass_row now b d cred q) db"
  shows "\<exists>c db'. create_visitor H now who d b db = (Inr c, db') \<and> cp_pass c = new_pass_row now b d cred q"
proof -
  obtain r db' where r: "create_visitor H now who d b db = (r, db')" by fastforce
  then have "\<exists>c. r = Inr c \<and> cp_pass c = new_pass_row now b d cred q"
    using assms by (auto simp: create_visitor_def Let_def split: prod.splits)
  with r show ?thesis by blast
qed

text \<open>
  A pass that is issued lies within the estate's rules: its stored window is the submitted one
  read in the estate's zone, it ends after it starts and is at most the estate's maximum (never
  more than thirty days and a minute), it allows one to ten visits, its PIN has six digits, its
  credential was free, and it starts active, before any terminal holds it. A refused request leaves
  every table as it was.
\<close>

theorem issued_pass_within_rules:
  "case create_visitor H now who d b db of
     (Inl e, db') \<Rightarrow> db' = db
   | (Inr c, db') \<Rightarrow> (let row = cp_pass c in
       (\<exists>f u. parse_estate_instant_ms (h_platform H) (Str (the (cb_from b))) (estate_time_zone H db) Start = Some f
          \<and> parse_estate_instant_ms (h_platform H) (Str (the (cb_until b))) (estate_time_zone H db) End = Some u
          \<and> v_valid_from row = iso_string f \<and> v_valid_until row = iso_string u \<and> f < u
          \<and> u - f \<le> vr_max_days (visitor_account_rules (t_settings db)) * 86400000 + 60000
          \<and> u - f \<le> 30 * 86400000 + 60000)
       \<and> 1 \<le> v_visit_times row \<and> v_visit_times row \<le> 10 \<and> length (v_pin row) = 6
       \<and> v_status row = js ''active'' \<and> v_account row = NoAccount
       \<and> (\<exists>cred. v_credential row = Some cred \<and> (\<forall>v\<in>set (t_visitors db). v_credential v \<noteq> Some cred)))"
proof (cases "validate_pass H now who b db")
  case (Inl e)
  then show ?thesis by (simp add: create_visitor_def)
next
  case (Inr q)
  show ?thesis
  proof (cases "new_visitor_credential db (take 10 (pd_credentials d))")
    case None
    with Inr show ?thesis by (simp add: create_visitor_def)
  next
    case (Some cred)
    let ?row = "new_pass_row now b d cred q"
    note V = validate_passD [OF Inr]
    show ?thesis
    proof (cases "row_clashes ?row db")
      case True
      with Inr Some show ?thesis by (simp add: create_visitor_def)
    next
      case False
      obtain c db' where c: "create_visitor H now who d b db = (Inr c, db')" "cp_pass c = ?row"
        using create_visitor_succeeds [OF Inr Some False] by blast
      have len: "rq_until q - rq_from q \<le> vr_max_days (visitor_account_rules (t_settings db)) * 86400000 + 60000"
        using V(4) by (simp add: within_visitor_validity_def validity_days_to_ms_def day_ms_def)
      moreover have "vr_max_days (visitor_account_rules (t_settings db)) * 86400000 \<le> 30 * (86400000::int)"
        using max_days_30 by (intro mult_right_mono) simp_all
      ultimately have "rq_until q - rq_from q \<le> 30 * 86400000 + 60000" by linarith
      with V len credential_is_free [OF Some] length_pin show ?thesis
        by (simp add: c new_pass_row_def Let_def)
    qed
  qed
qed

definition sample_body :: create_body where
  "sample_body = \<lparr>cb_name = Some (js ''Ada''), cb_phone = None, cb_from = Some (js ''2026-09-22''),
     cb_until = Some (js ''2026-09-23''), cb_resident = Some (js ''ada''), cb_property = None, cb_device = None,
     cb_proofs = Undef, cb_gate_id = Undef, cb_person_type = Undef, cb_visit_times = Num 2, cb_purpose = Undef,
     cb_purpose_other = Undef, cb_remark = Undef\<rparr>"

definition sample_draws :: pass_draws where
  "sample_draws = \<lparr>pd_id = js ''v9'', pd_pin = 42, pd_qr = js ''token'', pd_credentials = [(1, 2)]\<rparr>"

lemma sample_validates:
  "(case validate_pass sample_host gate_now \<lparr>act_id = js ''boss'', act_role = js ''admin''\<rparr> sample_body sample_property_db of
      Inl _ \<Rightarrow> False | Inr _ \<Rightarrow> True)"
  by code_simp

theorem issued_pass_within_rules_witness:
  "\<exists>c db'. create_visitor sample_host gate_now \<lparr>act_id = js ''boss'', act_role = js ''admin''\<rparr> sample_draws sample_body
      sample_property_db = (Inr c, db') \<and> v_visit_times (cp_pass c) \<le> 10 \<and> length (v_pin (cp_pass c)) = 6"
proof -
  let ?who = "\<lparr>act_id = js ''boss'', act_role = js ''admin''\<rparr>"
  obtain q where q: "validate_pass sample_host gate_now ?who sample_body sample_property_db = Inr q"
    using sample_validates by (auto split: sum.splits)
  have none: "t_visitors sample_property_db = []" by (simp add: sample_property_db_def empty_db_def)
  then have "new_visitor_credential sample_property_db (take 10 (pd_credentials sample_draws)) = Some (credential_of (1, 2))"
    by (simp add: sample_draws_def)
  moreover have "\<not> row_clashes (new_pass_row gate_now sample_body sample_draws (credential_of (1, 2)) q) sample_property_db"
    by (simp add: row_clashes_def none)
  ultimately obtain c db' where "create_visitor sample_host gate_now ?who sample_draws sample_body sample_property_db = (Inr c, db')"
    using create_visitor_succeeds [OF q] by blast
  then show ?thesis
    using issued_pass_within_rules [where H = sample_host and now = gate_now and who = ?who and d = sample_draws
        and b = sample_body and db = sample_property_db]
    by (simp add: Let_def)
qed

end
