(* ===== verification/Billing.thy ===== *)
theory Billing
  imports Complex_Main VisitorGate JsonParse
begin

text \<open>
  Bills and payments (\<^verbatim>\<open>src/src/index.ts\<close>): a bill as an office raises it, a payment as a
  resident submits or an office takes it, its review, and \<open>reconcileBill\<close>, which writes the
  status of a bill from its approved payments. Amounts are minor units; a JSON number is read as the
  rational it writes. The ledger holds the tables of \<^verbatim>\<open>Database\<close>, the properties, the bills and
  the payments; a failed CHECK or FOREIGN KEY is the error 500 and a failed UNIQUE is 409, as
  \<open>app.onError\<close> answers. Audit rows and notifications are left out.
\<close>

subsection \<open>Numbers of a request\<close>

text \<open>The rational of a finite number; \<open>None\<close> for \<open>NaN\<close> and the infinities.\<close>

definition ten_power :: "int \<Rightarrow> rat" where
  "ten_power e = (if 0 \<le> e then 10 ^ nat e else 1 / 10 ^ nat (- e))"

definition decimal_rat :: "jstr \<Rightarrow> rat option" where
  "decimal_rat t =
    (case strip_sign t of (neg, body) \<Rightarrow>
       let ip = takeWhile is_digit body; r = dropWhile is_digit body;
           fr = (if r \<noteq> [] \<and> hd r = 46 then takeWhile is_digit (tl r) else []);
           rest = (if r \<noteq> [] \<and> hd r = 46 then dropWhile is_digit (tl r) else r)
       in if ip = [] \<and> fr = [] then None
          else map_option (\<lambda>e. (if neg then -1 else 1) * of_nat (digits_val (ip @ fr)) * ten_power (e - int (length fr)))
                 (parse_exp rest))"

fun number_rat :: "jval \<Rightarrow> rat option" where
  "number_rat (Num i) = Some (of_int i)"
| "number_rat (NumText t) = decimal_rat t"
| "number_rat _ = None"

text \<open>\<open>Math.round\<close>: the nearest integer, the upper one of two.\<close>

definition js_round :: "rat \<Rightarrow> int" where
  "js_round x = \<lfloor>x + 1 / 2\<rfloor>"

definition round_value :: "jval \<Rightarrow> int option" where
  "round_value v = map_option js_round (number_rat (to_number v))"

lemma js_round_int [simp]: "js_round (of_int n) = n"
  by (simp add: js_round_def floor_unique)

lemma round_value_Num [simp]: "round_value (Num n) = Some n"
  by (simp add: round_value_def)

subsection \<open>Tables\<close>

datatype bill_status = BillUnpaid | BillPartial | BillPaid | BillVoid
datatype payment_kind = PaymentIn | Refund | Adjustment
datatype review_status = ReviewPending | ReviewApproved | ReviewRejected

record home =
  hm_id :: jstr
  hm_unit :: jstr
  hm_street :: "jstr option"
  hm_block :: "jstr option"
  hm_zone :: "jstr option"

record bill =
  b_id :: jstr
  b_property :: jstr
  b_resident :: jstr
  b_amount :: int
  b_currency :: jstr
  b_due :: jstr
  b_status :: bill_status
  b_type :: jstr
  b_description :: "jstr option"
  b_batch :: "jstr option"
  b_reference :: "jstr option"

record payment =
  py_id :: jstr
  py_bill :: jstr
  py_amount :: int
  py_proof :: "jstr option"
  py_method :: jstr
  py_receipt :: jstr
  py_by :: jstr
  py_kind :: payment_kind
  py_status :: review_status
  py_note :: "jstr option"
  py_reviewed_by :: "jstr option"
  py_reference :: "jstr option"

record ledger =
  l_core :: db
  l_homes :: "home list"
  l_bills :: "bill list"
  l_payments :: "payment list"

definition known_user :: "'a ledger_scheme \<Rightarrow> jstr \<Rightarrow> bool" where
  "known_user L u \<longleftrightarrow> u \<in> u_id ` set (t_users (l_core L))"

definition known_home :: "'a ledger_scheme \<Rightarrow> jstr \<Rightarrow> bool" where
  "known_home L p \<longleftrightarrow> p \<in> hm_id ` set (l_homes L)"

definition ledger_draw :: "host \<Rightarrow> nat \<Rightarrow> 'a ledger_scheme \<Rightarrow> jstr" where
  "ledger_draw H k L = h_uuid H (t_draws (l_core L) + k)"

definition ledger_drawn :: "nat \<Rightarrow> 'a ledger_scheme \<Rightarrow> 'a ledger_scheme" where
  "ledger_drawn k L = L\<lparr>l_core := drawn k (l_core L)\<rparr>"

lemma ledger_drawn_simps [simp]:
  "l_bills (ledger_drawn k L) = l_bills L" "l_payments (ledger_drawn k L) = l_payments L"
  "l_homes (ledger_drawn k L) = l_homes L" "ledger.more (ledger_drawn k L) = ledger.more L"
  by (simp_all add: ledger_drawn_def)

text \<open>The INSERT statements with the constraints of the tables.\<close>

definition insert_bill :: "bill \<Rightarrow> 'a ledger_scheme \<Rightarrow> 'a ledger_scheme response" where
  "insert_bill b L =
     guard (0 \<le> b_amount b) internal_error
     (guard (b_id b \<notin> b_id ` set (l_bills L)
        \<and> (b_reference b \<noteq> None \<longrightarrow> b_reference b \<notin> b_reference ` set (l_bills L))) unique_error
     (guard (known_home L (b_property b) \<and> known_user L (b_resident b)) internal_error
     (Inr (L\<lparr>l_bills := l_bills L @ [b]\<rparr>))))"

definition insert_payment :: "payment \<Rightarrow> 'a ledger_scheme \<Rightarrow> 'a ledger_scheme response" where
  "insert_payment p L =
     guard (0 < py_amount p) internal_error
     (guard (py_id p \<notin> py_id ` set (l_payments L) \<and> py_receipt p \<notin> py_receipt ` set (l_payments L)
        \<and> (py_reference p \<noteq> None \<longrightarrow> py_reference p \<notin> py_reference ` set (l_payments L))) unique_error
     (guard (py_bill p \<in> b_id ` set (l_bills L) \<and> known_user L (py_by p)) internal_error
     (Inr (L\<lparr>l_payments := l_payments L @ [p]\<rparr>))))"

subsection \<open>Reconciliation\<close>

definition signed_amount :: "payment \<Rightarrow> int" where
  "signed_amount p = (if py_kind p = Refund then - py_amount p else py_amount p)"

definition paid_minor :: "payment list \<Rightarrow> jstr \<Rightarrow> int" where
  "paid_minor ps i = sum_list (map signed_amount (filter (\<lambda>p. py_bill p = i \<and> py_status p = ReviewApproved) ps))"

definition settled_status :: "int \<Rightarrow> int \<Rightarrow> bill_status" where
  "settled_status amount paid = (if paid \<ge> amount then BillPaid else if paid > 0 then BillPartial else BillUnpaid)"

definition reconcile_bill :: "jstr \<Rightarrow> 'a ledger_scheme \<Rightarrow> 'a ledger_scheme" where
  "reconcile_bill i L =
    (case List.find (\<lambda>b. b_id b = i) (l_bills L) of
       None \<Rightarrow> L
     | Some b \<Rightarrow> L\<lparr>l_bills := update_where (\<lambda>r. b_id r = i)
           (\<lambda>r. r\<lparr>b_status := settled_status (b_amount b) (paid_minor (l_payments L) i)\<rparr>) (l_bills L)\<rparr>)"

subsection \<open>Routes\<close>

record bill_body =
  bb_property :: "jstr option"
  bb_resident :: "jstr option"
  bb_amount :: jval
  bb_due :: "jstr option"
  bb_type :: "jstr option"
  bb_description :: "jstr option"

definition permission_error :: "nat \<times> jstr" where
  "permission_error = (403, js ''You do not have permission for this action'')"

definition create_bill :: "host \<Rightarrow> actor \<Rightarrow> bill_body \<Rightarrow> 'a ledger_scheme \<Rightarrow> (jstr \<times> 'a ledger_scheme) response" where
  "create_bill H a b L =
     guard (act_role a \<in> {js ''admin'', js ''cashier''}) permission_error
     (guard (truthy_text (bb_property b) \<and> truthy_text (bb_resident b) \<and> truthy (bb_amount b)
             \<and> truthy_text (bb_due b) \<and> truthy_text (bb_type b))
        (400, js ''propertyId, residentId, amountMinor, dueDate and billType are required'')
     (let i = ledger_draw H 0 L in
      case round_value (bb_amount b) of
        None \<Rightarrow> Inl internal_error
      | Some n \<Rightarrow>
          rbind (insert_bill \<lparr>b_id = i, b_property = the (bb_property b), b_resident = the (bb_resident b), b_amount = n,
                   b_currency = js ''NGN'', b_due = the (bb_due b), b_status = BillUnpaid, b_type = the (bb_type b),
                   b_description = bb_description b, b_batch = None, b_reference = None\<rparr> (ledger_drawn 1 L))
            (\<lambda>L'. Inr (i, L'))))"

definition payment_method_ids :: "jstr list" where
  "payment_method_ids = [js ''pos'', js ''cash'', js ''bank_transfer'']"

definition receipt_number :: "int \<Rightarrow> jstr \<Rightarrow> jstr" where
  "receipt_number now u = js ''EM-'' @ replace_unit 45 [] (slice_to 10 (iso_string now)) @ js ''-'' @ upper (slice_to 8 u)"

record payment_body =
  pb_bill :: "jstr option"
  pb_amount :: jval
  pb_method :: "jstr option"
  pb_proof_image :: "jstr option"
  pb_proofs :: jval

definition payment_proofs :: "payment_body \<Rightarrow> jstr list" where
  "payment_proofs b = proof_keys
     (nullish_or (pb_proofs b) (if truthy_text (pb_proof_image b) then Arr [jopt (pb_proof_image b)] else Arr []))"

definition record_payment ::
    "host \<Rightarrow> int \<Rightarrow> actor \<Rightarrow> payment_body \<Rightarrow> 'a ledger_scheme \<Rightarrow> (jstr \<times> 'a ledger_scheme) response" where
  "record_payment H now a b L =
     guard (act_role a \<in> {js ''resident'', js ''cashier'', js ''admin''}) permission_error
     (guard (truthy_text (pb_bill b) \<and> truthy (pb_amount b) \<and> truthy_text (pb_method b))
        (400, js ''billId, amountMinor and paymentMethod are required'')
     (guard (the (pb_method b) \<in> set payment_method_ids)
        (400, js ''paymentMethod must be one of: POS payment at office, cash payment at office or bank transfer'')
     (guard (act_role a = js ''resident'' \<longrightarrow>
               list_ex (\<lambda>r. b_id r = the (pb_bill b) \<and> b_resident r = act_id a) (l_bills L))
        (403, js ''That bill does not belong to you'')
     (let i = ledger_draw H 0 L;
          st = (if act_role a = js ''resident'' then ReviewPending else ReviewApproved) in
      case round_value (pb_amount b) of
        None \<Rightarrow> Inl internal_error
      | Some n \<Rightarrow>
          rbind (insert_payment \<lparr>py_id = i, py_bill = the (pb_bill b), py_amount = n, py_proof = pb_proof_image b,
                   py_method = the (pb_method b), py_receipt = receipt_number now (ledger_draw H 1 L), py_by = act_id a,
                   py_kind = PaymentIn, py_status = st, py_note = None,
                   py_reviewed_by = (if st = ReviewApproved then Some (act_id a) else None), py_reference = None\<rparr>
                   (ledger_drawn 2 L))
            (\<lambda>L1. let L2 = (if st = ReviewApproved then reconcile_bill (the (pb_bill b)) L1 else L1)
                  in Inr (i, L2\<lparr>l_core := link_proof_files (payment_proofs b) (js ''payment'') i (act_id a) (l_core L2)\<rparr>))))))"

definition review_payment ::
    "actor \<Rightarrow> jstr \<Rightarrow> review_status option \<Rightarrow> jstr option \<Rightarrow> 'a ledger_scheme \<Rightarrow> 'a ledger_scheme response" where
  "review_payment a i status note L =
     guard (act_role a \<in> {js ''cashier'', js ''admin''}) permission_error
     (guard (status \<in> {Some ReviewApproved, Some ReviewRejected}) (400, js ''status must be approved or rejected'')
     (case List.find (\<lambda>p. py_id p = i \<and> py_status p = ReviewPending) (l_payments L) of
        None \<Rightarrow> Inl (404, js ''Pending payment not found'')
      | Some p \<Rightarrow>
          let L1 = L\<lparr>l_payments := update_where (\<lambda>r. py_id r = i)
                (\<lambda>r. r\<lparr>py_status := the status, py_note := note, py_reviewed_by := Some (act_id a)\<rparr>) (l_payments L)\<rparr>
          in Inr (if status = Some ReviewApproved then reconcile_bill (py_bill p) L1 else L1)))"

subsection \<open>The books agree\<close>

text \<open>
  A bill that is not cancelled says what its approved payments say. A bill nothing was paid on
  is \<open>unpaid\<close> until the first reconciliation, whatever its amount.
\<close>

definition no_approved :: "payment list \<Rightarrow> jstr \<Rightarrow> bool" where
  "no_approved ps i \<longleftrightarrow> (\<forall>p\<in>set ps. py_bill p = i \<longrightarrow> py_status p \<noteq> ReviewApproved)"

definition bill_agrees :: "payment list \<Rightarrow> bill \<Rightarrow> bool" where
  "bill_agrees ps b \<longleftrightarrow> b_status b = BillVoid
     \<or> b_status b = settled_status (b_amount b) (paid_minor ps (b_id b))
     \<or> b_status b = BillUnpaid \<and> no_approved ps (b_id b)"

definition books :: "'a ledger_scheme \<Rightarrow> bool" where
  "books L \<longleftrightarrow> distinct (map b_id (l_bills L)) \<and> distinct (map py_id (l_payments L))
     \<and> py_bill ` set (l_payments L) \<subseteq> b_id ` set (l_bills L)
     \<and> (\<forall>b\<in>set (l_bills L). bill_agrees (l_payments L) b)"

lemma paid_minor_snoc:
  "paid_minor (ps @ [p]) i = paid_minor ps i + (if py_bill p = i \<and> py_status p = ReviewApproved then signed_amount p else 0)"
  by (simp add: paid_minor_def)

lemma no_approved_snoc [simp]:
  "no_approved (ps @ [p]) i \<longleftrightarrow> no_approved ps i \<and> (py_bill p = i \<longrightarrow> py_status p \<noteq> ReviewApproved)"
  by (auto simp: no_approved_def)

lemma no_approved_paid: "no_approved ps i \<Longrightarrow> paid_minor ps i = 0"
  by (induction ps) (auto simp: no_approved_def paid_minor_def)

text \<open>Whether a bill agrees depends only on the approved payments of that bill.\<close>

definition approved_for :: "payment list \<Rightarrow> jstr \<Rightarrow> payment list" where
  "approved_for ps i = filter (\<lambda>p. py_bill p = i \<and> py_status p = ReviewApproved) ps"

lemma bill_agrees_cong:
  assumes "approved_for ps (b_id b) = approved_for qs (b_id b)"
  shows "bill_agrees ps b = bill_agrees qs b"
proof -
  have "no_approved rs i \<longleftrightarrow> approved_for rs i = []" for rs i
    by (auto simp: no_approved_def approved_for_def filter_empty_conv)
  then show ?thesis using assms by (simp add: bill_agrees_def paid_minor_def flip: approved_for_def)
qed

lemma reconcile_simps [simp]:
  "l_payments (reconcile_bill i L) = l_payments L" "l_homes (reconcile_bill i L) = l_homes L"
  "l_core (reconcile_bill i L) = l_core L" "map b_id (l_bills (reconcile_bill i L)) = map b_id (l_bills L)"
  "b_id ` set (l_bills (reconcile_bill i L)) = b_id ` set (l_bills L)"
  "ledger.more (reconcile_bill i L) = ledger.more L"
proof -
  show a: "map b_id (l_bills (reconcile_bill i L)) = map b_id (l_bills L)"
    by (simp add: reconcile_bill_def map_update_where split: option.split)
  show "b_id ` set (l_bills (reconcile_bill i L)) = b_id ` set (l_bills L)"
    using arg_cong [OF a, of set] by simp
qed (simp_all add: reconcile_bill_def split: option.split)

lemma find_distinct_id:
  assumes "distinct (map g xs)" "x \<in> set xs"
  shows "List.find (\<lambda>y. g y = g x) xs = Some x"
  using assms by (induction xs) auto

lemma reconciled_rows:
  assumes "distinct (map b_id (l_bills L))"
  shows "l_bills (reconcile_bill i L) = update_where (\<lambda>b. b_id b = i)
           (\<lambda>b. b\<lparr>b_status := settled_status (b_amount b) (paid_minor (l_payments L) (b_id b))\<rparr>) (l_bills L)"
proof (cases "List.find (\<lambda>b. b_id b = i) (l_bills L)")
  case None
  then have "\<And>b. b \<in> set (l_bills L) \<Longrightarrow> b_id b \<noteq> i" by (simp add: find_None_iff_set)
  then show ?thesis using None by (simp add: reconcile_bill_def update_where_none)
next
  case (Some b)
  then have b: "b \<in> set (l_bills L)" "b_id b = i" using find_Some_set by fastforce+
  have "c = b" if "c \<in> set (l_bills L)" "b_id c = i" for c
    using assms b that by (auto simp: distinct_map inj_on_def)
  then have "update_where (\<lambda>r. b_id r = i) (\<lambda>r. r\<lparr>b_status := settled_status (b_amount b) (paid_minor (l_payments L) i)\<rparr>) (l_bills L)
      = update_where (\<lambda>r. b_id r = i)
           (\<lambda>r. r\<lparr>b_status := settled_status (b_amount r) (paid_minor (l_payments L) (b_id r))\<rparr>) (l_bills L)"
    unfolding update_where_def by (intro map_cong refl) (use b in auto)
  then show ?thesis by (simp add: reconcile_bill_def Some)
qed

lemma reconcile_books:
  assumes "distinct (map b_id (l_bills L))" "distinct (map py_id (l_payments L))"
    and "py_bill ` set (l_payments L) \<subseteq> b_id ` set (l_bills L)"
    and "\<And>b. b \<in> set (l_bills L) \<Longrightarrow> b_id b \<noteq> i \<Longrightarrow> bill_agrees (l_payments L) b"
  shows "books (reconcile_bill i L)"
proof -
  have "bill_agrees (l_payments L) c" if c: "c \<in> set (l_bills (reconcile_bill i L))" for c
  proof -
    obtain b where "b \<in> set (l_bills L)" "c = (if b_id b = i
        then b\<lparr>b_status := settled_status (b_amount b) (paid_minor (l_payments L) (b_id b))\<rparr> else b)"
      using c by (auto simp: reconciled_rows [OF assms(1)] in_update_where)
    then show ?thesis using assms(4) by (auto simp: bill_agrees_def)
  qed
  then show ?thesis using assms(1-3) by (simp add: books_def)
qed

lemma insert_bill_eq:
  "insert_bill b L = Inr L' \<longleftrightarrow>
     0 \<le> b_amount b \<and> b_id b \<notin> b_id ` set (l_bills L)
     \<and> (b_reference b \<noteq> None \<longrightarrow> b_reference b \<notin> b_reference ` set (l_bills L))
     \<and> known_home L (b_property b) \<and> known_user L (b_resident b) \<and> L' = L\<lparr>l_bills := l_bills L @ [b]\<rparr>"
  by (auto simp: insert_bill_def guard_Inr_iff)

lemma insert_payment_eq:
  "insert_payment p L = Inr L' \<longleftrightarrow>
     0 < py_amount p \<and> py_id p \<notin> py_id ` set (l_payments L) \<and> py_receipt p \<notin> py_receipt ` set (l_payments L)
     \<and> (py_reference p \<noteq> None \<longrightarrow> py_reference p \<notin> py_reference ` set (l_payments L))
     \<and> py_bill p \<in> b_id ` set (l_bills L) \<and> known_user L (py_by p) \<and> L' = L\<lparr>l_payments := l_payments L @ [p]\<rparr>"
  by (auto simp: insert_payment_def guard_Inr_iff)

lemma insert_bill_books:
  assumes "books L" "insert_bill b L = Inr L'" "b_status b = BillUnpaid"
  shows "books L'"
proof -
  have "b_id b \<notin> py_bill ` set (l_payments L)"
    using assms(1,2) by (simp add: books_def insert_bill_eq) blast
  then have "no_approved (l_payments L) (b_id b)" by (force simp: no_approved_def)
  then have "bill_agrees (l_payments L) b" using assms(3) by (simp add: bill_agrees_def)
  then show ?thesis using assms(1,2) by (auto simp: insert_bill_eq books_def)
qed

lemma insert_payment_agrees:
  assumes "books L" "insert_payment p L = Inr L'" "b \<in> set (l_bills L)"
    and "b_id b \<noteq> py_bill p \<or> py_status p \<noteq> ReviewApproved"
  shows "bill_agrees (l_payments L') b"
proof -
  have "approved_for (l_payments L') (b_id b) = approved_for (l_payments L) (b_id b)"
    using assms(2,4) by (auto simp: insert_payment_eq approved_for_def)
  then show ?thesis using assms(1,3) bill_agrees_cong by (metis books_def)
qed

lemma insert_payment_books:
  assumes "books L" "insert_payment p L = Inr L'"
  shows "books (if py_status p = ReviewApproved then reconcile_bill (py_bill p) L' else L')"
proof -
  have *: "distinct (map b_id (l_bills L'))" "distinct (map py_id (l_payments L'))"
      "py_bill ` set (l_payments L') \<subseteq> b_id ` set (l_bills L')" "l_bills L' = l_bills L"
    using assms by (auto simp: insert_payment_eq books_def)
  show ?thesis
  proof (cases "py_status p = ReviewApproved")
    case True
    then show ?thesis using * insert_payment_agrees [OF assms] by (auto intro!: reconcile_books)
  next
    case False
    then show ?thesis using * insert_payment_agrees [OF assms] by (simp add: books_def)
  qed
qed

lemma books_core [simp]: "books (L\<lparr>l_core := d\<rparr>) = books L" "books (ledger_drawn k L) = books L"
  by (simp_all add: books_def)

lemma find_distinct_id_if:
  assumes "distinct (map g xs)" "x \<in> set xs" "P x"
  shows "List.find (\<lambda>y. g y = g x \<and> P y) xs = Some x"
  using assms by (induction xs) auto

lemma create_bill_eq:
  assumes "create_bill H a b L = Inr (i, L')"
  obtains r where "insert_bill r (ledger_drawn 1 L) = Inr L'" "b_status r = BillUnpaid" "b_id r = i"
  using assms by (auto simp: create_bill_def guard_Inr_iff rbind_Inr_iff Let_def split: option.splits)

lemma create_bill_books:
  assumes "books L" "create_bill H a b L = Inr (i, L')"
  shows "books L'"
  using assms(2) by (rule create_bill_eq) (use assms(1) insert_bill_books books_core(2) in blast)

lemma record_payment_books:
  assumes "books L" "record_payment H now a b L = Inr (i, L')"
  shows "books L'"
proof -
  obtain p L1 where p: "insert_payment p (ledger_drawn 2 L) = Inr L1" "py_bill p = the (pb_bill b)"
      and L': "books L' = books (if py_status p = ReviewApproved then reconcile_bill (py_bill p) L1 else L1)"
    using assms(2) unfolding record_payment_def guard_Inr_iff Let_def
    by (auto simp: rbind_Inr_iff split: option.splits)
  then show ?thesis using insert_payment_books [of "ledger_drawn 2 L" p L1] assms(1) by simp
qed

lemma review_payment_books:
  assumes "books L" "review_payment a i st note L = Inr L'"
  shows "books L'"
proof -
  obtain p where p: "List.find (\<lambda>p. py_id p = i \<and> py_status p = ReviewPending) (l_payments L) = Some p"
      and st: "st = Some ReviewApproved \<or> st = Some ReviewRejected"
      and L': "L' = (let L1 = L\<lparr>l_payments := update_where (\<lambda>r. py_id r = i)
                (\<lambda>r. r\<lparr>py_status := the st, py_note := note, py_reviewed_by := Some (act_id a)\<rparr>) (l_payments L)\<rparr>
          in if st = Some ReviewApproved then reconcile_bill (py_bill p) L1 else L1)"
    using assms(2) by (auto simp: review_payment_def guard_Inr_iff Let_def split: option.splits)
  define f where "f = (\<lambda>r::payment. r\<lparr>py_status := the st, py_note := note, py_reviewed_by := Some (act_id a)\<rparr>)"
  define ps where "ps = update_where (\<lambda>r. py_id r = i) f (l_payments L)"
  have pm: "p \<in> set (l_payments L)" "py_id p = i" "py_status p = ReviewPending" using find_Some_set [OF p] by auto
  have dist: "distinct (map py_id (l_payments L))" using assms(1) by (simp add: books_def)
  have only: "r = p" if "r \<in> set (l_payments L)" "py_id r = i" for r
    using dist pm that by (auto simp: distinct_map inj_on_def)
  have map_id: "map py_id ps = map py_id (l_payments L)" "map py_bill ps = map py_bill (l_payments L)"
    by (simp_all add: ps_def f_def map_update_where)
  have keep: "approved_for ps j = approved_for (l_payments L) j" if j: "j \<noteq> py_bill p \<or> st \<noteq> Some ReviewApproved" for j
    unfolding approved_for_def ps_def
  proof (rule filter_update_where_in)
    fix r assume "r \<in> set (l_payments L)" "py_id r = i"
    then have "r = p" by (rule only)
    then show "\<not> (py_bill (f r) = j \<and> py_status (f r) = ReviewApproved) \<and> \<not> (py_bill r = j \<and> py_status r = ReviewApproved)"
      using pm st j by (auto simp: f_def)
  qed
  have agrees: "bill_agrees ps b" if "b \<in> set (l_bills L)" "b_id b \<noteq> py_bill p \<or> st \<noteq> Some ReviewApproved" for b
    using bill_agrees_cong [OF keep [OF that(2)]] assms(1) that(1) by (simp add: books_def)
  have fk: "py_bill ` set ps \<subseteq> b_id ` set (l_bills L)"
    using arg_cong [OF map_id(2), of set] assms(1) by (simp add: books_def)
  have d: "distinct (map b_id (l_bills L))" "distinct (map py_id ps)"
    using assms(1) map_id dist by (simp_all add: books_def)
  show ?thesis
  proof (cases "st = Some ReviewApproved")
    case True
    then have "L' = reconcile_bill (py_bill p) (L\<lparr>l_payments := ps\<rparr>)"
      using L' by (simp add: Let_def ps_def f_def)
    moreover have "books (reconcile_bill (py_bill p) (L\<lparr>l_payments := ps\<rparr>))"
      by (rule reconcile_books) (use d fk agrees in auto)
    ultimately show ?thesis by simp
  next
    case False
    then show ?thesis using L' d fk agrees by (simp add: books_def Let_def ps_def f_def)
  qed
qed

subsection \<open>A cancelled bill\<close>

text \<open>
  The review of a payment does not look at the bill: the approval of a payment submitted before a
  bill was cancelled writes a payable status over \<open>void\<close>.
\<close>

lemma settled_not_void [simp]: "settled_status m p \<noteq> BillVoid"
  by (simp add: settled_status_def)

lemma reconcile_result:
  assumes "distinct (map b_id (l_bills L))" "b \<in> set (l_bills L)"
  shows "b\<lparr>b_status := settled_status (b_amount b) (paid_minor (l_payments L) (b_id b))\<rparr> \<in> set (l_bills (reconcile_bill (b_id b) L))"
  using assms by (auto simp: reconciled_rows intro: update_whereI)

definition sample_bill :: "jstr \<Rightarrow> int \<Rightarrow> bill_status \<Rightarrow> bill" where
  "sample_bill i n st = \<lparr>b_id = i, b_property = js ''p1'', b_resident = js ''u1'', b_amount = n, b_currency = js ''NGN'',
     b_due = js ''2026-08-01'', b_status = st, b_type = js ''levy'', b_description = None, b_batch = None, b_reference = None\<rparr>"

definition sample_payment :: "jstr \<Rightarrow> jstr \<Rightarrow> int \<Rightarrow> review_status \<Rightarrow> payment" where
  "sample_payment i bl n st = \<lparr>py_id = i, py_bill = bl, py_amount = n, py_proof = None, py_method = js ''pos'',
     py_receipt = i, py_by = js ''u1'', py_kind = PaymentIn, py_status = st, py_note = None, py_reviewed_by = None,
     py_reference = None\<rparr>"

definition sample_user :: "jstr \<Rightarrow> jstr \<Rightarrow> user" where
  "sample_user i role = \<lparr>u_id = i, u_name = i, u_employee = None, u_status = js ''active'', u_role = role, u_property = None\<rparr>"

definition sample_ledger :: "bill list \<Rightarrow> payment list \<Rightarrow> ledger" where
  "sample_ledger bs ps = \<lparr>l_core = empty_db\<lparr>t_users := [sample_user (js ''u1'') (js ''resident'')]\<rparr>,
     l_homes = [\<lparr>hm_id = js ''p1'', hm_unit = js ''A1'', hm_street = None, hm_block = None, hm_zone = None\<rparr>],
     l_bills = bs, l_payments = ps\<rparr>"

text \<open>
  C38: Approving a payment writes a status over whatever the bill had. A bill that was cancelled
  (void) with a payment still waiting for review comes out unpaid, partial or paid, so it is
  owed again.
\<close>

theorem approval_revives_void:
  assumes "books L" "b \<in> set (l_bills L)" "b_status b = BillVoid"
    and "p \<in> set (l_payments L)" "py_bill p = b_id b" "py_status p = ReviewPending"
    and "act_role a = js ''cashier''"
  shows "\<exists>L'. review_payment a (py_id p) (Some ReviewApproved) note L = Inr L'
    \<and> (\<exists>c\<in>set (l_bills L'). b_id c = b_id b \<and> b_amount c = b_amount b \<and> b_status c \<noteq> BillVoid)"
proof -
  let ?f = "\<lambda>r. r\<lparr>py_status := ReviewApproved, py_note := note, py_reviewed_by := Some (act_id a)\<rparr>"
  let ?L = "L\<lparr>l_payments := update_where (\<lambda>r. py_id r = py_id p) ?f (l_payments L)\<rparr>"
  have d: "distinct (map b_id (l_bills L))" "distinct (map py_id (l_payments L))"
    using assms(1) by (simp_all add: books_def)
  have f: "List.find (\<lambda>q. py_id q = py_id p \<and> py_status q = ReviewPending) (l_payments L) = Some p"
    by (rule find_distinct_id_if [OF d(2) assms(4)]) (rule assms(6))
  have r: "review_payment a (py_id p) (Some ReviewApproved) note L = Inr (reconcile_bill (b_id b) ?L)"
    by (simp add: review_payment_def assms(5,7) f)
  have "b\<lparr>b_status := settled_status (b_amount b) (paid_minor (l_payments ?L) (b_id b))\<rparr>
      \<in> set (l_bills (reconcile_bill (b_id b) ?L))"
    by (rule reconcile_result) (simp_all add: d assms(2))
  from bexI [OF _ this] r show ?thesis by (simp add: Bex_def)
qed

text \<open>Its witness: a bill of 5000 cancelled while a payment of 2000 was waiting.\<close>

definition void_ledger :: ledger where
  "void_ledger = sample_ledger [sample_bill (js ''b1'') 5000 BillVoid] [sample_payment (js ''y1'') (js ''b1'') 2000 ReviewPending]"

theorem approval_revives_void_witness:
  "\<exists>L'. review_payment \<lparr>act_id = js ''c1'', act_role = js ''cashier''\<rparr> (js ''y1'') (Some ReviewApproved) None void_ledger = Inr L'
    \<and> (\<exists>c\<in>set (l_bills L'). b_id c = js ''b1'' \<and> b_amount c = 5000 \<and> b_status c \<noteq> BillVoid)"
proof -
  have b: "books void_ledger"
    by (simp add: books_def void_ledger_def sample_ledger_def bill_agrees_def sample_bill_def sample_payment_def)
  show ?thesis
    using approval_revives_void [of void_ledger "sample_bill (js ''b1'') 5000 BillVoid"
        "sample_payment (js ''y1'') (js ''b1'') 2000 ReviewPending" "\<lparr>act_id = js ''c1'', act_role = js ''cashier''\<rparr>" None, OF b]
    by (simp add: void_ledger_def sample_ledger_def sample_bill_def sample_payment_def)
qed

end
