(* ===== verification/Facilities.thy ===== *)
theory Facilities
  imports Billing "HOL-Library.Log_Nat" "HOL-Library.List_Lexorder"
begin

text \<open>
  The facilities of the estate and the bookings of them (\<^verbatim>\<open>src/src/index.ts\<close>): the routes that
  create, change and retire a facility, the overlap rule, a new booking with its notice, length
  and attendance limits and its fee, and the decisions on a booking, with the bill a fee becomes.
  A handler that changes rows before a later statement fails is paired with the state it leaves.
  An infinite number, which JSON cannot write, is read as not a number.
\<close>

subsection \<open>Doubles\<close>

text \<open>The double nearest to a rational, the even one of two; underflow and overflow are left out.\<close>

definition two_power :: "int \<Rightarrow> rat" where
  "two_power e = (if 0 \<le> e then 2 ^ nat e else 1 / 2 ^ nat (- e))"

definition half_even :: "rat \<Rightarrow> int" where
  "half_even y = (let n = \<lfloor>y\<rfloor>; d = y - of_int n in
     if d < 1 / 2 then n else if 1 / 2 < d then n + 1 else if even n then n else n + 1)"

definition double_of :: "rat \<Rightarrow> rat" where
  "double_of x =
    (if x = 0 then 0
     else case quotient_of x of (p, q) \<Rightarrow>
       let s = 53 - (bitlen \<bar>p\<bar> - bitlen q);
           e = (if \<bar>x\<bar> * two_power s < 2 ^ 53 then s else s - 1)
       in of_int (half_even (x * two_power e)) / two_power e)"

subsection \<open>Tables\<close>

datatype booking_status = BookPending | BookApproved | BookDeclined | BookCancelled | BookCompleted
datatype fee_status = FeeNotRequired | FeeUnpaid | FeePaid | FeeWaived

record facility =
  fc_id :: jstr
  fc_name :: jstr
  fc_description :: "jstr option"
  fc_location :: "jstr option"
  fc_capacity :: "int option"
  fc_hourly :: int
  fc_deposit :: int
  fc_currency :: jstr
  fc_approval :: bool
  fc_payment :: bool
  fc_notice :: int
  fc_max_hours :: int
  fc_rules :: "jstr option"
  fc_photo :: "jstr option"
  fc_active :: bool

record booking =
  bk_id :: jstr
  bk_facility :: jstr
  bk_requester :: jstr
  bk_property :: "jstr option"
  bk_starts :: jstr
  bk_ends :: jstr
  bk_purpose :: "jstr option"
  bk_attendees :: "int option"
  bk_phone :: "jstr option"
  bk_status :: booking_status
  bk_cost :: int
  bk_deposit :: int
  bk_bill :: "jstr option"
  bk_fee :: fee_status
  bk_decided_by :: "jstr option"
  bk_note :: "jstr option"
  bk_cancelled_by :: "jstr option"

record amenities = ledger +
  am_facilities :: "facility list"
  am_bookings :: "booking list"

subsection \<open>Facilities\<close>

text \<open>\<open>Math.floor(Number(v)) || d\<close>.\<close>

definition floor_or :: "int \<Rightarrow> jval \<Rightarrow> int" where
  "floor_or d v = (case number_rat (to_number v) of None \<Rightarrow> d | Some x \<Rightarrow> if \<lfloor>x\<rfloor> = 0 then d else \<lfloor>x\<rfloor>)"

definition absent_number :: "jval \<Rightarrow> bool" where
  "absent_number v \<longleftrightarrow> v = Undef \<or> v = Str []"

text \<open>\<open>text?.trim() || null\<close>.\<close>

definition trimmed_text :: "jstr option \<Rightarrow> jstr option" where
  "trimmed_text x = (case x of None \<Rightarrow> None | Some s \<Rightarrow> if trim s = [] then None else Some (trim s))"

record facility_body =
  fb_name :: "jstr option"
  fb_description :: "jstr option"
  fb_location :: "jstr option"
  fb_capacity :: jval
  fb_hourly :: jval
  fb_deposit :: jval
  fb_currency :: "jstr option"
  fb_approval :: jval
  fb_payment :: jval
  fb_notice :: jval
  fb_max_hours :: jval
  fb_rules :: "jstr option"
  fb_proofs :: jval

definition new_facility :: "jstr \<Rightarrow> facility_body \<Rightarrow> int option \<Rightarrow> facility" where
  "new_facility i b capacity =
     \<lparr>fc_id = i, fc_name = trim (the (fb_name b)), fc_description = trimmed_text (fb_description b),
      fc_location = trimmed_text (fb_location b), fc_capacity = capacity,
      fc_hourly = max 0 (floor_or 0 (nullish_or (fb_hourly b) (Num 0))),
      fc_deposit = max 0 (floor_or 0 (nullish_or (fb_deposit b) (Num 0))),
      fc_currency = slice_to 3 (coalesce (trimmed_text (map_option (upper \<circ> trim) (fb_currency b))) (js ''NGN'')),
      fc_approval = (fb_approval b \<noteq> Bool False), fc_payment = truthy (fb_payment b),
      fc_notice = max 0 (floor_or 0 (nullish_or (fb_notice b) (Num 0))),
      fc_max_hours = max 1 (floor_or 8 (nullish_or (fb_max_hours b) (Num 8))),
      fc_rules = trimmed_text (fb_rules b), fc_photo = List.find (\<lambda>_. True) (proof_keys (fb_proofs b)), fc_active = True\<rparr>"

definition create_facility ::
    "host \<Rightarrow> actor \<Rightarrow> facility_body \<Rightarrow> amenities \<Rightarrow> jstr response \<times> amenities" where
  "create_facility H a b S =
    (if act_role a \<notin> {js ''admin'', js ''manager''} then (Inl permission_error, S)
     else if blank (fb_name b) then (Inl (400, js ''Facility name is required''), S)
     else
       let number = (if absent_number (fb_capacity b) then None else Some (to_number (fb_capacity b)));
           capacity = (case number of Some (Num n) \<Rightarrow> Some n | _ \<Rightarrow> None)
       in if number \<noteq> None \<and> (case capacity of None \<Rightarrow> True | Some n \<Rightarrow> n < 1)
          then (Inl (400, js ''capacity must be a positive whole number''), S)
          else
            let i = ledger_draw H 0 S; f = new_facility i b capacity; S1 = ledger_drawn 1 S
            in if fc_name f \<in> fc_name ` set (am_facilities S) \<or> i \<in> fc_id ` set (am_facilities S)
                  \<or> \<not> known_user S (act_id a)
               then (Inl (409, js ''A facility with this name already exists''), S1)
               else (Inr i, S1\<lparr>am_facilities := am_facilities S @ [f],
                       l_core := link_proof_files (proof_keys (fb_proofs b)) (js ''facility'') i (act_id a) (l_core S1)\<rparr>))"

text \<open>\<open>NULLIF(?, '')\<close> of a trimmed_text text, the column kept where it is null.\<close>

definition text_or :: "jval \<Rightarrow> jstr option \<Rightarrow> jstr option" where
  "text_or v old = (if nullish v \<or> trim (to_string v) = [] then old else Some (trim (to_string v)))"

definition patch_facility :: "jval \<Rightarrow> jstr option \<Rightarrow> facility \<Rightarrow> facility" where
  "patch_facility b status f =
    (let p = (\<lambda>k. get_prop b (js k)) in
     f\<lparr>fc_name := the (text_or (p ''name'') (Some (fc_name f))), fc_description := text_or (p ''description'') (fc_description f),
       fc_location := text_or (p ''location'') (fc_location f),
       fc_capacity := (if absent_number (p ''capacity'') \<or> \<not> truthy (to_number (p ''capacity'')) then fc_capacity f
                       else Some (max 1 (floor_or 1 (p ''capacity'')))),
       fc_hourly := (if p ''hourlyRateMinor'' = Undef then fc_hourly f else max 0 (floor_or 0 (p ''hourlyRateMinor''))),
       fc_deposit := (if p ''depositMinor'' = Undef then fc_deposit f else max 0 (floor_or 0 (p ''depositMinor''))),
       fc_approval := (if p ''requiresApproval'' = Undef then fc_approval f else truthy (p ''requiresApproval'')),
       fc_payment := (if p ''requiresPayment'' = Undef then fc_payment f else truthy (p ''requiresPayment'')),
       fc_notice := (if p ''minNoticeHours'' = Undef then fc_notice f else max 0 (floor_or 0 (p ''minNoticeHours''))),
       fc_max_hours := (if p ''maxHoursPerBooking'' = Undef then fc_max_hours f else max 1 (floor_or 8 (p ''maxHoursPerBooking''))),
       fc_rules := text_or (p ''rules'') (fc_rules f),
       fc_active := (case status of None \<Rightarrow> fc_active f | Some t \<Rightarrow> t = js ''active'')\<rparr>)"

definition update_facility :: "actor \<Rightarrow> jstr \<Rightarrow> jval \<Rightarrow> amenities \<Rightarrow> unit response \<times> amenities" where
  "update_facility a i b S =
    (if act_role a \<notin> {js ''admin'', js ''manager''} then (Inl permission_error, S)
     else case List.find (\<lambda>f. fc_id f = i) (am_facilities S) of
       None \<Rightarrow> (Inl (404, js ''Facility not found''), S)
     | Some f \<Rightarrow>
         let sv = get_prop b (js ''status''); status = (if sv = Undef then None else Some (to_string sv)) in
         if truthy_text status \<and> the status \<notin> {js ''active'', js ''inactive''} then (Inl (400, js ''Invalid status''), S)
         else if status = Some [] then (Inl internal_error, S)
         else let g = patch_facility b status f in
           if \<exists>h\<in>set (am_facilities S). fc_id h \<noteq> i \<and> fc_name h = fc_name g then (Inl unique_error, S)
           else (Inr (), S\<lparr>am_facilities := update_where (\<lambda>h. fc_id h = i) (patch_facility b status) (am_facilities S)\<rparr>))"

text \<open>The notice tells a retired facility from a deleted one.\<close>

definition delete_facility :: "actor \<Rightarrow> jstr \<Rightarrow> amenities \<Rightarrow> bool response \<times> amenities" where
  "delete_facility a i S =
    (if act_role a \<notin> {js ''admin'', js ''manager''} then (Inl permission_error, S)
     else if i \<notin> fc_id ` set (am_facilities S) then (Inl (404, js ''Facility not found''), S)
     else if list_ex (\<lambda>b. bk_facility b = i) (am_bookings S)
     then (Inr True, S\<lparr>am_facilities := update_where (\<lambda>f. fc_id f = i) (\<lambda>f. f\<lparr>fc_active := False\<rparr>) (am_facilities S)\<rparr>)
     else (Inr False, S\<lparr>am_facilities := filter (\<lambda>f. fc_id f \<noteq> i) (am_facilities S)\<rparr>))"

subsection \<open>The overlap rule\<close>

text \<open>\<open>datetime(x) > datetime(y)\<close>: not true where either text is no date.\<close>

definition sql_later :: "host \<Rightarrow> jstr \<Rightarrow> jstr \<Rightarrow> bool" where
  "sql_later H x y =
     (case (h_sql_seconds H x, h_sql_seconds H y) of (Some s, Some t) \<Rightarrow> t < s | _ \<Rightarrow> False)"

definition live :: "booking \<Rightarrow> bool" where
  "live b \<longleftrightarrow> bk_status b = BookPending \<or> bk_status b = BookApproved"

definition booking_overlap_id :: "host \<Rightarrow> booking list \<Rightarrow> jstr \<Rightarrow> jstr \<Rightarrow> jstr \<Rightarrow> jstr option \<Rightarrow> jstr option" where
  "booking_overlap_id H bs f starts ends exclude = map_option bk_id
     (List.find (\<lambda>b. bk_facility b = f \<and> live b \<and> sql_later H (bk_ends b) starts \<and> sql_later H ends (bk_starts b)
        \<and> (exclude = None \<or> exclude \<noteq> Some (bk_id b))) bs)"

subsection \<open>The bill of a booking\<close>

text \<open>\<open>raiseFacilityBookingBill\<close> and \<open>attachFacilityBookingBill\<close>.\<close>

definition booking_bill_text :: "facility \<Rightarrow> booking \<Rightarrow> jstr" where
  "booking_bill_text f b = js ''Facility booking: '' @ fc_name f @ js '' ('' @ slice_to 10 (bk_starts b) @ js '')''
     @ (if bk_deposit b \<noteq> 0 then js '' '' @ [8212] @ js '' includes refundable deposit'' else [])"

definition booking_bill :: "jstr \<Rightarrow> int \<Rightarrow> facility \<Rightarrow> booking \<Rightarrow> jstr \<Rightarrow> bill" where
  "booking_bill i now f b home =
     \<lparr>b_id = i, b_property = home, b_resident = bk_requester b, b_amount = bk_cost b + bk_deposit b,
      b_currency = (if fc_currency f = [] then js ''NGN'' else fc_currency f),
      b_due = slice_to 10 (iso_string (now + 7 * ms_per_day)), b_status = BillUnpaid, b_type = js ''facility_booking'',
      b_description = Some (booking_bill_text f b), b_batch = None, b_reference = None\<rparr>"

definition set_booking :: "jstr \<Rightarrow> (booking \<Rightarrow> booking) \<Rightarrow> amenities \<Rightarrow> amenities" where
  "set_booking i f S = S\<lparr>am_bookings := update_where (\<lambda>b. bk_id b = i) f (am_bookings S)\<rparr>"

definition raise_booking_bill :: "host \<Rightarrow> int \<Rightarrow> jstr \<Rightarrow> amenities \<Rightarrow> jstr option response \<times> amenities" where
  "raise_booking_bill H now i S =
    (case List.find (\<lambda>b. bk_id b = i) (am_bookings S) of
       None \<Rightarrow> (Inr None, S)
     | Some b \<Rightarrow>
         (case List.find (\<lambda>f. fc_id f = bk_facility b) (am_facilities S) of
            None \<Rightarrow> (Inr None, S)
          | Some f \<Rightarrow>
              if bk_cost b + bk_deposit b \<le> 0
              then (Inr None, set_booking i (\<lambda>b. b\<lparr>bk_fee := FeeNotRequired\<rparr>) S)
              else
                let bill = ledger_draw H 0 S; S1 = ledger_drawn 1 S in
                case bk_property b of
                  None \<Rightarrow> (Inl internal_error, S1)
                | Some home \<Rightarrow>
                    (case insert_bill (booking_bill bill now f b home) S1 of
                       Inl e \<Rightarrow> (Inl e, S1)
                     | Inr S2 \<Rightarrow> (Inr (Some bill), S2))))"

definition attach_booking_bill :: "jstr \<Rightarrow> jstr \<Rightarrow> amenities \<Rightarrow> amenities" where
  "attach_booking_bill i bill = set_booking i (\<lambda>b. b\<lparr>bk_bill := Some bill, bk_fee := FeeUnpaid\<rparr>)"

definition bill_booking :: "host \<Rightarrow> int \<Rightarrow> jstr \<Rightarrow> amenities \<Rightarrow> jstr option response \<times> amenities" where
  "bill_booking H now i S =
    (case raise_booking_bill H now i S of
       (Inl e, S1) \<Rightarrow> (Inl e, S1)
     | (Inr None, S1) \<Rightarrow> (Inr None, S1)
     | (Inr (Some bill), S1) \<Rightarrow> (Inr (Some bill), attach_booking_bill i bill S1))"

subsection \<open>A new booking\<close>

text \<open>\<open>primaryResidentPropertyId\<close>: the first ownership, or the first running tenancy by its start.\<close>

definition primary_resident_property :: "host \<Rightarrow> int \<Rightarrow> db \<Rightarrow> jstr \<Rightarrow> jstr option" where
  "primary_resident_property H now db u =
    (case first_owned (t_ownerships db) u of
       Some p \<Rightarrow> Some p
     | None \<Rightarrow> map_option tn_property (List.find (\<lambda>_. True)
         (sort_key tn_start (filter (\<lambda>t. tn_tenant t = u \<and> tenancy_running H now t) (t_tenancies db)))))"

record booking_body =
  kb_facility :: "jstr option"
  kb_property :: "jstr option"
  kb_starts :: "jstr option"
  kb_ends :: "jstr option"
  kb_purpose :: "jstr option"
  kb_attendees :: jval
  kb_phone :: "jstr option"
  kb_requester :: "jstr option"

definition hours_booked :: "int \<Rightarrow> int \<Rightarrow> rat" where
  "hours_booked start stop = double_of (of_int (stop - start) / 3600000)"

definition booking_cost :: "facility \<Rightarrow> int \<Rightarrow> int \<Rightarrow> int" where
  "booking_cost f start stop =
     (if fc_payment f then js_round (double_of (hours_booked start stop * of_int (fc_hourly f))) else 0)"

definition max_days_ahead :: "db \<Rightarrow> jval" where
  "max_days_ahead db =
    (let v = to_number (case t_settings db (js ''facility_booking_max_days_ahead'') of None \<Rightarrow> Num 90 | Some t \<Rightarrow> Str t)
     in if truthy v then v else Num 90)"

text \<open>The checks that read the facility and the clock; the window in milliseconds is what they leave.\<close>

definition booking_window :: "host \<Rightarrow> int \<Rightarrow> db \<Rightarrow> facility \<Rightarrow> jstr \<Rightarrow> jstr \<Rightarrow> (int \<times> int) response" where
  "booking_window H now db f starts ends =
    (let tz = estate_time_zone H db in
     case (parse_estate_instant_ms (h_platform H) (Str starts) tz Start, parse_estate_instant_ms (h_platform H) (Str ends) tz Start) of
       (Some start, Some stop) \<Rightarrow>
         guard (start < stop) (400, js ''endsAt must be after startsAt'')
         (guard (hours_booked start stop \<le> of_int (fc_max_hours f))
            (400, js ''This facility allows at most '' @ show_int (fc_max_hours f) @ js '' hours per booking'')
         (guard (case number_rat (max_days_ahead db) of None \<Rightarrow> True | Some d \<Rightarrow> of_int start \<le> of_int now + d * 86400000)
            (400, js ''Bookings open at most '' @ to_string (max_days_ahead db) @ js '' days ahead'')
         (guard (fc_notice f > 0 \<longrightarrow> now + fc_notice f * 3600000 \<le> start)
            (400, js ''This facility needs at least '' @ show_int (fc_notice f) @ js '' hours notice'')
         (Inr (start, stop)))))
     | _ \<Rightarrow> Inl (400, js ''startsAt and endsAt must be readable datetimes''))"

definition booking_attendees :: "facility \<Rightarrow> jval \<Rightarrow> int option response" where
  "booking_attendees f v =
    (if absent_number v then Inr None
     else case to_number v of
       Num n \<Rightarrow>
         guard (1 \<le> n) (400, js ''attendees must be a positive whole number'')
         (guard (case fc_capacity f of None \<Rightarrow> True | Some c \<Rightarrow> n \<le> c)
            (409, js ''This facility seats '' @ show_int (coalesce (fc_capacity f) 0) @ js ''; lower the attendee count'')
         (Inr (Some n)))
     | _ \<Rightarrow> Inl (400, js ''attendees must be a positive whole number''))"

definition booking_property :: "host \<Rightarrow> int \<Rightarrow> actor \<Rightarrow> jstr \<Rightarrow> jstr option \<Rightarrow> db \<Rightarrow> jstr response" where
  "booking_property H now a requester wanted db =
    (case (if truthy_text wanted then wanted else primary_resident_property H now db requester) of
       None \<Rightarrow> Inl (400, js ''No active property could be resolved for the requester'')
     | Some p \<Rightarrow>
         guard (p \<noteq> []) (400, js ''No active property could be resolved for the requester'')
         (guard (act_role a = js ''resident'' \<longrightarrow> property_relationship H now db requester p \<noteq> None)
            (403, js ''You can request a booking only for a property you occupy'')
         (Inr p)))"

text \<open>The request up to the overlap query: everything that only reads.\<close>

definition plan_booking :: "host \<Rightarrow> int \<Rightarrow> actor \<Rightarrow> booking_body \<Rightarrow> amenities \<Rightarrow> (facility \<times> booking) response" where
  "plan_booking H now a b S =
     guard (act_role a \<in> {js ''resident'', js ''admin'', js ''manager''}) permission_error
     (guard (truthy_text (kb_facility b) \<and> truthy_text (kb_starts b) \<and> truthy_text (kb_ends b))
        (400, js ''facilityId, startsAt and endsAt are required'')
     (case List.find (\<lambda>f. fc_id f = the (kb_facility b) \<and> fc_active f) (am_facilities S) of
        None \<Rightarrow> Inl (404, js ''Active facility not found'')
      | Some f \<Rightarrow>
          rbind (booking_window H now (l_core S) f (the (kb_starts b)) (the (kb_ends b))) (\<lambda>(start, stop).
          let requester = (if act_role a = js ''resident'' then act_id a else coalesce (kb_requester b) (act_id a)) in
          rbind (booking_property H now a requester (kb_property b) (l_core S)) (\<lambda>p.
          rbind (booking_attendees f (kb_attendees b)) (\<lambda>seats.
          let starts = iso_string start; ends = iso_string stop in
          guard (booking_overlap_id H (am_bookings S) (fc_id f) starts ends None = None)
            (409, js ''That window overlaps an existing pending or approved booking'')
          (Inr (f, \<lparr>bk_id = [], bk_facility = fc_id f, bk_requester = requester, bk_property = Some p,
              bk_starts = starts, bk_ends = ends, bk_purpose = trimmed_text (kb_purpose b), bk_attendees = seats,
              bk_phone = trimmed_text (kb_phone b), bk_status = (if fc_approval f then BookPending else BookApproved),
              bk_cost = booking_cost f start stop, bk_deposit = (if fc_payment f then fc_deposit f else 0),
              bk_bill = None, bk_fee = FeeNotRequired, bk_decided_by = None, bk_note = None, bk_cancelled_by = None\<rparr>)))))))"

text \<open>The INSERT with its constraints, and the bill of a booking that needs no approval.\<close>

definition store_booking :: "host \<Rightarrow> int \<Rightarrow> facility \<Rightarrow> booking \<Rightarrow> amenities \<Rightarrow> jstr response \<times> amenities" where
  "store_booking H now f b S =
    (let i = ledger_draw H 0 S; S1 = ledger_drawn 1 S in
     if bk_cost b < 0 \<or> bk_deposit b < 0 then (Inl internal_error, S1)
     else if i \<in> bk_id ` set (am_bookings S) then (Inl unique_error, S1)
     else if fc_id f \<notin> fc_id ` set (am_facilities S) \<or> \<not> known_user S (bk_requester b) \<or> \<not> known_home S (the (bk_property b))
     then (Inl internal_error, S1)
     else
       let S2 = S1\<lparr>am_bookings := am_bookings S @ [b\<lparr>bk_id := i\<rparr>]\<rparr> in
       if \<not> fc_approval f \<and> fc_payment f \<and> bk_cost b + fc_deposit f > 0
       then (case bill_booking H now i S2 of (Inl e, S3) \<Rightarrow> (Inl e, S3) | (Inr _, S3) \<Rightarrow> (Inr i, S3))
       else (Inr i, S2))"

definition create_booking :: "host \<Rightarrow> int \<Rightarrow> actor \<Rightarrow> booking_body \<Rightarrow> amenities \<Rightarrow> jstr response \<times> amenities" where
  "create_booking H now a b S =
    (case plan_booking H now a b S of Inl e \<Rightarrow> (Inl e, S) | Inr (f, k) \<Rightarrow> store_booking H now f k S)"

subsection \<open>Decisions on a booking\<close>

datatype booking_action = Approve | Decline | Cancel | WaivePayment

definition is_estate_operator :: "jstr \<Rightarrow> bool" where
  "is_estate_operator role \<longleftrightarrow> role = js ''admin'' \<or> role = js ''manager''"

definition cancel_booking :: "actor \<Rightarrow> booking \<Rightarrow> amenities \<Rightarrow> unit response \<times> amenities" where
  "cancel_booking a b S =
    (if bk_requester b \<noteq> act_id a \<and> \<not> is_estate_operator (act_role a)
     then (Inl (403, js ''Only the requester or an operator can cancel this booking''), S)
     else if \<not> live b then (Inl (409, js ''Only a pending or approved booking can be cancelled''), S)
     else
       let S1 = set_booking (bk_id b) (\<lambda>b. b\<lparr>bk_status := BookCancelled, bk_cancelled_by := Some (act_id a)\<rparr>) S in
       if truthy_text (bk_bill b)
       then (Inr (), set_booking (bk_id b) (\<lambda>b. b\<lparr>bk_fee := FeeWaived\<rparr>)
               (S1\<lparr>l_bills := update_where (\<lambda>r. b_id r = the (bk_bill b) \<and> (b_status r = BillUnpaid \<or> b_status r = BillPartial))
                     (\<lambda>r. r\<lparr>b_status := BillVoid\<rparr>) (l_bills S1)\<rparr>))
       else (Inr (), S1))"

definition approve_booking :: "host \<Rightarrow> int \<Rightarrow> actor \<Rightarrow> jstr option \<Rightarrow> facility \<Rightarrow> booking \<Rightarrow> amenities \<Rightarrow> unit response \<times> amenities" where
  "approve_booking H now a note f b S =
    (if booking_overlap_id H (am_bookings S) (bk_facility b) (bk_starts b) (bk_ends b) (Some (bk_id b)) \<noteq> None
     then (Inl (409, js ''Another booking was approved for this window in the meantime''), S)
     else
       let S1 = set_booking (bk_id b)
             (\<lambda>b. b\<lparr>bk_status := BookApproved, bk_decided_by := Some (act_id a), bk_note := trimmed_text note\<rparr>) S in
       if \<not> truthy_text (bk_bill b) \<and> fc_payment f \<and> bk_cost b + bk_deposit b > 0
       then (case bill_booking H now (bk_id b) S1 of (Inl e, S2) \<Rightarrow> (Inl e, S2) | (Inr _, S2) \<Rightarrow> (Inr (), S2))
       else (Inr (), S1))"

definition decide_booking ::
    "host \<Rightarrow> int \<Rightarrow> actor \<Rightarrow> jstr \<Rightarrow> booking_action option \<Rightarrow> jstr option \<Rightarrow> amenities \<Rightarrow> unit response \<times> amenities" where
  "decide_booking H now a i action note S =
    (case List.find (\<lambda>b. bk_id b = i) (am_bookings S) of
       None \<Rightarrow> (Inl (404, js ''Booking not found''), S)
     | Some b \<Rightarrow>
         (case List.find (\<lambda>f. fc_id f = bk_facility b) (am_facilities S) of
            None \<Rightarrow> (Inl (404, js ''Booking not found''), S)
          | Some f \<Rightarrow>
              (case action of
                 None \<Rightarrow> (Inl (400, js ''Invalid booking action''), S)
               | Some Cancel \<Rightarrow> cancel_booking a b S
               | Some WaivePayment \<Rightarrow>
                   if act_role a \<notin> {js ''admin'', js ''cashier''}
                   then (Inl (403, js ''Only an administrator or cashier can waive a booking fee''), S)
                   else (Inr (), set_booking i (\<lambda>b. b\<lparr>bk_fee := FeeWaived\<rparr>) S)
               | Some Approve \<Rightarrow>
                   if \<not> is_estate_operator (act_role a) then (Inl (403, js ''Only an operator can decide this booking''), S)
                   else if bk_status b \<noteq> BookPending then (Inl (409, js ''This booking has already been decided''), S)
                   else approve_booking H now a note f b S
               | Some Decline \<Rightarrow>
                   if \<not> is_estate_operator (act_role a) then (Inl (403, js ''Only an operator can decide this booking''), S)
                   else if bk_status b \<noteq> BookPending then (Inl (409, js ''This booking has already been decided''), S)
                   else (Inr (), set_booking i (\<lambda>b. b\<lparr>bk_status := BookDeclined, bk_decided_by := Some (act_id a),
                           bk_note := trimmed_text note\<rparr>) S))))"

subsection \<open>How a booking changes\<close>

fun may_become :: "booking_status \<Rightarrow> booking_status \<Rightarrow> bool" where
  "may_become BookPending y \<longleftrightarrow> y \<noteq> BookCompleted"
| "may_become BookApproved y \<longleftrightarrow> y = BookApproved \<or> y = BookCancelled"
| "may_become x y \<longleftrightarrow> x = y"

lemma may_become_refl [simp]: "may_become x x"
  by (cases x) auto

lemma may_become_trans: "may_become x y \<Longrightarrow> may_become y z \<Longrightarrow> may_become x z"
  by (cases x; cases y; cases z) auto

text \<open>What stays of a booking, whoever decides on it.\<close>

definition follows_on :: "booking \<Rightarrow> booking \<Rightarrow> bool" where
  "follows_on b c \<longleftrightarrow> bk_id c = bk_id b \<and> bk_facility c = bk_facility b \<and> bk_requester c = bk_requester b
     \<and> bk_starts c = bk_starts b \<and> bk_ends c = bk_ends b \<and> bk_cost c = bk_cost b \<and> bk_deposit c = bk_deposit b
     \<and> may_become (bk_status b) (bk_status c) \<and> (truthy_text (bk_bill b) \<longrightarrow> bk_bill c = bk_bill b)"

lemma follows_on_refl [simp]: "follows_on b b"
  by (simp add: follows_on_def)

lemma follows_on_trans: "follows_on a b \<Longrightarrow> follows_on b c \<Longrightarrow> follows_on a c"
  unfolding follows_on_def using may_become_trans by auto

lemma follows_on_live: "follows_on b c \<Longrightarrow> live c \<Longrightarrow> live b"
  by (cases "bk_status b") (auto simp: follows_on_def live_def)

definition clash :: "host \<Rightarrow> booking \<Rightarrow> booking \<Rightarrow> bool" where
  "clash H b c \<longleftrightarrow> bk_id b \<noteq> bk_id c \<and> bk_facility b = bk_facility c \<and> live b \<and> live c
     \<and> sql_later H (bk_ends b) (bk_starts c) \<and> sql_later H (bk_ends c) (bk_starts b)"

lemma clash_sym: "clash H b c \<Longrightarrow> clash H c b"
  by (auto simp: clash_def)

lemma follows_on_clash: "follows_on a b \<Longrightarrow> follows_on c d \<Longrightarrow> clash H b d \<Longrightarrow> clash H a c"
  using follows_on_live by (auto simp: clash_def follows_on_def)

text \<open>A handler changes the rows in place and adds at most one, which is clear of the others.\<close>

definition grows :: "host \<Rightarrow> booking list \<Rightarrow> booking list \<Rightarrow> bool" where
  "grows H bs cs \<longleftrightarrow> (\<exists>g new. cs = map g bs @ new \<and> (\<forall>b\<in>set bs. follows_on b (g b)) \<and> length new \<le> 1
     \<and> (\<forall>k\<in>set new. bk_id k \<notin> bk_id ` set bs \<and> bk_status k \<noteq> BookCompleted \<and> (\<forall>b\<in>set bs. \<not> clash H b k)))"

lemma grows_refl [simp]: "grows H bs bs"
  by (auto simp: grows_def intro!: exI [of _ id] exI [of _ "[]"])

lemma grows_update:
  assumes "\<And>b. b \<in> set bs \<Longrightarrow> P b \<Longrightarrow> follows_on b (f b)"
  shows "grows H bs (update_where P f bs)"
  unfolding grows_def update_where_def using assms
  by (intro exI [of _ "\<lambda>r. if P r then f r else r"] exI [of _ "[]"]) auto

lemma follows_on_clash_new:
  assumes "follows_on k k'" "\<not> clash H b k" shows "\<not> clash H b k'"
  using assms follows_on_clash [of b b k k' H] by auto

lemma grows_new:
  assumes "bk_id k \<notin> bk_id ` set bs" "bk_status k \<noteq> BookCompleted" "\<And>b. b \<in> set bs \<Longrightarrow> \<not> clash H b k"
  shows "grows H bs (bs @ [k])"
  unfolding grows_def using assms by (intro exI [of _ id] exI [of _ "[k]"]) auto

definition calendar :: "host \<Rightarrow> booking list \<Rightarrow> bool" where
  "calendar H bs \<longleftrightarrow> distinct (map bk_id bs) \<and> (\<forall>b\<in>set bs. bk_status b \<noteq> BookCompleted \<and> (\<forall>c\<in>set bs. \<not> clash H b c))"

lemma grows_calendar:
  assumes "calendar H bs" "grows H bs cs"
  shows "calendar H cs"
proof -
  obtain g new where cs: "cs = map g bs @ new" and ev: "\<And>b. b \<in> set bs \<Longrightarrow> follows_on b (g b)" and len: "length new \<le> 1"
      and new: "\<And>k. k \<in> set new \<Longrightarrow> bk_id k \<notin> bk_id ` set bs \<and> bk_status k \<noteq> BookCompleted \<and> (\<forall>b\<in>set bs. \<not> clash H b k)"
    using assms(2) unfolding grows_def by blast
  have ids: "map (bk_id \<circ> g) bs = map bk_id bs" using ev by (simp add: follows_on_def)
  have d: "distinct (map (bk_id \<circ> g) bs)" using assms(1) by (simp only: ids calendar_def)
  have img: "(\<lambda>x. bk_id (g x)) ` set bs = bk_id ` set bs" using arg_cong [OF ids, of set] by (simp add: o_def)
  have "distinct (map bk_id cs)"
    using len new d img by (cases new) (simp_all add: cs)
  moreover have "bk_status c \<noteq> BookCompleted" if c: "c \<in> set cs" for c
  proof (cases "c \<in> set new")
    case False
    then obtain b where b: "b \<in> set bs" "c = g b" using c by (auto simp: cs)
    then show ?thesis using ev [of b] assms(1) by (cases "bk_status b") (auto simp: follows_on_def calendar_def)
  qed (use new in auto)
  moreover have "\<not> clash H c d" if cd: "c \<in> set cs" "d \<in> set cs" for c d
  proof
    assume cl: "clash H c d"
    have old: "\<exists>b\<in>set bs. x = g b \<and> follows_on b x" if "x \<in> set cs" "x \<notin> set new" for x
      using that ev by (auto simp: cs)
    consider "c \<in> set new" "d \<in> set new" | "c \<in> set new" "d \<notin> set new" | "c \<notin> set new" "d \<in> set new"
      | "c \<notin> set new" "d \<notin> set new" by blast
    then show False
    proof cases
      case 1
      then have "c = d" using len by (cases new) auto
      then show False using cl by (simp add: clash_def)
    next
      case 2
      then obtain b where "b \<in> set bs" "follows_on b d" using old cd(2) by blast
      then show False using new [OF 2(1)] follows_on_clash [OF \<open>follows_on b d\<close> follows_on_refl clash_sym [OF cl]] by blast
    next
      case 3
      then obtain b where "b \<in> set bs" "follows_on b c" using old cd(1) by blast
      then show False using new [OF 3(2)] follows_on_clash [OF \<open>follows_on b c\<close> follows_on_refl cl] by blast
    next
      case 4
      then obtain a b where "a \<in> set bs" "b \<in> set bs" "follows_on a c" "follows_on b d" using old cd by blast
      then show False using assms(1) follows_on_clash [OF \<open>follows_on a c\<close> \<open>follows_on b d\<close> cl] by (auto simp: calendar_def)
    qed
  qed
  ultimately show ?thesis by (simp add: calendar_def)
qed

lemma grows_lineage:
  assumes "grows H bs cs" "b \<in> set bs"
  shows "\<exists>c\<in>set cs. follows_on b c"
  using assms by (auto simp: grows_def)

subsection \<open>Every handler\<close>

lemma amenities_simps [simp]:
  "am_bookings (ledger_drawn k S) = am_bookings S" "am_facilities (ledger_drawn k S) = am_facilities S"
  "am_bookings (reconcile_bill i S) = am_bookings S" "am_facilities (reconcile_bill i S) = am_facilities S"
  by (simp_all add: ledger_drawn_def reconcile_bill_def split: option.split)

lemma insert_bill_bookings: "insert_bill b S = Inr S' \<Longrightarrow> am_bookings S' = am_bookings S"
  by (auto simp: insert_bill_eq)

lemma update_where_twice:
  assumes "\<And>r. P r \<Longrightarrow> P (f r)"
  shows "update_where P h (update_where P f rs) = update_where P (h \<circ> f) rs"
  using assms by (auto simp: update_where_def)

lemma bill_fields_id: "\<exists>x y. b = b\<lparr>bk_bill := x, bk_fee := y\<rparr>"
  by (rule exI [of _ "bk_bill b"], rule exI [of _ "bk_fee b"]) simp

lemma bill_fields_set: "\<exists>x y. b\<lparr>bk_fee := v\<rparr> = b\<lparr>bk_bill := x, bk_fee := y\<rparr>" "\<exists>x y. b\<lparr>bk_bill := w, bk_fee := v\<rparr> = b\<lparr>bk_bill := x, bk_fee := y\<rparr>"
  by (rule exI [of _ "bk_bill b"], rule exI [of _ v], simp) (rule exI [of _ w], rule exI [of _ v], simp)

lemma raise_bookings:
  "am_bookings (snd (raise_booking_bill H now i S)) = am_bookings S
   \<or> am_bookings (snd (raise_booking_bill H now i S)) = update_where (\<lambda>b. bk_id b = i) (\<lambda>b. b\<lparr>bk_fee := FeeNotRequired\<rparr>) (am_bookings S)
     \<and> fst (raise_booking_bill H now i S) = Inr None"
  by (auto simp: raise_booking_bill_def set_booking_def Let_def insert_bill_bookings split: option.splits sum.splits)

lemma bill_booking_rows:
  "\<exists>h. am_bookings (snd (bill_booking H now i S)) = update_where (\<lambda>b. bk_id b = i) h (am_bookings S)
     \<and> (\<forall>b. \<exists>x y. h b = b\<lparr>bk_bill := x, bk_fee := y\<rparr>)"
proof -
  have same: "\<exists>h. bs = update_where (\<lambda>b. bk_id b = i) h bs \<and> (\<forall>b. \<exists>x y. h b = b\<lparr>bk_bill := x, bk_fee := y\<rparr>)" for bs
    by (rule exI [of _ "\<lambda>b. b"]) (simp add: update_where_def bill_fields_id)
  obtain r S1 where r: "raise_booking_bill H now i S = (r, S1)" by fastforce
  show ?thesis
  proof (cases "r = Inr None \<or> (\<exists>e. r = Inl e)")
    case True
    then have "snd (bill_booking H now i S) = S1" by (auto simp: bill_booking_def r)
    with raise_bookings [of H now i S]
    consider "am_bookings (snd (bill_booking H now i S)) = am_bookings S"
      | "am_bookings (snd (bill_booking H now i S))
           = update_where (\<lambda>b. bk_id b = i) (\<lambda>b. b\<lparr>bk_fee := FeeNotRequired\<rparr>) (am_bookings S)"
      by (auto simp: r)
    then show ?thesis
    proof cases
      case 1
      then show ?thesis using same by simp
    next
      case 2
      then show ?thesis using bill_fields_set(1) by blast
    qed
  next
    case False
    then obtain bill where "r = Inr (Some bill)" by (cases r) auto
    then show ?thesis using raise_bookings [of H now i S] bill_fields_set(2)
      by (auto simp: r bill_booking_def attach_booking_bill_def set_booking_def)
  qed
qed

lemma find_booking:
  "List.find (\<lambda>b. bk_id b = i) bs = Some b \<Longrightarrow> b \<in> set bs \<and> bk_id b = i"
  by (drule find_Some_set)

lemma distinct_same_id: "distinct (map g xs) \<Longrightarrow> x \<in> set xs \<Longrightarrow> y \<in> set xs \<Longrightarrow> g x = g y \<Longrightarrow> x = y"
  by (auto simp: distinct_map inj_on_def)

lemma decide_grows:
  assumes "distinct (map bk_id (am_bookings S))"
  shows "grows H (am_bookings S) (am_bookings (snd (decide_booking H now a i action note S)))"
proof (cases "List.find (\<lambda>b. bk_id b = i) (am_bookings S)")
  case None
  then show ?thesis by (simp add: decide_booking_def)
next
  case (Some b)
  then have b: "b \<in> set (am_bookings S)" "bk_id b = i" using find_booking by blast+
  have only: "c = b" if "c \<in> set (am_bookings S)" "bk_id c = i" for c
    using distinct_same_id [OF assms that(1) b(1)] that(2) b(2) by simp
  have up: "grows H (am_bookings S) (update_where (\<lambda>c. bk_id c = i) f (am_bookings S))" if "follows_on b (f b)" for f
    using that only by (intro grows_update) auto
  have approve: "grows H (am_bookings S) (am_bookings (snd (approve_booking H now a note f b S)))"
    if "bk_status b = BookPending" for f
  proof -
    let ?g = "\<lambda>b. b\<lparr>bk_status := BookApproved, bk_decided_by := Some (act_id a), bk_note := trimmed_text note\<rparr>"
    let ?S = "set_booking i ?g S"
    obtain h where h: "am_bookings (snd (bill_booking H now i ?S)) = update_where (\<lambda>b. bk_id b = i) h (am_bookings ?S)"
        "\<And>b. \<exists>x y. h b = b\<lparr>bk_bill := x, bk_fee := y\<rparr>"
      using bill_booking_rows [of H now i ?S] by blast
    have g: "follows_on b (?g b)" using that by (simp add: follows_on_def)
    have gh: "follows_on b (h (?g b))" if "\<not> truthy_text (bk_bill b)"
    proof -
      obtain x y where "h (?g b) = (?g b)\<lparr>bk_bill := x, bk_fee := y\<rparr>" using h(2) by blast
      then show ?thesis using g that by (simp add: follows_on_def)
    qed
    have "am_bookings (snd (bill_booking H now i ?S)) = update_where (\<lambda>b. bk_id b = i) (h \<circ> ?g) (am_bookings S)"
      unfolding h(1) by (simp add: set_booking_def update_where_twice)
    then have bill: "grows H (am_bookings S) (am_bookings (snd (bill_booking H now i ?S)))" if "\<not> truthy_text (bk_bill b)"
      using up [of "h \<circ> ?g"] gh that by simp
    have plain: "grows H (am_bookings S) (am_bookings ?S)" using up [of ?g, OF g] by (simp add: set_booking_def)
    show ?thesis
      unfolding approve_booking_def b(2) Let_def
      using plain bill by (auto split: prod.splits sum.splits)
  qed
  have cancel: "grows H (am_bookings S) (am_bookings (snd (cancel_booking a b S)))"
  proof (cases "live b")
    case True
    then have "follows_on b (b\<lparr>bk_status := BookCancelled, bk_cancelled_by := Some (act_id a)\<rparr>)"
        "follows_on b (b\<lparr>bk_status := BookCancelled, bk_cancelled_by := Some (act_id a), bk_fee := FeeWaived\<rparr>)"
      by (auto simp: follows_on_def live_def)
    then show ?thesis
      using up [of "\<lambda>b. b\<lparr>bk_status := BookCancelled, bk_cancelled_by := Some (act_id a)\<rparr>"]
        up [of "\<lambda>b. b\<lparr>bk_status := BookCancelled, bk_cancelled_by := Some (act_id a), bk_fee := FeeWaived\<rparr>"]
      by (auto simp: cancel_booking_def set_booking_def Let_def b(2) update_where_twice o_def)
  next
    case False
    then show ?thesis by (simp add: cancel_booking_def)
  qed
  have decline: "grows H (am_bookings S) (am_bookings (set_booking i (\<lambda>b. b\<lparr>bk_status := BookDeclined,
      bk_decided_by := Some (act_id a), bk_note := trimmed_text note\<rparr>) S))" if "bk_status b = BookPending"
    using that up by (simp add: set_booking_def follows_on_def)
  have waive: "grows H (am_bookings S) (am_bookings (set_booking i (\<lambda>b. b\<lparr>bk_fee := FeeWaived\<rparr>) S))"
    using up by (simp add: set_booking_def follows_on_def)
  show ?thesis
    using approve cancel decline waive
    by (auto simp: decide_booking_def Some split: option.split booking_action.split)
qed

lemma store_rows:
  assumes "bk_id k = ledger_draw H 0 S" "bk_bill k = None"
  shows "am_bookings (snd (store_booking H now f k S)) = am_bookings S
   \<or> bk_id k \<notin> bk_id ` set (am_bookings S) \<and> (\<exists>k'. follows_on k k' \<and> am_bookings (snd (store_booking H now f k S)) = am_bookings S @ [k'])"
proof (cases "bk_cost k < 0 \<or> bk_deposit k < 0 \<or> bk_id k \<in> bk_id ` set (am_bookings S) \<or> fc_id f \<notin> fc_id ` set (am_facilities S)
    \<or> \<not> known_user S (bk_requester k) \<or> \<not> known_home S (the (bk_property k))")
  case True
  then show ?thesis using assms(1) by (auto simp: store_booking_def Let_def)
next
  case False
  let ?S = "(ledger_drawn 1 S)\<lparr>am_bookings := am_bookings S @ [k\<lparr>bk_id := ledger_draw H 0 S\<rparr>]\<rparr>"
  have k: "k\<lparr>bk_id := ledger_draw H 0 S\<rparr> = k" using assms(1) by (cases k) auto
  obtain h where h: "am_bookings (snd (bill_booking H now (ledger_draw H 0 S) ?S))
        = update_where (\<lambda>b. bk_id b = ledger_draw H 0 S) h (am_bookings ?S)"
      "\<And>b. \<exists>x y. h b = b\<lparr>bk_bill := x, bk_fee := y\<rparr>"
    using bill_booking_rows [of H now "ledger_draw H 0 S" ?S] by blast
  have "update_where (\<lambda>b. bk_id b = ledger_draw H 0 S) h (am_bookings S) = am_bookings S"
    by (rule update_where_none) (use False assms(1) in force)
  then have rows: "am_bookings (snd (bill_booking H now (ledger_draw H 0 S) ?S)) = am_bookings S @ [h k]"
    using h(1) by (simp add: update_where_append k assms(1))
  obtain x y where "h k = k\<lparr>bk_bill := x, bk_fee := y\<rparr>" using h(2) by blast
  then have ev: "follows_on k (h k)" using assms(2) by (simp add: follows_on_def truthy_text_def)
  have "am_bookings (snd (store_booking H now f k S)) = am_bookings S @ [h k]
      \<or> am_bookings (snd (store_booking H now f k S)) = am_bookings S @ [k]"
    using False rows unfolding store_booking_def Let_def
    by (auto simp: assms(1) k split: prod.splits sum.splits)
  then show ?thesis using False ev follows_on_refl by blast
qed
lemma store_names: "store_booking H now f k S = store_booking H now f (k\<lparr>bk_id := ledger_draw H 0 S\<rparr>) S"
  unfolding store_booking_def Let_def by simp

lemma plan_facts:
  assumes "plan_booking H now a b S = Inr (f, k)"
  shows "booking_overlap_id H (am_bookings S) (bk_facility k) (bk_starts k) (bk_ends k) None = None"
    "bk_bill k = None" "bk_status k \<noteq> BookCompleted"
  using assms unfolding plan_booking_def guard_Inr_iff Let_def
  by (auto simp: rbind_Inr_iff guard_Inr_iff split: option.splits prod.splits if_splits)

lemma no_overlap_clear:
  assumes "booking_overlap_id H bs (bk_facility k) (bk_starts k) (bk_ends k) None = None" "c \<in> set bs"
  shows "\<not> clash H c k"
  using assms by (auto simp: booking_overlap_id_def clash_def find_None_iff_set)

lemma create_grows: "grows H (am_bookings S) (am_bookings (snd (create_booking H now a b S)))"
proof (cases "plan_booking H now a b S")
  case (Inr fk)
  obtain f k0 where fk: "fk = (f, k0)" by fastforce
  note p = plan_facts [OF Inr [unfolded fk]]
  define k where "k = k0\<lparr>bk_id := ledger_draw H 0 S\<rparr>"
  have k: "bk_bill k = None" "bk_id k = ledger_draw H 0 S" "bk_status k \<noteq> BookCompleted"
      "booking_overlap_id H (am_bookings S) (bk_facility k) (bk_starts k) (bk_ends k) None = None"
    using p by (simp_all add: k_def)
  have create: "create_booking H now a b S = store_booking H now f k S"
    unfolding k_def store_names [symmetric] by (simp add: create_booking_def Inr fk)
  from store_rows [OF k(2,1), where now = now and f = f] show ?thesis
  proof (elim disjE conjE exE)
    fix k' assume fresh: "bk_id k \<notin> bk_id ` set (am_bookings S)" and ev: "follows_on k k'"
      and rows: "am_bookings (snd (store_booking H now f k S)) = am_bookings S @ [k']"
    have "\<not> clash H c k'" if "c \<in> set (am_bookings S)" for c
      using follows_on_clash_new [OF ev no_overlap_clear [OF k(4) that]] .
    moreover have "bk_status k' \<noteq> BookCompleted" using ev k(3) by (cases "bk_status k") (auto simp: follows_on_def)
    moreover have "bk_id k' \<notin> bk_id ` set (am_bookings S)" using ev fresh by (simp add: follows_on_def)
    ultimately show ?thesis unfolding create rows by (intro grows_new) auto
  qed (simp add: create)
qed (simp add: create_booking_def)

subsection \<open>The books of the facilities\<close>

lemma set_booking_books [simp]: "books (set_booking i f S) = books S"
  by (simp add: set_booking_def books_def)

lemma bill_booking_books:
  assumes "books S"
  shows "books (snd (bill_booking H now i S))"
proof -
  have "books (snd (raise_booking_bill H now i S))"
    using assms insert_bill_books [of "ledger_drawn 1 S"]
    by (auto simp: raise_booking_bill_def Let_def booking_bill_def split: option.split sum.split)
  then show ?thesis
    by (cases "raise_booking_bill H now i S") (auto simp: bill_booking_def attach_booking_bill_def split: sum.split option.split)
qed

lemma am_books [simp]: "books (S\<lparr>am_bookings := bs\<rparr>) = books S" "books (S\<lparr>am_facilities := fs\<rparr>) = books (S::amenities)"
  by (simp_all add: books_def)

lemma store_books:
  assumes "books S"
  shows "books (snd (store_booking H now f k S))"
  using assms bill_booking_books [of "(ledger_drawn 1 S)\<lparr>am_bookings := am_bookings S @ [k\<lparr>bk_id := ledger_draw H 0 S\<rparr>]\<rparr>" H now "ledger_draw H 0 S"]
  unfolding store_booking_def Let_def by (auto split: prod.splits sum.splits)

lemma create_booking_books: "books S \<Longrightarrow> books (snd (create_booking H now a b S))"
  using store_books by (auto simp: create_booking_def split: sum.split)

lemma void_books:
  assumes "books S"
  shows "books (S\<lparr>l_bills := update_where P (\<lambda>r. r\<lparr>b_status := BillVoid\<rparr>) (l_bills S)\<rparr>)"
proof -
  have ids: "map b_id (update_where P (\<lambda>r. r\<lparr>b_status := BillVoid\<rparr>) (l_bills S)) = map b_id (l_bills S)"
    by (simp add: map_update_where)
  have img: "b_id ` set (update_where P (\<lambda>r. r\<lparr>b_status := BillVoid\<rparr>) (l_bills S)) = b_id ` set (l_bills S)"
    using arg_cong [OF ids, of set] by simp
  have ag: "bill_agrees (l_payments S) c" if c: "c \<in> set (update_where P (\<lambda>r. r\<lparr>b_status := BillVoid\<rparr>) (l_bills S))" for c
  proof -
    obtain q where "q \<in> set (l_bills S)" "c = (if P q then q\<lparr>b_status := BillVoid\<rparr> else q)"
      using c by (auto simp: in_update_where)
    then show ?thesis using assms by (cases "P q") (auto simp: books_def bill_agrees_def)
  qed
  show ?thesis using assms ids img ag by (simp add: books_def)
qed

lemma cancel_books: "books S \<Longrightarrow> books (snd (cancel_booking a b S))"
  using void_books [of "set_booking (bk_id b) (\<lambda>b. b\<lparr>bk_status := BookCancelled, bk_cancelled_by := Some (act_id a)\<rparr>) S"]
  by (simp add: cancel_booking_def Let_def)

lemma approve_books: "books S \<Longrightarrow> books (snd (approve_booking H now a note f b S))"
  using bill_booking_books [of "set_booking (bk_id b)
      (\<lambda>b. b\<lparr>bk_status := BookApproved, bk_decided_by := Some (act_id a), bk_note := trimmed_text note\<rparr>) S" H now "bk_id b"]
  by (auto simp: approve_booking_def Let_def split: prod.split sum.split)

lemma decide_books: "books S \<Longrightarrow> books (snd (decide_booking H now a i action note S))"
  using cancel_books approve_books by (simp add: decide_booking_def split: option.split booking_action.split)

subsection \<open>Reachable states\<close>

text \<open>Every write of the two modules, in any order; the rows of other modules change in between.\<close>

inductive amenity_step :: "host \<Rightarrow> amenities \<Rightarrow> amenities \<Rightarrow> bool" for H where
  step_bill: "create_bill H a b S = Inr (i, S') \<Longrightarrow> amenity_step H S S'"
| step_payment: "record_payment H now a p S = Inr (i, S') \<Longrightarrow> amenity_step H S S'"
| step_review: "review_payment a i st note S = Inr S' \<Longrightarrow> amenity_step H S S'"
| step_create: "amenity_step H S (snd (create_facility H a fb S))"
| step_update: "amenity_step H S (snd (update_facility a i v S))"
| step_delete: "amenity_step H S (snd (delete_facility a i S))"
| step_book: "amenity_step H S (snd (create_booking H now a kb S))"
| step_decide: "amenity_step H S (snd (decide_booking H now a i action note S))"
| step_elsewhere: "amenity_step H S (S\<lparr>l_core := d, l_homes := hs\<rparr>)"

abbreviation amenity_run :: "host \<Rightarrow> amenities \<Rightarrow> amenities \<Rightarrow> bool" where
  "amenity_run H \<equiv> (amenity_step H)\<^sup>*\<^sup>*"

lemma ledger_bookings:
  fixes S :: amenities
  shows "create_bill H a b S = Inr (i, S') \<Longrightarrow> am_bookings S' = am_bookings S"
    "record_payment H now a p S = Inr (i, S') \<Longrightarrow> am_bookings S' = am_bookings S"
    "review_payment a i st note S = Inr S' \<Longrightarrow> am_bookings S' = am_bookings S"
  by (auto simp: create_bill_def record_payment_def review_payment_def guard_Inr_iff rbind_Inr_iff Let_def
      insert_bill_eq insert_payment_eq split: option.splits if_splits)

lemma facility_bookings:
  "am_bookings (snd (create_facility H a fb S)) = am_bookings S"
  "am_bookings (snd (update_facility a i v S)) = am_bookings S"
  "am_bookings (snd (delete_facility a i S)) = am_bookings S"
  by (simp_all add: create_facility_def update_facility_def delete_facility_def Let_def split: option.split)

lemma facility_books:
  "books S \<Longrightarrow> books (snd (create_facility H a fb S))"
  "books S \<Longrightarrow> books (snd (update_facility a i v S))"
  "books S \<Longrightarrow> books (snd (delete_facility a i S))"
  by (auto simp: create_facility_def update_facility_def delete_facility_def Let_def books_def split: option.split)

definition sound :: "host \<Rightarrow> amenities \<Rightarrow> bool" where
  "sound H S \<longleftrightarrow> books S \<and> calendar H (am_bookings S)"

lemma step_grows:
  assumes "amenity_step H S S'" "distinct (map bk_id (am_bookings S))"
  shows "grows H (am_bookings S) (am_bookings S')"
  using assms by cases (simp_all add: ledger_bookings facility_bookings create_grows decide_grows)

lemma step_books:
  assumes "amenity_step H S S'" "books S"
  shows "books S'"
  using assms
proof cases
  case step_elsewhere
  then show ?thesis using assms(2) by (simp add: books_def)
qed (use assms(2) in \<open>blast intro: facility_books create_booking_books decide_books create_bill_books
       record_payment_books review_payment_books\<close>)+

lemma step_sound: "amenity_step H S S' \<Longrightarrow> sound H S \<Longrightarrow> sound H S'"
  unfolding sound_def by (meson calendar_def grows_calendar step_books step_grows)

lemma run_sound: "amenity_run H S S' \<Longrightarrow> sound H S \<Longrightarrow> sound H S'"
  by (induction rule: rtranclp_induct) (auto intro: step_sound)

lemma run_lineage:
  assumes "amenity_run H S S'" "sound H S" "b \<in> set (am_bookings S)"
  shows "\<exists>c\<in>set (am_bookings S'). follows_on b c"
  using assms(1)
proof (induction rule: rtranclp_induct)
  case base
  then show ?case using assms(3) follows_on_refl by blast
next
  case (step S1 S2)
  then obtain c where c: "c \<in> set (am_bookings S1)" "follows_on b c" by blast
  have "distinct (map bk_id (am_bookings S1))"
    using run_sound [OF step(1) assms(2)] by (simp add: sound_def calendar_def)
  then show ?case using grows_lineage [OF step_grows [OF step(2)] c(1)] follows_on_trans [OF c(2)] by blast
qed

subsection \<open>Properties\<close>

definition opened :: "amenities \<Rightarrow> bool" where
  "opened S \<longleftrightarrow> am_bookings S = [] \<and> l_bills S = [] \<and> l_payments S = []"

lemma opened_sound: "opened S \<Longrightarrow> sound H S"
  by (simp add: opened_def sound_def books_def calendar_def)

definition sample_facility :: "jstr \<Rightarrow> bool \<Rightarrow> facility" where
  "sample_facility i approval = \<lparr>fc_id = i, fc_name = i, fc_description = None, fc_location = None, fc_capacity = Some 50,
     fc_hourly = 1500, fc_deposit = 1000, fc_currency = js ''NGN'', fc_approval = approval, fc_payment = False, fc_notice = 0,
     fc_max_hours = 8, fc_rules = None, fc_photo = None, fc_active = True\<rparr>"

definition hall_estate :: amenities where
  "hall_estate = \<lparr>l_core = empty_db\<lparr>t_users := [sample_user (js ''u1'') (js ''resident''), sample_user (js ''a1'') (js ''admin'')]\<rparr>,
     l_homes = [\<lparr>hm_id = js ''p1'', hm_unit = js ''A1'', hm_street = None, hm_block = None, hm_zone = None\<rparr>],
     l_bills = [], l_payments = [], am_facilities = [sample_facility (js ''hall'') False, sample_facility (js ''court'') True],
     am_bookings = []\<rparr>"

definition hall_request :: "jstr \<Rightarrow> jstr \<Rightarrow> jstr \<Rightarrow> booking_body" where
  "hall_request f t u = \<lparr>kb_facility = Some f, kb_property = Some (js ''p1''), kb_starts = Some t, kb_ends = Some u,
     kb_purpose = None, kb_attendees = Num 20, kb_phone = None, kb_requester = Some (js ''u1'')\<rparr>"

definition hall_now :: int where "hall_now = 1785000000000"

definition hall_admin :: actor where "hall_admin = \<lparr>act_id = js ''a1'', act_role = js ''admin''\<rparr>"

definition hall_booking :: "jstr \<Rightarrow> jstr \<Rightarrow> booking_status \<Rightarrow> int \<Rightarrow> int \<Rightarrow> booking" where
  "hall_booking i f st s t = \<lparr>bk_id = i, bk_facility = f, bk_requester = js ''u1'', bk_property = Some (js ''p1''),
     bk_starts = iso_string s, bk_ends = iso_string t, bk_purpose = None, bk_attendees = Some 20, bk_phone = None,
     bk_status = st, bk_cost = 0, bk_deposit = 0, bk_bill = None, bk_fee = FeeNotRequired,
     bk_decided_by = None, bk_note = None, bk_cancelled_by = None\<rparr>"

lemma hall_instants:
  "parse_estate_instant_ms (h_platform sample_host) (Str (js ''2026-08-01T10:00:00Z'')) (js ''Africa/Lagos'') Start = Some 1785578400000"
  "parse_estate_instant_ms (h_platform sample_host) (Str (js ''2026-08-01T11:00:00Z'')) (js ''Africa/Lagos'') Start = Some 1785582000000"
  "parse_estate_instant_ms (h_platform sample_host) (Str (js ''2026-08-01T12:00:00Z'')) (js ''Africa/Lagos'') Start = Some 1785585600000"
  "parse_estate_instant_ms (h_platform sample_host) (Str (js ''2026-08-01T13:00:00Z'')) (js ''Africa/Lagos'') Start = Some 1785589200000"
  by code_simp+

lemma hall_hours:
  "hours_booked 1785578400000 1785585600000 = 2" "hours_booked 1785582000000 1785589200000 = 2"
  "hours_booked 1785585600000 1785589200000 = 1"
  by code_simp+

lemma default_zone: "normalize_time_zone (h_platform sample_host) Undef = js ''Africa/Lagos''"
  by code_simp

lemma hall_settings:
  assumes "t_settings db = Map.empty"
  shows "estate_time_zone sample_host db = js ''Africa/Lagos''" "max_days_ahead db = Num 90"
  using assms by (simp_all add: estate_time_zone_def default_zone max_days_ahead_def)

lemma hall_windows:
  assumes "t_settings db = Map.empty"
  shows "booking_window sample_host hall_now db (sample_facility f ok) (js ''2026-08-01T10:00:00Z'') (js ''2026-08-01T12:00:00Z'')
     = Inr (1785578400000, 1785585600000)"
    "booking_window sample_host hall_now db (sample_facility f ok) (js ''2026-08-01T11:00:00Z'') (js ''2026-08-01T13:00:00Z'')
     = Inr (1785582000000, 1785589200000)"
    "booking_window sample_host hall_now db (sample_facility f ok) (js ''2026-08-01T12:00:00Z'') (js ''2026-08-01T13:00:00Z'')
     = Inr (1785585600000, 1785589200000)"
  by (simp_all only: booking_window_def hall_settings [OF assms] hall_instants hall_hours Let_def prod.case option.case)
     (simp_all add: sample_facility_def hall_now_def)

lemmas hall_defs = hall_admin_def hall_request_def hall_estate_def booking_property_def booking_attendees_def
  absent_number_def truthy_text_def booking_overlap_id_def sample_facility_def booking_cost_def hall_booking_def trimmed_text_def js_def

lemma hall_plans:
  "plan_booking sample_host hall_now hall_admin (hall_request (js ''hall'') (js ''2026-08-01T10:00:00Z'') (js ''2026-08-01T12:00:00Z'')) hall_estate
     = Inr (sample_facility (js ''hall'') False, hall_booking [] (js ''hall'') BookApproved 1785578400000 1785585600000)"
  "plan_booking sample_host hall_now hall_admin (hall_request (js ''hall'') (js ''2026-08-01T11:00:00Z'') (js ''2026-08-01T13:00:00Z'')) hall_estate
     = Inr (sample_facility (js ''hall'') False, hall_booking [] (js ''hall'') BookApproved 1785582000000 1785589200000)"
  "plan_booking sample_host hall_now hall_admin (hall_request (js ''court'') (js ''2026-08-01T10:00:00Z'') (js ''2026-08-01T12:00:00Z'')) hall_estate
     = Inr (sample_facility (js ''court'') True, hall_booking [] (js ''court'') BookPending 1785578400000 1785585600000)"
  using hall_windows [of "l_core hall_estate"]
  by (simp_all add: plan_booking_def empty_db_def hall_defs)

lemma hall_seconds:
  "h_sql_seconds sample_host (iso_string 1785578400000) = Some 1785578400"
  "h_sql_seconds sample_host (iso_string 1785582000000) = Some 1785582000"
  "h_sql_seconds sample_host (iso_string 1785585600000) = Some 1785585600"
  "h_sql_seconds sample_host (iso_string 1785589200000) = Some 1785589200"
proof -
  have "civil 1785578400000" "civil 1785582000000" "civil 1785585600000" "civil 1785589200000" by code_simp+
  then show "h_sql_seconds sample_host (iso_string 1785578400000) = Some 1785578400"
      "h_sql_seconds sample_host (iso_string 1785582000000) = Some 1785582000"
      "h_sql_seconds sample_host (iso_string 1785585600000) = Some 1785585600"
      "h_sql_seconds sample_host (iso_string 1785589200000) = Some 1785589200"
    by simp_all
qed

lemma hall_ids: "h_uuid sample_host 0 = js ''id-0''" "h_uuid sample_host (Suc 0) = js ''id-1''"
  by code_simp+

definition court_morning :: amenities where
  "court_morning = hall_estate\<lparr>l_core := (l_core hall_estate)\<lparr>t_draws := 1\<rparr>,
     am_bookings := [hall_booking (js ''id-0'') (js ''court'') BookPending 1785578400000 1785585600000]\<rparr>"

definition court_noon :: amenities where
  "court_noon = hall_estate\<lparr>l_core := (l_core hall_estate)\<lparr>t_draws := 2\<rparr>,
     am_bookings := [hall_booking (js ''id-0'') (js ''court'') BookPending 1785578400000 1785585600000,
       hall_booking (js ''id-1'') (js ''court'') BookPending 1785585600000 1785589200000]\<rparr>"

lemmas store_defs = store_booking_def Let_def ledger_draw_def ledger_drawn_def drawn_def hall_ids known_user_def known_home_def
  sample_user_def empty_db_def

lemma court_steps:
  "snd (create_booking sample_host hall_now hall_admin
     (hall_request (js ''court'') (js ''2026-08-01T10:00:00Z'') (js ''2026-08-01T12:00:00Z'')) hall_estate) = court_morning"
  "snd (create_booking sample_host hall_now hall_admin
     (hall_request (js ''court'') (js ''2026-08-01T12:00:00Z'') (js ''2026-08-01T13:00:00Z'')) court_morning) = court_noon"
proof -
  show "snd (create_booking sample_host hall_now hall_admin
     (hall_request (js ''court'') (js ''2026-08-01T10:00:00Z'') (js ''2026-08-01T12:00:00Z'')) hall_estate) = court_morning"
    unfolding create_booking_def hall_plans
    by (simp add: store_defs court_morning_def hall_defs)
  have "plan_booking sample_host hall_now hall_admin
      (hall_request (js ''court'') (js ''2026-08-01T12:00:00Z'') (js ''2026-08-01T13:00:00Z'')) court_morning
    = Inr (sample_facility (js ''court'') True, hall_booking [] (js ''court'') BookPending 1785585600000 1785589200000)"
    using hall_windows [of "l_core court_morning"]
    by (simp add: plan_booking_def court_morning_def empty_db_def hall_defs live_def sql_later_def hall_seconds)
  then show "snd (create_booking sample_host hall_now hall_admin
     (hall_request (js ''court'') (js ''2026-08-01T12:00:00Z'') (js ''2026-08-01T13:00:00Z'')) court_morning) = court_noon"
    by (simp add: create_booking_def) (simp add: store_defs court_morning_def court_noon_def hall_defs)
qed

lemma court_run: "amenity_run sample_host hall_estate court_noon" and hall_opened: "opened hall_estate"
proof -
  have "amenity_step sample_host hall_estate court_morning" "amenity_step sample_host court_morning court_noon"
    unfolding court_steps [symmetric] by (rule step_book)+
  then show "amenity_run sample_host hall_estate court_noon" by (meson converse_rtranclp_into_rtranclp rtranclp.rtrancl_refl)
  show "opened hall_estate" by (simp add: opened_def hall_estate_def)
qed

lemma bill_booking_errors:
  "fst (bill_booking H now i S) = Inl e \<Longrightarrow> e = internal_error \<or> e = unique_error"
  by (auto simp: bill_booking_def raise_booking_bill_def insert_bill_def guard_def Let_def
      split: option.splits sum.splits prod.splits if_splits)

text \<open>
  C8: At every moment of any run of the billing and facility routes, two bookings of a facility that
  are pending or approved have windows that do not meet: one ends, in SQLite's whole seconds, no
  later than the other starts.
\<close>

theorem windows_are_not_shared:
  assumes "amenity_run H S0 S" "opened S0"
    and "b \<in> set (am_bookings S)" "c \<in> set (am_bookings S)" "bk_id b \<noteq> bk_id c" "bk_facility b = bk_facility c"
    and "bk_status b \<in> {BookPending, BookApproved}" "bk_status c \<in> {BookPending, BookApproved}"
    and "h_sql_seconds H (bk_starts b) = Some s1" "h_sql_seconds H (bk_ends b) = Some e1"
    and "h_sql_seconds H (bk_starts c) = Some s2" "h_sql_seconds H (bk_ends c) = Some e2"
  shows "e1 \<le> s2 \<or> e2 \<le> s1"
proof -
  have "\<not> clash H b c"
    using run_sound [OF assms(1) opened_sound [OF assms(2)]] assms(3,4) by (simp add: sound_def calendar_def)
  then show ?thesis using assms(5-) by (auto simp: clash_def live_def sql_later_def)
qed

text \<open>Its witness: the court asked for from ten to twelve and from twelve to one.\<close>

theorem windows_are_not_shared_witness:
  "amenity_run sample_host hall_estate court_noon \<and> ((1785585600::int) \<le> 1785585600 \<or> (1785589200::int) \<le> 1785578400)"
proof -
  let ?b = "hall_booking (js ''id-0'') (js ''court'') BookPending 1785578400000 1785585600000"
  let ?c = "hall_booking (js ''id-1'') (js ''court'') BookPending 1785585600000 1785589200000"
  have "?b \<in> set (am_bookings court_noon)" "?c \<in> set (am_bookings court_noon)" by (simp_all add: court_noon_def)
  from windows_are_not_shared [OF court_run hall_opened this] court_run hall_seconds show ?thesis
    by (simp add: hall_booking_def js_def)
qed

text \<open>
  C9: A booking keeps its facility, requester, window and price for ever, its status only moves from
  pending to approved, declined or cancelled and from approved to cancelled, and a bill once attached
  to it is never replaced. No booking is ever marked completed.
\<close>

theorem bookings_follow_their_life:
  assumes "amenity_run H S0 S" "opened S0" "amenity_run H S S'" "b \<in> set (am_bookings S)"
  shows "\<exists>c\<in>set (am_bookings S'). bk_id c = bk_id b \<and> bk_facility c = bk_facility b \<and> bk_requester c = bk_requester b
    \<and> bk_starts c = bk_starts b \<and> bk_ends c = bk_ends b \<and> bk_cost c = bk_cost b \<and> bk_deposit c = bk_deposit b
    \<and> may_become (bk_status b) (bk_status c) \<and> bk_status c \<noteq> BookCompleted
    \<and> (truthy_text (bk_bill b) \<longrightarrow> bk_bill c = bk_bill b)"
proof -
  have s: "sound H S" using run_sound [OF assms(1) opened_sound [OF assms(2)]] .
  obtain c where "c \<in> set (am_bookings S')" "follows_on b c" using run_lineage [OF assms(3) s assms(4)] by blast
  moreover have "bk_status c \<noteq> BookCompleted" if "c \<in> set (am_bookings S')" for c
    using run_sound [OF assms(3) s] that by (simp add: sound_def calendar_def)
  ultimately show ?thesis unfolding follows_on_def by blast
qed

text \<open>Its witness: the first of the two is cancelled.\<close>

theorem bookings_follow_their_life_witness:
  "\<exists>c\<in>set (am_bookings (snd (decide_booking sample_host hall_now hall_admin (js ''id-0'') (Some Cancel) None court_noon))).
     bk_id c = js ''id-0'' \<and> may_become BookPending (bk_status c) \<and> bk_status c \<noteq> BookCompleted"
proof -
  let ?b = "hall_booking (js ''id-0'') (js ''court'') BookPending 1785578400000 1785585600000"
  have "?b \<in> set (am_bookings court_noon)" by (simp add: court_noon_def)
  from bookings_follow_their_life [OF court_run hall_opened r_into_rtranclp [where r = "amenity_step sample_host", OF step_decide] this,
      of hall_now hall_admin "js ''id-0''" "Some Cancel" None]
  show ?thesis unfolding hall_booking_def by force
qed


text \<open>Its witness: a bill of 5000 on which an office takes 2000.\<close>

definition levy_body :: bill_body where
  "levy_body = \<lparr>bb_property = Some (js ''p1''), bb_resident = Some (js ''u1''), bb_amount = Num 5000, bb_due = Some (js ''2026-09-01''),
     bb_type = Some (js ''levy''), bb_description = None\<rparr>"

definition levied :: amenities where
  "levied = hall_estate\<lparr>l_core := (l_core hall_estate)\<lparr>t_draws := 1\<rparr>, l_bills := [(sample_bill (js ''id-0'') 5000 BillUnpaid)\<lparr>b_due := js ''2026-09-01''\<rparr>]\<rparr>"

definition part_payment :: payment_body where
  "part_payment = \<lparr>pb_bill = Some (js ''id-0''), pb_amount = Num 2000, pb_method = Some (js ''cash''), pb_proof_image = None, pb_proofs = Undef\<rparr>"

lemma levy_step: "amenity_step sample_host hall_estate levied"
proof (rule step_bill)
  show "create_bill sample_host hall_admin levy_body hall_estate = Inr (js ''id-0'', levied)"
    by (simp add: create_bill_def levy_body_def truthy_text_def insert_bill_def levied_def sample_bill_def store_defs hall_defs guard_def)
qed

lemma payment_step:
  "\<exists>S. amenity_step sample_host levied S \<and> map b_id (l_bills S) = [js ''id-0''] \<and> map b_amount (l_bills S) = [5000]
     \<and> map b_status (l_bills S) = [BillPartial] \<and> map signed_amount (l_payments S) = [2000]"
proof -
  obtain S where "record_payment sample_host hall_now hall_admin part_payment levied = Inr (js ''id-1'', S)"
    "map b_id (l_bills S) = [js ''id-0''] \<and> map b_amount (l_bills S) = [5000]
     \<and> map b_status (l_bills S) = [BillPartial] \<and> map signed_amount (l_payments S) = [2000]"
    by (simp add: record_payment_def part_payment_def truthy_text_def insert_payment_def levied_def sample_bill_def store_defs hall_defs
        guard_def payment_method_ids_def reconcile_bill_def paid_minor_def signed_amount_def settled_status_def)
  from step_payment [OF this(1)] this(2) show ?thesis by (intro exI [of _ S]) simp
qed


text \<open>
  Taken one after the other, approvals cannot collide: the decision on a pending booking never
  answers that another booking was approved for its window in the meantime.
\<close>

theorem approvals_do_not_collide:
  assumes "amenity_run H S0 S" "opened S0" "b \<in> set (am_bookings S)" "bk_status b = BookPending"
  shows "fst (decide_booking H now a (bk_id b) (Some Approve) note S)
     \<noteq> Inl (409, js ''Another booking was approved for this window in the meantime'')"
proof -
  let ?late = "(409, js ''Another booking was approved for this window in the meantime'')"
  have s: "calendar H (am_bookings S)" using run_sound [OF assms(1) opened_sound [OF assms(2)]] by (simp add: sound_def)
  have f: "List.find (\<lambda>c. bk_id c = bk_id b) (am_bookings S) = Some b"
    using s assms(3) by (simp add: calendar_def find_distinct_id)
  have "booking_overlap_id H (am_bookings S) (bk_facility b) (bk_starts b) (bk_ends b) (Some (bk_id b)) = None"
    unfolding booking_overlap_id_def option.map_disc_iff find_None_iff_set
  proof
    fix c assume c: "c \<in> set (am_bookings S)"
    then have "\<not> clash H b c" using s assms(3) by (simp add: calendar_def)
    then show "\<not> (bk_facility c = bk_facility b \<and> live c \<and> sql_later H (bk_ends c) (bk_starts b)
        \<and> sql_later H (bk_ends b) (bk_starts c) \<and> (Some (bk_id b) = None \<or> Some (bk_id b) \<noteq> Some (bk_id c)))"
      using assms(4) by (auto simp: clash_def live_def)
  qed
  then have "fst (approve_booking H now a note g b S) \<noteq> Inl ?late" for g
    using bill_booking_errors [of H now "bk_id b" "set_booking (bk_id b)
        (\<lambda>b. b\<lparr>bk_status := BookApproved, bk_decided_by := Some (act_id a), bk_note := trimmed_text note\<rparr>) S"]
    by (auto simp: approve_booking_def Let_def internal_error_def unique_error_def js_def split: prod.split sum.split)
  then show ?thesis
    by (auto simp: decide_booking_def f assms(4) js_def split: option.split)
qed

text \<open>Its witness: the first request for the court is decided.\<close>

theorem approvals_do_not_collide_witness:
  "fst (decide_booking sample_host hall_now hall_admin (js ''id-0'') (Some Approve) None court_noon)
     \<noteq> Inl (409, js ''Another booking was approved for this window in the meantime'')"
proof -
  let ?b = "hall_booking (js ''id-0'') (js ''court'') BookPending 1785578400000 1785585600000"
  have "?b \<in> set (am_bookings court_noon)" "bk_status ?b = BookPending" by (simp_all add: court_noon_def hall_booking_def)
  from approvals_do_not_collide [OF court_run hall_opened this, of hall_now hall_admin None] show ?thesis by (simp add: hall_booking_def)
qed


lemma find_by_id: "distinct (map bk_id bs) \<Longrightarrow> b \<in> set bs \<Longrightarrow> List.find (\<lambda>c. bk_id c = bk_id b) bs = Some b"
  by (rule find_distinct_id)

lemma bill_booking_success:
  assumes "List.find (\<lambda>c. bk_id c = i) (am_bookings S) = Some b" "List.find (\<lambda>f. fc_id f = bk_facility b) (am_facilities S) = Some f"
    and "bk_cost b + bk_deposit b > 0" "fst (bill_booking H now i S) = Inr r"
  shows "\<exists>home. r = Some (ledger_draw H 0 S) \<and> bk_property b = Some home
     \<and> l_bills (snd (bill_booking H now i S)) = l_bills S @ [booking_bill (ledger_draw H 0 S) now f b home]
     \<and> am_bookings (snd (bill_booking H now i S)) = update_where (\<lambda>c. bk_id c = i)
          (\<lambda>c. c\<lparr>bk_bill := Some (ledger_draw H 0 S), bk_fee := FeeUnpaid\<rparr>) (am_bookings S)"
proof (cases "bk_property b")
  case None
  then show ?thesis using assms(3,4) by (simp add: bill_booking_def raise_booking_bill_def assms(1,2) Let_def)
next
  case (Some home)
  let ?r = "booking_bill (ledger_draw H 0 S) now f b home"
  show ?thesis
  proof (cases "insert_bill ?r (ledger_drawn 1 S)")
    case (Inl e)
    then show ?thesis using assms(3,4) Some by (simp add: bill_booking_def raise_booking_bill_def assms(1,2) Let_def)
  next
    case (Inr S')
    then have "l_bills S' = l_bills S @ [?r]" "am_bookings S' = am_bookings S" by (simp_all add: insert_bill_eq)
    then show ?thesis using assms(3,4) Some Inr
      by (auto simp add: bill_booking_def raise_booking_bill_def assms(1,2) Let_def attach_booking_bill_def set_booking_def)
  qed
qed

text \<open>
  C37: When a manager approves a pending booking of a facility that charges, exactly one bill is raised:
  unpaid, on the requester, for the fee and the deposit together, and the approved booking names it.
\<close>

theorem approval_raises_one_bill:
  assumes "distinct (map bk_id (am_bookings S))" "b \<in> set (am_bookings S)" "bk_bill b = None" "bk_cost b + bk_deposit b > 0"
    and "List.find (\<lambda>f. fc_id f = bk_facility b) (am_facilities S) = Some f" "fc_payment f"
    and "decide_booking H now a (bk_id b) (Some Approve) note S = (Inr (), S')"
  shows "\<exists>r c. l_bills S' = l_bills S @ [r] \<and> b_resident r = bk_requester b \<and> b_amount r = bk_cost b + bk_deposit b
     \<and> b_status r = BillUnpaid \<and> c \<in> set (am_bookings S') \<and> bk_id c = bk_id b \<and> bk_status c = BookApproved
     \<and> bk_bill c = Some (b_id r)"
proof -
  let ?g = "\<lambda>b. b\<lparr>bk_status := BookApproved, bk_decided_by := Some (act_id a), bk_note := trimmed_text note\<rparr>"
  let ?S = "set_booking (bk_id b) ?g S"
  note found = find_by_id [OF assms(1,2)]
  obtain r where r: "fst (bill_booking H now (bk_id b) ?S) = Inr r" "S' = snd (bill_booking H now (bk_id b) ?S)"
    using assms(3-7) by (auto simp: decide_booking_def found approve_booking_def Let_def truthy_text_def
        split: if_splits prod.splits sum.splits)
  have f1: "List.find (\<lambda>c. bk_id c = bk_id b) (am_bookings ?S) = Some (?g b)"
    by (simp add: set_booking_def find_update_where found)
  have f2: "List.find (\<lambda>f. fc_id f = bk_facility (?g b)) (am_facilities ?S) = Some f"
    using assms(5) by (simp add: set_booking_def)
  from bill_booking_success [OF f1 f2 _ r(1)] assms(4)
  obtain home where bill: "l_bills S' = l_bills S @ [booking_bill (ledger_draw H 0 ?S) now f (?g b) home]"
      "am_bookings S' = update_where (\<lambda>c. bk_id c = bk_id b)
          (\<lambda>c. c\<lparr>bk_bill := Some (ledger_draw H 0 ?S), bk_fee := FeeUnpaid\<rparr>) (update_where (\<lambda>c. bk_id c = bk_id b) ?g (am_bookings S))"
    by (auto simp: r(2) set_booking_def)
  have "(?g b)\<lparr>bk_bill := Some (ledger_draw H 0 ?S), bk_fee := FeeUnpaid\<rparr> \<in> set (am_bookings S')"
    unfolding bill(2) by (rule update_whereI [OF update_whereI [OF assms(2), of _ ?g]]) simp_all
  with bill(1) show ?thesis
    by (intro exI [of _ "booking_bill (ledger_draw H 0 ?S) now f (?g b) home"]
        exI [of _ "(?g b)\<lparr>bk_bill := Some (ledger_draw H 0 ?S), bk_fee := FeeUnpaid\<rparr>"]) (simp add: booking_bill_def)
qed

text \<open>Its witness: a court charged at 3000 with a deposit of 1000.\<close>

definition paid_court :: amenities where
  "paid_court = hall_estate\<lparr>am_facilities := [(sample_facility (js ''court'') True)\<lparr>fc_payment := True\<rparr>],
     am_bookings := [(hall_booking (js ''k1'') (js ''court'') BookPending 1785578400000 1785585600000)\<lparr>bk_cost := 3000, bk_deposit := 1000\<rparr>]\<rparr>"

theorem approval_raises_one_bill_witness:
  "\<exists>S' r c. decide_booking sample_host hall_now hall_admin (js ''k1'') (Some Approve) None paid_court = (Inr (), S')
     \<and> l_bills S' = [r] \<and> b_resident r = js ''u1'' \<and> b_amount r = 4000 \<and> b_status r = BillUnpaid
     \<and> c \<in> set (am_bookings S') \<and> bk_status c = BookApproved \<and> bk_bill c = Some (b_id r)"
proof -
  let ?b = "(hall_booking (js ''k1'') (js ''court'') BookPending 1785578400000 1785585600000)\<lparr>bk_cost := 3000, bk_deposit := 1000\<rparr>"
  let ?f = "(sample_facility (js ''court'') True)\<lparr>fc_payment := True\<rparr>"
  obtain S' where S': "decide_booking sample_host hall_now hall_admin (js ''k1'') (Some Approve) None paid_court = (Inr (), S')"
    by (simp add: decide_booking_def approve_booking_def paid_court_def is_estate_operator_def bill_booking_def raise_booking_bill_def
        insert_bill_def booking_bill_def set_booking_def live_def store_defs hall_defs)
  have "distinct (map bk_id (am_bookings paid_court))" "?b \<in> set (am_bookings paid_court)" "bk_bill ?b = None"
      "bk_cost ?b + bk_deposit ?b > 0" "List.find (\<lambda>f. fc_id f = bk_facility ?b) (am_facilities paid_court) = Some ?f" "fc_payment ?f"
      "decide_booking sample_host hall_now hall_admin (bk_id ?b) (Some Approve) None paid_court = (Inr (), S')"
    using S' by (simp_all add: paid_court_def hall_booking_def sample_facility_def)
  from approval_raises_one_bill [OF this] S' show ?thesis
    by (force simp: paid_court_def hall_booking_def hall_estate_def)
qed
end
