(* ===== verification/Md5.thy ===== *)
theory Md5
  imports JsString "HOL-Library.Word"
begin

unbundle bit_operations_syntax

text \<open>
  The MD5 of \<^verbatim>\<open>hikvision-tunnel-worker/index.ts\<close>, written there because the Workers' own
  cryptography has none: UTF-8 bytes of a text, the padding to blocks of 64 bytes, the loop of 64 steps over four
  32-bit registers, and the hexadecimal digest; and the algorithm as RFC 1321 states it, with its three
  tables, to which the loop is proved equal. The additive constants are the values of
  \<open>Math.floor(Math.abs(Math.sin(i + 1)) * 0x100000000)\<close>.
\<close>

subsection \<open>The bytes of a text\<close>

text \<open>\<open>TextEncoder.encode\<close>: a lone surrogate is encoded as U+FFFD.\<close>

fun scalars :: "jstr \<Rightarrow> nat list" where
  "scalars [] = []"
| "scalars [a] = [if 55296 \<le> a \<and> a < 57344 then 65533 else a]"
| "scalars (a # b # s) =
    (if 55296 \<le> a \<and> a < 56320 \<and> 56320 \<le> b \<and> b < 57344
     then (65536 + (a - 55296) * 1024 + (b - 56320)) # scalars s
     else (if 55296 \<le> a \<and> a < 57344 then 65533 else a) # scalars (b # s))"

definition scalar_bytes :: "nat \<Rightarrow> 8 word list" where
  "scalar_bytes c =
    (if c < 128 then [of_nat c]
     else if c < 2048 then [of_nat (192 + c div 64), of_nat (128 + c mod 64)]
     else if c < 65536 then [of_nat (224 + c div 4096), of_nat (128 + c div 64 mod 64), of_nat (128 + c mod 64)]
     else [of_nat (240 + c div 262144), of_nat (128 + c div 4096 mod 64), of_nat (128 + c div 64 mod 64), of_nat (128 + c mod 64)])"

definition utf8 :: "jstr \<Rightarrow> 8 word list" where
  "utf8 s = concat (map scalar_bytes (scalars s))"

subsection \<open>The digest\<close>

definition md5_shifts :: "nat list" where
  "md5_shifts =
    [7, 12, 17, 22, 7, 12, 17, 22, 7, 12, 17, 22, 7, 12, 17, 22,
     5, 9, 14, 20, 5, 9, 14, 20, 5, 9, 14, 20, 5, 9, 14, 20,
     4, 11, 16, 23, 4, 11, 16, 23, 4, 11, 16, 23, 4, 11, 16, 23,
     6, 10, 15, 21, 6, 10, 15, 21, 6, 10, 15, 21, 6, 10, 15, 21]"

definition md5_k :: "32 word list" where
  "md5_k =
    [0xd76aa478, 0xe8c7b756, 0x242070db, 0xc1bdceee, 0xf57c0faf, 0x4787c62a, 0xa8304613, 0xfd469501,
     0x698098d8, 0x8b44f7af, 0xffff5bb1, 0x895cd7be, 0x6b901122, 0xfd987193, 0xa679438e, 0x49b40821,
     0xf61e2562, 0xc040b340, 0x265e5a51, 0xe9b6c7aa, 0xd62f105d, 0x02441453, 0xd8a1e681, 0xe7d3fbc8,
     0x21e1cde6, 0xc33707d6, 0xf4d50d87, 0x455a14ed, 0xa9e3e905, 0xfcefa3f8, 0x676f02d9, 0x8d2a4c8a,
     0xfffa3942, 0x8771f681, 0x6d9d6122, 0xfde5380c, 0xa4beea44, 0x4bdecfa9, 0xf6bb4b60, 0xbebfbc70,
     0x289b7ec6, 0xeaa127fa, 0xd4ef3085, 0x04881d05, 0xd9d4d039, 0xe6db99e5, 0x1fa27cf8, 0xc4ac5665,
     0xf4292244, 0x432aff97, 0xab9423a7, 0xfc93a039, 0x655b59c3, 0x8f0ccc92, 0xffeff47d, 0x85845dd1,
     0x6fa87e4f, 0xfe2ce6e0, 0xa3014314, 0x4e0811a1, 0xf7537e82, 0xbd3af235, 0x2ad7d2bb, 0xeb86d391]"

text \<open>The four bytes of a word, the low one first, and back (\<open>setUint32\<close>, \<open>getUint32\<close>).\<close>

definition le_bytes :: "32 word \<Rightarrow> 8 word list" where
  "le_bytes w = [ucast w, ucast (drop_bit 8 w), ucast (drop_bit 16 w), ucast (drop_bit 24 w)]"

definition le_word :: "8 word list \<Rightarrow> nat \<Rightarrow> 32 word" where
  "le_word p i = ucast (p ! i) OR push_bit 8 (ucast (p ! (i + 1))) OR push_bit 16 (ucast (p ! (i + 2)))
     OR push_bit 24 (ucast (p ! (i + 3)))"

definition pad_message :: "8 word list \<Rightarrow> 8 word list" where
  "pad_message bytes =
    (let n = length bytes; total = ((n + 8) div 64 + 1) * 64
     in bytes @ [0x80] @ replicate (total - n - 9) 0
        @ le_bytes (of_nat (8 * n)) @ le_bytes (of_nat (8 * n div 4294967296)))"

type_synonym md5_state = "32 word \<times> 32 word \<times> 32 word \<times> 32 word"

text \<open>The function and the index of the word a step uses.\<close>

definition md5_mix :: "nat \<Rightarrow> 32 word \<Rightarrow> 32 word \<Rightarrow> 32 word \<Rightarrow> 32 word \<times> nat" where
  "md5_mix i b c d =
    (if i < 16 then ((b AND c) OR (NOT b AND d), i)
     else if i < 32 then ((d AND b) OR (NOT d AND c), (5 * i + 1) mod 16)
     else if i < 48 then (b XOR c XOR d, (3 * i + 5) mod 16)
     else (c XOR (b OR NOT d), (7 * i) mod 16))"

definition md5_step :: "32 word list \<Rightarrow> md5_state \<Rightarrow> nat \<Rightarrow> md5_state" where
  "md5_step ws st i = (case st of (a, b, c, d) \<Rightarrow>
     case md5_mix i b c d of (f, g) \<Rightarrow>
       let nxt = f + a + md5_k ! i + ws ! g; s = md5_shifts ! i;
           rotated = push_bit s nxt OR drop_bit (32 - s) nxt
       in (d, b + rotated, b, c))"

definition block_words :: "8 word list \<Rightarrow> nat \<Rightarrow> 32 word list" where
  "block_words p offset = map (\<lambda>i. le_word p (offset + i * 4)) [0..<16]"

definition add_state :: "md5_state \<Rightarrow> md5_state \<Rightarrow> md5_state" where
  "add_state s t = (case s of (a, b, c, d) \<Rightarrow> case t of (a', b', c', d') \<Rightarrow> (a + a', b + b', c + c', d + d'))"

definition md5_block :: "32 word list \<Rightarrow> md5_state \<Rightarrow> md5_state" where
  "md5_block ws st = add_state st (foldl (md5_step ws) st [0..<64])"

function md5_loop :: "8 word list \<Rightarrow> nat \<Rightarrow> md5_state \<Rightarrow> md5_state" where
  "md5_loop p offset st =
    (if offset < length p then md5_loop p (offset + 64) (md5_block (block_words p offset) st) else st)"
  by auto
termination by (relation "measure (\<lambda>(p, offset, st). length p - offset)") auto

declare md5_loop.simps [simp del]

definition md5_init :: md5_state where
  "md5_init = (0x67452301, 0xefcdab89, 0x98badcfe, 0x10325476)"

definition hex_byte :: "8 word \<Rightarrow> jstr" where
  "hex_byte b = (let digit = (\<lambda>n. if n < 10 then 48 + n else 87 + n) in [digit (unat b div 16), digit (unat b mod 16)])"

definition state_hex :: "md5_state \<Rightarrow> jstr" where
  "state_hex st = (case st of (a, b, c, d) \<Rightarrow> concat (map hex_byte (concat (map le_bytes [a, b, c, d]))))"

definition md5_hex :: "jstr \<Rightarrow> jstr" where
  "md5_hex input = state_hex (md5_loop (pad_message (utf8 input)) 0 md5_init)"

subsection \<open>RFC 1321\<close>

text \<open>
  Step 1 and 2: the bit 1, zeros until the length is 448 modulo 512, the length as 64 bits. Step 4: four
  rounds of sixteen operations \<open>a = b + ((a + f(b,c,d) + X[k] + T[i]) <<< s)\<close>, the registers taken in the
  order ABCD, DABC, CDAB, BCDA.
\<close>

definition rfc_pad :: "8 word list \<Rightarrow> 8 word list" where
  "rfc_pad m = m @ 0x80 # replicate (nat ((55 - int (length m)) mod 64)) 0
     @ map (\<lambda>i. of_nat (8 * length m div 256 ^ i)) [0..<8]"

definition rfc_f :: "nat \<Rightarrow> 32 word \<Rightarrow> 32 word \<Rightarrow> 32 word \<Rightarrow> 32 word" where
  "rfc_f round x y z =
    (if round = 0 then (x AND y) OR (NOT x AND z)
     else if round = 1 then (x AND z) OR (y AND NOT z)
     else if round = 2 then x XOR y XOR z
     else y XOR (x OR NOT z))"

definition rfc_k :: "nat list" where
  "rfc_k = [0, 1, 2, 3, 4, 5, 6, 7, 8, 9, 10, 11, 12, 13, 14, 15,
     1, 6, 11, 0, 5, 10, 15, 4, 9, 14, 3, 8, 13, 2, 7, 12,
     5, 8, 11, 14, 1, 4, 7, 10, 13, 0, 3, 6, 9, 12, 15, 2,
     0, 7, 14, 5, 12, 3, 10, 1, 8, 15, 6, 13, 4, 11, 2, 9]"

definition rfc_s :: "nat list" where
  "rfc_s = concat (map (\<lambda>r. concat (replicate 4 r)) [[7, 12, 17, 22], [5, 9, 14, 20], [4, 11, 16, 23], [6, 10, 15, 21]])"

definition rfc_op :: "32 word list \<Rightarrow> nat \<Rightarrow> 32 word \<Rightarrow> 32 word \<Rightarrow> 32 word \<Rightarrow> 32 word \<Rightarrow> 32 word" where
  "rfc_op X i a b c d = b + word_rotl (rfc_s ! i) (a + rfc_f (i div 16) b c d + X ! (rfc_k ! i) + md5_k ! i)"

definition rfc_quarter :: "32 word list \<Rightarrow> md5_state \<Rightarrow> nat \<Rightarrow> md5_state" where
  "rfc_quarter X st q = (case st of (a0, b0, c0, d0) \<Rightarrow>
     let a = rfc_op X (4 * q) a0 b0 c0 d0;
         d = rfc_op X (4 * q + 1) d0 a b0 c0;
         c = rfc_op X (4 * q + 2) c0 d a b0;
         b = rfc_op X (4 * q + 3) b0 c d a
     in (a, b, c, d))"

fun rfc_blocks :: "8 word list \<Rightarrow> md5_state \<Rightarrow> md5_state" where
  "rfc_blocks m st = (if length m < 64 then st
     else rfc_blocks (drop 64 m) (add_state st (foldl (rfc_quarter (map (\<lambda>i. le_word m (4 * i)) [0..<16])) st [0..<16])))"

declare rfc_blocks.simps [simp del]

definition rfc_md5 :: "8 word list \<Rightarrow> md5_state" where
  "rfc_md5 m = rfc_blocks (rfc_pad m) md5_init"

subsection \<open>The loop is the RFC's\<close>

lemma length_le_bytes [simp]: "length (le_bytes w) = 4"
  by (simp add: le_bytes_def)

lemma padding_arith:
  fixes n :: nat
  shows "((n + 8) div 64 + 1) * 64 - n - 9 = nat ((55 - int n) mod 64)" "n + 9 \<le> ((n + 8) div 64 + 1) * 64"
proof -
  define k where "k = (n + 8) div 64"
  have k: "64 * k \<le> n + 8" "n + 8 < 64 * k + 64" unfolding k_def by presburger+
  then show le: "n + 9 \<le> ((n + 8) div 64 + 1) * 64" by (simp flip: k_def)
  define m where "m = (k + 1) * 64 - n - 9"
  have "(55 - int n) mod 64 = (int m + 64 * (- int k)) mod 64" using k by (simp add: m_def)
  also have "\<dots> = int m mod 64" by (rule mod_mult_self2)
  also have "\<dots> = int m" using k by (simp add: m_def)
  finally show "((n + 8) div 64 + 1) * 64 - n - 9 = nat ((55 - int n) mod 64)" by (simp add: m_def k_def)
qed

lemma rotated:
  assumes "0 < s" "s < 32"
  shows "push_bit s w OR drop_bit (32 - s) w = word_rotl s (w :: 32 word)"
proof (rule bit_word_eqI)
  fix n assume n: "n < LENGTH(32)"
  have r: "(n + 32 - s) mod 32 = (if s \<le> n then n - s else 32 + n - s)"
  proof (cases "s \<le> n")
    case True
    then have "n + 32 - s = (n - s) + 32" by simp
    then show ?thesis using True n by (simp only: mod_add_self2) simp
  qed (use n assms in simp)
  have "\<not> bit w (32 + n - s)" if "s \<le> n" using that bit_imp_le_length [of w "32 + n - s"] by auto
  then show "bit (push_bit s w OR drop_bit (32 - s) w) n \<longleftrightarrow> bit (word_rotl s w) n"
    using n assms by (auto simp: bit_word_rotl_iff bit_simps r)
qed

lemma rfc_s_shifts: "rfc_s = md5_shifts"
  by code_simp

lemma shift_range: "i < 64 \<Longrightarrow> 0 < md5_shifts ! i \<and> md5_shifts ! i < 32"
proof -
  have "list_all (\<lambda>s. 0 < s \<and> s < 32) md5_shifts" "length md5_shifts = 64" by code_simp+
  then show "i < 64 \<Longrightarrow> 0 < md5_shifts ! i \<and> md5_shifts ! i < 32" by (simp add: list_all_length)
qed

definition md5_index :: "nat \<Rightarrow> nat" where
  "md5_index i = (if i < 16 then i else if i < 32 then (5 * i + 1) mod 16 else if i < 48 then (3 * i + 5) mod 16 else (7 * i) mod 16)"

lemma index_table: "i < 64 \<Longrightarrow> md5_index i = rfc_k ! i"
proof -
  have "map md5_index [0..<64] = rfc_k" by code_simp
  then show "i < 64 \<Longrightarrow> md5_index i = rfc_k ! i" by (metis add_0 diff_zero length_map length_upt nth_map nth_upt)
qed

lemma mix_rfc:
  assumes "i < 64"
  shows "md5_mix i b c d = (rfc_f (i div 16) b c d, rfc_k ! i)"
proof -
  consider "i < 16" "i div 16 = 0" | "16 \<le> i" "i < 32" "i div 16 = 1" | "32 \<le> i" "i < 48" "i div 16 = 2"
    | "48 \<le> i" "i div 16 = 3"
    using assms by linarith
  then have "md5_mix i b c d = (rfc_f (i div 16) b c d, md5_index i)"
    by cases (simp_all add: md5_mix_def rfc_f_def md5_index_def and.commute)
  then show ?thesis using index_table [OF assms] by simp
qed

lemma step_rfc:
  assumes "i < 64"
  shows "md5_step ws (a, b, c, d) i = (d, rfc_op ws i a b c d, b, c)"
  using rotated shift_range [OF assms]
  by (simp add: md5_step_def mix_rfc [OF assms] rfc_op_def Let_def rfc_s_shifts ac_simps)

lemma quarter_rfc:
  assumes "q < 16"
  shows "foldl (md5_step ws) st [4 * q, 4 * q + 1, 4 * q + 2, 4 * q + 3] = rfc_quarter ws st q"
  using assms by (cases st) (simp add: step_rfc rfc_quarter_def Let_def)

lemma rounds_rfc: "foldl (md5_step ws) st [0..<64] = foldl (rfc_quarter ws) st [0..<16]"
proof -
  have "foldl (md5_step ws) st [0..<4 * n] = foldl (rfc_quarter ws) st [0..<n]" if "n \<le> 16" for n
    using that
  proof (induction n)
    case (Suc n)
    have "[0..<4 * Suc n] = [0..<4 * n] @ [4 * n, 4 * n + 1, 4 * n + 2, 4 * n + 3]"
    proof -
      have "4 * Suc n = Suc (Suc (Suc (Suc (4 * n))))" by simp
      then show ?thesis by (simp only: upt_Suc) simp
    qed
    then show ?case using Suc quarter_rfc [of n] by simp
  qed simp
  from this [of 16] show ?thesis by simp
qed

lemma block_words_drop:
  assumes "off + 64 \<le> length p"
  shows "block_words p off = map (\<lambda>i. le_word (drop off p) (4 * i)) [0..<16]"
  using assms by (auto simp: block_words_def le_word_def ac_simps)

lemma loop_rfc:
  assumes "length p mod 64 = 0" "off mod 64 = 0"
  shows "md5_loop p off st = rfc_blocks (drop off p) st"
  using assms
proof (induction p off st rule: md5_loop.induct)
  case (1 p off st)
  show ?case
  proof (cases "off < length p")
    case True
    then have "off + 64 \<le> length p" "\<not> length p - off < 64" using 1(2,3) by presburger+
    then show ?thesis using True 1
      by (simp add: md5_loop.simps [of p off] rfc_blocks.simps [of "drop off p"] md5_block_def rounds_rfc block_words_drop add.commute)
  next
    case False
    then show ?thesis by (simp add: md5_loop.simps [of p off] rfc_blocks.simps [of "[]"])
  qed
qed

lemma byte_of_nat:
  assumes "k < 4"
  shows "ucast (drop_bit (8 * k) (of_nat n :: 32 word)) = (of_nat (n div 256 ^ k) :: 8 word)"
proof -
  have d: "n div 256 ^ k = drop_bit (8 * k) n" by (simp add: drop_bit_eq_div power_mult)
  show ?thesis unfolding d
    by (rule bit_word_eqI) (use assms in \<open>auto simp: bit_simps\<close>)
qed

lemma le_bytes_of_nat: "le_bytes (of_nat n) = map (\<lambda>i. of_nat (n div 256 ^ i)) [0..<4]"
  using byte_of_nat [of 0 n] byte_of_nat [of 1 n] byte_of_nat [of 2 n] byte_of_nat [of 3 n]
  by (simp add: le_bytes_def upt_rec)

lemma length_field:
  "le_bytes (of_nat n) @ le_bytes (of_nat (n div 4294967296)) = map (\<lambda>i. of_nat (n div 256 ^ i)) [0..<8]"
  by (simp add: le_bytes_of_nat upt_rec div_mult2_eq [symmetric])

lemma pad_rfc: "pad_message m = rfc_pad m"
  using length_field [of "8 * length m"] padding_arith(1) [of "length m"]
  by (simp add: pad_message_def rfc_pad_def Let_def)

lemma length_pad: "length (pad_message m) = ((length m + 8) div 64 + 1) * 64"
  using padding_arith(2) [of "length m"] by (simp add: pad_message_def Let_def)

text \<open>
  C19: The digest the worker computes with one loop over rotating registers is the MD5 of RFC 1321:
  four rounds of named operations over the padded message, the constants, rotations and word indices
  taken from its tables.
\<close>

theorem digest_is_rfc_1321: "md5_hex input = state_hex (rfc_md5 (utf8 input))"
proof -
  have "length (pad_message (utf8 input)) mod 64 = 0" by (simp only: length_pad mod_mult_self2_is_0)
  from loop_rfc [OF this, of 0 md5_init] show ?thesis
    by (simp add: md5_hex_def rfc_md5_def pad_rfc)
qed

lemma equal_digits:
  fixes a b :: nat
  assumes "\<And>i. i < k \<Longrightarrow> (of_nat (a div 256 ^ i) :: 8 word) = of_nat (b div 256 ^ i)"
  shows "a mod 256 ^ k = b mod 256 ^ k"
  using assms
proof (induction k)
  case (Suc k)
  have "(a div 256 ^ k) mod 256 = (b div 256 ^ k) mod 256"
    using Suc.prems [of k] by (simp add: word_of_nat_eq_iff take_bit_eq_mod)
  moreover have "x mod (256 ^ k * 256) = 256 ^ k * (x div 256 ^ k mod 256) + x mod 256 ^ k" for x :: nat
    by (rule mod_mult2_eq)
  ultimately show ?case using Suc by (simp add: mult.commute)
qed simp

text \<open>
  Messages below 2^61 bytes that are padded to the same blocks are the same message, and the
  padding is whole blocks.
\<close>

theorem padding_keeps_messages_apart:
  assumes "length m < 2 ^ 61" "length n < 2 ^ 61"
  shows "(pad_message m = pad_message n \<longleftrightarrow> m = n) \<and> 64 dvd length (pad_message m)"
proof -
  have field: "map (\<lambda>i. of_nat (8 * length x div 256 ^ i) :: 8 word) [0..<8] = drop (length (pad_message x) - 8) (pad_message x)" for x
    by (simp add: pad_rfc rfc_pad_def)
  have "m = n" if eq: "pad_message m = pad_message n"
  proof -
    have "map (\<lambda>i. of_nat (8 * length m div 256 ^ i) :: 8 word) [0..<8] = map (\<lambda>i. of_nat (8 * length n div 256 ^ i)) [0..<8]"
      unfolding field eq ..
    then have "(8 * length m) mod 256 ^ 8 = (8 * length n) mod 256 ^ 8" by (intro equal_digits) (simp only: map_eq_conv set_upt, simp)
    then have len: "length m = length n" using assms by simp
    have "m = take (length m) (pad_message m)" "n = take (length n) (pad_message n)" by (simp_all add: pad_rfc rfc_pad_def)
    then show "m = n" using eq len by simp
  qed
  then show ?thesis by (auto simp: length_pad)
qed

theorem padding_keeps_messages_apart_witness:
  "(pad_message [1, 2] = pad_message [1, 2, 0] \<longleftrightarrow> [1, 2] = [1, 2, 0 :: 8 word]) \<and> 64 dvd length (pad_message [1, 2])"
  by (rule padding_keeps_messages_apart) simp_all

end
