(* ===== verification/DigestAuth.thy ===== *)
theory DigestAuth
  imports Md5 "HOL-Library.AList"
begin

text \<open>
  HTTP authentication of \<^verbatim>\<open>hikvision-tunnel-worker/index.ts\<close>: the part of a
  \<open>WWW-Authenticate\<close> header that belongs to one scheme, its parameters, the \<open>Authorization\<close>
  header that answers it, and \<open>isapiFetch\<close>, which sends a request to the terminal and answers a
  401. What the network and the terminal do with a request is a parameter: a function from a state and
  a request to a reply, or the text of the error \<open>fetch\<close> throws, and the next state.
\<close>

subsection \<open>Challenges\<close>

definition word_unit :: "nat \<Rightarrow> bool" where
  "word_unit c \<longleftrightarrow> is_alnum c \<or> c = 95"

text \<open>A scheme name in either case, with a word boundary behind it.\<close>

definition scheme_at :: "jstr \<Rightarrow> jstr \<Rightarrow> bool" where
  "scheme_at sch s \<longleftrightarrow> nocase (take (length sch) s) = sch
     \<and> (case drop (length sch) s of [] \<Rightarrow> True | c # _ \<Rightarrow> \<not> word_unit c)"

fun after_scheme :: "jstr \<Rightarrow> jstr \<Rightarrow> jstr option" where
  "after_scheme sch [] = None"
| "after_scheme sch (c # s) =
    (if (is_ws c \<or> c = 44) \<and> scheme_at sch s then Some (drop (length sch) s) else after_scheme sch s)"

definition known_schemes :: "jstr list" where
  "known_schemes = [js ''digest'', js ''basic'', js ''negotiate'', js ''ntlm'']"

fun before_next_scheme :: "jstr \<Rightarrow> jstr" where
  "before_next_scheme [] = []"
| "before_next_scheme (c # s) =
    (if is_ws c \<and> list_ex (\<lambda>sch. scheme_at sch (dropWhile is_ws s)) known_schemes then []
     else c # before_next_scheme s)"

definition extract_challenge :: "jstr \<Rightarrow> jstr \<Rightarrow> jstr option" where
  "extract_challenge header sch =
    (case (if scheme_at sch header then Some (drop (length sch) header) else after_scheme sch header) of
       None \<Rightarrow> None
     | Some rest \<Rightarrow>
         let challenge = before_next_scheme rest in if trim challenge = [] then None else Some challenge)"

text \<open>
  One match of the pattern for a parameter: a name, \<open>=\<close>, and a quoted text, kept as it is
  written, or a run without white space and commas. The search goes on behind a match, and one unit
  further where there is none; a name seen twice has its last value.
\<close>

definition name_unit :: "nat \<Rightarrow> bool" where
  "name_unit c \<longleftrightarrow> is_alnum c \<or> c = 95 \<or> c = 45"

fun quoted_value :: "jstr \<Rightarrow> (jstr \<times> jstr) option" where
  "quoted_value [] = None"
| "quoted_value (c # s) =
    (if c = 34 then Some ([], s)
     else if c = 92 then
       (case s of
          [] \<Rightarrow> None
        | d # t \<Rightarrow> if d \<in> {10, 13, 8232, 8233} then None
                   else map_option (\<lambda>(v, r). (c # d # v, r)) (quoted_value t))
     else map_option (\<lambda>(v, r). (c # v, r)) (quoted_value s))"

definition bare_value :: "jstr \<Rightarrow> (jstr \<times> jstr) option" where
  "bare_value s = (let v = takeWhile (\<lambda>c. \<not> is_ws c \<and> c \<noteq> 44) s in if v = [] then None else Some (v, drop (length v) s))"

definition challenge_param :: "jstr \<Rightarrow> ((jstr \<times> jstr) \<times> jstr) option" where
  "challenge_param s =
    (if s = [] \<or> \<not> (is_upper (hd s) \<or> is_lower (hd s)) then None
     else
       let name = takeWhile name_unit s; r = dropWhile is_ws (dropWhile name_unit s) in
       if r = [] \<or> hd r \<noteq> 61 then None
       else
         let v = dropWhile is_ws (tl r) in
         map_option (\<lambda>(x, rest). ((lower name, x), rest))
           (if v \<noteq> [] \<and> hd v = 34
            then (case quoted_value (tl v) of Some p \<Rightarrow> Some p | None \<Rightarrow> bare_value v)
            else bare_value v))"

lemma quoted_value_shorter: "quoted_value s = Some (v, r) \<Longrightarrow> length r < length s"
proof (induction s arbitrary: v r rule: quoted_value.induct)
  case (2 c s)
  show ?case
  proof (cases "c = 34 \<or> c = 92")
    case True
    then show ?thesis using 2 by (cases s) (auto split: if_splits simp: less_Suc_eq)
  next
    case False
    then obtain v' where "quoted_value s = Some (v', r)" using 2(3) by auto
    then show ?thesis using 2(2) False by (simp add: less_SucI)
  qed
qed simp

lemma bare_value_shorter: "bare_value s = Some (v, r) \<Longrightarrow> length r < length s"
  by (cases s) (auto simp: bare_value_def Let_def split: if_splits)

lemma challenge_param_shorter:
  assumes "challenge_param s = Some (p, r)"
  shows "length r < length s"
proof -
  define v where "v = dropWhile is_ws (tl (dropWhile is_ws (dropWhile name_unit s)))"
  have "length v \<le> length (tl (dropWhile is_ws (dropWhile name_unit s)))" unfolding v_def by (rule length_dropWhile_le)
  also have "\<dots> \<le> length (dropWhile is_ws (dropWhile name_unit s))" by simp
  also have "\<dots> \<le> length (dropWhile name_unit s)" by (rule length_dropWhile_le)
  also have "\<dots> \<le> length s" by (rule length_dropWhile_le)
  finally have le: "length v \<le> length s" .
  from assms obtain x where
    "(if v \<noteq> [] \<and> hd v = 34 then (case quoted_value (tl v) of Some p \<Rightarrow> Some p | None \<Rightarrow> bare_value v) else bare_value v) = Some (x, r)"
    by (auto simp: challenge_param_def Let_def v_def [symmetric] split: if_splits)
  then have "quoted_value (tl v) = Some (x, r) \<and> v \<noteq> [] \<or> bare_value v = Some (x, r)"
    by (auto split: if_splits option.splits)
  then have "length r < length v"
  proof
    assume q: "quoted_value (tl v) = Some (x, r) \<and> v \<noteq> []"
    then show ?thesis using quoted_value_shorter [of "tl v" x r] by (cases v) auto
  qed (rule bare_value_shorter)
  then show ?thesis using le by simp
qed

function challenge_params :: "jstr \<Rightarrow> (jstr \<times> jstr) list \<Rightarrow> (jstr \<times> jstr) list" where
  "challenge_params s found =
    (case challenge_param s of
       Some ((k, v), rest) \<Rightarrow> challenge_params rest (AList.update k v found)
     | None \<Rightarrow> if s = [] then found else challenge_params (tl s) found)"
  by auto
termination
  by (relation "measure (\<lambda>(s, _). length s)") (auto dest: challenge_param_shorter)

declare challenge_params.simps [simp del]

definition parse_challenge_params :: "jstr \<Rightarrow> jstr \<Rightarrow> jstr option" where
  "parse_challenge_params s = map_of (challenge_params s [])"

subsection \<open>The answer\<close>

definition escape_quoted :: "jstr \<Rightarrow> jstr" where
  "escape_quoted v = concat (map (\<lambda>c. if c = 34 then [92, 34] else [c]) (concat (map (\<lambda>c. if c = 92 then [92, 92] else [c]) v)))"

definition quoted_param :: "string \<Rightarrow> jstr \<Rightarrow> jstr" where
  "quoted_param name v = js name @ [61, 34] @ escape_quoted v @ [34]"

definition plain_param :: "string \<Rightarrow> jstr \<Rightarrow> jstr" where
  "plain_param name v = js name @ [61] @ v"

text \<open>The parts of a digest request, and the response they determine.\<close>

record digest_input =
  di_method :: jstr
  di_uri :: jstr
  di_user :: jstr
  di_password :: jstr
  di_cnonce :: jstr

definition nonce_count :: jstr where "nonce_count = js ''00000001''"

definition digest_algorithm :: "(jstr \<Rightarrow> jstr option) \<Rightarrow> jstr" where
  "digest_algorithm params = upper (coalesce (params (js ''algorithm'')) (js ''MD5''))"

definition digest_response :: "digest_input \<Rightarrow> jstr \<Rightarrow> jstr \<Rightarrow> jstr \<Rightarrow> jstr option \<Rightarrow> jstr" where
  "digest_response x algorithm realm nonce qop =
    (let colon = js '':'';
         first = md5_hex (di_user x @ colon @ realm @ colon @ di_password x);
         ha1 = (if algorithm = js ''MD5-SESS'' then md5_hex (first @ colon @ nonce @ colon @ di_cnonce x) else first);
         ha2 = md5_hex (di_method x @ colon @ di_uri x)
     in case qop of
          Some q \<Rightarrow> md5_hex (ha1 @ colon @ nonce @ colon @ nonce_count @ colon @ di_cnonce x @ colon @ q @ colon @ ha2)
        | None \<Rightarrow> md5_hex (ha1 @ colon @ nonce @ colon @ ha2))"

definition digest_parts :: "digest_input \<Rightarrow> jstr \<Rightarrow> jstr \<Rightarrow> jstr \<Rightarrow> jstr option \<Rightarrow> jstr option \<Rightarrow> jstr list" where
  "digest_parts x algorithm realm nonce qop opaque =
    [quoted_param ''username'' (di_user x), quoted_param ''realm'' realm, quoted_param ''nonce'' nonce,
     quoted_param ''uri'' (di_uri x), plain_param ''algorithm'' algorithm,
     quoted_param ''response'' (digest_response x algorithm realm nonce qop)]
    @ (case qop of None \<Rightarrow> [] | Some q \<Rightarrow> [plain_param ''qop'' q, plain_param ''nc'' nonce_count, quoted_param ''cnonce'' (di_cnonce x)])
    @ (case opaque of None \<Rightarrow> [] | Some t \<Rightarrow> if t = [] then [] else [quoted_param ''opaque'' t])"

definition build_digest_header :: "jstr \<Rightarrow> digest_input \<Rightarrow> jstr option" where
  "build_digest_header challenge x =
    (let params = parse_challenge_params challenge; realm = coalesce (params (js ''realm'')) [];
         algorithm = digest_algorithm params; nonce = coalesce (params (js ''nonce'')) [];
         offered = coalesce (params (js ''qop'')) [];
         options = filter (\<lambda>v. v \<noteq> []) (map trim (split_on 44 offered))
     in if nonce = [] then None
        else if algorithm \<noteq> js ''MD5'' \<and> algorithm \<noteq> js ''MD5-SESS'' then None
        else if offered \<noteq> [] \<and> js ''auth'' \<notin> set options then None
        else Some (js ''Digest '' @ join (js '', '')
               (digest_parts x algorithm realm nonce (if offered = [] then None else Some (js ''auth'')) (params (js ''opaque'')))))"

text \<open>\<open>btoa\<close> throws on a unit above 255.\<close>

definition base64_unit :: "nat \<Rightarrow> nat" where
  "base64_unit n = (if n < 26 then 65 + n else if n < 52 then 71 + n else if n < 62 then n - 4 else if n = 62 then 43 else 47)"

fun base64 :: "jstr \<Rightarrow> jstr" where
  "base64 [] = []"
| "base64 [a] = [base64_unit (a div 4), base64_unit (a mod 4 * 16), 61, 61]"
| "base64 [a, b] = [base64_unit (a div 4), base64_unit (a mod 4 * 16 + b div 16), base64_unit (b mod 16 * 4), 61]"
| "base64 (a # b # c # s) = base64_unit (a div 4) # base64_unit (a mod 4 * 16 + b div 16)
     # base64_unit (b mod 16 * 4 + c div 64) # base64_unit (c mod 64) # base64 s"

definition basic_header :: "jstr \<Rightarrow> jstr \<Rightarrow> jstr option" where
  "basic_header user password =
    (let t = user @ js '':'' @ password in if list_ex (\<lambda>c. 255 < c) t then None else Some (js ''Basic '' @ base64 t))"

subsection \<open>A request to the terminal\<close>

record http_request =
  hq_method :: jstr
  hq_url :: jstr
  hq_headers :: "(jstr \<times> jstr) list"
  hq_body :: "jstr option"

record http_reply =
  hr_status :: nat
  hr_status_text :: jstr
  hr_authenticate :: jstr
  hr_body :: jstr

type_synonym 'w wire = "'w \<Rightarrow> http_request \<Rightarrow> (jstr, http_reply) result \<times> 'w"

record tunnel_env =
  te_url :: "jstr option"
  te_user :: "jstr option"
  te_password :: "jstr option"
  te_mode :: "jstr option"
  te_lookback :: "jstr option"
  te_token :: "jstr option"
  te_client_id :: "jstr option"
  te_client_secret :: "jstr option"
  te_origin :: "jstr option"

record isapi_request =
  iq_path :: jstr
  iq_method :: jstr
  iq_json :: "jstr option"

definition drop_slashes :: "jstr \<Rightarrow> jstr" where
  "drop_slashes s = rev (dropWhile (\<lambda>c. c = 47) (rev s))"

definition nonempty :: "jstr option \<Rightarrow> bool" where
  "nonempty x \<longleftrightarrow> coalesce x [] \<noteq> []"

definition plain_request :: "tunnel_env \<Rightarrow> isapi_request \<Rightarrow> http_request" where
  "plain_request e q =
     \<lparr>hq_method = upper (iq_method q), hq_url = drop_slashes (trim (coalesce (te_url e) [])) @ iq_path q,
      hq_headers = [(js ''Accept'', js ''application/json''), (js ''User-Agent'', js ''hikvision-tunnel-worker/1.0'')]
        @ (if iq_json q = None then [] else [(js ''Content-Type'', js ''application/json; charset=utf-8'')])
        @ (if nonempty (te_client_id e) then [(js ''CF-Access-Client-Id'', the (te_client_id e))] else [])
        @ (if nonempty (te_client_secret e) then [(js ''CF-Access-Client-Secret'', the (te_client_secret e))] else []),
      hq_body = iq_json q\<rparr>"

definition authorized :: "jstr \<Rightarrow> http_request \<Rightarrow> http_request" where
  "authorized h r = r\<lparr>hq_headers := hq_headers r @ [(js ''Authorization'', h)]\<rparr>"

definition digest_answer :: "tunnel_env \<Rightarrow> isapi_request \<Rightarrow> http_reply \<Rightarrow> jstr \<Rightarrow> jstr option" where
  "digest_answer e q r cnonce =
    (case extract_challenge (hr_authenticate r) (js ''digest'') of
       None \<Rightarrow> None
     | Some challenge \<Rightarrow> build_digest_header challenge
         \<lparr>di_method = upper (iq_method q), di_uri = iq_path q, di_user = coalesce (te_user e) [],
          di_password = coalesce (te_password e) [], di_cnonce = cnonce\<rparr>)"

definition btoa_error :: jstr where
  "btoa_error = js ''Invalid character''"

text \<open>
  \<open>answer_challenge\<close> is what follows a 401: the digest of the challenge, once more on a fresh
  challenge, and Basic only where the challenge offers it and no digest could be built. The two texts
  are the client nonces the two digests would draw.
\<close>

definition answer_challenge ::
    "'w wire \<Rightarrow> tunnel_env \<Rightarrow> isapi_request \<Rightarrow> jstr \<times> jstr \<Rightarrow> http_reply \<Rightarrow> 'w \<Rightarrow> (jstr, http_reply) result \<times> 'w" where
  "answer_challenge send e q cnonces r w =
    (let plain = plain_request e q in
     case digest_answer e q r (fst cnonces) of
       Some h \<Rightarrow>
         (case send w (authorized h plain) of
            (Inl err, w1) \<Rightarrow> (Inl err, w1)
          | (Inr r1, w1) \<Rightarrow>
              if hr_status r1 \<noteq> 401 then (Inr r1, w1)
              else (case digest_answer e q r1 (snd cnonces) of
                      None \<Rightarrow> (Inr r1, w1)
                    | Some h1 \<Rightarrow> send w1 (authorized h1 plain)))
     | None \<Rightarrow>
         if extract_challenge (hr_authenticate r) (js ''basic'') = None then (Inr r, w)
         else (case basic_header (coalesce (te_user e) []) (coalesce (te_password e) []) of
                 None \<Rightarrow> (Inl btoa_error, w)
               | Some h \<Rightarrow> send w (authorized h plain)))"

definition isapi_fetch ::
    "'w wire \<Rightarrow> tunnel_env \<Rightarrow> isapi_request \<Rightarrow> jstr \<times> jstr \<Rightarrow> 'w \<Rightarrow> (jstr, http_reply) result \<times> 'w" where
  "isapi_fetch send e q cnonces w =
    (if drop_slashes (trim (coalesce (te_url e) [])) = [] then (Inl (js ''TUNNEL_URL is not configured''), w)
     else
       let plain = plain_request e q;
           first = (if lower (coalesce (te_mode e) (js ''digest'')) = js ''basic'' \<and> nonempty (te_user e)
                    then map_option (\<lambda>h. authorized h plain) (basic_header (coalesce (te_user e) []) (coalesce (te_password e) []))
                    else Some plain)
       in case first of
            None \<Rightarrow> (Inl btoa_error, w)
          | Some r0 \<Rightarrow>
              (case send w r0 of
                 (Inl err, w1) \<Rightarrow> (Inl err, w1)
               | (Inr r, w1) \<Rightarrow>
                   if hr_status r = 401 \<and> nonempty (te_user e) \<and> nonempty (te_password e)
                   then answer_challenge send e q cnonces r w1 else (Inr r, w1)))"

subsection \<open>What the terminal sees\<close>

definition logged :: "'w wire \<Rightarrow> ('w \<times> http_request list) wire" where
  "logged send = (\<lambda>(w, sent) r. (fst (send w r), (snd (send w r), sent @ [r])))"

definition sent_by :: "'w wire \<Rightarrow> tunnel_env \<Rightarrow> isapi_request \<Rightarrow> jstr \<times> jstr \<Rightarrow> 'w \<Rightarrow> http_request list" where
  "sent_by send e q cnonces w = snd (snd (isapi_fetch (logged send) e q cnonces (w, [])))"

lemma logged_simp [simp]: "logged send (w, sent) r = (fst (send w r), (snd (send w r), sent @ [r]))"
  by (simp add: logged_def)

lemma digest_header_shape: "build_digest_header c x = Some h \<Longrightarrow> starts_with h (js ''Digest '')"
  by (auto simp: build_digest_header_def Let_def starts_with_def split: if_splits)

lemma basic_header_shape: "basic_header u p = Some h \<Longrightarrow> starts_with h (js ''Basic '') \<and> \<not> starts_with h (js ''Digest '')"
  by (auto simp: basic_header_def Let_def starts_with_def js_def split: if_splits)

lemma digest_answer_shape: "digest_answer e q r c = Some h \<Longrightarrow> starts_with h (js ''Digest '')"
  by (auto simp: digest_answer_def digest_header_shape split: option.splits)

lemma answer_sent:
  assumes "snd (snd (answer_challenge (logged send) e q cn r (w, sent0))) = sent"
  shows "\<exists>more. sent = sent0 @ more \<and> length more \<le> 2
    \<and> (\<forall>x\<in>set more. \<exists>h. x = authorized h (plain_request e q)
         \<and> (starts_with h (js ''Digest '')
            \<or> digest_answer e q r (fst cn) = None \<and> extract_challenge (hr_authenticate r) (js ''basic'') \<noteq> None))"
proof (cases "digest_answer e q r (fst cn)")
  case None
  then show ?thesis using assms
    by (auto simp: answer_challenge_def Let_def split: if_splits option.splits)
next
  case (Some h)
  note d = digest_answer_shape [OF Some]
  obtain res w1 where s: "send w (authorized h (plain_request e q)) = (res, w1)" by fastforce
  show ?thesis
  proof (cases res)
    case (Inl err)
    then show ?thesis using assms Some d by (auto simp: answer_challenge_def s Let_def)
  next
    case (Inr r1)
    show ?thesis
    proof (cases "digest_answer e q r1 (snd cn)")
      case None
      then show ?thesis using assms Some d Inr by (auto simp: answer_challenge_def s Let_def split: if_splits)
    next
      case (Some h1)
      then show ?thesis using assms \<open>digest_answer e q r (fst cn) = Some h\<close> d digest_answer_shape [OF Some] Inr
        by (auto simp: answer_challenge_def s Let_def split: if_splits)
    qed
  qed
qed

text \<open>The first request, and what follows its reply.\<close>

definition basic_mode :: "tunnel_env \<Rightarrow> bool" where
  "basic_mode e \<longleftrightarrow> lower (coalesce (te_mode e) (js ''digest'')) = js ''basic'' \<and> nonempty (te_user e)"

definition first_request :: "tunnel_env \<Rightarrow> isapi_request \<Rightarrow> http_request option" where
  "first_request e q = (if basic_mode e then map_option (\<lambda>h. authorized h (plain_request e q))
      (basic_header (coalesce (te_user e) []) (coalesce (te_password e) [])) else Some (plain_request e q))"

lemma sent_by_eq:
  assumes "drop_slashes (trim (coalesce (te_url e) [])) \<noteq> []"
  shows "sent_by send e q cnonces w = (case first_request e q of None \<Rightarrow> [] | Some r0 \<Rightarrow>
      (case send w r0 of (Inl err, w1) \<Rightarrow> [r0] | (Inr r, w1) \<Rightarrow>
         if hr_status r = 401 \<and> nonempty (te_user e) \<and> nonempty (te_password e)
         then snd (snd (answer_challenge (logged send) e q cnonces r (w1, [r0]))) else [r0]))"
  using assms unfolding sent_by_def isapi_fetch_def Let_def first_request_def basic_mode_def
  by (auto split: option.split sum.split prod.split)

definition follow_up :: "'w wire \<Rightarrow> tunnel_env \<Rightarrow> isapi_request \<Rightarrow> jstr \<times> jstr \<Rightarrow> 'w \<Rightarrow> http_request \<Rightarrow> http_request \<Rightarrow> bool" where
  "follow_up send e q cnonces w r0 y \<longleftrightarrow> (\<exists>h. y = authorized h (plain_request e q) \<and> (starts_with h (js ''Digest '')
        \<or> (\<exists>r. fst (send w r0) = Inr r \<and> digest_answer e q r (fst cnonces) = None
             \<and> extract_challenge (hr_authenticate r) (js ''basic'') \<noteq> None)))"

lemma sent_by_shape:
  assumes "sent_by send e q cnonces w \<noteq> []"
  shows "\<exists>r0 more. first_request e q = Some r0 \<and> sent_by send e q cnonces w = r0 # more \<and> length more \<le> 2
    \<and> (\<forall>y\<in>set more. follow_up send e q cnonces w r0 y)"
proof -
  have url: "drop_slashes (trim (coalesce (te_url e) [])) \<noteq> []"
    using assms by (auto simp: sent_by_def isapi_fetch_def)
  note eq = sent_by_eq [OF url, where send = send and q = q and cnonces = cnonces and w = w]
  obtain r0 where r0: "first_request e q = Some r0" using assms eq by (cases "first_request e q") auto
  obtain res w1 where send: "send w r0 = (res, w1)" by fastforce
  show ?thesis
  proof (cases "\<exists>r. res = Inr r \<and> hr_status r = 401 \<and> nonempty (te_user e) \<and> nonempty (te_password e)")
    case True
    then obtain r where r: "res = Inr r" "hr_status r = 401" "nonempty (te_user e)" "nonempty (te_password e)" by blast
    have "sent_by send e q cnonces w = snd (snd (answer_challenge (logged send) e q cnonces r (w1, [r0])))"
      by (simp add: eq r0 send r)
    from answer_sent [OF this [symmetric]] obtain more where more: "sent_by send e q cnonces w = r0 # more" "length more \<le> 2"
        "\<forall>x\<in>set more. \<exists>h. x = authorized h (plain_request e q) \<and> (starts_with h (js ''Digest '')
           \<or> digest_answer e q r (fst cnonces) = None \<and> extract_challenge (hr_authenticate r) (js ''basic'') \<noteq> None)"
      by auto
    have "fst (send w r0) = Inr r" by (simp add: send r)
    then have "\<forall>y\<in>set more. follow_up send e q cnonces w r0 y" using more(3) unfolding follow_up_def by blast
    then show ?thesis using r0 more(1,2) by blast
  next
    case False
    then have "sent_by send e q cnonces w = [r0]" by (auto simp: eq r0 send split: sum.split)
    then show ?thesis using r0 by simp
  qed
qed

lemma request_shape:
  assumes "y = plain_request e q \<or> (\<exists>h. y = authorized h (plain_request e q))"
  shows "hq_method y = upper (iq_method q)" "hq_url y = hq_url (plain_request e q)" "hq_body y = iq_json q"
  using assms by (auto simp: authorized_def plain_request_def)

text \<open>
  C21: For one request the terminal sees at most three, all with the same method, address and body; an
  Authorization that is not a digest, which would show the password, is sent only in basic mode or where
  the terminal's challenge offers Basic and no digest that can be answered.
\<close>

theorem password_stays_hidden:
  assumes "x \<in> set (sent_by send e q cnonces w)"
  shows "length (sent_by send e q cnonces w) \<le> 3
    \<and> hq_method x = upper (iq_method q) \<and> hq_url x = hq_url (plain_request e q) \<and> hq_body x = iq_json q
    \<and> (x = plain_request e q
       \<or> (\<exists>h. x = authorized h (plain_request e q)
            \<and> (starts_with h (js ''Digest '')
               \<or> lower (coalesce (te_mode e) (js ''digest'')) = js ''basic''
               \<or> (\<exists>r. fst (send w (plain_request e q)) = Inr r \<and> digest_answer e q r (fst cnonces) = None
                     \<and> extract_challenge (hr_authenticate r) (js ''basic'') \<noteq> None))))"
proof -
  let ?plain = "plain_request e q"
  have "sent_by send e q cnonces w \<noteq> []" using assms by auto
  from sent_by_shape [OF this]
  obtain r0 more where r0: "first_request e q = Some r0" and sent: "sent_by send e q cnonces w = r0 # more" "length more \<le> 2"
    and later: "\<forall>y\<in>set more. follow_up send e q cnonces w r0 y"
    by blast
  have len: "length (sent_by send e q cnonces w) \<le> 3" using sent by simp
  have which: "x = ?plain \<or> (\<exists>h. x = authorized h ?plain \<and> (starts_with h (js ''Digest '')
        \<or> lower (coalesce (te_mode e) (js ''digest'')) = js ''basic''
        \<or> (\<exists>r. fst (send w ?plain) = Inr r \<and> digest_answer e q r (fst cnonces) = None
             \<and> extract_challenge (hr_authenticate r) (js ''basic'') \<noteq> None)))"
  proof (cases "basic_mode e")
    case True
    then have mode: "lower (coalesce (te_mode e) (js ''digest'')) = js ''basic''" by (simp add: basic_mode_def)
    have "\<exists>h. x = authorized h ?plain"
      using True assms sent(1) later r0 by (auto simp: first_request_def follow_up_def)
    then show ?thesis using mode by blast
  next
    case False
    then have "r0 = ?plain" using r0 by (simp add: first_request_def)
    then show ?thesis using assms sent(1) later unfolding follow_up_def by auto
  qed
  then have "x = ?plain \<or> (\<exists>h. x = authorized h ?plain)" by blast
  from request_shape [OF this] len which show ?thesis by blast
qed

text \<open>Its witness: a terminal that offers Basic only.\<close>

definition basic_terminal :: "unit wire" where
  "basic_terminal w r = (Inr \<lparr>hr_status = 401, hr_status_text = [], hr_authenticate = js ''Basic realm=t'', hr_body = []\<rparr>, w)"

definition tunnel_sample :: tunnel_env where
  "tunnel_sample = \<lparr>te_url = Some (js ''https://t''), te_user = Some (js ''u''), te_password = Some (js ''p''), te_mode = None, te_lookback = None,
     te_token = None, te_client_id = None, te_client_secret = None, te_origin = None\<rparr>"

definition request_sample :: isapi_request where
  "request_sample = \<lparr>iq_path = js ''/x'', iq_method = js ''GET'', iq_json = None\<rparr>"

lemma basic_exchange:
  "sent_by basic_terminal tunnel_sample request_sample ([], []) ()
     = [plain_request tunnel_sample request_sample, authorized (js ''Basic dTpw'') (plain_request tunnel_sample request_sample)]"
proof -
  have f: "extract_challenge (js ''Basic realm=t'') (js ''digest'') = None" "extract_challenge (js ''Basic realm=t'') (js ''basic'') \<noteq> None"
    "basic_header (js ''u'') (js ''p'') = Some (js ''Basic dTpw'')" "lower (js ''digest'') \<noteq> js ''basic''"
    "drop_slashes (trim (js ''https://t'')) \<noteq> []"
    by code_simp+
  then show ?thesis
    by (simp add: sent_by_def isapi_fetch_def answer_challenge_def digest_answer_def basic_terminal_def tunnel_sample_def
        nonempty_def Let_def js_def logged_def)
qed

theorem password_stays_hidden_witness:
  "let e = tunnel_sample; q = request_sample; x = authorized (js ''Basic dTpw'') (plain_request e q) in
   length (sent_by basic_terminal e q ([], []) ()) \<le> 3
    \<and> hq_method x = upper (iq_method q) \<and> hq_url x = hq_url (plain_request e q) \<and> hq_body x = iq_json q
    \<and> (x = plain_request e q
       \<or> (\<exists>h. x = authorized h (plain_request e q)
            \<and> (starts_with h (js ''Digest '')
               \<or> lower (coalesce (te_mode e) (js ''digest'')) = js ''basic''
               \<or> (\<exists>r. fst (basic_terminal () (plain_request e q)) = Inr r \<and> digest_answer e q r [] = None
                     \<and> extract_challenge (hr_authenticate r) (js ''basic'') \<noteq> None))))"
proof -
  have "authorized (js ''Basic dTpw'') (plain_request tunnel_sample request_sample)
      \<in> set (sent_by basic_terminal tunnel_sample request_sample ([], []) ())"
    by (simp add: basic_exchange)
  from password_stays_hidden [OF this] show ?thesis unfolding Let_def fst_conv .
qed

subsection \<open>The answer is read back\<close>

definition plain_text :: "jstr \<Rightarrow> bool" where
  "plain_text v \<longleftrightarrow> 34 \<notin> set v \<and> 92 \<notin> set v"

lemma escape_plain: "plain_text v \<Longrightarrow> escape_quoted v = v"
  by (induction v) (auto simp: plain_text_def escape_quoted_def)

lemma quoted_plain: "plain_text v \<Longrightarrow> quoted_value (v @ 34 # rest) = Some (v, rest)"
  by (induction v) (auto simp: plain_text_def)

definition param_name :: "jstr \<Rightarrow> bool" where
  "param_name n \<longleftrightarrow> n \<noteq> [] \<and> list_all is_lower n"

lemma param_name_facts:
  assumes "param_name n"
  shows "takeWhile name_unit (n @ 61 # r) = n" "dropWhile name_unit (n @ 61 # r) = 61 # r" "lower n = n"
    "is_lower (hd (n @ s))" "n @ s \<noteq> []"
proof -
  have a: "\<forall>c\<in>set n. name_unit c" "\<not> name_unit 61" "\<forall>c\<in>set n. is_lower c"
    using assms by (auto simp: param_name_def list_all_iff name_unit_def char_class_defs)
  then show "takeWhile name_unit (n @ 61 # r) = n" "dropWhile name_unit (n @ 61 # r) = 61 # r" by simp_all
  show "lower n = n" using a(3) by (intro lower_fixed) (auto simp: lower_unit_def char_class_defs)
  show "is_lower (hd (n @ s))" "n @ s \<noteq> []" using assms by (cases n; simp add: param_name_def)+
qed

lemma read_quoted:
  assumes "param_name n" "plain_text v"
  shows "challenge_param (n @ [61, 34] @ v @ 34 # rest) = Some ((n, v), rest)"
  using param_name_facts [OF assms(1)] quoted_plain [OF assms(2)]
  by (simp add: challenge_param_def Let_def is_ws_def)

definition bare_text :: "jstr \<Rightarrow> bool" where
  "bare_text v \<longleftrightarrow> list_all (\<lambda>c. \<not> is_ws c \<and> c \<noteq> 44 \<and> c \<noteq> 34) v"

lemma read_bare:
  assumes "param_name n" "v \<noteq> []" "bare_text v" "rest = [] \<or> hd rest = 44"
  shows "challenge_param (n @ 61 # v @ rest) = Some ((n, v), rest)"
proof -
  have v: "\<forall>c\<in>set v. \<not> is_ws c \<and> c \<noteq> 44 \<and> c \<noteq> 34" using assms(3) by (simp add: bare_text_def list_all_iff)
  have r: "takeWhile (\<lambda>c. \<not> is_ws c \<and> c \<noteq> 44) (v @ rest) = v" using v assms(4) by (cases rest) auto
  have "dropWhile is_ws (v @ rest) = v @ rest" "hd (v @ rest) \<noteq> 34" using v assms(2) by (cases v; simp)+
  then show ?thesis using param_name_facts [OF assms(1)] r assms(2)
    by (simp add: challenge_param_def Let_def bare_value_def is_ws_def)
qed

lemma skip_separator: "challenge_params (44 # 32 # s) f = challenge_params s f"
proof -
  have "challenge_param (44 # t) = None" "challenge_param (32 # t) = None" for t
    by (simp_all add: challenge_param_def is_upper_def is_lower_def)
  then show ?thesis by (simp add: challenge_params.simps [of "44 # 32 # s"] challenge_params.simps [of "32 # s"])
qed

lemma challenge_params_step:
  "challenge_param s = Some ((k, v), rest) \<Longrightarrow> challenge_params s f = challenge_params rest (AList.update k v f)"
  by (simp add: challenge_params.simps [of s])

lemma challenge_params_Nil: "challenge_params [] f = f"
  by (simp add: challenge_params.simps [of "[]"] challenge_param_def)

text \<open>A part of the header, with the value it carries.\<close>

inductive reads_as :: "jstr \<Rightarrow> jstr \<Rightarrow> jstr \<Rightarrow> bool" where
  as_quoted: "param_name (js n) \<Longrightarrow> plain_text v \<Longrightarrow> reads_as (quoted_param n v) (js n) v"
| as_plain: "param_name (js n) \<Longrightarrow> v \<noteq> [] \<Longrightarrow> bare_text v \<Longrightarrow> reads_as (plain_param n v) (js n) v"

lemma read_part:
  assumes "reads_as p k v" "rest = [] \<or> hd rest = 44"
  shows "challenge_params (p @ rest) f = challenge_params rest (AList.update k v f)"
  using assms
proof cases
  case (as_quoted n)
  then have "p @ rest = js n @ [61, 34] @ v @ 34 # rest" by (simp add: quoted_param_def escape_plain)
  then show ?thesis using challenge_params_step [OF read_quoted [OF as_quoted(3,4), of rest]] as_quoted by simp
next
  case (as_plain n)
  then have "p @ rest = js n @ 61 # v @ rest" by (simp add: plain_param_def)
  then show ?thesis using challenge_params_step [OF read_bare [OF as_plain(3,4,5) assms(2)]] as_plain by simp
qed

lemma read_parts:
  assumes "list_all2 (\<lambda>p (k, v). reads_as p k v) ps kvs" "ps \<noteq> []"
  shows "challenge_params (join (js '', '') ps) f = fold (\<lambda>(k, v). AList.update k v) kvs f"
  using assms
proof (induction ps kvs arbitrary: f rule: list_all2_induct)
  case (Cons p ps kv kvs)
  obtain k v where kv: "kv = (k, v)" by fastforce
  show ?case
  proof (cases ps)
    case Nil
    then show ?thesis using Cons read_part [of p k v "[]" f] by (simp add: kv challenge_params_Nil)
  next
    case (Cons q qs)
    have sep: "js '', '' = [44, 32]" by code_simp
    have j: "join (js '', '') (p # ps) = p @ 44 # 32 # join (js '', '') ps" by (simp add: Cons sep)
    show ?thesis unfolding j using Cons.hyps(1) kv Cons.IH \<open>ps = q # qs\<close>
      read_part [of p k v "44 # 32 # join (js '', '') ps" f] by (simp add: skip_separator)
  qed
qed simp

lemma digest_plain: "plain_text (md5_hex s)"
proof -
  have "c \<noteq> 34 \<and> c \<noteq> 92" if "c \<in> set (hex_byte b)" for b c
  proof -
    have "unat b < 256" using unsigned_less [of b] by simp
    then have "unat b div 16 < 16" by simp
    then show ?thesis using that by (auto simp: hex_byte_def Let_def split: if_splits)
  qed
  then have "34 \<notin> set (hex_byte b)" "92 \<notin> set (hex_byte b)" for b by blast+
  then have "34 \<notin> set (state_hex st) \<and> 92 \<notin> set (state_hex st)" for st
    by (cases st) (simp add: state_hex_def)
  then show ?thesis by (simp add: plain_text_def md5_hex_def)
qed

lemma response_plain: "plain_text (digest_response x al r n q)"
  by (simp add: digest_response_def Let_def digest_plain split: option.split)

text \<open>What a terminal that holds the password computes from the parameters of an answer.\<close>

definition expected_response :: "jstr \<Rightarrow> jstr \<Rightarrow> (jstr \<Rightarrow> jstr option) \<Rightarrow> jstr" where
  "expected_response method password P =
     digest_response \<lparr>di_method = method, di_uri = coalesce (P (js ''uri'')) [], di_user = coalesce (P (js ''username'')) [],
         di_password = password, di_cnonce = coalesce (P (js ''cnonce'')) []\<rparr>
       (digest_algorithm P) (coalesce (P (js ''realm'')) []) (coalesce (P (js ''nonce'')) []) (P (js ''qop''))"


text \<open>Its witness: a challenge with \<open>qop\<close>.\<close>

definition sample_challenge :: jstr where
  "sample_challenge = join (js '', '') [quoted_param ''realm'' (js ''t''), quoted_param ''nonce'' (js ''n''), quoted_param ''qop'' (js ''auth'')]"

definition sample_digest :: digest_input where
  "sample_digest = \<lparr>di_method = js ''GET'', di_uri = js ''/x'', di_user = js ''u'', di_password = js ''p'', di_cnonce = js ''c''\<rparr>"

lemma sample_params:
  "parse_challenge_params sample_challenge (js ''realm'') = Some (js ''t'')"
  "parse_challenge_params sample_challenge (js ''nonce'') = Some (js ''n'')"
  "parse_challenge_params sample_challenge (js ''qop'') = Some (js ''auth'')"
  "parse_challenge_params sample_challenge (js ''algorithm'') = None"
  "parse_challenge_params sample_challenge (js ''opaque'') = None"
  by code_simp+


text \<open>
  A realm with an escaped quote is answered with the escape itself escaped.
\<close>

theorem escapes_are_doubled:
  "\<exists>params. parse_challenge_params (js ''realm='' @ [34, 97, 92, 34, 98, 34]) (js ''realm'') = Some params
     \<and> escape_quoted params = [97, 92, 92, 92, 34, 98]"
proof -
  have "parse_challenge_params (js ''realm='' @ [34, 97, 92, 34, 98, 34]) (js ''realm'') = Some [97, 92, 34, 98]"
    "escape_quoted [97, 92, 34, 98] = [97, 92, 92, 92, 34, 98]"
    by code_simp+
  then show ?thesis by blast
qed

end
