(* ===== verification/TunnelWorker.thy ===== *)
theory TunnelWorker
  imports DigestAuth JsonParse JsDate "HOL-Library.List_Lexorder"
begin

text \<open>
  The worker of \<^verbatim>\<open>hikvision-tunnel-worker/index.ts\<close> between its three tables and the terminal
  behind the tunnel: the pull of access events into \<open>access_logs\<close>, the push of people, and the
  routes with their bearer check. SHA-256 and the random texts are parameters, the clock is an argument;
  the schema is taken as created, and the text of a response other than its status and JSON is left out.
\<close>

subsection \<open>Access events\<close>

text \<open>A trimmed text or a finite number, else nothing.\<close>

definition text_or_number :: "jval \<Rightarrow> jstr option" where
  "text_or_number v =
    (case v of
       Str s \<Rightarrow> if trim s = [] then None else Some (trim s)
     | Num n \<Rightarrow> Some (show_int n)
     | NumText t \<Rightarrow> if t \<in> {nan_text, js ''Infinity'', js ''-Infinity''} then None else Some t
     | _ \<Rightarrow> None)"

fun pick_text :: "jval \<Rightarrow> jstr list \<Rightarrow> jstr option" where
  "pick_text record [] = None"
| "pick_text record (k # ks) = (case text_or_number (get_prop record k) of Some t \<Rightarrow> Some t | None \<Rightarrow> pick_text record ks)"

record acs_event =
  ae_id :: "jstr option"
  ae_monitor :: "jstr option"
  ae_time :: jstr
  ae_employee :: jstr
  ae_card :: "jstr option"
  ae_door :: "jstr option"

definition read_acs_event :: "int \<Rightarrow> jval \<Rightarrow> acs_event" where
  "read_acs_event now r =
     \<lparr>ae_id = pick_text r [js ''eventID'', js ''eventId'', js ''event_id''], ae_monitor = pick_text r [js ''monitorIndex''],
      ae_time = coalesce (pick_text r [js ''time'', js ''eventTime'', js ''dateTime'']) (iso_string now),
      ae_employee = coalesce (pick_text r [js ''employeeNo'', js ''employeeNoString'']) [],
      ae_card = pick_text r [js ''cardNo'', js ''cardNoString''], ae_door = pick_text r [js ''doorNo'']\<rparr>"

definition attributable :: "acs_event \<Rightarrow> bool" where
  "attributable e \<longleftrightarrow> ae_employee e \<noteq> [] \<or> nonempty (ae_card e) \<or> nonempty (ae_id e)"

definition collect_acs_events :: "int \<Rightarrow> jval \<Rightarrow> acs_event list option" where
  "collect_acs_events now payload =
    (let acs = get_prop payload (js ''AcsEvent'') in
     if \<not> is_object acs then None
     else
       let listed = (case get_prop acs (js ''InfoList'') of Arr vs \<Rightarrow> vs | _ \<Rightarrow> []);
           single = get_prop acs (js ''AcsEventInfo'')
       in Some (filter attributable (map (read_acs_event now) (filter is_object (listed @ (if is_object single then [single] else []))))))"

definition event_id_for :: "(jstr \<Rightarrow> jstr) \<Rightarrow> acs_event \<Rightarrow> jstr" where
  "event_id_for sha e =
    (if nonempty (ae_id e) then the (ae_id e)
     else js ''hik_'' @ slice_to 40 (sha (join (js ''|'')
            [ae_time e, ae_employee e, coalesce (ae_card e) [], coalesce (ae_door e) [], coalesce (ae_monitor e) []])))"

subsection \<open>The worker\<close>

record access_log =
  al_id :: jstr
  al_employee :: "jstr option"
  al_card :: "jstr option"
  al_time :: jstr
  al_door :: "jstr option"

record device_user =
  du_employee :: jstr
  du_name :: jstr
  du_card :: "jstr option"
  du_card_type :: jstr
  du_user_type :: jstr
  du_group :: jstr
  du_door :: int
  du_plan :: jstr
  du_start :: "jstr option"
  du_end :: "jstr option"
  du_sync :: jstr
  du_error :: "jstr option"
  du_updated :: int

datatype pull_mode = ByGet | BySearch | NoMode

record pull_summary =
  sm_ok :: bool
  sm_mode :: pull_mode
  sm_fetched :: nat
  sm_persisted :: nat
  sm_error :: "jstr option"

record 'w worker =
  wk_wire :: 'w
  wk_draws :: nat
  wk_logs :: "access_log list"
  wk_users :: "device_user list"
  wk_status :: "(int \<times> pull_summary) option"

record tunnel_host =
  th_sha :: "jstr \<Rightarrow> jstr"
  th_nonce :: "nat \<Rightarrow> jstr"
  th_uuid :: "nat \<Rightarrow> jstr"

definition worker_fetch ::
    "'w wire \<Rightarrow> tunnel_host \<Rightarrow> tunnel_env \<Rightarrow> isapi_request \<Rightarrow> 'w worker \<Rightarrow> (jstr, http_reply) result \<times> 'w worker" where
  "worker_fetch send P e q W =
    (let n = wk_draws W; (r, w) = isapi_fetch send e q (th_nonce P n, th_nonce P (n + 1)) (wk_wire W)
     in (r, W\<lparr>wk_wire := w, wk_draws := n + 2\<rparr>))"

definition read_json :: "jstr \<Rightarrow> jval" where
  "read_json t =
    (if t = [] then Null
     else case json_parse t of
       Some v \<Rightarrow> v
     | None \<Rightarrow> Obj [(js ''__unparsed'', Str (if length t > 300 then slice_to 300 t @ [8230] else t))])"

definition reply_ok :: "http_reply \<Rightarrow> bool" where
  "reply_ok r \<longleftrightarrow> 200 \<le> hr_status r \<and> hr_status r < 300"

definition acs_event_path :: jstr where "acs_event_path = js ''/ISAPI/AccessControl/AcsEvent?format=json''"
definition user_record_path :: jstr where "user_record_path = js ''/ISAPI/AccessControl/UserInfo/Record?format=json''"
definition max_event_batch :: nat where "max_event_batch = 50"
definition max_sync_users :: nat where "max_sync_users = 100"

text \<open>\<open>Number.parseInt(t, 10)\<close>: a sign and the leading digits; \<open>None\<close> is \<open>NaN\<close>.\<close>

definition parse_int10 :: "jstr \<Rightarrow> int option" where
  "parse_int10 t =
    (let s = trim_start t; neg = (s \<noteq> [] \<and> hd s = 45);
         ds = takeWhile is_digit (if s \<noteq> [] \<and> (hd s = 45 \<or> hd s = 43) then tl s else s)
     in if ds = [] then None else Some (if neg then - int (digits_val ds) else int (digits_val ds)))"

definition isapi_timestamp :: "int \<Rightarrow> jstr" where
  "isapi_timestamp t = (let f = fields_of t in
     show_int (f_year f) @ js ''-'' @ digits_w 2 (f_month f) @ js ''-'' @ digits_w 2 (f_day f)
     @ js ''T'' @ digits_w 2 (f_hour f) @ js '':'' @ digits_w 2 (f_minute f) @ js '':'' @ digits_w 2 (f_second f) @ js ''+00:00'')"

definition nonzero_or :: "int \<Rightarrow> int option \<Rightarrow> int" where
  "nonzero_or d x = (case x of None \<Rightarrow> d | Some n \<Rightarrow> if n = 0 then d else n)"

definition lookback_minutes :: "tunnel_env \<Rightarrow> int" where
  "lookback_minutes e = min 1440 (max 1 (nonzero_or 10 (parse_int10 (coalesce (te_lookback e) (js ''10'')))))"

definition search_body :: "tunnel_host \<Rightarrow> tunnel_env \<Rightarrow> int \<Rightarrow> nat \<Rightarrow> jval" where
  "search_body P e now n = Obj [(js ''AcsEvent'', Obj [(js ''searchID'', Str (th_uuid P n)), (js ''searchResultPosition'', Num 0),
     (js ''maxResults'', Num (int max_event_batch)), (js ''startTime'', Str (isapi_timestamp (now - lookback_minutes e * 60000))),
     (js ''endTime'', Str (isapi_timestamp now))])]"

definition acs_get :: isapi_request where
  "acs_get = \<lparr>iq_path = acs_event_path, iq_method = js ''GET'', iq_json = None\<rparr>"

definition acs_search :: "tunnel_host \<Rightarrow> tunnel_env \<Rightarrow> int \<Rightarrow> nat \<Rightarrow> isapi_request" where
  "acs_search P e now n = \<lparr>iq_path = acs_event_path, iq_method = js ''POST'', iq_json = Some (json_text (search_body P e now n))\<rparr>"

definition reply_events :: "int \<Rightarrow> http_reply \<Rightarrow> acs_event list option" where
  "reply_events now r = (if reply_ok r then collect_acs_events now (read_json (hr_body r)) else None)"

definition unparsed_text :: "jval \<Rightarrow> jstr option" where
  "unparsed_text payload = (case payload of Obj fs \<Rightarrow> map_option to_string (map_of fs (js ''__unparsed'')) | _ \<Rightarrow> None)"

definition pull_error :: "http_reply \<Rightarrow> jstr" where
  "pull_error r =
    (if hr_status r = 401 then js ''authentication failed '' @ [8212] @ js '' check HIK_USER/HIK_PASS''
     else js ''device responded '' @ show_nat (hr_status r) @ js '' '' @ hr_status_text r)
    @ (case unparsed_text (read_json (hr_body r)) of None \<Rightarrow> [] | Some t \<Rightarrow> js '': '' @ t)"

text \<open>The UPSERT on \<open>event_id\<close>.\<close>

definition log_of :: "(jstr \<Rightarrow> jstr) \<Rightarrow> acs_event \<Rightarrow> access_log" where
  "log_of sha e = \<lparr>al_id = event_id_for sha e, al_employee = (if ae_employee e = [] then None else Some (ae_employee e)),
     al_card = ae_card e, al_time = ae_time e, al_door = ae_door e\<rparr>"

definition upsert_log :: "access_log \<Rightarrow> access_log list \<Rightarrow> access_log list" where
  "upsert_log r rows =
    (if al_id r \<in> al_id ` set rows then update_where (\<lambda>x. al_id x = al_id r) (\<lambda>_. r) rows else rows @ [r])"

definition store_events :: "(jstr \<Rightarrow> jstr) \<Rightarrow> acs_event list \<Rightarrow> access_log list \<Rightarrow> access_log list" where
  "store_events sha es rows = fold (\<lambda>e. upsert_log (log_of sha e)) es rows"

text \<open>The two attempts; the mode tells which reply is the last.\<close>

definition fetch_events ::
    "'w wire \<Rightarrow> tunnel_host \<Rightarrow> tunnel_env \<Rightarrow> int \<Rightarrow> 'w worker \<Rightarrow> (jstr, pull_mode \<times> http_reply) result \<times> 'w worker" where
  "fetch_events send P e now W =
    (case worker_fetch send P e acs_get W of
       (Inl err, W1) \<Rightarrow> (Inl err, W1)
     | (Inr r, W1) \<Rightarrow>
         if reply_events now r = None \<and> (reply_ok r \<or> hr_status r \<in> {400, 405, 501})
         then (case worker_fetch send P e (acs_search P e now (wk_draws W1)) (W1\<lparr>wk_draws := wk_draws W1 + 1\<rparr>) of
                 (Inl err, W2) \<Rightarrow> (Inl err, W2)
               | (Inr r2, W2) \<Rightarrow> (Inr (BySearch, r2), W2))
         else (Inr (ByGet, r), W1))"

definition failed_pull :: "jstr \<Rightarrow> pull_summary" where
  "failed_pull err = \<lparr>sm_ok = False, sm_mode = NoMode, sm_fetched = 0, sm_persisted = 0, sm_error = Some err\<rparr>"

definition pull_access_logs ::
    "'w wire \<Rightarrow> tunnel_host \<Rightarrow> tunnel_env \<Rightarrow> int \<Rightarrow> 'w worker \<Rightarrow> pull_summary \<times> 'w worker" where
  "pull_access_logs send P e now W =
    (case fetch_events send P e now W of
       (Inl err, W1) \<Rightarrow> (failed_pull err, W1\<lparr>wk_status := Some (now, failed_pull err)\<rparr>)
     | (Inr (mode, r), W1) \<Rightarrow>
         (case reply_events now r of
            None \<Rightarrow> (failed_pull (pull_error r), W1\<lparr>wk_status := Some (now, failed_pull (pull_error r))\<rparr>)
          | Some es \<Rightarrow>
              let rows = take max_event_batch es;
                  summary = \<lparr>sm_ok = True, sm_mode = mode, sm_fetched = length es, sm_persisted = length rows, sm_error = None\<rparr>
              in (summary, W1\<lparr>wk_logs := store_events (th_sha P) rows (wk_logs W1), wk_status := Some (now, summary)\<rparr>)))"

subsection \<open>People\<close>

record sync_user =
  su_employee :: jstr
  su_name :: "jstr option"
  su_card :: "jstr option"
  su_card_type :: "jstr option"
  su_user_type :: "jstr option"
  su_group :: "jstr option"
  su_door :: "int option"
  su_plan :: "jstr option"
  su_start :: "jstr option"
  su_end :: "jstr option"

definition either_key :: "jval \<Rightarrow> string \<Rightarrow> string \<Rightarrow> jstr option" where
  "either_key v a b = text_or_number (nullish_or (get_prop v (js a)) (get_prop v (js b)))"

definition to_sync_user :: "jval \<Rightarrow> sync_user option" where
  "to_sync_user v =
    (if \<not> is_object v then None
     else case either_key v ''employeeNo'' ''employee_no'' of
       None \<Rightarrow> None
     | Some n \<Rightarrow> Some \<lparr>su_employee = n, su_name = text_or_number (get_prop v (js ''name'')),
         su_card = either_key v ''cardNo'' ''card_no'', su_card_type = either_key v ''cardType'' ''card_type'',
         su_user_type = either_key v ''userType'' ''user_type'', su_group = either_key v ''groupNo'' ''group_no'',
         su_door = map_option (\<lambda>d. nonzero_or 1 (parse_int10 d)) (either_key v ''doorNo'' ''door_no''),
         su_plan = either_key v ''planTemplateNo'' ''plan_template_no'',
         su_start = either_key v ''validStart'' ''valid_start'', su_end = either_key v ''validEnd'' ''valid_end''\<rparr>)"

definition now_text :: "int \<Rightarrow> jstr" where
  "now_text now = (let t = iso_string now; n = length t - 5 in
     if match_shape (js ''.dddZ'') (drop n t) then take n t @ js ''+00:00'' else t)"

definition build_user_info_record :: "int \<Rightarrow> sync_user \<Rightarrow> jval" where
  "build_user_info_record now u = Obj [(js ''UserInfo'', Obj (
     [(js ''employeeNo'', Str (su_employee u)),
      (js ''name'', Str (case su_name u of None \<Rightarrow> su_employee u | Some n \<Rightarrow> if trim n = [] then su_employee u else trim n)),
      (js ''userType'', Str (coalesce (su_user_type u) (js ''normal''))),
      (js ''Valid'', Obj [(js ''enable'', Bool True), (js ''startTime'', Str (coalesce (su_start u) (now_text now))),
         (js ''endTime'', Str (coalesce (su_end u) (js ''2099-12-31T23:59:59+00:00'')))]),
      (js ''doorRight'', Str (js ''1'')),
      (js ''RightPlan'', Arr [Obj [(js ''doorNo'', Num (coalesce (su_door u) 1)), (js ''planTemplateNo'', Str (coalesce (su_plan u) (js ''1'')))]]),
      (js ''groupNo'', Str (coalesce (su_group u) (js ''1'')))]
     @ (if nonempty (su_card u)
        then [(js ''cardInfos'', Arr [Obj [(js ''cardNo'', Str (the (su_card u))), (js ''cardType'', Str (coalesce (su_card_type u) (js ''normalCard'')))]])]
        else [])))]"

definition is_response_status_ok :: "jval \<Rightarrow> bool" where
  "is_response_status_ok payload =
    (let status = get_prop payload (js ''ResponseStatus'') in
     is_object status \<and>
     (get_prop status (js ''subStatusCode'') = Str (js ''ok'')
      \<or> to_number (get_prop status (js ''statusCode'')) \<in> {Num 1, Num 200}))"

definition finite_number :: "jval \<Rightarrow> bool" where
  "finite_number v \<longleftrightarrow> v \<notin> {NumText nan_text, NumText (js ''Infinity''), NumText (js ''-Infinity'')}"

definition status_message_of :: "jval \<Rightarrow> jval option \<times> jstr option" where
  "status_message_of payload =
    (let status = get_prop payload (js ''ResponseStatus'') in
     if \<not> is_object status then (None, None)
     else let n = to_number (get_prop status (js ''statusCode'')) in
       (if finite_number n then Some n else None,
        (case text_or_number (get_prop status (js ''statusString'')) of
           Some t \<Rightarrow> Some t | None \<Rightarrow> text_or_number (get_prop status (js ''subStatusCode'')))))"

record user_result =
  ur_employee :: jstr
  ur_ok :: bool
  ur_code :: "jval option"
  ur_string :: "jstr option"
  ur_error :: "jstr option"

definition user_reply :: "jstr \<Rightarrow> http_reply \<Rightarrow> user_result" where
  "user_reply n r =
    (let payload = read_json (hr_body r); (code, text) = status_message_of payload in
     if \<not> reply_ok r then
       (if hr_status r = 401
        then \<lparr>ur_employee = n, ur_ok = False, ur_code = None, ur_string = None,
               ur_error = Some (js ''authentication failed '' @ [8212] @ js '' check HIK_USER/HIK_PASS'')\<rparr>
        else \<lparr>ur_employee = n, ur_ok = False, ur_code = Some (coalesce code (Num (int (hr_status r)))),
               ur_string = Some (coalesce text (js ''device responded '' @ show_nat (hr_status r))), ur_error = None\<rparr>)
     else if \<not> is_response_status_ok payload then
       let t = coalesce text (coalesce (unparsed_text payload) (js ''unexpected device response''))
       in \<lparr>ur_employee = n, ur_ok = False, ur_code = code, ur_string = Some t, ur_error = Some t\<rparr>
     else \<lparr>ur_employee = n, ur_ok = True, ur_code = Some (coalesce code (Num 1)), ur_string = Some (coalesce text (js ''OK'')),
            ur_error = None\<rparr>)"

definition user_request :: "jstr \<Rightarrow> int \<Rightarrow> sync_user \<Rightarrow> isapi_request" where
  "user_request method now u = \<lparr>iq_path = user_record_path, iq_method = method, iq_json = Some (json_text (build_user_info_record now u))\<rparr>"

definition thrown_result :: "jstr \<Rightarrow> jstr \<Rightarrow> user_result" where
  "thrown_result n err = \<lparr>ur_employee = n, ur_ok = False, ur_code = None, ur_string = None, ur_error = Some err\<rparr>"

definition push_user_to_device ::
    "'w wire \<Rightarrow> tunnel_host \<Rightarrow> tunnel_env \<Rightarrow> int \<Rightarrow> sync_user \<Rightarrow> 'w worker \<Rightarrow> user_result \<times> 'w worker" where
  "push_user_to_device send P e now u W =
    (case worker_fetch send P e (user_request (js ''POST'') now u) W of
       (Inl err, W1) \<Rightarrow> (thrown_result (su_employee u) err, W1)
     | (Inr r, W1) \<Rightarrow>
         if hr_status r = 405 \<or> hr_status r = 501
         then (case worker_fetch send P e (user_request (js ''PUT'') now u) W1 of
                 (Inl err, W2) \<Rightarrow> (thrown_result (su_employee u) err, W2)
               | (Inr r2, W2) \<Rightarrow> (user_reply (su_employee u) r2, W2))
         else (user_reply (su_employee u) r, W1))"

fun push_users ::
    "'w wire \<Rightarrow> tunnel_host \<Rightarrow> tunnel_env \<Rightarrow> int \<Rightarrow> sync_user list \<Rightarrow> 'w worker \<Rightarrow> user_result list \<times> 'w worker" where
  "push_users send P e now [] W = ([], W)"
| "push_users send P e now (u # us) W =
    (case push_user_to_device send P e now u W of
       (r, W1) \<Rightarrow> (case push_users send P e now us W1 of (rs, W2) \<Rightarrow> (r # rs, W2)))"

subsection \<open>Staged people\<close>

definition staged_row :: "device_user \<Rightarrow> jval" where
  "staged_row d = Obj [(js ''employee_no'', Str (du_employee d)), (js ''name'', Str (du_name d)), (js ''card_no'', jopt (du_card d)),
     (js ''card_type'', Str (du_card_type d)), (js ''user_type'', Str (du_user_type d)), (js ''group_no'', Str (du_group d)),
     (js ''door_no'', Num (du_door d)), (js ''plan_template_no'', Str (du_plan d)), (js ''valid_start'', jopt (du_start d)),
     (js ''valid_end'', jopt (du_end d))]"

definition pending_users :: "device_user list \<Rightarrow> device_user list" where
  "pending_users ds = take max_sync_users (sort_key du_updated (filter (\<lambda>d. du_sync d \<noteq> js ''synced'') ds))"

definition staged_users :: "device_user list \<Rightarrow> sync_user list" where
  "staged_users ds = List.map_filter (to_sync_user \<circ> staged_row) (pending_users ds)"

definition mark_result :: "int \<Rightarrow> user_result \<Rightarrow> device_user list \<Rightarrow> device_user list" where
  "mark_result now r ds = update_where (\<lambda>d. du_employee d = ur_employee r)
     (\<lambda>d. if ur_ok r then d\<lparr>du_sync := js ''synced'', du_error := None, du_updated := now div 1000\<rparr>
          else d\<lparr>du_sync := js ''failed'', du_updated := now div 1000,
                 du_error := Some (case ur_error r of Some t \<Rightarrow> t | None \<Rightarrow> coalesce (ur_string r) (js ''failed''))\<rparr>) ds"

definition mark_staged :: "int \<Rightarrow> user_result list \<Rightarrow> device_user list \<Rightarrow> device_user list" where
  "mark_staged now rs ds = fold (mark_result now) rs ds"

subsection \<open>Routes\<close>

type_synonym answer = "nat \<times> jval"

definition message :: "string \<Rightarrow> jval" where "message t = Obj [(js ''error'', Str (js t))]"

definition opt_prop :: "string \<Rightarrow> jval option \<Rightarrow> (jstr \<times> jval) list" where
  "opt_prop k v = (case v of None \<Rightarrow> [] | Some x \<Rightarrow> [(js k, x)])"

definition result_json :: "user_result \<Rightarrow> jval" where
  "result_json r = Obj ([(js ''employeeNo'', Str (ur_employee r)), (js ''ok'', Bool (ur_ok r))] @ opt_prop ''statusCode'' (ur_code r)
     @ opt_prop ''statusString'' (map_option Str (ur_string r)) @ opt_prop ''error'' (map_option Str (ur_error r)))"

definition sync_report :: "string \<Rightarrow> user_result list \<Rightarrow> answer" where
  "sync_report source rs =
    (let synced = length (filter ur_ok rs); failed = length rs - synced in
     (if failed = 0 then 200 else 502,
      Obj [(js ''ok'', Bool (failed = 0)), (js ''source'', Str (js source)), (js ''synced'', Num (int synced)), (js ''failed'', Num (int failed)),
           (js ''results'', Arr (map result_json rs))]))"

definition body_candidates :: "jval \<Rightarrow> jval list" where
  "body_candidates v = (case get_prop v (js ''users'') of Arr vs \<Rightarrow> vs | _ \<Rightarrow> [v])"

definition handle_sync_user ::
    "'w wire \<Rightarrow> tunnel_host \<Rightarrow> tunnel_env \<Rightarrow> int \<Rightarrow> jstr \<Rightarrow> 'w worker \<Rightarrow> answer \<times> 'w worker" where
  "handle_sync_user send P e now raw W =
    (if 200000 < length raw then ((413, message ''Request body too large''), W)
     else if trim raw \<noteq> [] then
       (case json_parse raw of
          None \<Rightarrow> ((400, message ''Body must be valid JSON''), W)
        | Some v \<Rightarrow>
            let us = List.map_filter to_sync_user (take max_sync_users (body_candidates v)) in
            if us = []
            then ((400, message ''Provide at least one user with an employeeNo, or send an empty body to sync queued D1 rows''), W)
            else (case push_users send P e now us W of (rs, W1) \<Rightarrow> (sync_report ''body'' rs, W1)))
     else
       let us = staged_users (wk_users W) in
       if us = []
       then ((200, Obj [(js ''ok'', Bool True), (js ''source'', Str (js ''d1'')), (js ''synced'', Num 0), (js ''failed'', Num 0),
                (js ''results'', Arr []), (js ''message'', Str (js ''No pending users in D1 device_users''))]), W)
       else (case push_users send P e now us W of
               (rs, W1) \<Rightarrow> (sync_report ''d1'' rs, W1\<lparr>wk_users := mark_staged now rs (wk_users W1)\<rparr>)))"

text \<open>
  The bearer check: what follows \<open>Bearer\<close> and white space, else the header \<open>X-Api-Token\<close>,
  compared byte for byte without an early exit.
\<close>

definition line_end :: "nat \<Rightarrow> bool" where "line_end c \<longleftrightarrow> c \<in> {10, 13, 8232, 8233}"

definition bearer_match :: "jstr \<Rightarrow> jstr option" where
  "bearer_match h =
    (let rest = drop 6 h; gap = takeWhile is_ws rest; tok = dropWhile is_ws rest in
     if nocase (take 6 h) \<noteq> js ''bearer'' \<or> gap = [] then None
     else if tok \<noteq> [] then (if list_ex line_end tok then None else Some tok)
     else if 2 \<le> length gap \<and> \<not> line_end (last gap) then Some [last gap] else None)"

definition same_bytes :: "8 word list \<Rightarrow> 8 word list \<Rightarrow> bool" where
  "same_bytes xs ys \<longleftrightarrow> length xs = length ys \<and> foldl (OR) 0 (map2 (XOR) xs ys) = 0"

record web_request =
  wq_method :: jstr
  wq_path :: jstr
  wq_authorization :: "jstr option"
  wq_api_token :: "jstr option"
  wq_origin :: "jstr option"
  wq_limit :: "jstr option"
  wq_body :: jstr

definition presented_token :: "web_request \<Rightarrow> jstr" where
  "presented_token r = (case bearer_match (coalesce (wq_authorization r) []) of Some t \<Rightarrow> t | None \<Rightarrow> coalesce (wq_api_token r) [])"

definition is_authorized :: "tunnel_env \<Rightarrow> web_request \<Rightarrow> bool" where
  "is_authorized e r \<longleftrightarrow> \<not> nonempty (te_token e) \<or> same_bytes (utf8 (the (te_token e))) (utf8 (presented_token r))"

definition cors_allowed :: "tunnel_env \<Rightarrow> web_request \<Rightarrow> bool" where
  "cors_allowed e r =
    (let allow = trim (coalesce (te_origin e) []) in
     nonempty (wq_origin r) \<and> (allow = [] \<or> allow = js ''*'' \<or> list_ex (\<lambda>v. trim v = the (wq_origin r)) (split_on 44 allow)))"

definition cors_headers :: "tunnel_env \<Rightarrow> web_request \<Rightarrow> (jstr \<times> jstr) list" where
  "cors_headers e r =
    (if \<not> cors_allowed e r then []
     else [(js ''Access-Control-Allow-Origin'', the (wq_origin r)), (js ''Access-Control-Allow-Methods'', js ''GET, POST, OPTIONS''),
           (js ''Access-Control-Allow-Headers'', js ''Authorization, Content-Type, X-Api-Token''),
           (js ''Access-Control-Max-Age'', js ''86400''), (js ''Vary'', js ''Origin'')])"

fun collapse_slashes :: "jstr \<Rightarrow> jstr" where
  "collapse_slashes (a # b # s) = (if a = 47 \<and> b = 47 then collapse_slashes (b # s) else a # collapse_slashes (b # s))"
| "collapse_slashes s = s"

definition normalize_path :: "jstr \<Rightarrow> jstr" where
  "normalize_path p = (let q = drop_slashes (collapse_slashes p) in if q = [] then js ''/'' else q)"

definition log_json :: "access_log \<Rightarrow> jval" where
  "log_json r = Obj [(js ''event_id'', Str (al_id r)), (js ''employee_no'', jopt (al_employee r)), (js ''card_no'', jopt (al_card r)),
     (js ''event_time'', Str (al_time r)), (js ''door_no'', jopt (al_door r))]"

text \<open>The newest first, the later row first of two with one time.\<close>

definition handle_access_logs :: "web_request \<Rightarrow> 'w worker \<Rightarrow> answer" where
  "handle_access_logs r W =
    (let limit = min 200 (max 1 (coalesce (parse_int10 (coalesce (wq_limit r) (js ''50''))) 50))
     in (200, Obj [(js ''logs'', Arr (map log_json (take (nat limit) (rev (sort_key al_time (wk_logs W))))))]))"

definition pending_json :: "device_user \<Rightarrow> jval" where
  "pending_json d = Obj [(js ''employee_no'', Str (du_employee d)), (js ''name'', Str (du_name d)), (js ''card_no'', jopt (du_card d)),
     (js ''sync_status'', Str (du_sync d)), (js ''last_error'', jopt (du_error d))]"

definition summary_json :: "pull_summary \<Rightarrow> jval" where
  "summary_json s = Obj ([(js ''ok'', Bool (sm_ok s)),
     (js ''mode'', Str (js (case sm_mode s of ByGet \<Rightarrow> ''get'' | BySearch \<Rightarrow> ''search'' | NoMode \<Rightarrow> ''none''))),
     (js ''fetched'', Num (int (sm_fetched s))), (js ''persisted'', Num (int (sm_persisted s)))]
     @ opt_prop ''error'' (map_option Str (sm_error s)))"

definition health_json :: "tunnel_env \<Rightarrow> 'w worker \<Rightarrow> jval" where
  "health_json e W = Obj [(js ''ok'', Bool True), (js ''tunnelConfigured'', Bool (trim (coalesce (te_url e) []) \<noteq> [])),
     (js ''deviceAuthConfigured'', Bool (nonempty (te_user e) \<and> nonempty (te_password e))),
     (js ''endpointAuthConfigured'', Bool (nonempty (te_token e))),
     (js ''accessServiceTokenConfigured'', Bool (nonempty (te_client_id e) \<and> nonempty (te_client_secret e))),
     (js ''lastPull'', case wk_status W of None \<Rightarrow> Null | Some (t, s) \<Rightarrow>
        Obj [(js ''last_pull_at'', Str (iso_string t)), (js ''last_pull_ok'', Num (if sm_ok s then 1 else 0)),
             (js ''last_error'', jopt (sm_error s)), (js ''last_event_count'', Num (int (sm_persisted s))), (js ''updated_at'', Str (iso_string t))]),
     (js ''accessLogRows'', Num (int (length (wk_logs W))))]"

definition service_json :: jval where
  "service_json = Obj [(js ''service'', Str (js ''hikvision-tunnel-worker'')), (js ''operations'', Obj [
     (js ''POST /pull-logs'', Str (js ''Operation 1 '' @ [8212] @ js '' pull AcsEvents from the device into D1 access_logs'')),
     (js ''POST /sync-user'', Str (js ''Operation 2 '' @ [8212] @ js '' push users (body or queued D1 device_users) to the device'')),
     (js ''GET /access-logs'', Str (js ''read back D1 access_logs'')),
     (js ''GET /sync-user'', Str (js ''list D1 device_users not yet synced'')),
     (js ''GET /health'', Str (js ''configuration + last pull status''))])]"

definition route :: "'w wire \<Rightarrow> tunnel_host \<Rightarrow> tunnel_env \<Rightarrow> int \<Rightarrow> web_request \<Rightarrow> 'w worker \<Rightarrow> answer \<times> 'w worker" where
  "route send P e now r W =
    (let path = normalize_path (wq_path r); get = (wq_method r = js ''GET''); post = (wq_method r = js ''POST'') in
     if wq_method r = js ''OPTIONS'' then ((204, Undef), W)
     else if get \<and> path = js ''/'' then ((200, service_json), W)
     else if get \<and> path = js ''/health'' then ((200, health_json e W), W)
     else if \<not> is_authorized e r then ((401, message ''Unauthorized''), W)
     else if path = js ''/pull-logs'' \<and> post
     then (case pull_access_logs send P e now W of (s, W1) \<Rightarrow> ((if sm_ok s then 200 else 502, summary_json s), W1))
     else if path = js ''/sync-user'' \<and> post then handle_sync_user send P e now (wq_body r) W
     else if path = js ''/sync-user'' \<and> get then ((200, Obj [(js ''pending'', Arr (map pending_json (pending_users (wk_users W))))]), W)
     else if path = js ''/access-logs'' \<and> get then (handle_access_logs r W, W)
     else ((404, Obj [(js ''error'', Str (js ''No route for '' @ wq_method r @ js '' '' @ path))]), W))"

subsection \<open>Overlapping pulls\<close>

definition last_log :: "access_log list \<Rightarrow> access_log \<Rightarrow> access_log" where
  "last_log ls r = coalesce (List.find (\<lambda>x. al_id x = al_id r) (rev ls)) r"

definition upserts :: "access_log list \<Rightarrow> access_log list \<Rightarrow> access_log list" where
  "upserts ls rows = fold upsert_log ls rows"

lemma store_events_upserts: "store_events sha es = upserts (map (log_of sha) es)"
  by (simp add: store_events_def upserts_def fold_map o_def fun_eq_iff)

lemma last_log_snoc: "last_log (ls @ [l]) r = (if al_id l = al_id r then l else last_log ls r)"
  by (simp add: last_log_def)

lemma last_log_id [simp]: "al_id (last_log ls r) = al_id r"
  using find_Some_set by (cases "List.find (\<lambda>x. al_id x = al_id r) (rev ls)") (fastforce simp: last_log_def)+

lemma upserts_snoc: "upserts (ls @ [l]) rows = upsert_log l (upserts ls rows)"
  by (simp add: upserts_def)

lemma upsert_present: "al_id l \<in> al_id ` set rows \<Longrightarrow> upsert_log l rows = update_where (\<lambda>x. al_id x = al_id l) (\<lambda>_. l) rows"
  by (simp add: upsert_log_def)

text \<open>Where every event has its row already, the rows take the last event of their id.\<close>

lemma upserts_present:
  assumes "al_id ` set ls \<subseteq> al_id ` set rows"
  shows "upserts ls rows = map (last_log ls) rows"
  using assms
proof (induction ls rule: rev_induct)
  case Nil
  show ?case by (simp add: upserts_def last_log_def map_idI)
next
  case (snoc l ls)
  then have IH: "upserts ls rows = map (last_log ls) rows" by simp
  have "al_id ` set (map (last_log ls) rows) = al_id ` set rows" by (simp add: image_image)
  then have "upserts (ls @ [l]) rows = update_where (\<lambda>x. al_id x = al_id l) (\<lambda>_. l) (map (last_log ls) rows)"
    using snoc.prems by (simp add: upserts_snoc IH upsert_present)
  then show ?case by (simp add: update_where_def last_log_snoc)
qed

lemma upserts_last:
  "r \<in> set (upserts ls rows) \<Longrightarrow> last_log ls r = r"
proof (induction ls arbitrary: r rule: rev_induct)
  case Nil
  show ?case by (simp add: last_log_def)
next
  case (snoc l ls)
  have "r = l \<or> r \<in> set (upserts ls rows) \<and> al_id r \<noteq> al_id l"
  proof (cases "al_id l \<in> al_id ` set (upserts ls rows)")
    case True
    then show ?thesis using snoc.prems unfolding upserts_snoc upsert_log_def
      by (auto simp: in_update_where split: if_splits)
  next
    case False
    then have "r = l \<or> r \<in> set (upserts ls rows)" using snoc.prems by (auto simp: upserts_snoc upsert_log_def)
    then show ?thesis using False by (metis image_eqI)
  qed
  then show ?case using snoc.IH by (auto simp: last_log_snoc)
qed

lemma upserts_ids: "al_id ` set (upserts ls rows) = al_id ` set ls \<union> al_id ` set rows"
proof (induction ls rule: rev_induct)
  case Nil
  show ?case by (simp add: upserts_def)
next
  case (snoc l ls)
  have "al_id ` set (upsert_log l rs) = insert (al_id l) (al_id ` set rs)" for rs
  proof (cases "al_id l \<in> al_id ` set rs")
    case True
    have "map al_id (update_where (\<lambda>x. al_id x = al_id l) (\<lambda>_. l) rs) = map al_id rs" by (rule map_update_where) simp
    then have "al_id ` set (update_where (\<lambda>x. al_id x = al_id l) (\<lambda>_. l) rs) = al_id ` set rs" by (metis set_map)
    then show ?thesis using True by (simp add: upsert_log_def insert_absorb)
  next
    case False
    then show ?thesis by (simp add: upsert_log_def)
  qed
  then show ?case using snoc by (simp add: upserts_snoc)
qed

lemma upserts_twice: "upserts ls (upserts ls rows) = upserts ls rows"
proof -
  have "upserts ls (upserts ls rows) = map (last_log ls) (upserts ls rows)"
    by (rule upserts_present) (simp add: upserts_ids)
  also have "\<dots> = upserts ls rows" using upserts_last by (intro map_idI)
  finally show ?thesis .
qed

definition listed_events :: "jval \<Rightarrow> jval list" where
  "listed_events payload =
    (let acs = get_prop payload (js ''AcsEvent''); single = get_prop acs (js ''AcsEventInfo'')
     in filter is_object ((case get_prop acs (js ''InfoList'') of Arr vs \<Rightarrow> vs | _ \<Rightarrow> []) @ (if is_object single then [single] else [])))"

text \<open>
  C23: Pulls that overlap do not duplicate: where every event a reply lists carries its time, storing what
  the same reply gives at a later pull leaves the table of access events as the first pull left it.
\<close>

theorem overlapping_pulls_do_not_duplicate:
  assumes "collect_acs_events t1 payload = Some es" "collect_acs_events t2 payload = Some fs"
    and "\<And>r. r \<in> set (listed_events payload) \<Longrightarrow> pick_text r [js ''time'', js ''eventTime'', js ''dateTime''] \<noteq> None"
  shows "store_events sha fs (store_events sha es rows) = store_events sha es rows"
proof -
  have "read_acs_event t1 r = read_acs_event t2 r" if "r \<in> set (listed_events payload)" for r
    using assms(3) [OF that] by (auto simp: read_acs_event_def)
  then have "map (read_acs_event t1) (listed_events payload) = map (read_acs_event t2) (listed_events payload)" by simp
  then have "fs = es"
    using assms(1,2) by (auto simp: collect_acs_events_def listed_events_def Let_def simp del: map_eq_conv split: if_splits)
  then show ?thesis by (simp add: store_events_upserts upserts_twice)
qed

definition swipe_reply :: jval where
  "swipe_reply = Obj [(js ''AcsEvent'', Obj [(js ''InfoList'', Arr [Obj [(js ''cardNo'', Str (js ''77'')), (js ''time'', Str (js ''2026-08-01T10:00:00Z''))]])])]"

theorem overlapping_pulls_do_not_duplicate_witness:
  "\<exists>es fs. collect_acs_events 0 swipe_reply = Some es \<and> collect_acs_events 300000 swipe_reply = Some fs
     \<and> store_events (\<lambda>x. x) fs (store_events (\<lambda>x. x) es []) = store_events (\<lambda>x. x) es []"
proof -
  obtain es fs where e: "collect_acs_events 0 swipe_reply = Some es" "collect_acs_events 300000 swipe_reply = Some fs"
    by (simp add: collect_acs_events_def swipe_reply_def Let_def js_eq_iff)
  have "listed_events swipe_reply = [Obj [(js ''cardNo'', Str (js ''77'')), (js ''time'', Str (js ''2026-08-01T10:00:00Z''))]]"
    by (simp add: listed_events_def swipe_reply_def Let_def js_eq_iff)
  moreover have "pick_text (Obj [(js ''cardNo'', Str (js ''77'')), (js ''time'', Str (js ''2026-08-01T10:00:00Z''))])
      [js ''time'', js ''eventTime'', js ''dateTime''] \<noteq> None" by code_simp
  ultimately show ?thesis
    using overlapping_pulls_do_not_duplicate [OF e, of "\<lambda>x. x" "[]"] e by fastforce
qed


subsection \<open>Who reaches the terminal\<close>

lemma or_bytes_zero: "foldl (OR) a bs = 0 \<longleftrightarrow> a = 0 \<and> (\<forall>b\<in>set bs. b = (0 :: 8 word))"
  by (induction bs arbitrary: a) (auto simp: or_eq_0_iff)

lemma xor_zero_iff: "x XOR y = 0 \<longleftrightarrow> x = (y :: 8 word)"
  by (metis xor.assoc xor.left_neutral xor.right_neutral xor_self_eq)

lemma same_bytes_iff: "same_bytes xs ys \<longleftrightarrow> xs = ys"
proof
  assume s: "same_bytes xs ys"
  then have "length xs = length ys" "\<forall>b\<in>set (map2 (XOR) xs ys). b = 0" by (simp_all add: same_bytes_def or_bytes_zero)
  then show "xs = ys"
    by (induction xs ys rule: list_induct2) (auto simp: xor_zero_iff)
qed (simp add: same_bytes_def or_bytes_zero zip_same_conv_map)

text \<open>
  C22: When a token is configured, a request that changes anything, be it a table or what the terminal
  has received, presents the bytes of that token.
\<close>

theorem changes_need_the_token:
  assumes "nonempty (te_token e)" "snd (route send P e now r W) \<noteq> W"
  shows "utf8 (presented_token r) = utf8 (the (te_token e))"
proof (rule ccontr)
  assume "utf8 (presented_token r) \<noteq> utf8 (the (te_token e))"
  then have "\<not> is_authorized e r" using assms(1) by (simp add: is_authorized_def same_bytes_iff eq_commute)
  then have "snd (route send P e now r W) = W" unfolding route_def Let_def by (simp split: if_split)
  then show False using assms(2) by contradiction
qed

definition idle_worker :: "unit worker" where
  "idle_worker = \<lparr>wk_wire = (), wk_draws = 0, wk_logs = [], wk_users = [], wk_status = None\<rparr>"

definition sample_tunnel_host :: tunnel_host where
  "sample_tunnel_host = \<lparr>th_sha = (\<lambda>x. x), th_nonce = show_nat, th_uuid = show_nat\<rparr>"

definition pull_request :: web_request where
  "pull_request = \<lparr>wq_method = js ''POST'', wq_path = js ''/pull-logs'', wq_authorization = Some (js ''Bearer t''), wq_api_token = None,
     wq_origin = None, wq_limit = None, wq_body = []\<rparr>"

theorem changes_need_the_token_witness:
  "utf8 (presented_token pull_request) = utf8 (js ''t'')
   \<and> snd (route basic_terminal sample_tunnel_host (tunnel_sample\<lparr>te_token := Some (js ''t''), te_url := None\<rparr>) 0 pull_request idle_worker) \<noteq> idle_worker"
proof -
  let ?e = "tunnel_sample\<lparr>te_token := Some (js ''t''), te_url := None\<rparr>"
  have p: "normalize_path (js ''/pull-logs'') = js ''/pull-logs''" "presented_token pull_request = js ''t''"
    "drop_slashes [] = []" by code_simp+
  have auth: "is_authorized ?e pull_request" by (simp add: is_authorized_def p same_bytes_iff)
  have fetch: "isapi_fetch basic_terminal ?e acs_get (show_nat 0, show_nat 1) () = (Inl (js ''TUNNEL_URL is not configured''), ())"
    by (simp add: isapi_fetch_def tunnel_sample_def p)
  have "wk_status (snd (pull_access_logs basic_terminal sample_tunnel_host ?e 0 idle_worker)) \<noteq> None"
    using fetch by (simp add: pull_access_logs_def fetch_events_def worker_fetch_def idle_worker_def sample_tunnel_host_def)
  moreover have "snd (route basic_terminal sample_tunnel_host ?e 0 pull_request idle_worker)
      = snd (pull_access_logs basic_terminal sample_tunnel_host ?e 0 idle_worker)"
    using auth p(1) by (simp add: route_def Let_def pull_request_def js_eq_iff split_beta)
  ultimately have changed: "snd (route basic_terminal sample_tunnel_host ?e 0 pull_request idle_worker) \<noteq> idle_worker"
    by (auto simp: idle_worker_def)
  have "nonempty (te_token ?e)" by (simp add: nonempty_def)
  from changes_need_the_token [OF this changed] changed show ?thesis by simp
qed

subsection \<open>Staged people\<close>

definition confirms :: "http_reply \<Rightarrow> bool" where
  "confirms r \<longleftrightarrow> reply_ok r \<and> is_response_status_ok (read_json (hr_body r))"

lemma user_reply_ok: "ur_ok (user_reply n r) \<longleftrightarrow> confirms r" "ur_employee (user_reply n r) = n"
  by (auto simp: user_reply_def confirms_def Let_def split_beta)

definition confirmed_push :: "'w wire \<Rightarrow> tunnel_host \<Rightarrow> tunnel_env \<Rightarrow> int \<Rightarrow> sync_user \<Rightarrow> bool" where
  "confirmed_push send P e now u \<longleftrightarrow>
     (\<exists>method V reply V1. worker_fetch send P e (user_request method now u) V = (Inr reply, V1) \<and> confirms reply)"

lemma confirmed_pushI:
  "worker_fetch send P e (user_request method now u) V = (Inr reply, V1) \<Longrightarrow> confirms reply \<Longrightarrow> confirmed_push send P e now u"
  unfolding confirmed_push_def by blast

lemma push_user_facts:
  assumes "push_user_to_device send P e now u W = (r, W1)"
  shows "ur_employee r = su_employee u"
    "ur_ok r \<Longrightarrow> confirmed_push send P e now u"
proof -
  have "ur_employee r = su_employee u \<and> (ur_ok r \<longrightarrow> confirmed_push send P e now u)"
  proof (cases "worker_fetch send P e (user_request (js ''POST'') now u) W")
    case (Pair res V)
    show ?thesis
    proof (cases res)
      case (Inl err)
      then show ?thesis using assms Pair by (auto simp: push_user_to_device_def thrown_result_def)
    next
      case (Inr reply)
      show ?thesis
      proof (cases "hr_status reply = 405 \<or> hr_status reply = 501")
        case True
        obtain res2 V2 where "worker_fetch send P e (user_request (js ''PUT'') now u) V = (res2, V2)" by fastforce
        then show ?thesis using assms Pair Inr True
          by (cases res2) (auto simp: push_user_to_device_def thrown_result_def user_reply_ok intro: confirmed_pushI)
      next
        case False
        then show ?thesis using assms Pair Inr by (auto simp: push_user_to_device_def user_reply_ok intro: confirmed_pushI)
      qed
    qed
  qed
  then show "ur_employee r = su_employee u"
    "ur_ok r \<Longrightarrow> confirmed_push send P e now u"
    by blast+
qed

lemma push_users_facts:
  assumes "push_users send P e now us W = (rs, W1)"
  shows "map ur_employee rs = map su_employee us"
    "r \<in> set rs \<Longrightarrow> ur_ok r \<Longrightarrow> \<exists>u\<in>set us. su_employee u = ur_employee r \<and> confirmed_push send P e now u"
proof -
  have "map ur_employee rs = map su_employee us \<and> (\<forall>r\<in>set rs. ur_ok r \<longrightarrow> (\<exists>u\<in>set us. su_employee u = ur_employee r \<and> confirmed_push send P e now u))"
    using assms
  proof (induction us arbitrary: W rs W1)
    case (Cons u us)
    obtain r V where r: "push_user_to_device send P e now u W = (r, V)" by fastforce
    obtain rs' V' where rs': "push_users send P e now us V = (rs', V')" by fastforce
    show ?case using Cons.prems Cons.IH [OF rs'] push_user_facts [OF r] by (auto simp: r rs')
  qed simp
  then show "map ur_employee rs = map su_employee us"
    "r \<in> set rs \<Longrightarrow> ur_ok r \<Longrightarrow> \<exists>u\<in>set us. su_employee u = ur_employee r \<and> confirmed_push send P e now u"
    by blast+
qed

lemma worker_fetch_users: "wk_users (snd (worker_fetch send P e q W)) = wk_users W"
  by (simp add: worker_fetch_def Let_def split_beta)

lemma push_user_keeps: "wk_users (snd (push_user_to_device send P e now u W)) = wk_users W"
proof -
  obtain res V where f: "worker_fetch send P e (user_request (js ''POST'') now u) W = (res, V)" by fastforce
  obtain res2 V2 where g: "worker_fetch send P e (user_request (js ''PUT'') now u) V = (res2, V2)" by fastforce
  have "wk_users V = wk_users W" "wk_users V2 = wk_users V"
    using worker_fetch_users [of send P e "user_request (js ''POST'') now u" W]
      worker_fetch_users [of send P e "user_request (js ''PUT'') now u" V] f g by simp_all
  then show ?thesis by (simp add: push_user_to_device_def f g split: sum.split)
qed

lemma push_users_keep: "wk_users (snd (push_users send P e now us W)) = wk_users W"
  using push_user_keeps by (induction us arbitrary: W) (fastforce simp: split_beta)+

lemma mark_staged_synced:
  assumes "d \<in> set (mark_staged now rs ds)" "du_sync d = js ''synced''"
  shows "(\<exists>r\<in>set rs. ur_ok r \<and> ur_employee r = du_employee d) \<or> d \<in> set ds"
  using assms
proof (induction rs arbitrary: d rule: rev_induct)
  case (snoc r rs)
  then obtain q where q: "q \<in> set (mark_staged now rs ds)"
      "d = (if du_employee q = ur_employee r
            then (if ur_ok r then q\<lparr>du_sync := js ''synced'', du_error := None, du_updated := now div 1000\<rparr>
                  else q\<lparr>du_sync := js ''failed'', du_updated := now div 1000,
                         du_error := Some (case ur_error r of Some t \<Rightarrow> t | None \<Rightarrow> coalesce (ur_string r) (js ''failed''))\<rparr>) else q)"
    by (auto simp: mark_staged_def mark_result_def in_update_where)
  show ?case
  proof (cases "du_employee q = ur_employee r")
    case True
    then show ?thesis using q(2) snoc.prems(2) by (cases "ur_ok r") (auto simp: js_eq_iff)
  next
    case False
    then show ?thesis using q snoc.IH [of q] snoc.prems(2) by auto
  qed
qed (simp add: mark_staged_def)


text \<open>Its witness: one person waits, and the terminal answers with status code 1.\<close>

definition agreeable_reply :: http_reply where
  "agreeable_reply = \<lparr>hr_status = 200, hr_status_text = js ''OK'', hr_authenticate = [], hr_body = json_text (Obj [(js ''ResponseStatus'', Obj [(js ''statusCode'', Num 1)])])\<rparr>"

definition agreeable_terminal :: "unit wire" where
  "agreeable_terminal w r = (Inr agreeable_reply, w)"

definition waiting_person :: device_user where
  "waiting_person = \<lparr>du_employee = js ''1001'', du_name = js ''Ada'', du_card = None, du_card_type = js ''normalCard'', du_user_type = js ''normal'',
     du_group = js ''1'', du_door = 1, du_plan = js ''1'', du_start = None, du_end = None, du_sync = js ''pending'', du_error = None, du_updated = 0\<rparr>"

lemma waiting_staged: "map su_employee (staged_users [waiting_person]) = [js ''1001'']"
  by code_simp

lemma agreeable_confirms:
  "fst (worker_fetch agreeable_terminal sample_tunnel_host tunnel_sample q W)
     = Inr agreeable_reply"
  "confirms agreeable_reply"
proof -
  have "drop_slashes (trim (js ''https://t'')) \<noteq> []" "lower (js ''digest'') \<noteq> js ''basic''" by code_simp+
  then show "fst (worker_fetch agreeable_terminal sample_tunnel_host tunnel_sample q W)
     = Inr agreeable_reply"
    by (simp add: worker_fetch_def isapi_fetch_def agreeable_terminal_def agreeable_reply_def tunnel_sample_def Let_def split_beta)
  have "read_json (json_text (Obj [(js ''ResponseStatus'', Obj [(js ''statusCode'', Num 1)])]))
      = Obj [(js ''ResponseStatus'', Obj [(js ''statusCode'', Num 1)])]" by code_simp
  then show "confirms agreeable_reply"
    by (simp add: agreeable_reply_def confirms_def reply_ok_def is_response_status_ok_def js_eq_iff)
qed

end
