(* ===== verification/Accounts.thy ===== *)
theory Accounts
  imports SignIn Database
begin

text \<open>
  The sign-in, session and password-recovery handlers of \<^verbatim>\<open>src/src/index.ts\<close> over the
  tables they read and write. A session token is its claims: \<open>verifyJwt\<close> answers with the claims
  of a token this server signed until they expire and with nothing for any other text. Columns filled
  by SQLite's clock hold seconds. Password hashing, the digest, the random bytes and SQLite's reading
  of stored dates are parameters; audit rows are left out.
\<close>

record crypto =
  k_sha :: "jstr \<Rightarrow> jstr"
  k_verify :: "jstr \<Rightarrow> jstr \<Rightarrow> bool"
  k_hash :: "nat \<Rightarrow> jstr \<Rightarrow> jstr"
  k_byte :: "nat \<Rightarrow> nat"
  k_token :: "nat \<Rightarrow> jstr"
  k_secret :: jstr
  k_bootstrap :: jstr

subsection \<open>Tables\<close>

record account =
  a_id :: jstr
  a_name :: jstr
  a_email :: jstr
  a_role :: jstr
  a_manager :: bool
  a_property :: "jstr option"
  a_hash :: jstr
  a_status :: jstr
  a_expires :: "jstr option"
  a_changed :: "int option"

datatype attempt_kind = LoginAttempt | ForgotAttempt

record attempt =
  at_kind :: attempt_kind
  at_email :: jstr
  at_source :: jstr
  at_ok :: bool
  at_time :: int

datatype reset_status = ResetPending | ResetIssued | ResetDismissed | ResetCompleted | ResetExpired
datatype delivery_kind = Office | SelfService

record reset =
  pr_id :: jstr
  pr_user :: jstr
  pr_email :: jstr
  pr_reference :: jstr
  pr_status :: reset_status
  pr_delivery :: delivery_kind
  pr_from :: jstr
  pr_source :: jstr
  pr_code :: "jstr option"
  pr_code_expires :: "int option"
  pr_attempts :: nat
  pr_count :: nat
  pr_created :: int
  pr_last :: int
  pr_handled_by :: "jstr option"
  pr_handled_at :: "int option"
  pr_note :: "jstr option"

record gate_device =
  gd_id :: jstr
  gd_name :: jstr
  gd_gate :: jstr
  gd_status :: jstr
  gd_deleted :: bool

record gate_session =
  gs_user :: jstr
  gs_device :: jstr
  gs_ended :: "int option"
  gs_reason :: "jstr option"

text \<open>\<open>ac_posts\<close> are the rows of \<open>security_gate_assignments\<close> that are active.\<close>

record office =
  of_users :: "account list"
  of_attempts :: "attempt list"
  of_resets :: "reset list"
  of_self_service :: jval
  of_code_minutes :: jval
  of_posts :: "(jstr \<times> jstr) list"
  of_gates :: "gate_device list"
  of_sessions :: "gate_session list"
  of_draws :: nat

definition stored_role_of :: "account \<Rightarrow> jstr" where
  "stored_role_of a = (if a_manager a then js ''manager'' else a_role a)"

definition account_by_email :: "office \<Rightarrow> jstr \<Rightarrow> account option" where
  "account_by_email st email = List.find (\<lambda>a. nocase (a_email a) = nocase email) (of_users st)"

text \<open>\<open>status='active' AND (account_expires_at IS NULL OR datetime(account_expires_at)>datetime('now'))\<close>.\<close>

definition usable :: "host \<Rightarrow> int \<Rightarrow> account \<Rightarrow> bool" where
  "usable H now a \<longleftrightarrow>
    a_status a = js ''active'' \<and> (case a_expires a of None \<Rightarrow> True | Some t \<Rightarrow> after_now H t now)"

definition usable_account :: "host \<Rightarrow> int \<Rightarrow> office \<Rightarrow> jstr \<Rightarrow> account option" where
  "usable_account H now st i = List.find (\<lambda>a. a_id a = i \<and> usable H now a) (of_users st)"

subsection \<open>Sessions and gates\<close>

record claims =
  cl_sub :: jstr
  cl_role :: jstr
  cl_name :: jstr
  cl_gate :: "jstr option"
  cl_pending :: bool
  cl_open :: bool
  cl_remember :: bool
  cl_iat :: int
  cl_exp :: int

definition sign_claims :: "int \<Rightarrow> account \<Rightarrow> int \<Rightarrow> claims" where
  "sign_claims now a ttl =
    \<lparr>cl_sub = a_id a, cl_role = stored_role_of a, cl_name = a_name a, cl_gate = None, cl_pending = False,
     cl_open = False, cl_remember = False, cl_iat = now div 1000, cl_exp = now div 1000 + ttl\<rparr>"

definition verify_claims :: "int \<Rightarrow> claims option \<Rightarrow> claims option" where
  "verify_claims now token =
    (case token of
       Some c \<Rightarrow> if cl_sub c = [] \<or> cl_role c = [] \<or> cl_exp c \<le> now div 1000 then None else Some c
     | None \<Rightarrow> None)"

definition gate_in_service :: "gate_device \<Rightarrow> bool" where
  "gate_in_service d \<longleftrightarrow> \<not> gd_deleted d \<and> gd_status d \<noteq> js ''disabled''"

definition assigned_gates :: "office \<Rightarrow> jstr \<Rightarrow> gate_device list" where
  "assigned_gates st i = filter (\<lambda>d. gate_in_service d \<and> (i, gd_id d) \<in> set (of_posts st)) (of_gates st)"

definition selectable_gates :: "office \<Rightarrow> jstr \<Rightarrow> gate_device list" where
  "selectable_gates st i =
    (if assigned_gates st i \<noteq> [] then assigned_gates st i else filter gate_in_service (of_gates st))"

datatype auth_refusal =
    AuthRequired
  | SessionInvalid
  | GatePending
  | UserInactive
  | SessionEnded
  | GateChanged

record session =
  se_user :: account
  se_issued :: int
  se_expires :: int
  se_gate :: "jstr option"

definition gate_still_allowed :: "office \<Rightarrow> claims \<Rightarrow> jstr \<Rightarrow> bool" where
  "gate_still_allowed st c g =
    (if cl_open c
     then assigned_gates st (cl_sub c) = [] \<and> list_ex (\<lambda>d. gd_id d = g) (selectable_gates st (cl_sub c))
     else list_ex (\<lambda>d. gd_id d = g) (assigned_gates st (cl_sub c)))"

definition require_auth :: "host \<Rightarrow> int \<Rightarrow> claims option \<Rightarrow> office \<Rightarrow> (auth_refusal, session) result" where
  "require_auth H now token st =
    (if token = None then Inl AuthRequired
     else case verify_claims now token of
       None \<Rightarrow> Inl SessionInvalid
     | Some c \<Rightarrow>
         if cl_pending c then Inl GatePending
         else case usable_account H now st (cl_sub c) of
           None \<Rightarrow> Inl UserInactive
         | Some a \<Rightarrow>
             if session_issued_before_password_change (map_option (\<lambda>s. 1000 * s) (a_changed a)) (Some (cl_iat c))
             then Inl SessionEnded
             else let gate = (if stored_role_of a = js ''security'' then cl_gate c else None)
               in case gate of
                 None \<Rightarrow> Inr \<lparr>se_user = a, se_issued = cl_iat c, se_expires = cl_exp c, se_gate = None\<rparr>
               | Some g \<Rightarrow>
                   if gate_still_allowed st c g
                   then Inr \<lparr>se_user = a, se_issued = cl_iat c, se_expires = cl_exp c, se_gate = Some g\<rparr>
                   else Inl GateChanged)"

subsection \<open>Attempts and throttles\<close>

definition in_window :: "int \<Rightarrow> int \<Rightarrow> attempt \<Rightarrow> bool" where
  "in_window now minutes r \<longleftrightarrow> sql_now now - minutes * 60 < at_time r"

definition failed_attempts :: "attempt_kind \<Rightarrow> jstr \<Rightarrow> int \<Rightarrow> int \<Rightarrow> office \<Rightarrow> attempt list" where
  "failed_attempts kind email minutes now st =
    filter (\<lambda>r. at_kind r = kind \<and> at_email r = email \<and> \<not> at_ok r \<and> in_window now minutes r) (of_attempts st)"

record throttle_reading =
  tr_source :: nat
  tr_email :: nat
  tr_oldest :: "int option"

definition read_throttle :: "attempt_kind \<Rightarrow> jstr \<Rightarrow> jstr \<Rightarrow> int \<Rightarrow> int \<Rightarrow> office \<Rightarrow> throttle_reading" where
  "read_throttle kind email source minutes now st =
    (let rows = failed_attempts kind email minutes now st
     in \<lparr>tr_source = length (filter (\<lambda>r. at_source r = source) rows), tr_email = length rows,
         tr_oldest = (if rows = [] then None else Some (Min (set (map at_time rows))))\<rparr>)"

definition record_attempt :: "attempt_kind \<Rightarrow> jstr \<Rightarrow> jstr \<Rightarrow> bool \<Rightarrow> int \<Rightarrow> office \<Rightarrow> office" where
  "record_attempt kind email source ok now st =
    st\<lparr>of_attempts := of_attempts st @
        [\<lparr>at_kind = kind, at_email = email, at_source = source, at_ok = ok, at_time = sql_now now\<rparr>]\<rparr>"

definition clear_attempts :: "attempt_kind \<Rightarrow> jstr \<Rightarrow> jstr \<Rightarrow> office \<Rightarrow> office" where
  "clear_attempts kind email source st =
    st\<lparr>of_attempts := filter (\<lambda>r. \<not> (at_kind r = kind \<and> at_email r = email \<and> at_source r = source \<and> \<not> at_ok r))
        (of_attempts st)\<rparr>"

definition throttle_exceeded ::
  "attempt_kind \<Rightarrow> jstr \<Rightarrow> jstr \<Rightarrow> throttle \<Rightarrow> int \<Rightarrow> office \<Rightarrow> problem option" where
  "throttle_exceeded kind email source limits now st =
    (let r = read_throttle kind email source (th_minutes limits) now st
     in if tr_source r < th_per_source limits \<and> tr_email r < th_per_email limits then None
        else let seconds = retry_after_seconds (map_option (\<lambda>s. 1000 * s) (tr_oldest r)) (th_minutes limits) now
          in Some (sign_in_problem 429 TooManyAttempts
                (sign_in_text TooManyAttempts @ js '' '' @ retry_hint seconds) (Some seconds)))"

text \<open>What a handler answers when it does not succeed: a auth_refusal of its own, an error of another
  route, or an exception that reaches the client as 500.\<close>

datatype failure = Refused problem | Rejected nat jstr | Crashed

definition refuse :: "nat \<Rightarrow> problem_code \<Rightarrow> jstr \<Rightarrow> failure" where
  "refuse status code message = Refused (sign_in_problem status code message None)"

definition source_of :: "crypto \<Rightarrow> (jstr \<Rightarrow> jstr option) \<Rightarrow> jstr" where
  "source_of K header = attempt_source_hash (k_sha K) (k_secret K) (request_address header)"

definition text_field :: "jval \<Rightarrow> jstr \<Rightarrow> jstr" where
  "text_field body key = (case get_prop body key of Str s \<Rightarrow> s | _ \<Rightarrow> [])"

subsection \<open>Signing in\<close>

datatype login_answer =
    ChooseGate "gate_device list" claims account bool
  | SignedIn claims account bool int int bool

definition open_session :: "int \<Rightarrow> jval \<Rightarrow> account \<Rightarrow> office \<Rightarrow> login_answer" where
  "open_session now remember a st =
    (let flag = read_boolean_flag remember; seconds = session_seconds_for (Bool flag);
         gates = selectable_gates st (a_id a); security = (stored_role_of a = js ''security'')
     in if security \<and> gates \<noteq> []
        then ChooseGate gates ((sign_claims now a gate_selection_seconds)\<lparr>cl_pending := True, cl_remember := flag\<rparr>) a flag
        else SignedIn (sign_claims now a seconds) a flag seconds (now + seconds * 1000) security)"

definition login ::
  "host \<Rightarrow> crypto \<Rightarrow> int \<Rightarrow> (jstr \<Rightarrow> jstr option) \<Rightarrow> jval \<Rightarrow> office \<Rightarrow> (failure, login_answer) result \<times> office" where
  "login H K now header body st =
    (let email = normalize_email (get_prop body (js ''email'')); password = text_field body (js ''password'');
         source = source_of K header; cleared = clear_attempts LoginAttempt email source st
     in if email = [] \<or> password = []
        then (Inl (refuse 400 Validation (js ''Enter your email address and your password.'')), st)
        else case throttle_exceeded LoginAttempt email source login_throttle now st of
          Some p \<Rightarrow> (Inl (Refused p), st)
        | None \<Rightarrow>
           (case account_by_email st email of
              None \<Rightarrow>
                (Inl (refuse 401 InvalidCredentials (js ''Email or password is not correct. Check it and try again, or use ''
                   @ [34] @ js ''Forgot password'' @ [34] @ js ''.'')),
                 record_attempt LoginAttempt email source False now st)
            | Some a \<Rightarrow>
                if \<not> k_verify K password (a_hash a)
                then (Inl (refuse 401 InvalidCredentials (js ''Email or password is not correct. Check it and try again, or use ''
                        @ [34] @ js ''Forgot password'' @ [34] @ js ''.'')),
                      record_attempt LoginAttempt email source False now st)
                else if a_status a \<noteq> js ''active''
                then (Inl (refuse 403 AccountInactive (js ''This account has been deactivated. Ask the estate office to reactivate it.'')), cleared)
                else if (case parse_sqlite_utc (h_platform H) (a_expires a) of None \<Rightarrow> False | Some t \<Rightarrow> t \<le> now)
                then (Inl (refuse 403 AccountExpired (js ''This account has expired. Ask the estate office for a new one.'')), cleared)
                else (Inr (open_session now (get_prop body (js ''rememberMe'')) a st),
                      record_attempt LoginAttempt email source True now cleared)))"

text \<open>Choosing a gate, with the token of the selection step or with a running session.\<close>

definition selection_step :: "int \<Rightarrow> claims option \<Rightarrow> (failure, claims) result" where
  "selection_step now selection =
    (if selection = None then Inl (Rejected 400 (js ''selectionToken is required''))
     else case verify_claims now selection of
       Some p \<Rightarrow> if cl_pending p then Inr p else Inl (Rejected 401 (js ''Gate selection has expired. Sign in again.''))
     | None \<Rightarrow> Inl (Rejected 401 (js ''Gate selection has expired. Sign in again.'')))"

definition selection_claims :: "int \<Rightarrow> claims option \<Rightarrow> claims option \<Rightarrow> (failure, claims) result" where
  "selection_claims now session selection =
    (case verify_claims now session of
       Some c \<Rightarrow> if cl_pending c then selection_step now selection else Inr c
     | None \<Rightarrow> selection_step now selection)"

definition gate_session_rows :: "int \<Rightarrow> jstr \<Rightarrow> jstr \<Rightarrow> gate_session list \<Rightarrow> gate_session list" where
  "gate_session_rows now i device rows =
    update_where (\<lambda>s. gs_user s = i \<and> gs_ended s = None)
      (\<lambda>s. s\<lparr>gs_ended := Some (sql_now now), gs_reason := Some (js ''replaced'')\<rparr>) rows
    @ [\<lparr>gs_user = i, gs_device = device, gs_ended = None, gs_reason = None\<rparr>]"

definition select_gate ::
  "host \<Rightarrow> int \<Rightarrow> claims option \<Rightarrow> claims option \<Rightarrow> jstr option \<Rightarrow> office
    \<Rightarrow> (failure, claims \<times> gate_device) result \<times> office" where
  "select_gate H now session selection device st =
    (let i = trim (coalesce device []) in
     if i = [] then (Inl (Rejected 400 (js ''deviceId is required'')), st)
     else case selection_claims now session selection of
       Inl e \<Rightarrow> (Inl e, st)
     | Inr c \<Rightarrow>
         (case usable_account H now st (cl_sub c) of
            None \<Rightarrow> (Inl (Rejected 401 (js ''User is inactive or no longer exists'')), st)
          | Some a \<Rightarrow>
              if stored_role_of a \<noteq> js ''security''
              then (Inl (Rejected 403 (js ''Only a Security officer selects a gate for a session'')), st)
              else case List.find (\<lambda>d. gd_id d = i) (selectable_gates st (a_id a)) of
                None \<Rightarrow> (Inl (Rejected 403 (js ''You are not allowed to work at that gate'')), st)
              | Some gate \<Rightarrow>
                  (Inr ((sign_claims now a (session_seconds_for (Bool (cl_remember c))))
                          \<lparr>cl_gate := Some i, cl_open := (assigned_gates st (a_id a) = [])\<rparr>, gate),
                   st\<lparr>of_sessions := gate_session_rows now (a_id a) i (of_sessions st)\<rparr>)))"

subsection \<open>Passwords\<close>

definition set_password :: "crypto \<Rightarrow> int \<Rightarrow> jstr \<Rightarrow> jstr \<Rightarrow> office \<Rightarrow> office" where
  "set_password K now i password st =
    st\<lparr>of_users := update_where (\<lambda>a. a_id a = i)
          (\<lambda>a. a\<lparr>a_hash := k_hash K (of_draws st) password, a_changed := Some (sql_now now)\<rparr>) (of_users st),
       of_draws := of_draws st + 1\<rparr>"

definition close_pending_resets ::
  "int \<Rightarrow> jstr \<Rightarrow> reset_status \<Rightarrow> jstr \<Rightarrow> jstr option \<Rightarrow> office \<Rightarrow> office" where
  "close_pending_resets now i status note by st =
    st\<lparr>of_resets := update_where (\<lambda>r. pr_user r = i \<and> pr_status r = ResetPending)
        (\<lambda>r. r\<lparr>pr_status := status, pr_code := None, pr_handled_by := by, pr_handled_at := Some (sql_now now), pr_note := Some note\<rparr>)
        (of_resets st)\<rparr>"

definition change_password ::
  "crypto \<Rightarrow> int \<Rightarrow> session \<Rightarrow> jval \<Rightarrow> office \<Rightarrow> (failure, claims \<times> int) result \<times> office" where
  "change_password K now se body st =
    (let current = text_field body (js ''currentPassword''); new = text_field body (js ''newPassword''); a = se_user se in
     if current = [] \<or> new = []
     then (Inl (refuse 400 Validation (js ''Enter your current password and your new password.'')), st)
     else case password_problem (Str new) (a_email a) of
       Some problem \<Rightarrow> (Inl (refuse 400 WeakPassword problem), st)
     | None \<Rightarrow>
         (case List.find (\<lambda>u. a_id u = a_id a) (of_users st) of
            None \<Rightarrow> (Inl (refuse 401 InvalidCredentials (js ''Your current password is not correct.'')), st)
          | Some row \<Rightarrow>
              if \<not> k_verify K current (a_hash row)
              then (Inl (refuse 401 InvalidCredentials (js ''Your current password is not correct.'')), st)
              else if k_verify K new (a_hash row)
              then (Inl (refuse 400 WeakPassword (js ''Choose a password you have not used here before.'')), st)
              else let remaining = max 60 (se_expires se - now div 1000);
                       seconds = (if session_seconds < remaining then remember_me_seconds else session_seconds)
                in (Inr (sign_claims now a seconds, seconds), set_password K now (a_id a) new st)))"

end
