(* ===== verification/PasswordReset.thy ===== *)
theory PasswordReset
  imports Accounts
begin

text \<open>
  Recovering an account: forgotten passwords, one-time codes, the queue of the estate office and the
  hourly pruning, with the invariant of the reset requests. The identifiers, salts and random bytes
  are drawn from one stream; \<open>of_draws\<close> says how far it has been used. An insert whose
  identifier is taken violates the primary key, so the batch is undone and the handler throws.
\<close>

subsection \<open>Recording a request\<close>

definition self_service_on :: "office \<Rightarrow> bool" where
  "self_service_on st = read_self_service_enabled (of_self_service st)"

definition code_minutes :: "office \<Rightarrow> int" where
  "code_minutes st = read_reset_code_minutes (of_code_minutes st)"

definition delivery_now :: "office \<Rightarrow> delivery_kind" where
  "delivery_now st = (if self_service_on st then SelfService else Office)"

definition draw_on :: "nat \<Rightarrow> office \<Rightarrow> office" where
  "draw_on n st = st\<lparr>of_draws := of_draws st + n\<rparr>"

definition reference_taken :: "office \<Rightarrow> jstr \<Rightarrow> bool" where
  "reference_taken st ref \<longleftrightarrow> list_ex (\<lambda>r. pr_reference r = ref) (of_resets st)"

text \<open>Ten tries; \<open>None\<close> is the error thrown after the last.\<close>

fun new_reset_reference :: "crypto \<Rightarrow> nat \<Rightarrow> office \<Rightarrow> (jstr \<times> office) option" where
  "new_reset_reference K 0 st = None"
| "new_reset_reference K (Suc tries) st =
    (let candidate = generate_reset_reference (k_byte K) (of_draws st); st' = draw_on reset_reference_length st
     in if reference_taken st candidate then new_reset_reference K tries st' else Some (candidate, st'))"

text \<open>\<open>ORDER BY last_requested_at DESC LIMIT 1\<close>.\<close>

fun newest :: "reset list \<Rightarrow> reset option" where
  "newest [] = None"
| "newest (r # rs) = (case newest rs of None \<Rightarrow> Some r | Some q \<Rightarrow> if pr_last r < pr_last q then Some q else Some r)"

definition open_reset :: "office \<Rightarrow> jstr \<Rightarrow> reset option" where
  "open_reset st i = newest (filter (\<lambda>r. pr_user r = i \<and> pr_status r = ResetPending) (of_resets st))"

record recorded_reset =
  rr_reference :: jstr
  rr_delivery :: delivery_kind
  rr_code :: "jstr option"
  rr_expires :: "int option"
  rr_reused :: bool

record reset_input =
  ri_user :: jstr
  ri_email :: jstr
  ri_delivery :: delivery_kind
  ri_from :: jstr
  ri_source :: jstr
  ri_minutes :: int

definition renew_reset :: "int \<Rightarrow> reset_input \<Rightarrow> jstr option \<Rightarrow> int option \<Rightarrow> reset \<Rightarrow> reset" where
  "renew_reset now i hash expires r =
    r\<lparr>pr_count := pr_count r + 1, pr_last := sql_now now, pr_from := ri_from i, pr_source := ri_source i,
      pr_code := hash, pr_code_expires := expires, pr_attempts := 0\<rparr>"

definition fresh_reset :: "int \<Rightarrow> reset_input \<Rightarrow> jstr \<Rightarrow> jstr \<Rightarrow> jstr option \<Rightarrow> int option \<Rightarrow> reset" where
  "fresh_reset now i row ref hash expires =
    \<lparr>pr_id = row, pr_user = ri_user i, pr_email = ri_email i, pr_reference = ref, pr_status = ResetPending,
     pr_delivery = ri_delivery i, pr_from = ri_from i, pr_source = ri_source i, pr_code = hash,
     pr_code_expires = expires, pr_attempts = 0, pr_count = 1, pr_created = sql_now now, pr_last = sql_now now,
     pr_handled_by = None, pr_handled_at = None, pr_note = None\<rparr>"

definition expire_reset :: "int \<Rightarrow> jstr \<Rightarrow> reset \<Rightarrow> reset" where
  "expire_reset now note r =
    r\<lparr>pr_status := ResetExpired, pr_code := None, pr_handled_at := Some (sql_now now), pr_note := Some note\<rparr>"

definition superseded :: jstr where
  "superseded = js ''Superseded by a newer request from the same person.''"

definition reusable :: "int \<Rightarrow> delivery_kind \<Rightarrow> reset \<Rightarrow> bool" where
  "reusable now d r \<longleftrightarrow> pr_delivery r = d \<and> now - reset_request_reuse_hours * 3600000 \<le> 1000 * pr_created r"

definition record_reset_request ::
  "host \<Rightarrow> crypto \<Rightarrow> int \<Rightarrow> reset_input \<Rightarrow> office \<Rightarrow> recorded_reset option \<times> office" where
  "record_reset_request H K now i st0 =
    (let code = (if ri_delivery i = SelfService then Some (generate_reset_code (k_byte K) (of_draws st0)) else None);
         st = (if ri_delivery i = SelfService then draw_on reset_code_length st0 else st0);
         hash = map_option (reset_code_hash (k_sha K)) code;
         expires = map_option (\<lambda>_. sql_now (now + ri_minutes i * 60000)) code;
         reuse = (case open_reset st (ri_user i) of Some r \<Rightarrow> if reusable now (ri_delivery i) r then Some r else None | None \<Rightarrow> None)
     in case reuse of
          Some r \<Rightarrow>
            (Some \<lparr>rr_reference = pr_reference r, rr_delivery = pr_delivery r, rr_code = code, rr_expires = expires, rr_reused = True\<rparr>,
             st\<lparr>of_resets := update_where (\<lambda>q. pr_id q = pr_id r) (renew_reset now i hash expires) (of_resets st)\<rparr>)
        | None \<Rightarrow>
            (let row = h_uuid H (of_draws st); st = draw_on 1 st in
             case new_reset_reference K 10 st of
               None \<Rightarrow> (None, draw_on (10 * reset_reference_length) st)
             | Some (ref, st) \<Rightarrow>
                 if list_ex (\<lambda>r. pr_id r = row) (of_resets st) then (None, st) else
                 (Some \<lparr>rr_reference = ref, rr_delivery = ri_delivery i, rr_code = code, rr_expires = expires, rr_reused = False\<rparr>,
                  st\<lparr>of_resets := update_where (\<lambda>r. pr_user r = ri_user i \<and> pr_status r = ResetPending)
                        (expire_reset now superseded) (of_resets st)
                      @ [fresh_reset now i row ref hash expires]\<rparr>)))"

subsection \<open>Forgotten passwords\<close>

record forgot_answer =
  fa_reference :: jstr
  fa_delivery :: delivery_kind
  fa_email :: jstr
  fa_code :: "jstr option"
  fa_expires :: "int option"
  fa_minutes :: int
  fa_message :: jstr

definition unknown_account_message :: "delivery_kind \<Rightarrow> jstr" where
  "unknown_account_message d =
    (case d of
       SelfService \<Rightarrow> js ''If that address has an account here, a one-time reset code has been created for it. Check the code shown when you asked, or contact the estate office with this reference.''
     | Office \<Rightarrow> js ''If that address has an account here, the estate office will issue a temporary password. Quote this reference when you contact them.'')"

definition recorded_message :: "recorded_reset \<Rightarrow> int \<Rightarrow> jstr" where
  "recorded_message r minutes =
    (case rr_code r of
       Some code \<Rightarrow> js ''Enter this one-time code to choose a new password: '' @ format_reset_code code @ js ''. It expires in ''
         @ show_int minutes @ js '' minutes, and the estate office can see that you asked.''
     | None \<Rightarrow> js ''Your request is with the estate office. Quote reference '' @ rr_reference r
         @ js '' when you contact them; they will issue a temporary password for you to change after signing in.'')"

definition forgot_password ::
  "host \<Rightarrow> crypto \<Rightarrow> int \<Rightarrow> (jstr \<Rightarrow> jstr option) \<Rightarrow> jval \<Rightarrow> office \<Rightarrow> (failure, forgot_answer) result \<times> office" where
  "forgot_password H K now header body st0 =
    (let email = normalize_email (get_prop body (js ''email''));
         from = read_requested_from (get_prop body (js ''client'')); source = source_of K header in
     if \<not> looks_like_email email
     then (Inl (refuse 400 Validation (js ''Enter the email address your estate account uses.'')), st0)
     else case throttle_exceeded ForgotAttempt email source forgot_throttle now st0 of
       Some p \<Rightarrow> (Inl (Refused p), st0)
     | None \<Rightarrow>
        (let st = record_attempt ForgotAttempt email source False now st0; d = delivery_now st; minutes = code_minutes st in
         case account_by_email st email of
           None \<Rightarrow>
             (Inr \<lparr>fa_reference = generate_reset_reference (k_byte K) (of_draws st), fa_delivery = d, fa_email = email,
                   fa_code = None, fa_expires = None, fa_minutes = minutes, fa_message = unknown_account_message d\<rparr>,
              draw_on reset_reference_length st)
         | Some a \<Rightarrow>
             (case record_reset_request H K now \<lparr>ri_user = a_id a, ri_email = email, ri_delivery = d, ri_from = from,
                      ri_source = source, ri_minutes = minutes\<rparr> st of
                (None, st) \<Rightarrow> (Inl Crashed, st)
              | (Some r, st) \<Rightarrow>
                  (Inr \<lparr>fa_reference = rr_reference r, fa_delivery = rr_delivery r, fa_email = email,
                        fa_code = map_option format_reset_code (rr_code r), fa_expires = rr_expires r,
                        fa_minutes = minutes, fa_message = recorded_message r minutes\<rparr>, st))))"

subsection \<open>Using a one-time code\<close>

definition code_candidates :: "office \<Rightarrow> jstr \<Rightarrow> reset list" where
  "code_candidates st email =
    filter (\<lambda>r. nocase (pr_email r) = nocase email \<and> pr_delivery r = SelfService \<and> pr_status r = ResetPending
        \<and> pr_code r \<noteq> None \<and> list_ex (\<lambda>a. a_id a = pr_user r \<and> a_status a = js ''active'') (of_users st)) (of_resets st)"

definition change_reset :: "jstr \<Rightarrow> (reset \<Rightarrow> reset) \<Rightarrow> office \<Rightarrow> office" where
  "change_reset i f st = st\<lparr>of_resets := update_where (\<lambda>r. pr_id r = i) f (of_resets st)\<rparr>"

definition guessed_too_often :: jstr where
  "guessed_too_often = js ''The one-time code was guessed at too often.''"

definition wrong_code_message :: "nat \<Rightarrow> jstr" where
  "wrong_code_message remaining =
    (if 0 < remaining
     then js ''That reset code is not right. '' @ show_nat remaining @ js '' attempt'' @ (if remaining = 1 then [] else js ''s'')
       @ js '' left before you have to ask for a new one.''
     else js ''That reset code is not right, and the request is now closed. Ask for a new one.'')"

definition wrong_code :: "int \<Rightarrow> reset \<Rightarrow> office \<Rightarrow> failure \<times> office" where
  "wrong_code now r st =
    (let attempts = pr_attempts r + 1; remaining = reset_code_max_attempts - attempts
     in (refuse 401 InvalidResetCode (wrong_code_message remaining),
         change_reset (pr_id r)
           (\<lambda>q. if 0 < remaining then q\<lparr>pr_attempts := attempts\<rparr>
                else expire_reset now guessed_too_often (q\<lparr>pr_attempts := attempts\<rparr>)) st))"

definition reset_done_message :: jstr where
  "reset_done_message = js ''Your password has been changed and every other session has been signed out. Sign in with your new password.''"

definition use_reset_code :: "crypto \<Rightarrow> int \<Rightarrow> jstr \<Rightarrow> jstr \<Rightarrow> reset \<Rightarrow> office \<Rightarrow> (failure, jstr) result \<times> office" where
  "use_reset_code K now code password r st =
    (if (case pr_code_expires r of None \<Rightarrow> False | Some s \<Rightarrow> 1000 * s \<le> now)
     then (Inl (refuse 401 ResetCodeExpired (js ''That reset code has expired. Ask for a new one.'')),
           change_reset (pr_id r) (expire_reset now (js ''The one-time code was not used before it expired.'')) st)
     else if reset_code_max_attempts \<le> pr_attempts r
     then (Inl (Refused (sign_in_problem 429 TooManyAttempts (js ''Too many wrong codes for this request. Ask for a new one.'') (Some 60))),
           change_reset (pr_id r) (expire_reset now guessed_too_often) st)
     else if \<not> (case pr_code r of None \<Rightarrow> False | Some h \<Rightarrow> reset_code_matches (k_sha K) code h)
     then (case wrong_code now r st of (e, st) \<Rightarrow> (Inl e, st))
     else (Inr reset_done_message,
           close_pending_resets now (pr_user r) ResetCompleted (js ''Reset with the one-time code.'') None
             (set_password K now (pr_user r) password st)))"

definition reset_password :: "crypto \<Rightarrow> int \<Rightarrow> jval \<Rightarrow> office \<Rightarrow> (failure, jstr) result \<times> office" where
  "reset_password K now body st =
    (let email = normalize_email (get_prop body (js ''email'')); code = normalize_reset_code (get_prop body (js ''code''));
         new = get_prop body (js ''newPassword'') in
     if \<not> looks_like_email email
     then (Inl (refuse 400 Validation (js ''Enter the email address your estate account uses.'')), st)
     else if length code \<noteq> reset_code_length
     then (Inl (refuse 400 Validation (js ''Enter the '' @ show_nat reset_code_length @ js ''-character reset code your estate gave you.'')), st)
     else case password_problem new email of
       Some problem \<Rightarrow> (Inl (refuse 400 WeakPassword problem), st)
     | None \<Rightarrow>
         (case newest (code_candidates st email) of
            None \<Rightarrow> (Inl (refuse 401 InvalidResetCode (js ''That reset code is not right, or it has already been used. Request a new one.'')), st)
          | Some r \<Rightarrow> use_reset_code K now code (to_string new) r st))"

subsection \<open>The queue of the estate office\<close>

definition can_manage_account :: "jstr \<Rightarrow> jstr \<Rightarrow> bool" where
  "can_manage_account actor target \<longleftrightarrow>
    actor = js ''admin'' \<or> (actor = js ''manager'' \<and> target \<notin> {js ''admin'', js ''manager''})"

definition account_by_id :: "office \<Rightarrow> jstr \<Rightarrow> account option" where
  "account_by_id st i = List.find (\<lambda>a. a_id a = i) (of_users st)"

definition temporary_password :: "crypto \<Rightarrow> office \<Rightarrow> jstr" where
  "temporary_password K st = js ''EM-'' @ k_token K (of_draws st) @ js ''-aA1!''"

definition issue_reset :: "crypto \<Rightarrow> int \<Rightarrow> account \<Rightarrow> jstr \<Rightarrow> office \<Rightarrow> (failure, jstr \<times> jstr) result \<times> office" where
  "issue_reset K now actor i st =
    (case List.find (\<lambda>r. pr_id r = i \<and> account_by_id st (pr_user r) \<noteq> None) (of_resets st) of
       None \<Rightarrow> (Inl (Rejected 404 (js ''That reset request no longer exists'')), st)
     | Some r \<Rightarrow>
         if pr_status r \<noteq> ResetPending then (Inl (Rejected 409 (js ''That request has already been handled'')), st)
         else if \<not> can_manage_account (stored_role_of actor) (stored_role_of (the (account_by_id st (pr_user r))))
         then (Inl (Rejected 403 (js ''Managers cannot reset administrator or manager passwords'')), st)
         else (Inr (pr_reference r, temporary_password K st),
               close_pending_resets now (pr_user r) ResetIssued
                 (js ''Temporary password issued against '' @ pr_reference r @ js ''.'') (Some (a_id actor))
                 (set_password K now (pr_user r) (temporary_password K st) (draw_on 1 st))))"

definition dismissed_by_default :: jstr where
  "dismissed_by_default = js ''Closed without a reset. Confirm the person's identity before issuing one.''"

definition dismiss_reset :: "int \<Rightarrow> jstr \<Rightarrow> jstr \<Rightarrow> jval \<Rightarrow> office \<Rightarrow> (failure, unit) result \<times> office" where
  "dismiss_reset now actor i body st =
    (let note = take 300 (trim (text_field body (js ''note''))) in
     case List.find (\<lambda>r. pr_id r = i) (of_resets st) of
       None \<Rightarrow> (Inl (Rejected 404 (js ''That reset request no longer exists'')), st)
     | Some r \<Rightarrow>
         if pr_status r \<noteq> ResetPending then (Inl (Rejected 409 (js ''That request has already been handled'')), st)
         else (Inr (),
               st\<lparr>of_resets := update_where (\<lambda>q. pr_id q = i \<and> pr_status q = ResetPending)
                  (\<lambda>q. q\<lparr>pr_status := ResetDismissed, pr_code := None, pr_handled_by := Some actor,
                         pr_handled_at := Some (sql_now now), pr_note := Some (if note = [] then dismissed_by_default else note)\<rparr>)
                  (of_resets st)\<rparr>))"

text \<open>A password set from People, with the password of the body or a generated one.\<close>

definition admin_reset :: "crypto \<Rightarrow> int \<Rightarrow> account \<Rightarrow> jstr \<Rightarrow> jstr option \<Rightarrow> office \<Rightarrow> (failure, jstr option) result \<times> office" where
  "admin_reset K now actor i given st =
    (case account_by_id st i of
       None \<Rightarrow> (Inl (Rejected 404 (js ''User account not found'')), st)
     | Some target \<Rightarrow>
         if \<not> can_manage_account (stored_role_of actor) (stored_role_of target)
         then (Inl (Rejected 403 (js ''Managers cannot reset administrator or manager passwords'')), st)
         else let generated = (coalesce given [] = []);
                  password = (if generated then temporary_password K st else coalesce given []);
                  st' = (if generated then draw_on 1 st else st)
           in if length password < 12
              then (Inl (Rejected 400 (js ''Temporary password must contain at least 12 characters'')), st')
              else (Inr (if generated then Some password else None),
                    close_pending_resets now i ResetIssued (js ''A temporary password was issued from People.'') (Some (a_id actor))
                      (set_password K now i password st')))"

definition prune_sign_in :: "int \<Rightarrow> office \<Rightarrow> office" where
  "prune_sign_in now st =
    st\<lparr>of_attempts := filter (\<lambda>r. \<not> at_time r < sql_now now - 86400) (of_attempts st),
       of_resets := update_where (\<lambda>r. pr_status r = ResetPending \<and> pr_last r \<le> sql_now now - reset_request_pending_days * 86400)
         (expire_reset now (js ''No action was taken within '' @ show_int reset_request_pending_days @ js '' days.'')) (of_resets st)\<rparr>"

definition bootstrap :: "host \<Rightarrow> crypto \<Rightarrow> jstr option \<Rightarrow> jstr \<Rightarrow> jstr \<Rightarrow> jstr \<Rightarrow> office \<Rightarrow> (failure, jstr \<times> jstr) result \<times> office" where
  "bootstrap H K token raw_name raw_email password st =
    (if of_users st \<noteq> [] then (Inl (Rejected 409 (js ''Bootstrap has already been completed'')), st)
     else if k_bootstrap K = [] \<or> token \<noteq> Some (k_bootstrap K) then (Inl (Rejected 403 (js ''Invalid bootstrap token'')), st)
     else let name = trim raw_name; email = lower (trim raw_email) in
       if name = [] \<or> email = [] \<or> password = []
       then (Inl (Rejected 400 (js ''name, email and password are required'')), st)
       else if length password < 10 then (Inl Crashed, draw_on 1 st)
       else let i = h_uuid H (of_draws st)
         in (Inr (i, email),
             (draw_on 2 st)\<lparr>of_users := [\<lparr>a_id = i, a_name = name, a_email = email, a_role = js ''admin'', a_manager = False,
                 a_property = None, a_hash = k_hash K (of_draws st + 1) password, a_status = js ''active'',
                 a_expires = None, a_changed = None\<rparr>]\<rparr>))"

subsection \<open>The reset requests stay sound\<close>

definition request_ok :: "reset \<Rightarrow> bool" where
  "request_ok r \<longleftrightarrow>
    (pr_code r \<noteq> None \<longrightarrow> pr_status r = ResetPending \<and> pr_delivery r = SelfService \<and> pr_code_expires r \<noteq> None)
    \<and> (pr_status r = ResetPending \<longrightarrow> pr_attempts r < reset_code_max_attempts)"

definition pending_of :: "jstr \<Rightarrow> reset \<Rightarrow> bool" where
  "pending_of i r \<longleftrightarrow> pr_user r = i \<and> pr_status r = ResetPending"

definition sound_resets :: "reset list \<Rightarrow> bool" where
  "sound_resets rows \<longleftrightarrow>
    distinct (map pr_id rows) \<and> list_all request_ok rows
    \<and> list_all (\<lambda>r. length (filter (pending_of (pr_user r)) rows) \<le> 1) rows"

lemma sound_resets_iff:
  "sound_resets rows \<longleftrightarrow>
    distinct (map pr_id rows) \<and> (\<forall>r\<in>set rows. request_ok r) \<and> (\<forall>i. length (filter (pending_of i) rows) \<le> 1)"
proof -
  have "length (filter (pending_of i) rows) \<le> 1"
    if one: "\<And>r. r \<in> set rows \<Longrightarrow> length (filter (pending_of (pr_user r)) rows) \<le> 1" for i
  proof (cases "filter (pending_of i) rows")
    case (Cons r rs)
    then have "r \<in> set (filter (pending_of i) rows)" by simp
    then have "r \<in> set rows" "pr_user r = i" by (auto simp: pending_of_def)
    with one show ?thesis by blast
  qed simp
  then show ?thesis by (auto simp: sound_resets_def list_all_iff)
qed

text \<open>A change of rows that keeps identity and owner and reopens none keeps the requests sound.\<close>

definition closing :: "(reset \<Rightarrow> reset) \<Rightarrow> bool" where
  "closing f \<longleftrightarrow> (\<forall>r. pr_id (f r) = pr_id r \<and> pr_user (f r) = pr_user r
     \<and> (pr_status (f r) = ResetPending \<longrightarrow> pr_status r = ResetPending))"

lemma pending_update_le:
  assumes "closing f"
  shows "length (filter (pending_of i) (update_where P f rows)) \<le> length (filter (pending_of i) rows)"
  using assms by (induction rows) (auto simp: pending_of_def closing_def)

lemma sound_update:
  assumes "sound_resets rows" "closing f" "\<And>r. r \<in> set rows \<Longrightarrow> P r \<Longrightarrow> request_ok r \<Longrightarrow> request_ok (f r)"
  shows "sound_resets (update_where P f rows)"
proof -
  have "map pr_id (update_where P f rows) = map pr_id rows"
    using assms(2) by (intro map_update_where) (simp add: closing_def)
  moreover have "\<forall>r\<in>set (update_where P f rows). request_ok r"
    using assms(1,3) by (auto simp: sound_resets_iff in_update_where)
  moreover have "length (filter (pending_of i) (update_where P f rows)) \<le> 1" for i
    using pending_update_le [OF assms(2), of i P rows] assms(1) unfolding sound_resets_iff by (meson le_trans)
  ultimately show ?thesis using assms(1) by (simp add: sound_resets_iff)
qed

lemma sound_add:
  assumes "sound_resets rows" "pr_id r \<notin> set (map pr_id rows)" "request_ok r"
    and "filter (pending_of (pr_user r)) rows = []"
  shows "sound_resets (rows @ [r])"
  using assms unfolding sound_resets_iff by (auto simp: pending_of_def)

lemma closing_intros [simp]:
  "closing (expire_reset now note)"
  "closing (renew_reset now i hash expires)"
  by (simp_all add: closing_def expire_reset_def renew_reset_def)

lemma expire_ok [simp]: "request_ok (expire_reset now note r)"
  by (simp add: request_ok_def expire_reset_def)

lemma new_reference_keeps:
  "new_reset_reference K n st = Some (ref, st') \<Longrightarrow> of_resets st' = of_resets st \<and> \<not> reference_taken st ref"
  by (induction n arbitrary: st) (fastforce simp: Let_def draw_on_def reference_taken_def split: if_splits)+

lemma newest_in: "newest rows = Some r \<Longrightarrow> r \<in> set rows"
  by (induction rows arbitrary: r) (auto split: option.splits if_splits)

lemma newest_None: "newest rows = None \<longleftrightarrow> rows = []"
  by (cases rows) (auto split: option.splits)

lemma distinct_id_row: "distinct (map pr_id rows) \<Longrightarrow> r \<in> set rows \<Longrightarrow> q \<in> set rows \<Longrightarrow> pr_id q = pr_id r \<Longrightarrow> q = r"
  by (meson distinct_map inj_onD)

lemma draw_on_resets [simp]: "of_resets (draw_on n st) = of_resets st"
  by (simp add: draw_on_def)

lemma renewed_ok:
  assumes "request_ok r" "pr_status r = ResetPending" "pr_delivery r = ri_delivery i"
    and "hash \<noteq> None \<Longrightarrow> ri_delivery i = SelfService \<and> expires \<noteq> None"
  shows "request_ok (renew_reset now i hash expires r)"
  using assms by (auto simp: request_ok_def renew_reset_def reset_code_max_attempts_def)

lemma resets_of_update: "of_resets (st\<lparr>of_resets := rows\<rparr>) = rows"
  by simp

lemma none_left_pending:
  "filter (pending_of i) (update_where (\<lambda>r. pr_user r = i \<and> pr_status r = ResetPending) (expire_reset now note) rows) = []"
  by (induction rows) (auto simp: pending_of_def expire_reset_def)

lemma recorded_sound:
  assumes "sound_resets (of_resets st)"
  shows "sound_resets (of_resets (snd (record_reset_request H K now i st)))"
proof -
  let ?hash = "map_option (reset_code_hash (k_sha K)) (if ri_delivery i = SelfService then Some (generate_reset_code (k_byte K) (of_draws st)) else None)"
  let ?expires = "map_option (\<lambda>_. sql_now (now + ri_minutes i * 60000)) (if ri_delivery i = SelfService then Some (generate_reset_code (k_byte K) (of_draws st)) else None)"
  let ?st = "if ri_delivery i = SelfService then draw_on reset_code_length st else st"
  have rows: "of_resets ?st = of_resets st" by simp
  have renew: "sound_resets (update_where (\<lambda>q. pr_id q = pr_id r) (renew_reset now i ?hash ?expires) (of_resets st))"
    if r: "open_reset st (ri_user i) = Some r" "reusable now (ri_delivery i) r" for r
  proof (rule sound_update [OF assms])
    fix q assume q: "q \<in> set (of_resets st)" "pr_id q = pr_id r" "request_ok q"
    have "r \<in> set (of_resets st)" "pr_status r = ResetPending"
      using newest_in r(1) by (fastforce simp: open_reset_def)+
    moreover have "q = r" using assms q calculation(1) by (auto simp: sound_resets_iff intro: distinct_id_row)
    ultimately show "request_ok (renew_reset now i ?hash ?expires q)"
      using q r(2) by (intro renewed_ok) (auto simp: reusable_def split: if_splits)
  qed simp
  have add: "sound_resets (update_where (\<lambda>r. pr_user r = ri_user i \<and> pr_status r = ResetPending) (expire_reset now superseded) (of_resets st)
      @ [fresh_reset now i row ref ?hash ?expires])"
    if "row \<notin> set (map pr_id (of_resets st))" for row ref
  proof (rule sound_add)
    let ?rows = "update_where (\<lambda>r. pr_user r = ri_user i \<and> pr_status r = ResetPending) (expire_reset now superseded) (of_resets st)"
    show "sound_resets ?rows" using assms by (intro sound_update) simp_all
    have "map pr_id ?rows = map pr_id (of_resets st)" by (intro map_update_where) (simp add: expire_reset_def)
    then show "pr_id (fresh_reset now i row ref ?hash ?expires) \<notin> set (map pr_id ?rows)"
      using that by (simp add: fresh_reset_def)
    show "request_ok (fresh_reset now i row ref ?hash ?expires)"
      by (simp add: request_ok_def fresh_reset_def reset_code_max_attempts_def)
    show "filter (pending_of (pr_user (fresh_reset now i row ref ?hash ?expires))) ?rows = []"
      using none_left_pending by (simp add: fresh_reset_def)
  qed
  let ?reuse = "case open_reset ?st (ri_user i) of Some r \<Rightarrow> if reusable now (ri_delivery i) r then Some r else None | None \<Rightarrow> None"
  have opened: "open_reset ?st (ri_user i) = open_reset st (ri_user i)" by (simp add: open_reset_def)
  note d = record_reset_request_def [of H K now i st, unfolded Let_def]
  show ?thesis
  proof (cases ?reuse)
    case (Some r)
    then have "open_reset st (ri_user i) = Some r" "reusable now (ri_delivery i) r"
      unfolding opened by (auto split: option.splits if_splits)
    from renew [OF this] show ?thesis by (simp only: d Some option.case snd_conv resets_of_update rows)
  next
    case None
    show ?thesis
    proof (cases "new_reset_reference K 10 (draw_on 1 ?st)")
      case None': None
      show ?thesis using assms by (simp only: d None None' option.case snd_conv draw_on_resets rows)
    next
      case (Some p)
      obtain ref st2 where p: "p = (ref, st2)" by fastforce
      have rows2: "of_resets st2 = of_resets st"
        using new_reference_keeps [OF Some [unfolded p]] rows by simp
      note e = d [unfolded None option.case Some p prod.case]
      show ?thesis
      proof (cases "list_ex (\<lambda>r. pr_id r = h_uuid H (of_draws ?st)) (of_resets st2)")
        case True
        then show ?thesis using assms by (simp only: e if_True snd_conv rows2)
      next
        case False
        then have "h_uuid H (of_draws ?st) \<notin> set (map pr_id (of_resets st))" by (auto simp: rows2 list_ex_iff)
        from add [OF this, of ref] False show ?thesis by (simp only: e if_False snd_conv resets_of_update rows2)
      qed
    qed
  qed
qed

lemma wrong_code_sound: "sound_resets (of_resets st) \<Longrightarrow> sound_resets (of_resets (snd (wrong_code now r st)))"
proof -
  assume st: "sound_resets (of_resets st)"
  let ?n = "pr_attempts r + 1"
  let ?f = "\<lambda>q. if 0 < reset_code_max_attempts - ?n then q\<lparr>pr_attempts := ?n\<rparr>
    else expire_reset now guessed_too_often (q\<lparr>pr_attempts := ?n\<rparr>)"
  have "sound_resets (update_where (\<lambda>q. pr_id q = pr_id r) ?f (of_resets st))"
    by (rule sound_update [OF st]) (auto simp: closing_def request_ok_def expire_reset_def)
  then show ?thesis by (simp only: wrong_code_def Let_def change_reset_def snd_conv resets_of_update)
qed

lemma closed_sound:
  assumes "sound_resets (of_resets st)" "status \<noteq> ResetPending"
  shows "sound_resets (of_resets (close_pending_resets now i status note by st))"
  using assms unfolding close_pending_resets_def
  by (simp, intro sound_update) (auto simp: closing_def request_ok_def)

lemma set_password_resets [simp]: "of_resets (set_password K now i p st) = of_resets st"
  by (simp add: set_password_def)

lemma use_code_sound:
  "sound_resets (of_resets st) \<Longrightarrow> sound_resets (of_resets (snd (use_reset_code K now code p r st)))"
  using wrong_code_sound [of st now r]
  by (auto simp: use_reset_code_def change_reset_def split: prod.splits intro!: sound_update closed_sound)

lemma attempts_keep_resets [simp]:
  "of_resets (record_attempt kind email source ok now st) = of_resets st"
  "of_resets (clear_attempts kind email source st) = of_resets st"
  by (simp_all add: record_attempt_def clear_attempts_def)

lemma login_keeps_resets: "of_resets (snd (login H K now header body st)) = of_resets st"
  by (simp add: login_def Let_def split: option.splits)

lemma gate_keeps_resets: "of_resets (snd (select_gate H now session selection device st)) = of_resets st"
  by (simp add: select_gate_def Let_def split: option.splits sum.splits)

lemma change_keeps_resets: "of_resets (snd (change_password K now se body st)) = of_resets st"
  by (simp add: change_password_def Let_def split: option.splits)

lemma forgot_sound:
  "sound_resets (of_resets st) \<Longrightarrow> sound_resets (of_resets (snd (forgot_password H K now header body st)))"
  using recorded_sound [of "record_attempt ForgotAttempt e s False now st" for e s]
  by (auto simp: forgot_password_def Let_def split: option.splits prod.splits) (metis snd_conv attempts_keep_resets(1))+

text \<open>
  What happens to the tables: the handlers above with any input, and every other route, which leaves
  the reset requests alone.
\<close>

inductive office_step :: "host \<Rightarrow> crypto \<Rightarrow> office \<Rightarrow> office \<Rightarrow> bool" for H K where
  signing_in: "office_step H K st (snd (login H K now header body st))"
| choosing: "office_step H K st (snd (select_gate H now session selection device st))"
| changing: "office_step H K st (snd (change_password K now se body st))"
| forgetting: "office_step H K st (snd (forgot_password H K now header body st))"
| resetting: "office_step H K st (snd (reset_password K now body st))"
| issuing: "office_step H K st (snd (issue_reset K now actor i st))"
| dismissing: "office_step H K st (snd (dismiss_reset now who i body st))"
| setting: "office_step H K st (snd (admin_reset K now actor i given st))"
| pruning: "office_step H K st (prune_sign_in now st)"
| starting: "office_step H K st (snd (bootstrap H K token name email password st))"
| elsewhere: "of_resets st' = of_resets st \<Longrightarrow> office_step H K st st'"

lemma office_step_sound: "office_step H K st st' \<Longrightarrow> sound_resets (of_resets st) \<Longrightarrow> sound_resets (of_resets st')"
proof (induction rule: office_step.cases)
  case (resetting st now body)
  then show ?case using use_code_sound by (auto simp: reset_password_def Let_def split: option.splits)
next
  case (issuing st now actor i)
  then show ?case by (auto simp: issue_reset_def split: option.splits intro!: closed_sound)
next
  case (dismissing st now who i body)
  then show ?case
    by (auto simp: dismiss_reset_def Let_def split: option.splits intro!: sound_update)
      (auto simp: closing_def request_ok_def)
next
  case (setting st now actor i given)
  then show ?case by (auto simp: admin_reset_def Let_def split: option.splits intro!: closed_sound)
next
  case (pruning st now)
  then show ?case by (auto simp: prune_sign_in_def intro!: sound_update)
next
  case (starting st token name email password)
  then show ?case by (simp add: bootstrap_def Let_def)
qed (simp_all add: login_keeps_resets gate_keeps_resets change_keeps_resets forgot_sound)

text \<open>
  C5: starting without requests, whatever is asked of the sign-in, recovery and office routes
  and whatever happens elsewhere, there is at most one open reset request per person, a one-time code
  is only ever stored with an open self-service request that has an expiry, and an open request has
  been guessed at less than five times.
\<close>
theorem reset_requests_stay_sound:
  assumes "(office_step H K)\<^sup>*\<^sup>* st st'" "of_resets st = []"
  shows "sound_resets (of_resets st')"
  using assms
proof (induction rule: rtranclp_induct)
  case base
  then show ?case by (simp add: sound_resets_def)
next
  case (step y z)
  then show ?case using office_step_sound by blast
qed

subsection \<open>A one-time code opens one door once\<close>

lemma none_pending_after_closing:
  "status \<noteq> ResetPending \<Longrightarrow> filter (pending_of i) (of_resets (close_pending_resets now i status note by st)) = []"
proof -
  assume "status \<noteq> ResetPending"
  then have "filter (pending_of i) (update_where (\<lambda>r. pr_user r = i \<and> pr_status r = ResetPending)
      (\<lambda>r. r\<lparr>pr_status := status, pr_code := None, pr_handled_by := by, pr_handled_at := Some (sql_now now), pr_note := Some note\<rparr>) rows) = []"
    for rows by (induction rows) (auto simp: pending_of_def)
  then show ?thesis by (simp add: close_pending_resets_def)
qed

text \<open>
  C7: a password is only reset with the code of an open self-service request: the digest of the
  code presented is the stored one, the code has not expired and was guessed wrong fewer than five
  times. Afterwards that person has the new password and no open request, so the code is spent.
\<close>
theorem code_needed_and_spent:
  assumes "reset_password K now body st = (Inr m, st')" "sound_resets (of_resets st)"
  shows "\<exists>r t. r \<in> set (of_resets st) \<and> pending_of (pr_user r) r \<and> pr_delivery r = SelfService
    \<and> pr_code r = Some (reset_code_hash (k_sha K) (normalize_reset_code (get_prop body (js ''code''))))
    \<and> pr_code_expires r = Some t \<and> now < 1000 * t \<and> pr_attempts r < 5
    \<and> filter (pending_of (pr_user r)) (of_resets st') = []
    \<and> of_users st' = update_where (\<lambda>a. a_id a = pr_user r)
        (\<lambda>a. a\<lparr>a_hash := k_hash K (of_draws st) (to_string (get_prop body (js ''newPassword''))), a_changed := Some (sql_now now)\<rparr>)
        (of_users st)"
proof -
  let ?email = "normalize_email (get_prop body (js ''email''))" and ?code = "normalize_reset_code (get_prop body (js ''code''))"
  obtain r where r: "newest (code_candidates st ?email) = Some r"
    "use_reset_code K now ?code (to_string (get_prop body (js ''newPassword''))) r st = (Inr m, st')"
    using assms(1) by (auto simp: reset_password_def Let_def split: if_splits option.splits)
  have in_st: "r \<in> set (of_resets st)" "pr_status r = ResetPending" "pr_delivery r = SelfService" "pr_code r \<noteq> None"
    using newest_in [OF r(1)] by (auto simp: code_candidates_def)
  then have "request_ok r" using assms(2) by (auto simp: sound_resets_iff)
  then have ok: "pr_code_expires r \<noteq> None" "pr_attempts r < 5"
    using in_st by (auto simp: request_ok_def reset_code_max_attempts_def)
  then obtain t h where t: "pr_code_expires r = Some t" and h: "pr_code r = Some h" using in_st(4) by auto
  have used: "\<not> 1000 * t \<le> now" "reset_code_matches (k_sha K) ?code h"
    "st' = close_pending_resets now (pr_user r) ResetCompleted (js ''Reset with the one-time code.'') None
       (set_password K now (pr_user r) (to_string (get_prop body (js ''newPassword''))) st)"
    using r(2) by (auto simp: use_reset_code_def t h split: if_splits prod.splits)
  show ?thesis
    using in_st ok t h used none_pending_after_closing [of ResetCompleted]
    by (intro exI [of _ r] exI [of _ t])
      (auto simp: pending_of_def reset_code_matches_def set_password_def close_pending_resets_def)
qed

end
