(* ===== verification/SessionRules.thy ===== *)
theory SessionRules
  imports PasswordReset
begin

text \<open>
  What signing in guarantees across requests: how many passwords can be tried, what a changed
  password does to running sessions, and what the answers of the recovery routes give away.
\<close>

subsection \<open>Guessing passwords\<close>

type_synonym login_request = "int \<times> (jstr \<Rightarrow> jstr option) \<times> jval"

fun login_run :: "host \<Rightarrow> crypto \<Rightarrow> login_request list \<Rightarrow> office \<Rightarrow> (jstr \<times> (failure, login_answer) result) list" where
  "login_run H K [] st = []"
| "login_run H K ((now, header, body) # rs) st =
    (case login H K now header body st of (res, st') \<Rightarrow> (source_of K header, res) # login_run H K rs st')"

text \<open>A password was compared with the stored one and found wrong.\<close>

definition guess_tested :: "(failure, login_answer) result \<Rightarrow> bool" where
  "guess_tested res = (case res of Inl (Refused p) \<Rightarrow> pb_code p = InvalidCredentials | _ \<Rightarrow> False)"

definition tested_from :: "(jstr \<Rightarrow> bool) \<Rightarrow> (jstr \<times> (failure, login_answer) result) list \<Rightarrow> nat" where
  "tested_from P results = length (filter (\<lambda>(source, res). P source \<and> guess_tested res) results)"

definition wrong_guess :: "crypto \<Rightarrow> account list \<Rightarrow> jstr \<Rightarrow> jval \<Rightarrow> bool" where
  "wrong_guess K users email body \<longleftrightarrow>
    normalize_email (get_prop body (js ''email'')) = email
    \<and> (case List.find (\<lambda>a. nocase (a_email a) = nocase email) users of
         None \<Rightarrow> True
       | Some a \<Rightarrow> \<not> k_verify K (text_field body (js ''password'')) (a_hash a))"

definition failures_since :: "int \<Rightarrow> jstr \<Rightarrow> (jstr \<Rightarrow> bool) \<Rightarrow> office \<Rightarrow> nat" where
  "failures_since t0 email P st =
    length (filter (\<lambda>r. at_kind r = LoginAttempt \<and> at_email r = email \<and> \<not> at_ok r \<and> P (at_source r) \<and> t0 \<le> at_time r) (of_attempts st))"

lemma failures_in_window:
  assumes "sql_now now < t0 + 900"
  shows "failures_since t0 email P st \<le> length (filter (\<lambda>r. P (at_source r)) (failed_attempts LoginAttempt email 15 now st))"
proof -
  have "filter (\<lambda>r. at_kind r = LoginAttempt \<and> at_email r = email \<and> \<not> at_ok r \<and> P (at_source r) \<and> t0 \<le> at_time r) rows
      = filter (\<lambda>r. t0 \<le> at_time r) (filter (\<lambda>r. P (at_source r))
          (filter (\<lambda>r. at_kind r = LoginAttempt \<and> at_email r = email \<and> \<not> at_ok r \<and> in_window now 15 r) rows))" for rows
    using assms by (induction rows) (auto simp: in_window_def)
  then show ?thesis by (simp only: failures_since_def failed_attempts_def length_filter_le)
qed

lemma throttled_by_source:
  "8 \<le> length (filter (\<lambda>r. at_source r = source) (failed_attempts LoginAttempt email 15 now st)) \<Longrightarrow>
    throttle_exceeded LoginAttempt email source login_throttle now st \<noteq> None"
  by (simp add: throttle_exceeded_def read_throttle_def login_throttle_def Let_def)

lemma throttled_by_email:
  "25 \<le> length (failed_attempts LoginAttempt email 15 now st) \<Longrightarrow>
    throttle_exceeded LoginAttempt email source login_throttle now st \<noteq> None"
  by (simp add: throttle_exceeded_def read_throttle_def login_throttle_def Let_def)

lemma throttle_code: "throttle_exceeded kind email source limits now st = Some p \<Longrightarrow> pb_code p = TooManyAttempts"
  by (auto simp: throttle_exceeded_def Let_def sign_in_problem_def split: if_splits)

text \<open>A wrong password is either not looked at, or tested and recorded.\<close>

lemma wrong_login:
  assumes "wrong_guess K (of_users st) email body" "login H K now header body st = (res, st')"
  obtains (unseen) "\<not> guess_tested res" "st' = st"
    | (seen) "guess_tested res" "st' = record_attempt LoginAttempt email (source_of K header) False now st"
        "throttle_exceeded LoginAttempt email (source_of K header) login_throttle now st = None"
  using assms throttle_code
  by (fastforce simp: login_def Let_def wrong_guess_def account_by_email_def guess_tested_def refuse_def sign_in_problem_def
      split: if_splits option.splits)

lemma record_attempt_counts:
  "failures_since t0 email P (record_attempt LoginAttempt email source False now st)
    = failures_since t0 email P st + (if P source \<and> t0 \<le> sql_now now then 1 else 0)"
  by (simp add: failures_since_def record_attempt_def)

lemma record_attempt_users [simp]: "of_users (record_attempt kind email source ok now st) = of_users st"
  by (simp add: record_attempt_def)

definition within_window :: "crypto \<Rightarrow> account list \<Rightarrow> jstr \<Rightarrow> int \<Rightarrow> login_request \<Rightarrow> bool" where
  "within_window K users email t0 r \<longleftrightarrow>
    (case r of (now, header, body) \<Rightarrow> t0 \<le> sql_now now \<and> sql_now now < t0 + 900 \<and> wrong_guess K users email body)"

lemma tested_bounded:
  assumes throttled: "\<And>now source st. P source \<Longrightarrow>
      limit \<le> length (filter (\<lambda>r. P (at_source r)) (failed_attempts LoginAttempt email 15 now st)) \<Longrightarrow>
      throttle_exceeded LoginAttempt email source login_throttle now st \<noteq> None"
    and "list_all (within_window K (of_users st) email t0) rs"
  shows "tested_from P (login_run H K rs st) \<le> limit - failures_since t0 email P st"
  using assms(2)
proof (induction rs arbitrary: st)
  case Nil
  then show ?case by (simp add: tested_from_def)
next
  case (Cons r rs)
  obtain now header body where r: "r = (now, header, body)" by (cases r) auto
  obtain res st' where d: "login H K now header body st = (res, st')" by fastforce
  have w: "t0 \<le> sql_now now" "sql_now now < t0 + 900" "wrong_guess K (of_users st) email body"
    using Cons.prems by (simp_all add: r within_window_def)
  have run: "tested_from P (login_run H K (r # rs) st)
      = (if P (source_of K header) \<and> guess_tested res then 1 else 0) + tested_from P (login_run H K rs st')"
    by (simp add: r d tested_from_def)
  from w(3) d show ?case
  proof (cases rule: wrong_login)
    case unseen
    with Cons run show ?thesis by simp
  next
    case seen
    have ih: "tested_from P (login_run H K rs st') \<le> limit - failures_since t0 email P st'"
      using Cons.prems seen(2) by (intro Cons.IH) simp
    show ?thesis
    proof (cases "P (source_of K header)")
      case True
      then have "\<not> limit \<le> failures_since t0 email P st"
        using throttled [OF True] seen(3) failures_in_window [OF w(2), of email P st] by (meson le_trans)
      then show ?thesis using ih run seen True w(1) by (simp add: record_attempt_counts)
    next
      case False
      then show ?thesis using ih run seen by (simp add: record_attempt_counts)
    qed
  qed
qed


subsection \<open>Sessions and a changed password\<close>

lemma usable_account_props:
  "usable_account H now st i = Some a \<Longrightarrow> a \<in> set (of_users st) \<and> a_id a = i \<and> usable H now a"
  by (auto simp: usable_account_def dest: find_Some_set)

lemma fresh_not_before_change: "s \<le> now div 1000 \<Longrightarrow>
    \<not> session_issued_before_password_change (Some (1000 * s)) (Some (now div 1000))"
  by (simp add: session_issued_before_password_change_def)

text \<open>
  C25: a session issued more than five seconds before the password of its account changed is
  turned away everywhere, except by the route that chooses a gate: there the same token of a Security
  officer is exchanged for a new one, which every route accepts. The reset does not end the sessions
  of an officer after all.
\<close>
theorem ended_session_renewed_at_the_gate:
  assumes "verify_claims now (Some c) = Some c" "\<not> cl_pending c" "usable_account H now st (cl_sub c) = Some a"
    and "stored_role_of a = js ''security''" "a_changed a = Some s" "s \<le> now div 1000" "cl_iat c < s - 5"
    and "selectable_gates st (a_id a) = d # ds" "trim (gd_id d) = gd_id d" "gd_id d \<noteq> []"
  shows "require_auth H now (Some c) st = Inl SessionEnded
    \<and> (case select_gate H now (Some c) None (Some (gd_id d)) st of
         (Inr (c', g), st') \<Rightarrow> require_auth H now (Some c') st' =
            Inr \<lparr>se_user = a, se_issued = now div 1000, se_expires = cl_exp c', se_gate = Some (gd_id d)\<rparr>
       | _ \<Rightarrow> False)"
proof -
  have a: "a_id a = cl_sub c" using usable_account_props [OF assms(3)] by simp
  have ended: "require_auth H now (Some c) st = Inl SessionEnded"
    using assms(1-3,5,7) by (simp add: require_auth_def session_issued_before_password_change_def)
  have sub: "cl_sub c \<noteq> []" using assms(1) by (auto simp: verify_claims_def split: if_splits)
  have gates: "assigned_gates st (cl_sub c) = [] \<or> assigned_gates st (cl_sub c) = d # ds"
    using assms(8) a by (auto simp: selectable_gates_def split: if_splits)
  let ?c = "(sign_claims now a (session_seconds_for (Bool (cl_remember c))))
      \<lparr>cl_gate := Some (gd_id d), cl_open := (assigned_gates st (a_id a) = [])\<rparr>"
  let ?st = "st\<lparr>of_sessions := gate_session_rows now (a_id a) (gd_id d) (of_sessions st)\<rparr>"
  have sel: "select_gate H now (Some c) None (Some (gd_id d)) st = (Inr (?c, d), ?st)"
    using assms(1-4,8-10) by (simp add: select_gate_def selection_claims_def Let_def)
  have v: "verify_claims now (Some ?c) = Some ?c"
    using sub a assms(4)
    by (simp add: verify_claims_def sign_claims_def session_seconds_for_def remember_me_seconds_def session_seconds_def)
  have same: "usable_account H now (st\<lparr>of_sessions := rows\<rparr>) i = usable_account H now st i"
    "assigned_gates (st\<lparr>of_sessions := rows\<rparr>) i = assigned_gates st i"
    "selectable_gates (st\<lparr>of_sessions := rows\<rparr>) i = selectable_gates st i" for i rows
    by (simp_all add: usable_account_def assigned_gates_def selectable_gates_def)
  have still: "gate_still_allowed ?st ?c (gd_id d)"
    using gates assms(8) a by (auto simp: gate_still_allowed_def same sign_claims_def)
  have "require_auth H now (Some ?c) ?st =
      Inr \<lparr>se_user = a, se_issued = now div 1000, se_expires = cl_exp ?c, se_gate = Some (gd_id d)\<rparr>"
    using v still assms(3-6) a fresh_not_before_change [OF assms(6)]
    by (simp add: require_auth_def same) (simp add: sign_claims_def)
  with ended sel show ?thesis by simp
qed

text \<open>
  An officer who changes the password of a session that is bound to a gate gets a session that is
  bound to none, although the officer could not have signed in without choosing one.
\<close>
theorem changed_password_forgets_the_gate:
  assumes "require_auth H now (Some c) st = Inr se" "se_gate se = Some g"
    and "change_password K now se body st = (Inr (c', seconds), st')"
  shows "\<exists>se'. require_auth H now (Some c') st' = Inr se' \<and> se_gate se' = None"
proof -
  obtain a where a: "verify_claims now (Some c) = Some c" "usable_account H now st (cl_sub c) = Some a" "se_user se = a"
    using assms(1) by (auto simp: require_auth_def verify_claims_def Let_def split: if_splits option.splits)
  have sec: "stored_role_of a = js ''security''"
    using assms(1,2) a by (cases se) (auto simp: require_auth_def Let_def split: if_splits option.splits)
  have i: "a_id a = cl_sub c" "cl_sub c \<noteq> []"
    using usable_account_props [OF a(2)] a(1) by (auto simp: verify_claims_def split: if_splits)
  let ?new = "text_field body (js ''newPassword'')"
  have out: "c' = sign_claims now a seconds" "0 < seconds" "st' = set_password K now (a_id a) ?new st"
    using assms(3) a(3)
    by (auto simp: change_password_def Let_def remember_me_seconds_def session_seconds_def split: if_splits option.splits)
  let ?f = "\<lambda>u. u\<lparr>a_hash := k_hash K (of_draws st) ?new, a_changed := Some (sql_now now)\<rparr>"
  have "usable_account H now st' (cl_sub c) = map_option (\<lambda>u. if a_id u = a_id a then ?f u else u) (usable_account H now st (cl_sub c))"
    unfolding usable_account_def out(3) set_password_def
    by (simp, rule find_update_where_if) (simp add: usable_def)
  then have u: "usable_account H now st' (cl_sub c) = Some (?f a)" using a(2) by simp
  have "verify_claims now (Some c') = Some c'"
    using i sec out(2) by (simp add: verify_claims_def out(1) sign_claims_def)
  moreover have "\<not> session_issued_before_password_change (Some (1000 * sql_now now)) (Some (now div 1000))"
    by (simp add: session_issued_before_password_change_def sql_now_def)
  ultimately show ?thesis
    using u i by (simp add: require_auth_def out(1) sign_claims_def Let_def)
qed

subsection \<open>What the recovery route gives away\<close>

lemma recorded_message_differs: "recorded_message r m \<noteq> unknown_account_message d"
proof -
  have "hd (recorded_message r m) \<noteq> 73"
    by (simp add: recorded_message_def js_def split: option.splits)
  moreover have "hd (unknown_account_message d) = 73"
    by (simp add: unknown_account_message_def js_def split: delivery_kind.splits)
  ultimately show ?thesis by metis
qed

text \<open>
  The wording of an answer to a forgotten password tells whether the address has an account,
  with and without one-time codes: it is the wording for unknown addresses exactly when there is none.
\<close>
theorem forgot_password_reveals_accounts:
  assumes "forgot_password H K now header body st = (Inr answer, st')"
  shows "fa_message answer = unknown_account_message (fa_delivery answer)
    \<longleftrightarrow> account_by_email st (normalize_email (get_prop body (js ''email''))) = None"
proof -
  have acc: "account_by_email (record_attempt kind e s ok now st) email = account_by_email st email" for kind e s ok email
    by (simp add: account_by_email_def)
  show ?thesis
    using assms recorded_message_differs
    by (auto simp: forgot_password_def Let_def acc split: if_splits option.splits prod.splits)
qed

subsection \<open>A sample estate\<close>

definition sample_crypto :: crypto where
  "sample_crypto = \<lparr>k_sha = (\<lambda>s. s), k_verify = (\<lambda>p h. h = 35 # p), k_hash = (\<lambda>n p. 35 # p), k_byte = (\<lambda>n. n),
     k_token = (\<lambda>n. js ''token''), k_secret = js ''secret'', k_bootstrap = js ''boot''\<rparr>"

definition sample_account :: account where
  "sample_account = \<lparr>a_id = js ''u1'', a_name = js ''Ada'', a_email = js ''ada@x.ng'', a_role = js ''security'', a_manager = False,
     a_property = None, a_hash = js ''#old-password-1'', a_status = js ''active'', a_expires = None, a_changed = Some 100\<rparr>"

definition sample_gate :: gate_device where
  "sample_gate = \<lparr>gd_id = js ''g1'', gd_name = js ''Main'', gd_gate = js ''Main gate'', gd_status = js ''online'', gd_deleted = False\<rparr>"

definition sample_office :: office where
  "sample_office = \<lparr>of_users = [sample_account], of_attempts = [], of_resets = [], of_self_service = Str (js ''true''),
     of_code_minutes = Undef, of_posts = [], of_gates = [sample_gate], of_sessions = [], of_draws = 0\<rparr>"

definition no_header :: "jstr \<Rightarrow> jstr option" where
  "no_header name = None"

definition sample_claims :: claims where
  "sample_claims = \<lparr>cl_sub = js ''u1'', cl_role = js ''security'', cl_name = js ''Ada'', cl_gate = Some (js ''g1''), cl_pending = False,
     cl_open = True, cl_remember = False, cl_iat = 50, cl_exp = 5000\<rparr>"

definition guess :: "jstr \<Rightarrow> jval" where
  "guess password = Obj [(js ''email'', Str (js ''Ada@x.ng'')), (js ''password'', Str password)]"

definition sample_guesses :: "login_request list" where
  "sample_guesses = replicate 9 (200000, no_header, guess (js ''hunter2''))"


lemma ended_session_renewed_at_the_gate_witness:
  "require_auth sample_host 200000 (Some sample_claims) sample_office = Inl SessionEnded
   \<and> (case select_gate sample_host 200000 (Some sample_claims) None (Some (gd_id sample_gate)) sample_office of
        (Inr (c', g), st') \<Rightarrow> require_auth sample_host 200000 (Some c') st' =
           Inr \<lparr>se_user = sample_account, se_issued = 200000 div 1000, se_expires = cl_exp c', se_gate = Some (gd_id sample_gate)\<rparr>
      | _ \<Rightarrow> False)"
  by (rule ended_session_renewed_at_the_gate [where a = sample_account and s = 100 and ds = "[]"]; code_simp)

lemma changed_password_forgets_the_gate_witness:
  "\<exists>se c' se'. require_auth sample_host 102000 (Some (sample_claims\<lparr>cl_iat := 101\<rparr>)) sample_office = Inr se \<and> se_gate se = Some (js ''g1'')
    \<and> require_auth sample_host 102000 (Some c') (snd (change_password sample_crypto 102000 se
          (Obj [(js ''currentPassword'', Str (js ''old-password-1'')), (js ''newPassword'', Str (js ''new-password-1''))]) sample_office)) = Inr se'
    \<and> se_gate se' = None"
proof -
  let ?body = "Obj [(js ''currentPassword'', Str (js ''old-password-1'')), (js ''newPassword'', Str (js ''new-password-1''))]"
  let ?se = "\<lparr>se_user = sample_account, se_issued = 101, se_expires = 5000, se_gate = Some (js ''g1'')\<rparr>"
  have auth: "require_auth sample_host 102000 (Some (sample_claims\<lparr>cl_iat := 101\<rparr>)) sample_office = Inr ?se" by code_simp
  obtain res st' where change: "change_password sample_crypto 102000 ?se ?body sample_office = (res, st')" by fastforce
  have "(case fst (change_password sample_crypto 102000 ?se ?body sample_office) of Inr _ \<Rightarrow> True | Inl _ \<Rightarrow> False)" by code_simp
  then obtain c' seconds where "res = Inr (c', seconds)" using change by (auto split: sum.splits)
  with changed_password_forgets_the_gate [OF auth, of "js ''g1''" sample_crypto ?body c' seconds st'] change auth
  show ?thesis by (metis session.select_convs(4) snd_conv)
qed

definition sample_forgot :: jval where
  "sample_forgot = Obj [(js ''email'', Str (js ''ada@x.ng''))]"

lemma forgot_password_reveals_accounts_witness:
  "\<exists>answer st'. forgot_password sample_host sample_crypto 200000 no_header sample_forgot sample_office = (Inr answer, st')
    \<and> fa_message answer \<noteq> unknown_account_message (fa_delivery answer)"
proof -
  obtain res st' where run: "forgot_password sample_host sample_crypto 200000 no_header sample_forgot sample_office = (res, st')" by fastforce
  have "(case fst (forgot_password sample_host sample_crypto 200000 no_header sample_forgot sample_office) of Inr _ \<Rightarrow> True | Inl _ \<Rightarrow> False)"
    by code_simp
  then obtain answer where answer: "res = Inr answer" using run by (auto split: sum.splits)
  have "account_by_email sample_office (normalize_email (get_prop sample_forgot (js ''email''))) \<noteq> None" by code_simp
  with forgot_password_reveals_accounts [OF run [unfolded answer]] run answer show ?thesis by blast
qed

lemma reset_requests_stay_sound_witness:
  "length (of_resets (snd (forgot_password sample_host sample_crypto 200000 no_header sample_forgot sample_office))) = 1
   \<and> sound_resets (of_resets (snd (forgot_password sample_host sample_crypto 200000 no_header sample_forgot sample_office)))"
proof -
  let ?st = "snd (forgot_password sample_host sample_crypto 200000 no_header sample_forgot sample_office)"
  have "(office_step sample_host sample_crypto)\<^sup>*\<^sup>* sample_office ?st" by (rule r_into_rtranclp) (rule office_step.forgetting)
  moreover have "of_resets sample_office = []" by (simp add: sample_office_def)
  moreover have "length (of_resets ?st) = 1" by code_simp
  ultimately show ?thesis using reset_requests_stay_sound by blast
qed

definition open_office :: office where
  "open_office = snd (forgot_password sample_host sample_crypto 200000 no_header sample_forgot sample_office)"

definition sample_reset :: jval where
  "sample_reset = Obj [(js ''email'', Str (js ''ada@x.ng'')), (js ''code'', Str (js ''2345-6789'')), (js ''newPassword'', Str (js ''new-password-1''))]"

lemma code_needed_and_spent_witness:
  "\<exists>m st' i. reset_password sample_crypto 201000 sample_reset open_office = (Inr m, st') \<and> filter (pending_of i) (of_resets st') = []"
proof -
  obtain res st' where run: "reset_password sample_crypto 201000 sample_reset open_office = (res, st')" by fastforce
  have "(case fst (reset_password sample_crypto 201000 sample_reset open_office) of Inr _ \<Rightarrow> True | Inl _ \<Rightarrow> False)" by code_simp
  then obtain m where m: "res = Inr m" using run by (auto split: sum.splits)
  have "sound_resets (of_resets open_office)" by code_simp
  with code_needed_and_spent [OF run [unfolded m]] run m show ?thesis by blast
qed

end
