(* ===== verification/EmployeeIds.thy ===== *)
theory EmployeeIds
  imports Identity Database
begin

text \<open>
  The assignment of Employee IDs (\<^verbatim>\<open>index.ts\<close>, \<open>employeeIdInUse\<close> to
  \<open>resolveUpdatedEmployeeId\<close>): one identity per person across the accounts and the household
  dependants, compared without regard to ASCII case as \<open>COLLATE NOCASE\<close> does.
\<close>

definition person_ids :: "db \<Rightarrow> ((person_kind \<times> jstr) \<times> jstr) list" where
  "person_ids db =
     map (\<lambda>u. ((Account, u_id u), the (u_employee u))) (filter (\<lambda>u. u_employee u \<noteq> None) (t_users db))
     @ map (\<lambda>m. ((Dependant, m_id m), the (m_employee m))) (filter (\<lambda>m. m_employee m \<noteq> None) (t_members db))"

text \<open>\<open>exclude\<close> names the person whose own row is not counted.\<close>

definition employee_id_in_use :: "db \<Rightarrow> jstr \<Rightarrow> (person_kind \<times> jstr) option \<Rightarrow> bool" where
  "employee_id_in_use db v exclude \<longleftrightarrow>
     list_ex (\<lambda>u. map_option nocase (u_employee u) = Some (nocase v) \<and> exclude \<noteq> Some (Account, u_id u)) (t_users db)
     \<or> list_ex (\<lambda>m. map_option nocase (m_employee m) = Some (nocase v) \<and> exclude \<noteq> Some (Dependant, m_id m)) (t_members db)"

text \<open>The ten random identifiers are an argument; \<open>None\<close> is the thrown error.\<close>

fun new_employee_id :: "db \<Rightarrow> jstr list \<Rightarrow> jstr option" where
  "new_employee_id db [] = None"
| "new_employee_id db (uuid # rest) =
     (case employee_id_from_uuid (Str uuid) of
        None \<Rightarrow> new_employee_id db rest
      | Some c \<Rightarrow> if employee_id_in_use db c None then new_employee_id db rest else Some c)"

record id_resolution =
  ir_value :: "jstr option"
  ir_error :: "jstr option"
  ir_conflict :: bool

definition already_assigned :: "jstr \<Rightarrow> jstr" where
  "already_assigned v = js ''Employee ID '' @ v @ js '' is already assigned to another person''"

text \<open>A refused resolution carries the empty text in the source, \<open>None\<close> here.\<close>

definition resolve_new_employee_id :: "db \<Rightarrow> jstr list \<Rightarrow> jstr \<Rightarrow> jval \<Rightarrow> id_resolution option" where
  "resolve_new_employee_id db uuids person supplied =
    (let r = read_employee_id supplied in
     if er_error r \<noteq> None then Some \<lparr>ir_value = None, ir_error = er_error r, ir_conflict = False\<rparr>
     else case er_value r of
       Some v \<Rightarrow>
         if employee_id_in_use db v None
         then Some \<lparr>ir_value = None, ir_error = Some (already_assigned v), ir_conflict = True\<rparr>
         else Some \<lparr>ir_value = Some v, ir_error = None, ir_conflict = False\<rparr>
     | None \<Rightarrow>
         (case employee_id_from_uuid (Str person) of
            Some n \<Rightarrow> if employee_id_in_use db n None
              then map_option (\<lambda>v. \<lparr>ir_value = Some v, ir_error = None, ir_conflict = False\<rparr>) (new_employee_id db uuids)
              else Some \<lparr>ir_value = Some n, ir_error = None, ir_conflict = False\<rparr>
          | None \<Rightarrow> map_option (\<lambda>v. \<lparr>ir_value = Some v, ir_error = None, ir_conflict = False\<rparr>) (new_employee_id db uuids)))"

definition person_employee :: "db \<Rightarrow> person_kind \<Rightarrow> jstr \<Rightarrow> jstr option option" where
  "person_employee db k i =
     (case k of
        Account \<Rightarrow> map_option u_employee (List.find (\<lambda>u. u_id u = i) (t_users db))
      | Dependant \<Rightarrow> map_option m_employee (List.find (\<lambda>m. m_id m = i) (t_members db)))"

definition set_employee :: "person_kind \<Rightarrow> jstr \<Rightarrow> jstr \<Rightarrow> db \<Rightarrow> db" where
  "set_employee k i v db =
     (case k of
        Account \<Rightarrow> db\<lparr>t_users := update_where (\<lambda>u. u_id u = i) (\<lambda>u. u\<lparr>u_employee := Some v\<rparr>) (t_users db)\<rparr>
      | Dependant \<Rightarrow> db\<lparr>t_members := update_where (\<lambda>m. m_id m = i) (\<lambda>m. m\<lparr>m_employee := Some v\<rparr>) (t_members db)\<rparr>)"

text \<open>The outer option is the thrown error, the inner one the null of a missing person.\<close>

definition ensure_person_employee_id ::
    "db \<Rightarrow> jstr list \<Rightarrow> person_kind \<Rightarrow> jstr \<Rightarrow> (jstr option \<times> db) option" where
  "ensure_person_employee_id db uuids k i =
    (case person_employee db k i of
       None \<Rightarrow> Some (None, db)
     | Some current \<Rightarrow>
         if (case current of None \<Rightarrow> False | Some v \<Rightarrow> v \<noteq> []) then Some (current, db)
         else let natural = (case employee_id_from_uuid (Str i) of
                  Some n \<Rightarrow> if employee_id_in_use db n (Some (k, i)) then None else Some n | None \<Rightarrow> None)
           in case (case natural of Some n \<Rightarrow> Some n | None \<Rightarrow> new_employee_id db uuids) of
                None \<Rightarrow> None
              | Some v \<Rightarrow> Some (Some v, set_employee k i v db))"

definition resolve_updated_employee_id :: "db \<Rightarrow> person_kind \<Rightarrow> jstr \<Rightarrow> jval \<Rightarrow> id_resolution" where
  "resolve_updated_employee_id db k i supplied =
    (if supplied = Undef then \<lparr>ir_value = None, ir_error = None, ir_conflict = False\<rparr>
     else let r = read_employee_id supplied in
       if er_error r \<noteq> None then \<lparr>ir_value = None, ir_error = er_error r, ir_conflict = False\<rparr>
       else case er_value r of
         None \<Rightarrow> \<lparr>ir_value = None, ir_error = None, ir_conflict = False\<rparr>
       | Some v \<Rightarrow>
           if employee_id_in_use db v (Some (k, i))
           then \<lparr>ir_value = None, ir_error = Some (already_assigned v), ir_conflict = True\<rparr>
           else \<lparr>ir_value = Some v, ir_error = None, ir_conflict = False\<rparr>)"

subsection \<open>One identity per person\<close>

definition unique_ids :: "db \<Rightarrow> bool" where
  "unique_ids db \<longleftrightarrow>
     (\<forall>p v q w. (p, v) \<in> set (person_ids db) \<longrightarrow> (q, w) \<in> set (person_ids db) \<longrightarrow> nocase v = nocase w \<longrightarrow> p = q)"

lemma person_ids_iff:
  "((k, i), w) \<in> set (person_ids db) \<longleftrightarrow>
     (case k of Account \<Rightarrow> (\<exists>u\<in>set (t_users db). u_id u = i \<and> u_employee u = Some w)
      | Dependant \<Rightarrow> (\<exists>m\<in>set (t_members db). m_id m = i \<and> m_employee m = Some w))"
  by (cases k) (force simp: person_ids_def image_iff)+

lemma in_use_iff:
  "employee_id_in_use db v ex \<longleftrightarrow> (\<exists>k i w. ((k, i), w) \<in> set (person_ids db) \<and> nocase w = nocase v \<and> ex \<noteq> Some (k, i))"
proof
  assume "employee_id_in_use db v ex"
  then consider u w where "u \<in> set (t_users db)" "u_employee u = Some w" "nocase w = nocase v" "ex \<noteq> Some (Account, u_id u)"
    | m w where "m \<in> set (t_members db)" "m_employee m = Some w" "nocase w = nocase v" "ex \<noteq> Some (Dependant, m_id m)"
    by (auto simp: employee_id_in_use_def list_ex_iff)
  then show "\<exists>k i w. ((k, i), w) \<in> set (person_ids db) \<and> nocase w = nocase v \<and> ex \<noteq> Some (k, i)"
  proof cases
    case (1 u w)
    then have "((Account, u_id u), w) \<in> set (person_ids db)" by (auto simp: person_ids_iff)
    with 1 show ?thesis by blast
  next
    case (2 m w)
    then have "((Dependant, m_id m), w) \<in> set (person_ids db)" by (auto simp: person_ids_iff)
    with 2 show ?thesis by blast
  qed
next
  assume "\<exists>k i w. ((k, i), w) \<in> set (person_ids db) \<and> nocase w = nocase v \<and> ex \<noteq> Some (k, i)"
  then obtain k i w where w: "((k, i), w) \<in> set (person_ids db)" "nocase w = nocase v" "ex \<noteq> Some (k, i)" by blast
  then show "employee_id_in_use db v ex"
    by (cases k) (auto simp: employee_id_in_use_def list_ex_iff person_ids_iff)
qed

lemma person_ids_set_employee:
  "(p, w) \<in> set (person_ids (set_employee k i v db)) \<Longrightarrow> (p = (k, i) \<and> w = v) \<or> (p \<noteq> (k, i) \<and> (p, w) \<in> set (person_ids db))"
  by (cases k) (auto simp: person_ids_def set_employee_def update_where_def image_iff split: if_splits)

lemma unique_ids_set_employee:
  assumes "unique_ids db" "\<not> employee_id_in_use db v (Some (k, i))"
  shows "unique_ids (set_employee k i v db)"
  using assms person_ids_set_employee [of _ _ k i v db]
  unfolding unique_ids_def in_use_iff by (metis option.inject surj_pair)

lemma employee_id_from_uuid_valid:
  assumes "employee_id_from_uuid v = Some c"
  shows "employee_id_pattern c" "length c \<le> 30"
proof -
  let ?x = "lower (replace_unit 45 [] (trim (to_string_or_empty v)))"
  have c: "c = slice_last 30 ?x" "employee_id_pattern ?x"
    using assms by (auto simp: employee_id_from_uuid_def Let_def employee_id_max_def split: if_splits)
  then show "length c \<le> 30" by (simp add: length_slice_last)
  have "?x \<noteq> []" using c(2) by (simp add: employee_id_pattern_def)
  then have "length c > 0" unfolding c(1) by (simp add: slice_last_def)
  then have "c \<noteq> []" by simp
  moreover have "set c \<subseteq> set ?x" unfolding c(1) slice_last_def by (rule set_drop_subset)
  ultimately show "employee_id_pattern c" using c(2) by (auto simp: employee_id_pattern_def list_all_iff)
qed

lemma new_employee_id_free:
  "new_employee_id db us = Some v \<Longrightarrow> \<not> employee_id_in_use db v None \<and> employee_id_pattern v \<and> length v \<le> 30"
proof (induction us)
  case (Cons u us)
  then show ?case using employee_id_from_uuid_valid by (auto split: option.splits if_splits)
qed simp

lemma in_use_exclude: "employee_id_in_use db v (Some p) \<Longrightarrow> employee_id_in_use db v None"
  unfolding in_use_iff by blast

subsection \<open>Properties\<close>

text \<open>
  An Employee ID assigned to a person, on demand or when the person is created, is valid and
  free: assigning it keeps the identities of accounts and dependants unique up to the case of
  letters, and the person then has it, so that asking again changes nothing.
\<close>

theorem assigned_ids_stay_unique:
  assumes uniq: "unique_ids db" and run: "ensure_person_employee_id db uuids k i = Some (Some v, db')"
    and unset: "person_employee db k i = Some None"
  shows "unique_ids db' \<and> employee_id_pattern v \<and> length v \<le> 30 \<and> person_employee db' k i = Some (Some v)
    \<and> ensure_person_employee_id db' uuids' k i = Some (Some v, db')"
proof -
  let ?natural = "case employee_id_from_uuid (Str i) of
      Some n \<Rightarrow> if employee_id_in_use db n (Some (k, i)) then None else Some n | None \<Rightarrow> None"
  have v: "(case ?natural of Some n \<Rightarrow> Some n | None \<Rightarrow> new_employee_id db uuids) = Some v"
    and db': "db' = set_employee k i v db"
    using run unset by (auto simp: ensure_person_employee_id_def Let_def split: option.splits)
  have free: "\<not> employee_id_in_use db v (Some (k, i)) \<and> employee_id_pattern v \<and> length v \<le> 30"
  proof (cases ?natural)
    case None
    then have "new_employee_id db uuids = Some v" using v by simp
    then show ?thesis using new_employee_id_free in_use_exclude by blast
  next
    case (Some n)
    then have "employee_id_from_uuid (Str i) = Some n" "\<not> employee_id_in_use db n (Some (k, i))" "n = v"
      using v by (auto split: option.splits if_splits)
    then show ?thesis using employee_id_from_uuid_valid by blast
  qed
  have emp: "person_employee db' k i = Some (Some v)"
  proof (cases k)
    case Account
    obtain u where "List.find (\<lambda>u. u_id u = i) (t_users db) = Some u"
      using unset Account by (auto simp: person_employee_def)
    then show ?thesis using Account
      by (simp add: db' person_employee_def set_employee_def find_update_where)
  next
    case Dependant
    obtain m where "List.find (\<lambda>m. m_id m = i) (t_members db) = Some m"
      using unset Dependant by (auto simp: person_employee_def)
    then show ?thesis using Dependant
      by (simp add: db' person_employee_def set_employee_def find_update_where)
  qed
  moreover have "v \<noteq> []" using free by (simp add: employee_id_pattern_def)
  ultimately have "ensure_person_employee_id db' uuids' k i = Some (Some v, db')"
    by (simp add: ensure_person_employee_id_def)
  then show ?thesis using free emp unique_ids_set_employee [OF uniq] by (simp add: db')
qed

definition ids_db :: db where
  "ids_db = empty_db\<lparr>t_users := [\<lparr>u_id = js ''u1'', u_name = js ''Ada'', u_employee = None, u_status = js ''active'',
     u_role = js ''resident'', u_property = None\<rparr>],
     t_members := [\<lparr>m_id = js ''m1'', m_name = js ''Bola'', m_employee = Some (js ''U1''), m_status = js ''active'',
       m_property = js ''p1'', m_primary = js ''u1'', m_linked = None, m_can_visitors = False, m_can_bills = False\<rparr>]\<rparr>"

definition ids_uuids :: "jstr list" where
  "ids_uuids = [js ''9f1c0a2e-0000-4000-8000-1234567890ab'']"

lemma ids_db_run:
  "map_option fst (ensure_person_employee_id ids_db ids_uuids Account (js ''u1''))
     = Some (Some (js ''1c0a2e0000400080001234567890ab''))"
  by code_simp

theorem assigned_ids_stay_unique_witness:
  "\<exists>db'. ensure_person_employee_id ids_db ids_uuids Account (js ''u1'')
       = Some (Some (js ''1c0a2e0000400080001234567890ab''), db')
     \<and> unique_ids db' \<and> person_employee db' Account (js ''u1'') = Some (Some (js ''1c0a2e0000400080001234567890ab''))"
proof -
  obtain db' where run: "ensure_person_employee_id ids_db ids_uuids Account (js ''u1'')
       = Some (Some (js ''1c0a2e0000400080001234567890ab''), db')"
    using ids_db_run by auto
  have "unique_ids ids_db"
    unfolding unique_ids_def by (auto simp: person_ids_def ids_db_def empty_db_def)
  moreover have "person_employee ids_db Account (js ''u1'') = Some None" by code_simp
  ultimately show ?thesis using assigned_ids_stay_unique [OF _ run] run by blast
qed

text \<open>
  The value resolved for a new person is valid and used by nobody, and a refusal says whether
  the text was invalid or already taken.
\<close>

theorem new_person_id_is_free:
  assumes "resolve_new_employee_id db uuids person supplied = Some r"
  shows "(ir_error r = None \<longrightarrow> (\<exists>v. ir_value r = Some v \<and> employee_id_pattern v \<and> length v \<le> 30
            \<and> (\<forall>p w. (p, w) \<in> set (person_ids db) \<longrightarrow> nocase w \<noteq> nocase v)))
    \<and> (ir_error r \<noteq> None \<longrightarrow> ir_value r = None)
    \<and> (ir_conflict r \<longrightarrow> (\<exists>v. ir_error r = Some (already_assigned v) \<and> employee_id_in_use db v None))"
proof -
  have free: "(\<forall>p w. (p, w) \<in> set (person_ids db) \<longrightarrow> nocase w \<noteq> nocase v)" if "\<not> employee_id_in_use db v None" for v
    using that unfolding in_use_iff by auto
  show ?thesis
    using assms employee_id_value_valid [of supplied] employee_id_from_uuid_valid [of "Str person"]
      new_employee_id_free [of db uuids] free
    by (auto simp: resolve_new_employee_id_def Let_def employee_id_max_def split: if_splits option.splits)
qed

theorem new_person_id_is_free_witness:
  "\<exists>r. resolve_new_employee_id ids_db ids_uuids (js ''u2'') (Str (js ''u1'')) = Some r
     \<and> (ir_error r \<noteq> None \<longrightarrow> ir_value r = None) \<and> ir_conflict r"
proof -
  have "resolve_new_employee_id ids_db ids_uuids (js ''u2'') (Str (js ''u1''))
     = Some \<lparr>ir_value = None, ir_error = Some (already_assigned (js ''u1'')), ir_conflict = True\<rparr>"
    by code_simp
  then show ?thesis using new_person_id_is_free [OF \<open>_ = Some _\<close>] by auto
qed

end
