(* ===== verification/DeviceSync.thy ===== *)
theory DeviceSync
  imports Database JsonParse EmployeeIds "HOL-Library.List_Lexorder" "HOL-Library.Product_Lexorder"
begin

text \<open>
  \<^verbatim>\<open>device-sync.ts\<close>: the person record, the cards and the fingerprints a terminal
  should hold, queued as operations, and what the portal records about each terminal.
\<close>

record person_ref =
  pr_kind :: person_kind
  pr_id :: jstr
  pr_name :: jstr
  pr_employee :: "jstr option"
  pr_status :: jstr

record sync_device =
  sd_id :: jstr
  sd_name :: jstr
  sd_gate :: jstr
  sd_pattern :: jstr
  sd_caps :: "jstr list"
  sd_agent :: bool
  sd_doors :: "int list"

subsection \<open>What an agent can do\<close>

datatype capability = CardWork | PersonWork | FingerprintWork | DoorWork | VisitorWork

definition capability_text :: "capability \<Rightarrow> jstr" where
  "capability_text c =
     (case c of CardWork \<Rightarrow> js ''card'' | PersonWork \<Rightarrow> js ''person'' | FingerprintWork \<Rightarrow> js ''fingerprint''
      | DoorWork \<Rightarrow> js ''door'' | VisitorWork \<Rightarrow> js ''visitor'')"

definition agent_can :: "sync_device \<Rightarrow> capability \<Rightarrow> bool" where
  "agent_can d c =
    (if \<not> sd_agent d then False
     else if sd_caps d = [] then c \<in> {CardWork, VisitorWork, DoorWork}
     else capability_text c \<in> set (sd_caps d))"

definition sync_operation_patterns :: "jstr list" where
  "sync_operation_patterns =
     [js ''windows_agent'', js ''android_bridge'', js ''isapi_bridge'', js ''cloud_agent'']"

definition sync_is_pending_pattern :: "jstr option \<Rightarrow> bool" where
  "sync_is_pending_pattern p \<longleftrightarrow> (case p of None \<Rightarrow> False | Some s \<Rightarrow> s \<noteq> [] \<and> s \<in> set sync_operation_patterns)"

definition parse_capabilities :: "jval \<Rightarrow> jstr list" where
  "parse_capabilities raw =
    (case raw of
       Str s \<Rightarrow>
         if trim s = [] then []
         else (case json_parse s of
                 Some (Arr vs) \<Rightarrow> filter (\<lambda>w. w \<noteq> []) (map (\<lambda>v. trim (lower (to_string v))) vs)
               | _ \<Rightarrow> [])
     | _ \<Rightarrow> [])"

subsection \<open>The terminals\<close>

text \<open>The capabilities column of the agent joined to a terminal, null without one.\<close>

definition linked_capabilities :: "db \<Rightarrow> jstr \<Rightarrow> jstr option" where
  "linked_capabilities db dev =
    (case List.find (\<lambda>(c, a). cfg_device c = dev \<and> cfg_sync_enabled c \<and> cfg_agent c = Some (ag_id a) \<and> \<not> ag_deleted a)
        (List.product (t_configs db) (t_agents db)) of
       None \<Rightarrow> None
     | Some (c, a) \<Rightarrow> ag_capabilities a)"

definition linked_agents :: "db \<Rightarrow> jstr \<Rightarrow> nat" where
  "linked_agents db dev =
     length (filter (\<lambda>c. cfg_device c = dev \<and> cfg_sync_enabled c \<and> cfg_agent c \<noteq> None) (t_configs db))"

definition add_door :: "int \<Rightarrow> int list \<Rightarrow> int list" where
  "add_door ch doors = (if ch < 1 \<or> 8 < ch \<or> ch \<in> set doors then doors else doors @ [ch])"

definition device_doors :: "db \<Rightarrow> jstr \<Rightarrow> int list" where
  "device_doors db dev =
    (let doors = fold (\<lambda>p. add_door (ap_channel p)) (filter (\<lambda>p. ap_enabled p \<and> ap_device p = dev) (t_points db)) []
     in if doors = [] then [1] else doors)"

definition chosen_device :: "jstr list option \<Rightarrow> jstr \<Rightarrow> bool" where
  "chosen_device ids dev \<longleftrightarrow> (case ids of None \<Rightarrow> True | Some l \<Rightarrow> l = [] \<or> dev \<in> set l)"

definition sync_device_row :: "db \<Rightarrow> device \<Rightarrow> sync_device" where
  "sync_device_row db d =
     \<lparr>sd_id = d_id d, sd_name = d_name d, sd_gate = d_gate_name d, sd_pattern = d_pattern d,
      sd_caps = parse_capabilities (nullable (linked_capabilities db (d_id d))),
      sd_agent = (0 < linked_agents db (d_id d)), sd_doors = device_doors db (d_id d)\<rparr>"

definition sync_devices :: "db \<Rightarrow> jstr list option \<Rightarrow> sync_device list" where
  "sync_devices db ids =
     map (sync_device_row db)
       (sort_key (\<lambda>d. (d_gate_name d, d_name d)) (filter (\<lambda>d. chosen_device ids (d_id d)) (enabled_devices db)))"

subsection \<open>The person\<close>

definition read_person :: "db \<Rightarrow> person_kind \<Rightarrow> jstr \<Rightarrow> person_ref option" where
  "read_person db k i =
    (case k of
       Account \<Rightarrow> map_option (\<lambda>u. \<lparr>pr_kind = k, pr_id = u_id u, pr_name = u_name u, pr_employee = u_employee u, pr_status = u_status u\<rparr>)
         (List.find (\<lambda>u. u_id u = i) (t_users db))
     | Dependant \<Rightarrow> map_option (\<lambda>m. \<lparr>pr_kind = k, pr_id = m_id m, pr_name = m_name m, pr_employee = m_employee m, pr_status = m_status m\<rparr>)
         (List.find (\<lambda>m. m_id m = i) (t_members db)))"

definition person_key_for :: "jstr option \<Rightarrow> jstr option \<Rightarrow> (person_kind \<times> jstr) option" where
  "person_key_for resident member =
    (if truthy_text member then Some (Dependant, the member)
     else if truthy_text resident then Some (Account, the resident)
     else None)"

definition kind_text :: "person_kind \<Rightarrow> jstr" where
  "kind_text k = (case k of Account \<Rightarrow> js ''account'' | Dependant \<Rightarrow> js ''dependant'')"

definition person_body :: "person_ref \<Rightarrow> sync_device \<Rightarrow> jstr \<Rightarrow> jval" where
  "person_body p d reason = Obj
     [(js ''employeeNo'', nullable (pr_employee p)),
      (js ''name'', Str (pr_name p)),
      (js ''userType'', Str (js ''normal'')),
      (js ''Valid'', Obj [(js ''enable'', Bool False), (js ''beginTime'', Str (js ''2020-01-01T00:00:00'')),
         (js ''endTime'', Str (js ''2037-12-31T23:59:59'')), (js ''timeType'', Str (js ''local''))]),
      (js ''doorRight'', Str (join (js '','') (map show_int (sd_doors d)))),
      (js ''RightPlan'', Arr (map (\<lambda>n. Obj [(js ''doorNo'', Num n), (js ''planTemplateNo'', Str (js ''1''))]) (sd_doors d))),
      (js ''doorNumbers'', Arr (map Num (sd_doors d))),
      (js ''personKind'', Str (kind_text (pr_kind p))),
      (js ''personId'', Str (pr_id p)),
      (js ''reason'', Str reason)]"

subsection \<open>Open operations and recorded states\<close>

datatype match_column = UserColumn | MemberColumn | CardColumn | FingerprintColumn

definition column_value :: "match_column \<Rightarrow> device_op \<Rightarrow> jstr option" where
  "column_value c r =
    (case c of UserColumn \<Rightarrow> o_user r | MemberColumn \<Rightarrow> o_member r | CardColumn \<Rightarrow> o_card r | FingerprintColumn \<Rightarrow> o_fingerprint r)"

definition is_open :: "op_status \<Rightarrow> bool" where
  "is_open st \<longleftrightarrow> st \<in> {Pending, Sent, ManualAction}"

definition open_operation_exists :: "device_op list \<Rightarrow> jstr \<Rightarrow> jstr \<Rightarrow> match_column \<Rightarrow> jstr \<Rightarrow> bool" where
  "open_operation_exists rows dev opn col i \<longleftrightarrow>
     list_ex (\<lambda>r. o_device r = dev \<and> o_operation r = opn \<and> column_value col r = Some i \<and> is_open (o_status r)) rows"

record state_options =
  so_operation :: "jstr option"
  so_error :: "jstr option"
  so_fingers :: "nat option"
  so_cards :: "nat option"

definition no_options :: state_options where
  "no_options = \<lparr>so_operation = None, so_error = None, so_fingers = None, so_cards = None\<rparr>"

definition state_key :: "person_kind \<Rightarrow> jstr \<Rightarrow> jstr \<Rightarrow> person_state \<Rightarrow> bool" where
  "state_key k i dev s \<longleftrightarrow> ps_kind s = k \<and> ps_person s = i \<and> ps_device s = dev"

definition update_person_state ::
    "int \<Rightarrow> person_ref \<Rightarrow> person_sync_state \<Rightarrow> state_options \<Rightarrow> person_state \<Rightarrow> person_state" where
  "update_person_state now p st opts s =
     s\<lparr>ps_employee := pr_employee p, ps_name := Some (pr_name p), ps_state := st,
       ps_fingers := coalesce (so_fingers opts) (ps_fingers s), ps_cards := coalesce (so_cards opts) (ps_cards s),
       ps_last_op := so_operation opts, ps_error := so_error opts,
       ps_synced := (if st = Synced then Some (sql_now now) else ps_synced s), ps_updated := sql_now now\<rparr>"

definition set_device_person_state ::
    "host \<Rightarrow> int \<Rightarrow> person_ref \<Rightarrow> jstr \<Rightarrow> person_sync_state \<Rightarrow> state_options \<Rightarrow> db \<Rightarrow> db" where
  "set_device_person_state H now p dev st opts db =
    (case List.find (state_key (pr_kind p) (pr_id p) dev) (t_person_states db) of
       Some e \<Rightarrow>
         db\<lparr>t_person_states := update_where (\<lambda>s. ps_id s = ps_id e) (update_person_state now p st opts) (t_person_states db)\<rparr>
     | None \<Rightarrow>
         drawn 1 (db\<lparr>t_person_states := t_person_states db @
           [\<lparr>ps_id = draw H db, ps_kind = pr_kind p, ps_person = pr_id p, ps_device = dev, ps_employee = pr_employee p,
             ps_name = Some (pr_name p), ps_state = st, ps_fingers = coalesce (so_fingers opts) 0,
             ps_cards = coalesce (so_cards opts) 0, ps_last_op = so_operation opts, ps_error = so_error opts,
             ps_synced = (if st = Synced then Some (sql_now now) else None), ps_updated = sql_now now\<rparr>]\<rparr>))"

subsection \<open>Credentials and held templates\<close>

definition card_of :: "person_kind \<Rightarrow> jstr \<Rightarrow> access_card \<Rightarrow> bool" where
  "card_of k i c \<longleftrightarrow> (case k of Account \<Rightarrow> ac_resident c = Some i \<and> ac_member c = None | Dependant \<Rightarrow> ac_member c = Some i)"

definition finger_of :: "person_kind \<Rightarrow> jstr \<Rightarrow> fingerprint \<Rightarrow> bool" where
  "finger_of k i f \<longleftrightarrow> (case k of Account \<Rightarrow> fp_resident f = i \<and> fp_member f = None | Dependant \<Rightarrow> fp_member f = Some i)"

record finger_ref =
  fr_id :: jstr
  fr_no :: nat
  fr_label :: "jstr option"
  fr_employee :: "jstr option"
  fr_status :: jstr

definition finger_ref_of :: "fingerprint \<Rightarrow> finger_ref" where
  "finger_ref_of f =
     \<lparr>fr_id = fp_id f, fr_no = fp_no f, fr_label = fp_label f, fr_employee = fp_employee f, fr_status = fp_status f\<rparr>"

record credentials =
  cr_cards :: "access_card list"
  cr_fingers :: "finger_ref list"

definition credentials_for_person :: "db \<Rightarrow> person_ref \<Rightarrow> credentials" where
  "credentials_for_person db p =
     \<lparr>cr_cards = filter (card_of (pr_kind p) (pr_id p)) (t_cards db),
      cr_fingers = map finger_ref_of (filter (finger_of (pr_kind p) (pr_id p)) (t_fingers db))\<rparr>"

definition holds_template :: "int \<Rightarrow> person_ref \<Rightarrow> nat \<Rightarrow> capture \<Rightarrow> bool" where
  "holds_template now p no c \<longleftrightarrow>
     (case pr_kind p of Account \<Rightarrow> cp_resident c = pr_id p \<and> cp_member c = None | Dependant \<Rightarrow> cp_member c = Some (pr_id p))
     \<and> cp_finger_no c = no \<and> cp_status c = js ''captured'' \<and> cp_template c \<noteq> None \<and> sql_now now < cp_expires c"

text \<open>\<open>ORDER BY updated_at DESC LIMIT 1\<close>.\<close>

definition held_template_for :: "int \<Rightarrow> db \<Rightarrow> person_ref \<Rightarrow> nat \<Rightarrow> capture option" where
  "held_template_for now db p no =
     (case sort_key (\<lambda>c. - cp_updated c) (filter (holds_template now p no) (t_captures db)) of
        [] \<Rightarrow> None | c # _ \<Rightarrow> Some c)"

subsection \<open>One fingerprint on one terminal\<close>

datatype upload_outcome = Queued | ManualTask | Skipped

definition finger_label :: "finger_ref \<Rightarrow> jstr" where
  "finger_label f =
    (case fr_label f of
       None \<Rightarrow> js ''finger '' @ show_nat (fr_no f)
     | Some l \<Rightarrow> if trim l = [] then js ''finger '' @ show_nat (fr_no f) else trim l)"

definition upload_is_open :: "db \<Rightarrow> jstr \<Rightarrow> jstr \<Rightarrow> bool" where
  "upload_is_open db dev fid \<longleftrightarrow>
     list_ex (\<lambda>r. o_device r = dev \<and> o_fingerprint r = Some fid
       \<and> o_operation r \<in> {js ''upload_fingerprint'', js ''delete_fingerprint_device''} \<and> is_open (o_status r)) (t_device_ops db)"

definition upload_employee :: "person_ref \<Rightarrow> finger_ref \<Rightarrow> jstr option" where
  "upload_employee p f = (case fr_employee f of None \<Rightarrow> pr_employee p | Some e \<Rightarrow> Some e)"

definition upload_payload :: "person_ref \<Rightarrow> finger_ref \<Rightarrow> capture option \<Rightarrow> jstr \<Rightarrow> jval" where
  "upload_payload p f held reason = Obj
     [(js ''fingerprintId'', Str (fr_id f)), (js ''fingerNo'', Num (int (fr_no f))),
      (js ''employeeNo'', nullable (upload_employee p f)), (js ''personName'', Str (pr_name p)),
      (js ''personKind'', Str (kind_text (pr_kind p))), (js ''personId'', Str (pr_id p)),
      (js ''captureId'', nullable (map_option cp_id held)), (js ''enabled'', Bool (fr_status f = js ''active'')),
      (js ''reason'', Str reason)]"

definition upload_instruction :: "person_ref \<Rightarrow> sync_device \<Rightarrow> finger_ref \<Rightarrow> capture option \<Rightarrow> jstr" where
  "upload_instruction p d f held =
    (case held of
       Some c \<Rightarrow> js ''Send the captured template for '' @ finger_label f @ js '' for '' @ pr_name p @ js '' on '' @ sd_name d
         @ js '' using employee number '' @ to_string (nullable (upload_employee p f)) @ js '' and finger slot ''
         @ show_nat (fr_no f) @ js '', then mark this action applied.''
     | None \<Rightarrow> js ''Enrol '' @ finger_label f @ js '' for '' @ pr_name p @ js '' on '' @ sd_name d
         @ js '': the finger has to be on the terminal'' @ [39]
         @ js ''s own reader (no template is held for this slot yet), using finger slot '' @ show_nat (fr_no f)
         @ (if truthy_text (upload_employee p f) then js '' and employee number '' @ the (upload_employee p f) else [])
         @ js ''. Then mark this action applied.'')"

definition queue_status :: "bool \<Rightarrow> op_status" where
  "queue_status ready = (if ready then Pending else ManualAction)"

definition instruction_for :: "bool \<Rightarrow> jstr \<Rightarrow> jstr option" where
  "instruction_for ready t = (if ready then None else Some (slice_to 1000 t))"

definition fingerprint_upload_operation ::
    "host \<Rightarrow> int \<Rightarrow> person_ref \<Rightarrow> sync_device \<Rightarrow> finger_ref \<Rightarrow> jstr \<Rightarrow> db \<Rightarrow> upload_outcome \<times> db" where
  "fingerprint_upload_operation H now p d f reason db =
    (if upload_is_open db (sd_id d) (fr_id f) then (Skipped, db)
     else let held = (if fr_status f = js ''active'' then held_template_for now db p (fr_no f) else None);
              ready = (agent_can d FingerprintWork \<and> held \<noteq> None);
              row = (new_device_op (draw H db) (sd_id d) (js ''upload_fingerprint'')
                       (json_text (upload_payload p f held reason)) (queue_status ready) now)
                    \<lparr>o_fingerprint := Some (fr_id f), o_capture := map_option cp_id held,
                     o_instruction := instruction_for ready (upload_instruction p d f held)\<rparr>
       in (if ready then Queued else ManualTask, add_device_op row (drawn 1 db)))"

subsection \<open>Synchronising a person\<close>

record sync_result =
  sr_devices :: nat
  sr_queued :: nat
  sr_manual :: nat
  sr_skipped :: nat
  sr_removed :: nat
  sr_unresolved :: "jstr list"

definition empty_result :: sync_result where
  "empty_result = \<lparr>sr_devices = 0, sr_queued = 0, sr_manual = 0, sr_skipped = 0, sr_removed = 0, sr_unresolved = []\<rparr>"

definition count_outcome :: "upload_outcome \<Rightarrow> sync_result \<Rightarrow> sync_result" where
  "count_outcome u r =
    (case u of Queued \<Rightarrow> r\<lparr>sr_queued := sr_queued r + 1\<rparr> | ManualTask \<Rightarrow> r\<lparr>sr_manual := sr_manual r + 1\<rparr>
     | Skipped \<Rightarrow> r\<lparr>sr_skipped := sr_skipped r + 1\<rparr>)"

text \<open>The database, the statements kept for the batch, and the counts.\<close>

type_synonym sync_run = "db \<times> device_op list \<times> sync_result"

definition person_column :: "person_kind \<Rightarrow> match_column" where
  "person_column k = (case k of Account \<Rightarrow> UserColumn | Dependant \<Rightarrow> MemberColumn)"

definition add_instruction :: "person_ref \<Rightarrow> sync_device \<Rightarrow> jstr" where
  "add_instruction p d = js ''Add or update '' @ pr_name p @ js '' (employee number '' @ to_string (nullable (pr_employee p))
     @ js '') on '' @ sd_name d @ js '' with door rights '' @ join (js '', '') (map show_int (sd_doors d))
     @ js '', then mark this action applied.''"

definition person_op :: "jstr \<Rightarrow> int \<Rightarrow> person_ref \<Rightarrow> sync_device \<Rightarrow> jstr \<Rightarrow> jval \<Rightarrow> jstr \<Rightarrow> device_op" where
  "person_op i now p d opn payload instruction =
    (let ready = agent_can d PersonWork in
     (new_device_op i (sd_id d) opn (json_text payload) (queue_status ready) now)
       \<lparr>o_user := (if pr_kind p = Account then Some (pr_id p) else None),
        o_member := (if pr_kind p = Dependant then Some (pr_id p) else None),
        o_instruction := instruction_for ready instruction\<rparr>)"

definition ready_outcome :: "bool \<Rightarrow> upload_outcome" where
  "ready_outcome ready = (if ready then Queued else ManualTask)"

definition push_person :: "host \<Rightarrow> int \<Rightarrow> person_ref \<Rightarrow> jstr \<Rightarrow> sync_device \<Rightarrow> sync_run \<Rightarrow> sync_run" where
  "push_person H now p reason d run =
    (case run of (db, sts, r) \<Rightarrow>
      let ready = agent_can d PersonWork;
          next = (if open_operation_exists (t_device_ops db) (sd_id d) (js ''upsert_person'') (person_column (pr_kind p)) (pr_id p)
                  then (db, sts, count_outcome Skipped r)
                  else (drawn 1 db,
                        sts @ [person_op (draw H db) now p d (js ''upsert_person'') (person_body p d reason) (add_instruction p d)],
                        count_outcome (ready_outcome ready) r))
      in case next of (db1, sts1, r1) \<Rightarrow>
           (set_device_person_state H now p (sd_id d) (if ready then PendingSync else Manual) no_options db1, sts1, r1))"

definition card_operation :: "access_card \<Rightarrow> jstr" where
  "card_operation c = (if ac_status c = js ''active'' then js ''upsert_card'' else js ''disable_card'')"

definition card_payload :: "person_ref \<Rightarrow> access_card \<Rightarrow> jstr \<Rightarrow> jval" where
  "card_payload p c reason = Obj
     [(js ''cardUid'', Str (ac_uid c)), (js ''employeeNo'', nullable (pr_employee p)),
      (js ''residentId'', if pr_kind p = Account then Str (pr_id p) else Null),
      (js ''householdMemberId'', if pr_kind p = Dependant then Str (pr_id p) else Null),
      (js ''enabled'', Bool (ac_status c = js ''active'')), (js ''reason'', Str reason)]"

definition push_card :: "host \<Rightarrow> int \<Rightarrow> person_ref \<Rightarrow> jstr \<Rightarrow> sync_device \<Rightarrow> access_card \<Rightarrow> sync_run \<Rightarrow> sync_run" where
  "push_card H now p reason d c run =
    (case run of (db, sts, r) \<Rightarrow>
      if open_operation_exists (t_device_ops db) (sd_id d) (card_operation c) CardColumn (ac_id c)
      then (db, sts, count_outcome Skipped r)
      else let ready = agent_can d CardWork in
        (drawn 1 db,
         sts @ [(new_device_op (draw H db) (sd_id d) (card_operation c) (json_text (card_payload p c reason)) (queue_status ready) now)
                  \<lparr>o_card := Some (ac_id c)\<rparr>],
         count_outcome (ready_outcome ready) r))"

definition push_finger :: "host \<Rightarrow> int \<Rightarrow> person_ref \<Rightarrow> jstr \<Rightarrow> sync_device \<Rightarrow> finger_ref \<Rightarrow> sync_run \<Rightarrow> sync_run" where
  "push_finger H now p reason d f run =
    (case run of (db, sts, r) \<Rightarrow>
      (case fingerprint_upload_operation H now p d f reason db of (u, db') \<Rightarrow> (db', sts, count_outcome u r)))"

definition push_credentials :: "host \<Rightarrow> int \<Rightarrow> person_ref \<Rightarrow> jstr \<Rightarrow> credentials \<Rightarrow> sync_device \<Rightarrow> sync_run \<Rightarrow> sync_run" where
  "push_credentials H now p reason cr d run =
     fold (push_finger H now p reason d) (cr_fingers cr) (fold (push_card H now p reason d) (cr_cards cr) run)"

definition sync_person_to_devices ::
    "host \<Rightarrow> int \<Rightarrow> person_ref \<Rightarrow> jstr \<Rightarrow> jstr list option \<Rightarrow> bool \<Rightarrow> db \<Rightarrow> sync_result \<times> db" where
  "sync_person_to_devices H now p reason ids include_credentials db =
    (if \<not> truthy_text (pr_employee p) then (empty_result\<lparr>sr_unresolved := [pr_id p]\<rparr>, db)
     else let devices = sync_devices db ids;
              run = fold (push_person H now p reason) devices (db, [], empty_result\<lparr>sr_devices := length devices\<rparr>);
              run' = (if include_credentials
                then fold (push_credentials H now p reason (credentials_for_person (fst run) p)) devices run else run)
       in case run' of (db', sts, r) \<Rightarrow> (r, db'\<lparr>t_device_ops := t_device_ops db' @ sts\<rparr>))"

subsection \<open>Removing a person\<close>

definition delete_payload :: "person_ref \<Rightarrow> bool \<Rightarrow> jstr \<Rightarrow> jval" where
  "delete_payload p full reason = Obj
     [(js ''employeeNo'', nullable (pr_employee p)), (js ''name'', Str (pr_name p)),
      (js ''personKind'', Str (kind_text (pr_kind p))), (js ''personId'', Str (pr_id p)),
      (js ''fullRemoval'', Bool full), (js ''reason'', Str reason)]"

definition delete_instruction :: "person_ref \<Rightarrow> bool \<Rightarrow> sync_device \<Rightarrow> jstr" where
  "delete_instruction p full d = js ''Delete '' @ pr_name p @ js '' (employee number '' @ to_string (nullable (pr_employee p)) @ js '')''
     @ (if full then js '' and every card and fingerprint linked to them'' else [])
     @ js '' from '' @ sd_name d @ js '', then mark this action applied.''"

definition push_removal :: "host \<Rightarrow> int \<Rightarrow> person_ref \<Rightarrow> jstr \<Rightarrow> bool \<Rightarrow> sync_device \<Rightarrow> sync_run \<Rightarrow> sync_run" where
  "push_removal H now p reason full d run =
    (case run of (db, sts, r) \<Rightarrow>
      let next = (if open_operation_exists (t_device_ops db) (sd_id d) (js ''delete_person'') (person_column (pr_kind p)) (pr_id p)
                  then (db, sts, count_outcome Skipped r)
                  else (drawn 1 db,
                        sts @ [person_op (draw H db) now p d (js ''delete_person'') (delete_payload p full reason) (delete_instruction p full d)],
                        count_outcome (ready_outcome (agent_can d PersonWork)) r))
      in case next of (db1, sts1, r1) \<Rightarrow>
           (set_device_person_state H now p (sd_id d) RemovedPerson no_options db1, sts1, r1\<lparr>sr_removed := sr_removed r1 + 1\<rparr>))"

definition remove_person_from_devices ::
    "host \<Rightarrow> int \<Rightarrow> person_ref \<Rightarrow> jstr \<Rightarrow> jstr list option \<Rightarrow> bool \<Rightarrow> db \<Rightarrow> sync_result \<times> db" where
  "remove_person_from_devices H now p reason ids full db =
    (if \<not> truthy_text (pr_employee p) then (empty_result\<lparr>sr_unresolved := [pr_id p]\<rparr>, db)
     else let devices = sync_devices db ids in
       case fold (push_removal H now p reason full) devices (db, [], empty_result\<lparr>sr_devices := length devices\<rparr>) of
         (db', sts, r) \<Rightarrow> (r, db'\<lparr>t_device_ops := t_device_ops db' @ sts\<rparr>))"

subsection \<open>The contract of a synchronisation step\<close>

definition run_ops :: "sync_run \<Rightarrow> device_op list" where
  "run_ops run = t_device_ops (fst run) @ fst (snd run)"

text \<open>The tables a synchronisation reads and never writes.\<close>

definition same_estate :: "db \<Rightarrow> db \<Rightarrow> bool" where
  "same_estate db db' \<longleftrightarrow> t_devices db' = t_devices db \<and> t_configs db' = t_configs db \<and> t_agents db' = t_agents db
     \<and> t_points db' = t_points db \<and> t_cards db' = t_cards db \<and> t_fingers db' = t_fingers db"

lemma same_estate_refl [simp]: "same_estate db db"
  and same_estate_trans: "same_estate a b \<Longrightarrow> same_estate b c \<Longrightarrow> same_estate a c"
  by (simp_all add: same_estate_def)

lemma linked_capabilities_cong: "same_estate db db' \<Longrightarrow> linked_capabilities db' = linked_capabilities db"
  and linked_agents_cong: "same_estate db db' \<Longrightarrow> linked_agents db' = linked_agents db"
  and device_doors_cong: "same_estate db db' \<Longrightarrow> device_doors db' = device_doors db"
  by (simp_all add: fun_eq_iff same_estate_def linked_capabilities_def linked_agents_def device_doors_def)

lemma sync_devices_cong: "same_estate db db' \<Longrightarrow> sync_devices db' ids = sync_devices db ids"
  by (simp add: sync_devices_def sync_device_row_def [abs_def] linked_capabilities_cong linked_agents_cong device_doors_cong)
    (simp add: same_estate_def enabled_devices_def)

lemma credentials_cong: "same_estate db db' \<Longrightarrow> credentials_for_person db' p = credentials_for_person db p"
  by (simp add: same_estate_def credentials_for_person_def)

definition quiet :: "sync_run \<Rightarrow> sync_run \<Rightarrow> bool" where
  "quiet run run' \<longleftrightarrow> t_device_ops (fst run') = t_device_ops (fst run) \<and> fst (snd run') = fst (snd run)
     \<and> sr_queued (snd (snd run')) = sr_queued (snd (snd run)) \<and> sr_manual (snd (snd run')) = sr_manual (snd (snd run))"

lemma quiet_refl [simp]: "quiet run run"
  and quiet_trans: "quiet a b \<Longrightarrow> quiet b c \<Longrightarrow> quiet a c"
  by (simp_all add: quiet_def)

lemma quiet_ops: "quiet a b \<Longrightarrow> t_device_ops (fst b) = t_device_ops (fst a)"
  by (simp add: quiet_def)

text \<open>
  \<open>step x\<close> looks after the demand \<open>x\<close>: it only adds rows that are \<open>allowed\<close> for it, leaves the
  demand settled by the rows, and does nothing when the stored rows settle it already.
\<close>

locale sync_step =
  fixes step :: "'x \<Rightarrow> sync_run \<Rightarrow> sync_run"
    and settled :: "'x \<Rightarrow> device_op list \<Rightarrow> bool"
    and allowed :: "'x \<Rightarrow> device_op \<Rightarrow> bool"
  assumes step_estate: "same_estate (fst run) (fst (step x run))"
    and step_grows: "set (run_ops run) \<subseteq> set (run_ops (step x run))"
    and step_adds: "r \<in> set (run_ops (step x run)) \<Longrightarrow> r \<in> set (run_ops run) \<or> allowed x r"
    and step_settles: "settled x (run_ops (step x run))"
    and step_quiet: "settled x (t_device_ops (fst run)) \<Longrightarrow> quiet run (step x run)"
    and settled_mono: "settled x rows \<Longrightarrow> set rows \<subseteq> set rows' \<Longrightarrow> settled x rows'"
begin

lemma fold_estate: "same_estate (fst run) (fst (fold step xs run))"
proof (induction xs arbitrary: run)
  case (Cons y xs)
  show ?case using same_estate_trans [OF step_estate Cons.IH] by simp
qed simp

lemma fold_grows: "set (run_ops run) \<subseteq> set (run_ops (fold step xs run))"
  by (induction xs arbitrary: run) (use step_grows in fastforce)+

lemma fold_adds:
  "r \<in> set (run_ops (fold step xs run)) \<Longrightarrow> r \<in> set (run_ops run) \<or> (\<exists>x\<in>set xs. allowed x r)"
  by (induction xs arbitrary: run) (use step_adds in fastforce)+

lemma fold_settles: "x \<in> set xs \<Longrightarrow> settled x (run_ops (fold step xs run))"
proof (induction xs arbitrary: run)
  case (Cons y xs)
  show ?case
  proof (cases "x \<in> set xs")
    case False
    then have "settled x (run_ops (step y run))" using Cons.prems step_settles by auto
    then show ?thesis using fold_grows [of "step y run" xs] settled_mono by simp
  qed (use Cons in simp)
qed simp

lemma fold_quiet:
  "(\<And>x. x \<in> set xs \<Longrightarrow> settled x (t_device_ops (fst run))) \<Longrightarrow> quiet run (fold step xs run)"
proof (induction xs arbitrary: run)
  case (Cons y xs)
  have one: "quiet run (step y run)" using Cons.prems by (intro step_quiet) simp
  have "quiet (step y run) (fold step xs (step y run))"
    using Cons.prems by (intro Cons.IH) (simp add: quiet_ops [OF one])
  with one show ?case by (simp add: quiet_trans)
qed simp

end

subsection \<open>The steps of the code\<close>

definition work_of :: "jstr \<Rightarrow> capability" where
  "work_of opn =
    (if opn \<in> {js ''upsert_person'', js ''delete_person''} then PersonWork
     else if opn = js ''upload_fingerprint'' then FingerprintWork else CardWork)"

text \<open>An operation is left to an agent exactly when the agent of its terminal can do that work.\<close>

definition handed_out_rightly :: "sync_device \<Rightarrow> device_op \<Rightarrow> bool" where
  "handed_out_rightly d r \<longleftrightarrow> o_device r = sd_id d
     \<and> (o_status r = Pending \<and> agent_can d (work_of (o_operation r)) \<and> (work_of (o_operation r) = FingerprintWork \<longrightarrow> o_capture r \<noteq> None)
        \<or> o_status r = ManualAction \<and> (agent_can d (work_of (o_operation r)) \<longrightarrow> work_of (o_operation r) = FingerprintWork \<and> o_capture r = None))"

lemma open_operation_mono:
  "open_operation_exists rows dev opn col i \<Longrightarrow> set rows \<subseteq> set rows' \<Longrightarrow> open_operation_exists rows' dev opn col i"
  by (auto simp: open_operation_exists_def list_ex_iff)

lemma set_state_tables [simp]:
  "t_device_ops (set_device_person_state H now p dev st opts db) = t_device_ops db"
  "same_estate db (set_device_person_state H now p dev st opts db)"
  by (simp_all add: set_device_person_state_def drawn_def same_estate_def split: option.splits)

lemma drawn_tables [simp]: "t_device_ops (drawn n db) = t_device_ops db" "same_estate db (drawn n db)"
  by (simp_all add: drawn_def same_estate_def)

lemma is_open_queue [simp]: "is_open (queue_status ready)"
  by (simp add: is_open_def queue_status_def)

lemma person_column_value [simp]:
  "column_value (person_column (pr_kind p)) (person_op i now p d opn payload t) = Some (pr_id p)"
  by (cases "pr_kind p") (simp_all add: column_value_def person_column_def person_op_def Let_def)

lemma person_op_fields [simp]:
  "o_device (person_op i now p d opn payload t) = sd_id d" "o_operation (person_op i now p d opn payload t) = opn"
  "o_status (person_op i now p d opn payload t) = queue_status (agent_can d PersonWork)"
  by (simp_all add: person_op_def Let_def new_device_op_def)

lemma person_op_handed_out [simp]:
  "opn \<in> {js ''upsert_person'', js ''delete_person''} \<Longrightarrow> handed_out_rightly d (person_op i now p d opn payload t)"
  by (auto simp: handed_out_rightly_def work_of_def queue_status_def)

lemma count_skipped [simp]:
  "sr_queued (count_outcome Skipped r) = sr_queued r" "sr_manual (count_outcome Skipped r) = sr_manual r"
  by (simp_all add: count_outcome_def)

definition person_settled :: "person_ref \<Rightarrow> jstr \<Rightarrow> sync_device \<Rightarrow> device_op list \<Rightarrow> bool" where
  "person_settled p opn d rows \<longleftrightarrow> open_operation_exists rows (sd_id d) opn (person_column (pr_kind p)) (pr_id p)"

lemma open_exists_append [simp]:
  "open_operation_exists (xs @ ys) dev opn col i \<longleftrightarrow> open_operation_exists xs dev opn col i \<or> open_operation_exists ys dev opn col i"
  by (simp add: open_operation_exists_def)

lemma open_exists_person_op [simp]:
  "open_operation_exists [person_op i now p d opn payload t] (sd_id d) opn (person_column (pr_kind p)) (pr_id p)"
  by (simp add: open_operation_exists_def)

interpretation person_step: sync_step "push_person H now p reason" "person_settled p (js ''upsert_person'')" handed_out_rightly
  for H now p reason
proof
  fix run :: sync_run and x r and rows rows' :: "device_op list"
  obtain db sts res where run: "run = (db, sts, res)" by (cases run)
  show "same_estate (fst run) (fst (push_person H now p reason x run))"
    by (simp add: run push_person_def Let_def) (meson drawn_tables(2) same_estate_trans set_state_tables(2))
  show "set (run_ops run) \<subseteq> set (run_ops (push_person H now p reason x run))"
    by (auto simp: run push_person_def run_ops_def Let_def)
  show "r \<in> set (run_ops (push_person H now p reason x run)) \<Longrightarrow> r \<in> set (run_ops run) \<or> handed_out_rightly x r"
    by (auto simp: run push_person_def run_ops_def Let_def split: if_splits)
  show "person_settled p (js ''upsert_person'') x (run_ops (push_person H now p reason x run))"
    by (simp add: run push_person_def run_ops_def person_settled_def Let_def)
  show "person_settled p (js ''upsert_person'') x (t_device_ops (fst run)) \<Longrightarrow> quiet run (push_person H now p reason x run)"
    by (simp add: run push_person_def quiet_def person_settled_def Let_def)
  show "person_settled p (js ''upsert_person'') x rows \<Longrightarrow> set rows \<subseteq> set rows' \<Longrightarrow> person_settled p (js ''upsert_person'') x rows'"
    unfolding person_settled_def by (rule open_operation_mono)
qed


interpretation removal_step: sync_step "push_removal H now p reason full" "person_settled p (js ''delete_person'')" handed_out_rightly
  for H now p reason full
proof
  fix run :: sync_run and x r and rows rows' :: "device_op list"
  obtain db sts res where run: "run = (db, sts, res)" by (cases run)
  show "same_estate (fst run) (fst (push_removal H now p reason full x run))"
    by (simp add: run push_removal_def Let_def) (meson drawn_tables(2) same_estate_trans set_state_tables(2))
  show "set (run_ops run) \<subseteq> set (run_ops (push_removal H now p reason full x run))"
    by (auto simp: run push_removal_def run_ops_def Let_def)
  show "r \<in> set (run_ops (push_removal H now p reason full x run)) \<Longrightarrow> r \<in> set (run_ops run) \<or> handed_out_rightly x r"
    by (auto simp: run push_removal_def run_ops_def Let_def split: if_splits)
  show "person_settled p (js ''delete_person'') x (run_ops (push_removal H now p reason full x run))"
    by (simp add: run push_removal_def run_ops_def person_settled_def Let_def)
  show "person_settled p (js ''delete_person'') x (t_device_ops (fst run)) \<Longrightarrow> quiet run (push_removal H now p reason full x run)"
    by (simp add: run push_removal_def quiet_def person_settled_def Let_def)
  show "person_settled p (js ''delete_person'') x rows \<Longrightarrow> set rows \<subseteq> set rows' \<Longrightarrow> person_settled p (js ''delete_person'') x rows'"
    unfolding person_settled_def by (rule open_operation_mono)
qed

definition card_settled :: "sync_device \<Rightarrow> access_card \<Rightarrow> device_op list \<Rightarrow> bool" where
  "card_settled d c rows \<longleftrightarrow> open_operation_exists rows (sd_id d) (card_operation c) CardColumn (ac_id c)"

lemma new_op_fields [simp]:
  "o_device (new_device_op i dev opn payload st now) = dev" "o_operation (new_device_op i dev opn payload st now) = opn"
  "o_status (new_device_op i dev opn payload st now) = st"
  by (simp_all add: new_device_op_def)

lemma card_work [simp]: "work_of (card_operation c) = CardWork"
  by (simp add: work_of_def card_operation_def)

interpretation card_step: sync_step "push_card H now p reason d" "card_settled d" "\<lambda>c. handed_out_rightly d"
  for H now p reason d
proof
  fix run :: sync_run and x r and rows rows' :: "device_op list"
  obtain db sts res where run: "run = (db, sts, res)" by (cases run)
  show "same_estate (fst run) (fst (push_card H now p reason d x run))"
    by (simp add: run push_card_def Let_def)
  show "set (run_ops run) \<subseteq> set (run_ops (push_card H now p reason d x run))"
    by (auto simp: run push_card_def run_ops_def Let_def)
  show "r \<in> set (run_ops (push_card H now p reason d x run)) \<Longrightarrow> r \<in> set (run_ops run) \<or> handed_out_rightly d r"
    by (auto simp: run push_card_def run_ops_def Let_def handed_out_rightly_def queue_status_def split: if_splits)
  show "card_settled d x (run_ops (push_card H now p reason d x run))"
    by (simp add: run push_card_def run_ops_def card_settled_def Let_def)
      (simp add: open_operation_exists_def column_value_def)
  show "card_settled d x (t_device_ops (fst run)) \<Longrightarrow> quiet run (push_card H now p reason d x run)"
    by (simp add: run push_card_def quiet_def card_settled_def Let_def)
  show "card_settled d x rows \<Longrightarrow> set rows \<subseteq> set rows' \<Longrightarrow> card_settled d x rows'"
    unfolding card_settled_def by (rule open_operation_mono)
qed

definition finger_settled :: "sync_device \<Rightarrow> finger_ref \<Rightarrow> device_op list \<Rightarrow> bool" where
  "finger_settled d f rows \<longleftrightarrow>
     (\<exists>r\<in>set rows. o_device r = sd_id d \<and> o_fingerprint r = Some (fr_id f)
       \<and> o_operation r \<in> {js ''upload_fingerprint'', js ''delete_fingerprint_device''} \<and> is_open (o_status r))"

lemma upload_is_open_iff: "upload_is_open db (sd_id d) (fr_id f) \<longleftrightarrow> finger_settled d f (t_device_ops db)"
  by (auto simp: upload_is_open_def finger_settled_def list_ex_iff)

text \<open>What the upload of one fingerprint does: nothing, or one row that settles it.\<close>

lemma upload_cases:
  obtains "finger_settled d f (t_device_ops db)" "fingerprint_upload_operation H now p d f reason db = (Skipped, db)"
  | row u where "\<not> finger_settled d f (t_device_ops db)" "u \<noteq> Skipped"
      "fingerprint_upload_operation H now p d f reason db = (u, add_device_op row (drawn 1 db))"
      "finger_settled d f [row]" "handed_out_rightly d row" "o_operation row = js ''upload_fingerprint''"
proof (cases "upload_is_open db (sd_id d) (fr_id f)")
  case True
  then show thesis using that(1) by (simp add: fingerprint_upload_operation_def upload_is_open_iff)
next
  case False
  let ?held = "if fr_status f = js ''active'' then held_template_for now db p (fr_no f) else None"
  let ?ready = "agent_can d FingerprintWork \<and> ?held \<noteq> None"
  let ?row = "(new_device_op (draw H db) (sd_id d) (js ''upload_fingerprint'')
       (json_text (upload_payload p f ?held reason)) (queue_status ?ready) now)
     \<lparr>o_fingerprint := Some (fr_id f), o_capture := map_option cp_id ?held,
      o_instruction := instruction_for ?ready (upload_instruction p d f ?held)\<rparr>"
  have "fingerprint_upload_operation H now p d f reason db = (if ?ready then Queued else ManualTask, add_device_op ?row (drawn 1 db))"
    using False by (simp only: fingerprint_upload_operation_def Let_def if_False)
  moreover have "finger_settled d f [?row]"
    by (simp add: finger_settled_def)
  moreover have "handed_out_rightly d ?row"
    by (auto simp: handed_out_rightly_def work_of_def queue_status_def)
  moreover have "\<not> finger_settled d f (t_device_ops db)" using False by (simp add: upload_is_open_iff)
  ultimately show thesis by (intro that(2) [of "if ?ready then Queued else ManualTask" ?row]) auto
qed

lemma add_device_op_tables [simp]:
  "t_device_ops (add_device_op r db) = t_device_ops db @ [r]" "same_estate db (add_device_op r (drawn n db))"
  by (simp_all add: add_device_op_def drawn_def same_estate_def)

interpretation finger_step: sync_step "push_finger H now p reason d" "finger_settled d" "\<lambda>f. handed_out_rightly d"
  for H now p reason d
proof
  fix run :: sync_run and x r and rows rows' :: "device_op list"
  obtain db sts res where run: "run = (db, sts, res)" by (cases run)
  have mono: "finger_settled d x rows \<Longrightarrow> set rows \<subseteq> set rows' \<Longrightarrow> finger_settled d x rows'" for rows rows'
    by (auto simp: finger_settled_def)
  then show "finger_settled d x rows \<Longrightarrow> set rows \<subseteq> set rows' \<Longrightarrow> finger_settled d x rows'" .
  have all: "same_estate (fst run) (fst (push_finger H now p reason d x run))
    \<and> set (run_ops run) \<subseteq> set (run_ops (push_finger H now p reason d x run))
    \<and> (r \<in> set (run_ops (push_finger H now p reason d x run)) \<longrightarrow> r \<in> set (run_ops run) \<or> handed_out_rightly d r)
    \<and> finger_settled d x (run_ops (push_finger H now p reason d x run))
    \<and> (finger_settled d x (t_device_ops (fst run)) \<longrightarrow> quiet run (push_finger H now p reason d x run))"
  proof (rule upload_cases [of d x db H now p reason])
    assume "finger_settled d x (t_device_ops db)" "fingerprint_upload_operation H now p d x reason db = (Skipped, db)"
    then show ?thesis using mono [of "t_device_ops db" "t_device_ops db @ sts"]
      by (simp add: run push_finger_def run_ops_def quiet_def)
  next
    fix row u
    assume "\<not> finger_settled d x (t_device_ops db)" "u \<noteq> Skipped"
      "fingerprint_upload_operation H now p d x reason db = (u, add_device_op row (drawn 1 db))"
      "finger_settled d x [row]" "handed_out_rightly d row"
    then show ?thesis using mono [of "[row]" "t_device_ops db @ row # sts"]
      by (auto simp: run push_finger_def run_ops_def)
  qed
  then show "same_estate (fst run) (fst (push_finger H now p reason d x run))"
    and "set (run_ops run) \<subseteq> set (run_ops (push_finger H now p reason d x run))"
    and "r \<in> set (run_ops (push_finger H now p reason d x run)) \<Longrightarrow> r \<in> set (run_ops run) \<or> handed_out_rightly d r"
    and "finger_settled d x (run_ops (push_finger H now p reason d x run))"
    and "finger_settled d x (t_device_ops (fst run)) \<Longrightarrow> quiet run (push_finger H now p reason d x run)"
    by blast+
qed

text \<open>All credentials of a person on one terminal.\<close>

definition credentials_settled :: "credentials \<Rightarrow> sync_device \<Rightarrow> device_op list \<Rightarrow> bool" where
  "credentials_settled cr d rows \<longleftrightarrow>
     (\<forall>c\<in>set (cr_cards cr). card_settled d c rows) \<and> (\<forall>f\<in>set (cr_fingers cr). finger_settled d f rows)"

interpretation credentials_step: sync_step "push_credentials H now p reason cr" "credentials_settled cr" handed_out_rightly
  for H now p reason cr
proof
  fix run :: sync_run and d r and rows rows' :: "device_op list"
  let ?cards = "fold (push_card H now p reason d) (cr_cards cr) run"
  have both: "push_credentials H now p reason cr d run = fold (push_finger H now p reason d) (cr_fingers cr) ?cards"
    by (simp add: push_credentials_def)
  show "same_estate (fst run) (fst (push_credentials H now p reason cr d run))"
    unfolding both using same_estate_trans [OF card_step.fold_estate finger_step.fold_estate] .
  show grows: "set (run_ops run) \<subseteq> set (run_ops (push_credentials H now p reason cr d run))"
    unfolding both using order_trans [OF card_step.fold_grows finger_step.fold_grows] .
  show "r \<in> set (run_ops (push_credentials H now p reason cr d run)) \<Longrightarrow> r \<in> set (run_ops run) \<or> handed_out_rightly d r"
    unfolding both using finger_step.fold_adds card_step.fold_adds by blast
  show "credentials_settled cr d (run_ops (push_credentials H now p reason cr d run))"
    unfolding both credentials_settled_def
    by (intro conjI ballI card_step.settled_mono [OF card_step.fold_settles finger_step.fold_grows] finger_step.fold_settles)
  show "quiet run (push_credentials H now p reason cr d run)" if s: "credentials_settled cr d (t_device_ops (fst run))"
  proof -
    have cards: "quiet run ?cards" using s by (intro card_step.fold_quiet) (simp add: credentials_settled_def)
    moreover have "quiet ?cards (push_credentials H now p reason cr d run)"
      unfolding both using s by (intro finger_step.fold_quiet) (simp add: credentials_settled_def quiet_ops [OF cards])
    ultimately show ?thesis by (rule quiet_trans)
  qed
  show "credentials_settled cr d rows \<Longrightarrow> set rows \<subseteq> set rows' \<Longrightarrow> credentials_settled cr d rows'"
    unfolding credentials_settled_def using card_step.settled_mono finger_step.settled_mono by blast
qed

subsection \<open>The whole synchronisation\<close>

lemma sync_run_cases:
  assumes "truthy_text (pr_employee p)"
  obtains run where
    "sync_person_to_devices H now p reason ids creds db
      = (snd (snd run), (fst run)\<lparr>t_device_ops := run_ops run\<rparr>)"
    "run = (if creds then fold (push_credentials H now p reason (credentials_for_person db p)) (sync_devices db ids)
              (fold (push_person H now p reason) (sync_devices db ids) (db, [], empty_result\<lparr>sr_devices := length (sync_devices db ids)\<rparr>))
            else fold (push_person H now p reason) (sync_devices db ids) (db, [], empty_result\<lparr>sr_devices := length (sync_devices db ids)\<rparr>))"
proof -
  let ?start = "(db, [], empty_result\<lparr>sr_devices := length (sync_devices db ids)\<rparr>) :: sync_run"
  have "credentials_for_person (fst (fold (push_person H now p reason) (sync_devices db ids) ?start)) p = credentials_for_person db p"
    using person_step.fold_estate [of ?start] by (simp add: credentials_cong)
  then show thesis using that assms
    by (simp add: sync_person_to_devices_def Let_def run_ops_def split: prod.split)
qed

definition person_demands :: "db \<Rightarrow> person_ref \<Rightarrow> jstr list option \<Rightarrow> bool \<Rightarrow> device_op list \<Rightarrow> bool" where
  "person_demands db p ids creds rows \<longleftrightarrow>
     (\<forall>d\<in>set (sync_devices db ids). person_settled p (js ''upsert_person'') d rows
        \<and> (creds \<longrightarrow> credentials_settled (credentials_for_person db p) d rows))"

lemma sync_facts:
  assumes p: "truthy_text (pr_employee p)" and run: "sync_person_to_devices H now p reason ids creds db = (r, db')"
  shows "same_estate db db'" "set (t_device_ops db) \<subseteq> set (t_device_ops db')"
    "person_demands db p ids creds (t_device_ops db')"
    "q \<in> set (t_device_ops db') \<Longrightarrow> q \<in> set (t_device_ops db) \<or> (\<exists>d\<in>set (sync_devices db ids). handed_out_rightly d q)"
    "person_demands db p ids creds (t_device_ops db) \<Longrightarrow> t_device_ops db' = t_device_ops db \<and> sr_queued r = 0 \<and> sr_manual r = 0"
proof -
  let ?ds = "sync_devices db ids" and ?cr = "credentials_for_person db p"
  let ?start = "(db, [], empty_result\<lparr>sr_devices := length ?ds\<rparr>) :: sync_run"
  let ?one = "fold (push_person H now p reason) ?ds ?start"
  obtain fin where fin: "sync_person_to_devices H now p reason ids creds db = (snd (snd fin), (fst fin)\<lparr>t_device_ops := run_ops fin\<rparr>)"
    "fin = (if creds then fold (push_credentials H now p reason ?cr) ?ds ?one else ?one)"
    by (rule sync_run_cases [OF p])
  have db': "db' = (fst fin)\<lparr>t_device_ops := run_ops fin\<rparr>" and r: "r = snd (snd fin)" using fin(1) run by simp_all
  have "same_estate db (fst fin)"
    using person_step.fold_estate [of ?start] same_estate_trans [OF person_step.fold_estate [of ?start] credentials_step.fold_estate]
    by (simp add: fin(2))
  then show "same_estate db db'" by (simp add: db' same_estate_def)
  have grow: "set (run_ops ?one) \<subseteq> set (run_ops fin)"
    using credentials_step.fold_grows by (simp add: fin(2))
  have "set (t_device_ops db) \<subseteq> set (run_ops ?one)"
    using person_step.fold_grows [of ?start] by (simp add: run_ops_def)
  then show "set (t_device_ops db) \<subseteq> set (t_device_ops db')" using grow by (simp add: db')
  show "person_demands db p ids creds (t_device_ops db')"
    using person_step.fold_settles person_step.settled_mono [OF _ grow] credentials_step.fold_settles
    by (auto simp: person_demands_def db' fin(2))
  show "q \<in> set (t_device_ops db) \<or> (\<exists>d\<in>set ?ds. handed_out_rightly d q)" if "q \<in> set (t_device_ops db')"
    using that credentials_step.fold_adds [of q H now p reason ?cr ?ds ?one] person_step.fold_adds [of q H now p reason ?ds ?start]
    by (auto simp: db' fin(2) run_ops_def split: if_splits)
  show "t_device_ops db' = t_device_ops db \<and> sr_queued r = 0 \<and> sr_manual r = 0"
    if d: "person_demands db p ids creds (t_device_ops db)"
  proof -
    have one: "quiet ?start ?one" using d by (intro person_step.fold_quiet) (simp add: person_demands_def)
    have "quiet ?one fin"
      using d by (auto simp: fin(2) person_demands_def quiet_ops [OF one] intro!: credentials_step.fold_quiet)
    then have "quiet ?start fin" using one quiet_trans by blast
    then show ?thesis by (simp add: db' r quiet_def run_ops_def empty_result_def)
  qed
qed

subsection \<open>Properties\<close>

text \<open>
  C34: synchronising a person, with or without their credentials, leaves every selected terminal
  with an open operation for everything it should hold, and synchronising again, whenever and for
  whatever reason, queues nothing.
\<close>

theorem synchronising_is_idempotent:
  assumes "sync_person_to_devices H now p reason ids creds db = (r, db')" "truthy_text (pr_employee p)"
    and "sync_person_to_devices H now' p reason' ids creds db' = (r', db'')"
  shows "t_device_ops db'' = t_device_ops db' \<and> sr_queued r' = 0 \<and> sr_manual r' = 0
    \<and> (\<forall>d\<in>set (sync_devices db ids). person_settled p (js ''upsert_person'') d (t_device_ops db')
         \<and> (creds \<longrightarrow> credentials_settled (credentials_for_person db p) d (t_device_ops db')))"
proof -
  have e: "same_estate db db'" and s: "person_demands db p ids creds (t_device_ops db')"
    using sync_facts(1,3) [OF assms(2,1)] by blast+
  have "person_demands db' p ids creds (t_device_ops db')"
    using s by (simp add: person_demands_def sync_devices_cong [OF e] credentials_cong [OF e])
  then show ?thesis
    using sync_facts(5) [OF assms(2,3)] s by (simp add: person_demands_def)
qed

definition sync_db :: db where
  "sync_db = empty_db\<lparr>
     t_devices := [\<lparr>d_id = js ''d1'', d_name = js ''East'', d_gate_name = js ''Main'', d_pattern = js ''isapi_bridge'',
        d_profile = js ''generic'', d_status = js ''online'', d_deleted = False, d_last_sync = None, d_last_sync_status = None\<rparr>,
       \<lparr>d_id = js ''d2'', d_name = js ''West'', d_gate_name = js ''Back'', d_pattern = js ''isapi_bridge'',
        d_profile = js ''generic'', d_status = js ''online'', d_deleted = False, d_last_sync = None, d_last_sync_status = None\<rparr>],
     t_configs := [sample_config (js ''d1'') (js ''a1'')],
     t_agents := [\<lparr>ag_id = js ''a1'', ag_capabilities = Some (json_text (Arr [Str (js ''card''), Str (js ''person''), Str (js ''fingerprint'')])),
        ag_deleted = False\<rparr>],
     t_points := [\<lparr>ap_device = js ''d1'', ap_channel = 2, ap_enabled = True\<rparr>],
     t_cards := [\<lparr>ac_id = js ''c1'', ac_uid = js ''100'', ac_status = js ''active'', ac_resident = Some (js ''u1''), ac_member = None, ac_reason = None, ac_auto = False\<rparr>],
     t_fingers := [\<lparr>fp_id = js ''f1'', fp_no = 2, fp_label = None, fp_employee = Some (js ''E1''), fp_status = js ''active'',
        fp_resident = js ''u1'', fp_member = None, fp_reason = None, fp_auto = False, fp_device = None, fp_by = None\<rparr>]\<rparr>"

definition sync_person :: person_ref where
  "sync_person = \<lparr>pr_kind = Account, pr_id = js ''u1'', pr_name = js ''Ada'', pr_employee = Some (js ''E1''), pr_status = js ''active''\<rparr>"

lemma sync_person_employee: "truthy_text (pr_employee sync_person)"
  by (simp add: sync_person_def truthy_text_def)

theorem synchronising_is_idempotent_witness:
  "sr_queued (fst (sync_person_to_devices sample_host 0 sync_person [] None True sync_db)) = 2
   \<and> sr_queued (fst (sync_person_to_devices sample_host 9 sync_person [] None True
       (snd (sync_person_to_devices sample_host 0 sync_person [] None True sync_db)))) = 0"
proof -
  have "sr_queued (fst (sync_person_to_devices sample_host 0 sync_person [] None True sync_db)) = 2" by code_simp
  then show ?thesis
    using synchronising_is_idempotent [OF surjective_pairing sync_person_employee surjective_pairing] by simp
qed

text \<open>
  An operation a synchronisation adds is for one of the selected, enabled terminals; it is left
  to an agent exactly when the agent of that terminal can do that kind of work, and a fingerprint
  only when a template is held for it. Nothing the queue already held is dropped.
\<close>

theorem only_able_agents_get_work:
  assumes "sync_person_to_devices H now p reason ids creds db = (r, db')" "truthy_text (pr_employee p)"
  shows "(\<forall>q\<in>set (t_device_ops db') - set (t_device_ops db). \<exists>d\<in>set (sync_devices db ids). handed_out_rightly d q)
    \<and> set (t_device_ops db) \<subseteq> set (t_device_ops db')"
  using sync_facts(2,4) [OF assms(2,1)] by blast

theorem only_able_agents_get_work_witness:
  "set (t_device_ops sync_db) \<subseteq> set (t_device_ops (snd (sync_person_to_devices sample_host 0 sync_person [] None True sync_db)))
   \<and> map o_status (t_device_ops (snd (sync_person_to_devices sample_host 0 sync_person [] None True sync_db)))
       = [ManualAction, ManualAction, ManualAction, Pending, ManualAction, Pending]"
proof -
  have "map o_status (t_device_ops (snd (sync_person_to_devices sample_host 0 sync_person [] None True sync_db)))
     = [ManualAction, ManualAction, ManualAction, Pending, ManualAction, Pending]" by code_simp
  then show ?thesis using only_able_agents_get_work [OF surjective_pairing sync_person_employee] by blast
qed

text \<open>
  The patterns of \<^verbatim>\<open>device-sync.ts\<close> that mean an agent delivers (exported, used by no
  handler) are not the mirror of those of \<^verbatim>\<open>index.ts\<close> their comment calls them.
\<close>

lemma pending_patterns_do_not_mirror:
  "is_pending_pattern (js ''isapi_windows_agent'')" "\<not> sync_is_pending_pattern (Some (js ''isapi_windows_agent''))"
  "\<not> is_pending_pattern (js ''android_bridge'')" "sync_is_pending_pattern (Some (js ''android_bridge''))"
  by (simp_all add: is_pending_pattern_def sync_is_pending_pattern_def pending_operation_patterns_def sync_operation_patterns_def)

end
