(* ===== verification/SyncOverview.thy ===== *)
theory SyncOverview
  imports DeviceSync
begin

text \<open>
  \<open>deviceSyncOverview\<close> of \<^verbatim>\<open>device-sync.ts\<close>: every person that can hold a
  credential against every terminal, with the counts per terminal and in total.
\<close>

record overview_person =
  op_kind :: person_kind
  op_id :: jstr
  op_name :: jstr
  op_employee :: "jstr option"
  op_status_text :: jstr
  op_cards :: nat
  op_fingers :: nat

definition overview_limit :: "int option \<Rightarrow> int" where
  "overview_limit l = min 1000 (max 1 (coalesce l 500))"

definition overview_roles :: "jstr list" where
  "overview_roles = [js ''resident'', js ''admin'', js ''manager'', js ''security'', js ''cashier'']"

definition active_cards :: "db \<Rightarrow> person_kind \<Rightarrow> jstr \<Rightarrow> nat" where
  "active_cards db k i = length (filter (\<lambda>c. card_of k i c \<and> ac_status c = js ''active'') (t_cards db))"

definition active_fingers :: "db \<Rightarrow> person_kind \<Rightarrow> jstr \<Rightarrow> nat" where
  "active_fingers db k i = length (filter (\<lambda>f. finger_of k i f \<and> fp_status f = js ''active'') (t_fingers db))"

definition overview_accounts :: "db \<Rightarrow> int \<Rightarrow> overview_person list" where
  "overview_accounts db limit =
     map (\<lambda>u. \<lparr>op_kind = Account, op_id = u_id u, op_name = u_name u, op_employee = u_employee u, op_status_text = u_status u,
            op_cards = active_cards db Account (u_id u), op_fingers = active_fingers db Account (u_id u)\<rparr>)
       (take (nat limit) (sort_key u_name (filter (\<lambda>u. u_status u \<noteq> js ''inactive'' \<and> u_role u \<in> set overview_roles) (t_users db))))"

definition overview_dependants :: "db \<Rightarrow> int \<Rightarrow> overview_person list" where
  "overview_dependants db limit =
     map (\<lambda>m. \<lparr>op_kind = Dependant, op_id = m_id m, op_name = m_name m, op_employee = m_employee m, op_status_text = m_status m,
            op_cards = active_cards db Dependant (m_id m), op_fingers = active_fingers db Dependant (m_id m)\<rparr>)
       (take (nat limit) (sort_key m_name (filter (\<lambda>m. m_status m = js ''active'') (t_members db))))"

text \<open>The Map of the recorded states: the last row of a key is kept.\<close>

definition recorded_state :: "db \<Rightarrow> person_kind \<Rightarrow> jstr \<Rightarrow> jstr \<Rightarrow> person_state option" where
  "recorded_state db k i dev = List.find (state_key k i dev) (rev (t_person_states db))"

definition cell_state :: "db \<Rightarrow> overview_person \<Rightarrow> jstr \<Rightarrow> person_sync_state" where
  "cell_state db p dev = (case recorded_state db (op_kind p) (op_id p) dev of None \<Rightarrow> Missing | Some s \<Rightarrow> ps_state s)"

record cell =
  ce_device :: jstr
  ce_state :: person_sync_state
  ce_error :: "jstr option"
  ce_synced :: "int option"

definition cell_of :: "db \<Rightarrow> overview_person \<Rightarrow> jstr \<Rightarrow> cell" where
  "cell_of db p dev =
    (let found = recorded_state db (op_kind p) (op_id p) dev in
     \<lparr>ce_device = dev, ce_state = cell_state db p dev,
      ce_error = (case found of None \<Rightarrow> None | Some s \<Rightarrow> ps_error s),
      ce_synced = (case found of None \<Rightarrow> None | Some s \<Rightarrow> ps_synced s)\<rparr>)"

record tally =
  ta_synced :: nat
  ta_pending :: nat
  ta_manual :: nat
  ta_missing :: nat

definition no_tally :: tally where
  "no_tally = \<lparr>ta_synced = 0, ta_pending = 0, ta_manual = 0, ta_missing = 0\<rparr>"

definition bump :: "person_sync_state \<Rightarrow> tally \<Rightarrow> tally" where
  "bump s t =
    (case s of Synced \<Rightarrow> t\<lparr>ta_synced := ta_synced t + 1\<rparr> | PendingSync \<Rightarrow> t\<lparr>ta_pending := ta_pending t + 1\<rparr>
     | Manual \<Rightarrow> t\<lparr>ta_manual := ta_manual t + 1\<rparr> | RemovedPerson \<Rightarrow> t
     | Missing \<Rightarrow> t\<lparr>ta_missing := ta_missing t + 1\<rparr>)"

text \<open>The loop over people and terminals: the tally of every terminal and the total.\<close>

definition count_cell :: "db \<Rightarrow> overview_person \<Rightarrow> jstr \<Rightarrow> (jstr \<Rightarrow> tally) \<times> tally \<Rightarrow> (jstr \<Rightarrow> tally) \<times> tally" where
  "count_cell db p dev acc =
    (let s = cell_state db p dev in ((fst acc)(dev := bump s (fst acc dev)), bump s (snd acc)))"

definition count_person :: "db \<Rightarrow> jstr list \<Rightarrow> overview_person \<Rightarrow> (jstr \<Rightarrow> tally) \<times> tally \<Rightarrow> (jstr \<Rightarrow> tally) \<times> tally" where
  "count_person db devs p acc = fold (count_cell db p) devs acc"

record overview =
  ov_devices :: "(sync_device \<times> tally) list"
  ov_people :: "(overview_person \<times> cell list) list"
  ov_person_count :: nat
  ov_terminals :: nat
  ov_totals :: tally

definition device_sync_overview :: "db \<Rightarrow> jstr list option \<Rightarrow> int option \<Rightarrow> overview" where
  "device_sync_overview db ids l =
    (let devices = sync_devices db ids; limit = overview_limit l; devs = map sd_id devices;
         people = overview_accounts db limit @ overview_dependants db limit;
         counts = fold (count_person db devs) people (\<lambda>_. no_tally, no_tally)
     in \<lparr>ov_devices = map (\<lambda>d. (d, fst counts (sd_id d))) devices,
         ov_people = map (\<lambda>p. (p, map (cell_of db p) devs)) people,
         ov_person_count = length people, ov_terminals = length devices, ov_totals = snd counts\<rparr>)"

subsection \<open>What the counts count\<close>

definition in_state :: "db \<Rightarrow> person_sync_state \<Rightarrow> overview_person \<Rightarrow> jstr \<Rightarrow> bool" where
  "in_state db s p dev \<longleftrightarrow> cell_state db p dev = s"

definition tally_of :: "person_sync_state list \<Rightarrow> tally" where
  "tally_of ss = \<lparr>ta_synced = count_list ss Synced, ta_pending = count_list ss PendingSync,
     ta_manual = count_list ss Manual, ta_missing = count_list ss Missing\<rparr>"

lemma bump_tally_of: "bump s (tally_of ss) = tally_of (ss @ [s])"
  by (cases s) (simp_all add: bump_def tally_of_def)

lemma no_tally_of: "no_tally = tally_of []"
  by (simp add: no_tally_def tally_of_def)

text \<open>The states of the grid, person by person, and those of one terminal.\<close>

definition row_states :: "db \<Rightarrow> jstr list \<Rightarrow> overview_person \<Rightarrow> person_sync_state list" where
  "row_states db devs p = map (cell_state db p) devs"

lemma count_person_total:
  "snd (count_person db devs p (f, tally_of ss)) = tally_of (ss @ row_states db devs p)"
  unfolding count_person_def row_states_def
  by (induction devs arbitrary: f ss) (simp_all add: count_cell_def Let_def bump_tally_of)

lemma count_people_total:
  "snd (fold (count_person db devs) people (f, tally_of ss)) = tally_of (ss @ concat (map (row_states db devs) people))"
proof (induction people arbitrary: f ss)
  case (Cons p people)
  obtain g where "count_person db devs p (f, tally_of ss) = (g, tally_of (ss @ row_states db devs p))"
    using count_person_total [of db devs p f ss] by (metis prod.collapse)
  then show ?case by (simp add: Cons.IH)
qed simp

lemma count_person_device:
  assumes "distinct devs"
  shows "fst (count_person db devs p (f, t)) dev = (if dev \<in> set devs then bump (cell_state db p dev) (f dev) else f dev)"
  using assms unfolding count_person_def
proof (induction devs arbitrary: f t)
  case (Cons d devs)
  then show ?case by (auto simp: count_cell_def Let_def)
qed simp

lemma count_people_device:
  assumes "distinct devs" "dev \<in> set devs" "f dev = tally_of ss"
  shows "fst (fold (count_person db devs) people (f, t)) dev = tally_of (ss @ map (\<lambda>p. cell_state db p dev) people)"
  using assms(3)
proof (induction people arbitrary: f t ss)
  case (Cons p people)
  obtain g u where g: "count_person db devs p (f, t) = (g, u)" by (cases "count_person db devs p (f, t)")
  then have "g dev = tally_of (ss @ [cell_state db p dev])"
    using count_person_device [OF assms(1), of db p f t dev] assms(2) Cons.prems by (simp add: bump_tally_of)
  then show ?case using Cons.IH by (simp add: g)
qed simp

lemma tally_partition:
  "ta_synced (tally_of ss) + ta_pending (tally_of ss) + ta_manual (tally_of ss) + ta_missing (tally_of ss)
     + count_list ss RemovedPerson = length ss"
proof (induction ss)
  case (Cons s ss)
  then show ?case by (cases s) (simp_all add: tally_of_def)
qed (simp add: tally_of_def)

lemma length_row_states: "length (concat (map (row_states db devs) people)) = length people * length devs"
  by (induction people) (simp_all add: row_states_def)

text \<open>
  The counts of the overview are those of its own grid: the totals count the cells by state,
  a cell without a recorded state is missing, every cell is counted exactly once unless the person
  was removed from the terminal, and a terminal's tally counts its column.
\<close>

theorem overview_counts_its_grid:
  fixes db ids l
  defines "ov \<equiv> device_sync_overview db ids l"
  assumes "distinct (map d_id (enabled_devices db))"
  shows "ov_totals ov = tally_of (concat (map (\<lambda>(p, cs). map ce_state cs) (ov_people ov)))
    \<and> ta_synced (ov_totals ov) + ta_pending (ov_totals ov) + ta_manual (ov_totals ov) + ta_missing (ov_totals ov)
       + count_list (concat (map (\<lambda>(p, cs). map ce_state cs) (ov_people ov))) RemovedPerson
     = ov_person_count ov * ov_terminals ov
    \<and> (\<forall>(d, t)\<in>set (ov_devices ov). t = tally_of (map (\<lambda>(p, cs). cell_state db p (sd_id d)) (ov_people ov)))"
proof -
  let ?o = "device_sync_overview db ids l" and ?devs = "map sd_id (sync_devices db ids)"
  let ?people = "overview_accounts db (overview_limit l) @ overview_dependants db (overview_limit l)"
  have grid: "map (\<lambda>(p, cs). map ce_state cs) (ov_people ?o) = map (row_states db ?devs) ?people"
    by (simp add: device_sync_overview_def Let_def row_states_def cell_of_def comp_def)
  have totals: "ov_totals ?o = tally_of (concat (map (row_states db ?devs) ?people))"
    using count_people_total [of db ?devs ?people "\<lambda>_. no_tally" "[]"]
    by (simp add: device_sync_overview_def Let_def no_tally_of)
  then have one: "ov_totals ?o = tally_of (concat (map (\<lambda>(p, cs). map ce_state cs) (ov_people ?o)))" by (simp only: grid)
  have two: "ta_synced (ov_totals ?o) + ta_pending (ov_totals ?o) + ta_manual (ov_totals ?o) + ta_missing (ov_totals ?o)
       + count_list (concat (map (\<lambda>(p, cs). map ce_state cs) (ov_people ?o))) RemovedPerson
     = ov_person_count ?o * ov_terminals ?o"
    unfolding totals grid tally_partition length_row_states
    by (simp add: device_sync_overview_def Let_def)
  have sorted: "sd_id (sync_device_row db e) = d_id e" for e by (simp add: sync_device_row_def)
  have "distinct (map d_id (filter (\<lambda>e. chosen_device ids (d_id e)) (enabled_devices db)))"
    using assms(2) by (simp add: distinct_map_filter)
  then have dist: "distinct ?devs"
    by (simp add: sync_devices_def comp_def sorted distinct_map inj_on_def)
  have "t = tally_of (map (\<lambda>(p, cs). cell_state db p (sd_id d)) (ov_people ?o))" if "(d, t) \<in> set (ov_devices ?o)" for d t
  proof -
    have d: "d \<in> set (sync_devices db ids)"
      and t: "t = fst (fold (count_person db ?devs) ?people (\<lambda>_. no_tally, no_tally)) (sd_id d)"
      using that by (auto simp: device_sync_overview_def Let_def)
    have "t = tally_of (map (\<lambda>p. cell_state db p (sd_id d)) ?people)"
      unfolding t using count_people_device [OF dist, of "sd_id d" "\<lambda>_. no_tally" "[]" db ?people no_tally] d
      by (simp add: no_tally_of)
    then show ?thesis by (simp add: device_sync_overview_def Let_def comp_def)
  qed
  with one two show ?thesis unfolding ov_def by blast
qed

theorem overview_counts_its_grid_witness:
  "ta_missing (ov_totals (device_sync_overview (sync_db\<lparr>t_users :=
      [\<lparr>u_id = js ''u1'', u_name = js ''Ada'', u_employee = None, u_status = js ''active'', u_role = js ''resident'', u_property = None\<rparr>]\<rparr>) None None))
     = 2"
proof -
  let ?db = "sync_db\<lparr>t_users :=
      [\<lparr>u_id = js ''u1'', u_name = js ''Ada'', u_employee = None, u_status = js ''active'', u_role = js ''resident'', u_property = None\<rparr>]\<rparr>"
  have "distinct (map d_id (enabled_devices ?db))" by code_simp
  moreover have "tally_of (concat (map (\<lambda>(p, cs). map ce_state cs) (ov_people (device_sync_overview ?db None None))))
     = \<lparr>ta_synced = 0, ta_pending = 0, ta_manual = 0, ta_missing = 2\<rparr>" by code_simp
  ultimately show ?thesis using overview_counts_its_grid [of ?db None None] by simp
qed

end
