(* ===== verification/Captures.thy ===== *)
theory Captures
  imports DeviceSync JsDate
begin

text \<open>
  The portal's side of the synchronisation (\<^verbatim>\<open>index.ts\<close>, from \<open>syncPersonRef\<close>
  to \<open>expireFingerprintTemplates\<close>): the automatic synchronisation of a person, the capture of
  a fingerprint at one terminal, its distribution to the others, and the end of held templates.
\<close>

subsection \<open>Synchronising by identity\<close>

definition sync_person_ref :: "db \<Rightarrow> person_kind \<Rightarrow> jstr \<Rightarrow> person_ref option" where
  "sync_person_ref db k i =
    (case k of
       Account \<Rightarrow> map_option (\<lambda>u. \<lparr>pr_kind = k, pr_id = u_id u, pr_name = u_name u, pr_employee = u_employee u, pr_status = u_status u\<rparr>)
         (List.find (\<lambda>u. u_id u = i) (t_users db))
     | Dependant \<Rightarrow> map_option (\<lambda>m. \<lparr>pr_kind = k, pr_id = m_id m, pr_name = m_name m, pr_employee = m_employee m, pr_status = m_status m\<rparr>)
         (List.find (\<lambda>m. m_id m = i) (t_members db)))"

text \<open>
  The identifiers an assignment may try. Identifiers are only ever compared for equality, so the
  model sets all ten aside, used or not.
\<close>

definition ten_uuids :: "host \<Rightarrow> db \<Rightarrow> jstr list" where
  "ten_uuids H db = map (h_uuid H) [t_draws db ..< t_draws db + 10]"

text \<open>The number, the person carrying it, and the database; \<open>None\<close> is the thrown error.\<close>

definition ensure_sync_employee_no :: "host \<Rightarrow> db \<Rightarrow> person_ref \<Rightarrow> (jstr option \<times> person_ref \<times> db) option" where
  "ensure_sync_employee_no H db p =
    (if truthy_text (pr_employee p) then Some (pr_employee p, p, db)
     else case ensure_person_employee_id db (ten_uuids H db) (pr_kind p) (pr_id p) of
       None \<Rightarrow> None
     | Some (issued, db') \<Rightarrow>
         if truthy_text issued then Some (issued, p\<lparr>pr_employee := issued\<rparr>, drawn 10 db')
         else Some (None, p, drawn 10 db'))"

type_synonym person_sync = "sync_result \<times> jstr option"

definition sync_person_everywhere ::
    "host \<Rightarrow> int \<Rightarrow> person_kind \<Rightarrow> jstr \<Rightarrow> jstr \<Rightarrow> jstr list option \<Rightarrow> bool \<Rightarrow> bool \<Rightarrow> db \<Rightarrow> (person_sync \<times> db) option" where
  "sync_person_everywhere H now k i reason ids creds require_active db =
    (case sync_person_ref db k i of
       None \<Rightarrow> Some ((empty_result, None), db)
     | Some p \<Rightarrow>
         if require_active \<and> pr_status p \<noteq> js ''active''
         then Some ((empty_result\<lparr>sr_unresolved := [pr_id p]\<rparr>, Some (pr_name p)), db)
         else (case ensure_sync_employee_no H db p of
            None \<Rightarrow> None
          | Some (None, p', db') \<Rightarrow> Some ((empty_result\<lparr>sr_unresolved := [pr_id p]\<rparr>, Some (pr_name p)), db')
          | Some (Some _, p', db') \<Rightarrow>
              (case sync_person_to_devices H now p' reason ids creds db' of
                 (r, db'') \<Rightarrow> Some ((r, Some (pr_name p)), db''))))"

definition auto_sync_person ::
    "host \<Rightarrow> int \<Rightarrow> person_kind \<Rightarrow> jstr \<Rightarrow> jstr \<Rightarrow> jstr list option \<Rightarrow> bool \<Rightarrow> db \<Rightarrow> (person_sync \<times> db) option" where
  "auto_sync_person H now k i reason ids creds db =
    (case sync_person_ref db k i of
       None \<Rightarrow> Some ((empty_result, None), db)
     | Some p \<Rightarrow>
         if pr_status p \<noteq> js ''active'' then Some ((empty_result, Some (pr_name p)), db)
         else let tracked = list_ex (\<lambda>s. ps_kind s = k \<and> ps_person s = i) (t_person_states db);
                  cr = credentials_for_person db p
           in if \<not> tracked \<and> cr_cards cr = [] \<and> cr_fingers cr = []
              then Some ((empty_result, Some (pr_name p)), db)
              else sync_person_everywhere H now k i reason ids creds True db)"

definition describe_sync :: "sync_result \<Rightarrow> jstr" where
  "describe_sync r =
    (let parts =
       (if sr_queued r \<noteq> 0 then [show_nat (sr_queued r) @ js '' command(s) sent to the agent''] else [])
       @ (if sr_manual r \<noteq> 0 then [show_nat (sr_manual r) @ js '' task(s) for an operator on the terminal''] else [])
       @ (if sr_removed r \<noteq> 0 then [js ''removed from '' @ show_nat (sr_removed r) @ js '' terminal(s)''] else [])
       @ (if sr_skipped r \<noteq> 0 then [show_nat (sr_skipped r) @ js '' already queued''] else [])
     in if parts = [] then js ''nothing to do'' else join (js '', '') parts)"

subsection \<open>What a terminal holds\<close>

definition person_ops :: "db \<Rightarrow> person_ref \<Rightarrow> jstr \<Rightarrow> device_op list" where
  "person_ops db p dev =
     filter (\<lambda>r. o_device r = dev \<and> column_value (person_column (pr_kind p)) r = Some (pr_id p)) (t_device_ops db)"

definition refreshed_state :: "device_op list \<Rightarrow> person_sync_state" where
  "refreshed_state rows =
    (let outstanding = length (filter (\<lambda>r. is_open (o_status r)) rows); failed = length (filter (\<lambda>r. o_status r = Failed) rows)
     in if 0 < outstanding then PendingSync else if 0 < failed then Missing else Synced)"

definition refresh_device_person_state :: "host \<Rightarrow> int \<Rightarrow> person_ref \<Rightarrow> jstr \<Rightarrow> db \<Rightarrow> db" where
  "refresh_device_person_state H now p dev db =
    (let cr = credentials_for_person db p in
     set_device_person_state H now p dev (refreshed_state (person_ops db p dev))
       (no_options\<lparr>so_fingers := Some (length (cr_fingers cr)),
          so_cards := Some (length (filter (\<lambda>c. ac_status c = js ''active'') (cr_cards cr)))\<rparr>) db)"

definition primary_resident_for :: "db \<Rightarrow> person_ref \<Rightarrow> jstr" where
  "primary_resident_for db p =
    (case List.find (\<lambda>m. m_id m = pr_id p) (t_members db) of None \<Rightarrow> pr_id p | Some m \<Rightarrow> m_primary m)"

subsection \<open>Capturing a fingerprint\<close>

definition capture_ttl_seconds :: int where "capture_ttl_seconds = 3 * 60"
definition template_ttl_seconds :: int where "template_ttl_seconds = 24 * 60 * 60"

text \<open>\<open>(JSON.parse(text) as string[]).includes(w)\<close>; \<open>None\<close> is a \<open>TypeError\<close>.\<close>

definition json_includes :: "jval \<Rightarrow> jstr \<Rightarrow> bool option" where
  "json_includes v w =
    (case v of Arr vs \<Rightarrow> Some (Str w \<in> set vs) | Str s \<Rightarrow> Some (contains s w) | _ \<Rightarrow> None)"

definition captures_fingerprints :: "db \<Rightarrow> jstr \<Rightarrow> bool option" where
  "captures_fingerprints db dev =
    (let parsed = (if truthy_text (linked_capabilities db dev) then json_parse (the (linked_capabilities db dev)) else Some (Arr []))
     in case parsed of
          None \<Rightarrow> None
        | Some v \<Rightarrow> if linked_agents db dev = 0 then Some False else json_includes v (js ''fingerprint''))"

definition same_finger :: "jstr \<Rightarrow> jstr \<Rightarrow> nat \<Rightarrow> fingerprint \<Rightarrow> bool" where
  "same_finger resident member no f \<longleftrightarrow> fp_resident f = resident \<and> coalesce (fp_member f) [] = member \<and> fp_no f = no
     \<and> fp_status f \<in> {js ''active'', js ''suspended''}"

datatype capture_outcome =
    CaptureRefused nat jstr
  | CaptureStarted capture jstr

definition no_capture_agent :: jstr where
  "no_capture_agent = js ''That terminal has no agent that can capture fingerprints. Enrol the finger on the terminal itself and record the slot here, or update the bridge on the PC linked to it.''"

definition capture_resident :: "db \<Rightarrow> person_ref \<Rightarrow> jstr" where
  "capture_resident db p = (if pr_kind p = Account then pr_id p else primary_resident_for db p)"

definition sql_text :: "int \<Rightarrow> jstr" where
  "sql_text t = slice_to 19 (replace_unit 84 [32] (iso_string t))"

definition capture_operation ::
    "jstr \<Rightarrow> jstr \<Rightarrow> int \<Rightarrow> person_ref \<Rightarrow> nat \<Rightarrow> jstr option \<Rightarrow> jstr \<Rightarrow> device \<Rightarrow> device_op" where
  "capture_operation i cap now p no label employee d =
     (new_device_op i (d_id d) (js ''capture_fingerprint'')
        (json_text (Obj [(js ''captureId'', Str cap), (js ''fingerNo'', Num (int no)), (js ''fingerLabel'', nullable label),
           (js ''employeeNo'', Str employee), (js ''personName'', Str (pr_name p)), (js ''deviceName'', Str (d_name d)),
           (js ''expiresAt'', Str (sql_text (now + capture_ttl_seconds * 1000)))])) Pending now)
      \<lparr>o_user := (if pr_kind p = Account then Some (pr_id p) else None),
       o_member := (if pr_kind p = Dependant then Some (pr_id p) else None), o_capture := Some cap,
       o_instruction := Some (js ''Ask '' @ pr_name p @ js '' to place finger '' @ show_nat no @ js '' on the reader of '' @ d_name d
         @ js ''. The bridge collects the template and sends it to the other terminals; nothing has to be typed.'')\<rparr>"

definition capture_instruction :: "person_ref \<Rightarrow> nat \<Rightarrow> jstr option \<Rightarrow> jstr \<Rightarrow> device \<Rightarrow> jstr" where
  "capture_instruction p no label employee d = js ''Ask '' @ pr_name p @ js '' to touch the reader on '' @ d_name d @ js '' now '' @ [8212]
     @ js '' finger slot '' @ show_nat no @ (if truthy_text label then js '' ('' @ the label @ js '')'' else [])
     @ js '', employee number '' @ employee @ js ''.''"

text \<open>\<open>None\<close> is a thrown error: no free Employee ID, or capabilities that are not a JSON list.\<close>

definition start_fingerprint_capture ::
    "host \<Rightarrow> int \<Rightarrow> person_ref \<Rightarrow> nat \<Rightarrow> jstr option \<Rightarrow> jstr \<Rightarrow> jstr \<Rightarrow> db \<Rightarrow> (capture_outcome \<times> db) option" where
  "start_fingerprint_capture H now p0 no label dev by_user db0 =
    (case List.find (\<lambda>d. d_id d = dev) (enabled_devices db0) of
       None \<Rightarrow> Some (CaptureRefused 404 (js ''Active access-control device not found''), db0)
     | Some d \<Rightarrow>
         (case captures_fingerprints db0 dev of
            None \<Rightarrow> None
          | Some False \<Rightarrow> Some (CaptureRefused 409 no_capture_agent, db0)
          | Some True \<Rightarrow>
              (case ensure_sync_employee_no H db0 p0 of
                 None \<Rightarrow> None
               | Some (None, p, db) \<Rightarrow> Some (CaptureRefused 409 (js ''This person has no terminal employee number yet''), db)
               | Some (Some employee, p, db) \<Rightarrow>
                   if list_ex (same_finger (capture_resident db p) (if pr_kind p = Dependant then pr_id p else []) no) (t_fingers db)
                   then Some (CaptureRefused 409 (js ''Finger '' @ show_nat no @ js '' is already registered for '' @ pr_name p), db)
                   else let cap = draw H db;
                            row = \<lparr>cp_id = cap, cp_device = d_id d, cp_resident = capture_resident db p,
                              cp_member = (if pr_kind p = Dependant then Some (pr_id p) else None), cp_employee = Some employee,
                              cp_name = pr_name p, cp_finger_no = no, cp_label = label, cp_by = Some by_user,
                              cp_status = js ''pending'', cp_template = None, cp_error = None,
                              cp_expires = sql_now (now + capture_ttl_seconds * 1000), cp_updated = sql_now now\<rparr>;
                            db1 = drawn 1 (db\<lparr>t_captures := t_captures db @ [row]\<rparr>);
                            db2 = add_device_op (capture_operation (draw H db1) cap now p no label employee d) (drawn 1 db1)
                     in Some (CaptureStarted row (capture_instruction p no label employee d),
                              snd (sync_person_to_devices H now p (js ''fingerprint capture'') (Some [d_id d]) False db2)))))"

subsection \<open>A captured template\<close>

definition capture_person :: "capture \<Rightarrow> person_ref" where
  "capture_person c =
     \<lparr>pr_kind = (if truthy_text (cp_member c) then Dependant else Account), pr_id = coalesce (cp_member c) (cp_resident c),
      pr_name = cp_name c, pr_employee = cp_employee c, pr_status = js ''active''\<rparr>"

definition enrolled_again :: "capture \<Rightarrow> fingerprint \<Rightarrow> fingerprint" where
  "enrolled_again c f =
     f\<lparr>fp_employee := cp_employee c, fp_label := (case cp_label c of None \<Rightarrow> fp_label f | Some l \<Rightarrow> Some l),
       fp_device := Some (cp_device c), fp_status := js ''active'', fp_reason := None\<rparr>"

definition record_fingerprint :: "host \<Rightarrow> capture \<Rightarrow> db \<Rightarrow> jstr \<times> db" where
  "record_fingerprint H c db =
    (case List.find (same_finger (cp_resident c) (coalesce (cp_member c) []) (cp_finger_no c)) (t_fingers db) of
       Some f \<Rightarrow> (fp_id f, db\<lparr>t_fingers := update_where (\<lambda>g. fp_id g = fp_id f) (enrolled_again c) (t_fingers db)\<rparr>)
     | None \<Rightarrow>
         (draw H db, drawn 2 (db\<lparr>
            t_fingers := t_fingers db @ [\<lparr>fp_id = draw H db, fp_no = cp_finger_no c, fp_label = cp_label c, fp_employee = cp_employee c,
              fp_status = js ''active'', fp_resident = cp_resident c, fp_member = cp_member c, fp_reason = None, fp_auto = False,
              fp_device = Some (cp_device c), fp_by = cp_by c\<rparr>],
            t_finger_changes := t_finger_changes db @ [\<lparr>cc_id = h_uuid H (Suc (t_draws db)), cc_credential = draw H db,
              cc_old = js ''active'', cc_new = js ''active'', cc_reason = js ''template captured at '' @ cp_device c, cc_by = cp_by c\<rparr>]\<rparr>)))"

record capture_result =
  ca_finger :: jstr
  ca_queued :: nat
  ca_manual :: nat
  ca_devices :: nat

definition hand_out_template :: "host \<Rightarrow> int \<Rightarrow> person_ref \<Rightarrow> finger_ref \<Rightarrow> sync_device \<Rightarrow> nat \<times> nat \<times> db \<Rightarrow> nat \<times> nat \<times> db" where
  "hand_out_template H now p f d acc =
    (case acc of (queued, manual, db) \<Rightarrow>
      if \<not> sd_agent d \<or> js ''fingerprint'' \<notin> set (sd_caps d) then acc
      else (case fingerprint_upload_operation H now p d f (js ''captured at another terminal'') db of
          (Queued, db') \<Rightarrow> (queued + 1, manual, db')
        | (ManualTask, db') \<Rightarrow> (queued, manual + 1, db')
        | (Skipped, db') \<Rightarrow> (queued, manual, db')))"

definition apply_captured_template :: "host \<Rightarrow> int \<Rightarrow> capture \<Rightarrow> db \<Rightarrow> capture_result \<times> db" where
  "apply_captured_template H now c db =
    (case record_fingerprint H c db of (fid, db1) \<Rightarrow>
       let devices = sync_devices db1 None;
           f = \<lparr>fr_id = fid, fr_no = cp_finger_no c, fr_label = cp_label c, fr_employee = cp_employee c, fr_status = js ''active''\<rparr>
       in case fold (hand_out_template H now (capture_person c) f) devices (0, 0, db1) of
            (queued, manual, db2) \<Rightarrow>
              (\<lparr>ca_finger = fid, ca_queued = queued, ca_manual = manual, ca_devices = length devices\<rparr>, db2))"

subsection \<open>The hourly end of held templates\<close>

definition expire_row :: "int \<Rightarrow> capture \<Rightarrow> capture" where
  "expire_row now c = c\<lparr>cp_status := js ''failed'', cp_error := Some (js ''nobody touched the reader in time''), cp_updated := sql_now now\<rparr>"

definition waiting_too_long :: "int \<Rightarrow> capture \<Rightarrow> bool" where
  "waiting_too_long now c \<longleftrightarrow> cp_status c = js ''pending'' \<and> cp_expires c \<le> sql_now now"

definition purge_row :: "int \<Rightarrow> capture \<Rightarrow> capture" where
  "purge_row now c = c\<lparr>cp_status := js ''expired'', cp_template := None, cp_updated := sql_now now\<rparr>"

definition held_too_long :: "int \<Rightarrow> capture \<Rightarrow> bool" where
  "held_too_long now c \<longleftrightarrow> cp_status c = js ''captured'' \<and> cp_template c \<noteq> None
     \<and> (cp_expires c \<le> sql_now now \<or> cp_updated c \<le> sql_now now - template_ttl_seconds)"

definition expire_fingerprint_templates :: "int \<Rightarrow> db \<Rightarrow> nat \<times> nat \<times> db" where
  "expire_fingerprint_templates now db =
    (let cs = update_where (waiting_too_long now) (expire_row now) (t_captures db);
         cs' = update_where (held_too_long now) (purge_row now) cs
     in (length (filter (waiting_too_long now) (t_captures db)), length (filter (held_too_long now) cs), db\<lparr>t_captures := cs'\<rparr>))"

subsection \<open>Properties\<close>

lemma set_state_lookup:
  "\<exists>s. List.find (state_key (pr_kind p) (pr_id p) dev) (t_person_states (set_device_person_state H now p dev st opts db)) = Some s
     \<and> ps_state s = st \<and> ps_employee s = pr_employee p \<and> (st = Synced \<longrightarrow> ps_synced s = Some (sql_now now))"
proof (cases "List.find (state_key (pr_kind p) (pr_id p) dev) (t_person_states db)")
  case None
  then show ?thesis by (simp add: set_device_person_state_def state_key_def [abs_def] drawn_def find_append)
next
  case (Some e)
  have "state_key k i dev (update_person_state now p st opts r) = state_key k i dev r" for k i r
    by (simp add: state_key_def update_person_state_def)
  then show ?thesis using Some
    by (simp add: set_device_person_state_def find_update_where_if) (simp add: update_person_state_def)
qed

text \<open>
  The state recorded for a person on a terminal after a refresh is pending while an operation
  that names the person is open there, missing when none is open and one has failed, and synced
  otherwise, in which case the moment is recorded.
\<close>

theorem refreshed_state_recorded:
  "\<exists>s. List.find (state_key (pr_kind p) (pr_id p) dev) (t_person_states (refresh_device_person_state H now p dev db)) = Some s
     \<and> ps_state s = (if list_ex (\<lambda>r. is_open (o_status r)) (person_ops db p dev) then PendingSync
          else if list_ex (\<lambda>r. o_status r = Failed) (person_ops db p dev) then Missing else Synced)
     \<and> ps_synced s = (if ps_state s = Synced then Some (sql_now now) else ps_synced s)"
proof -
  have "refreshed_state rows = (if list_ex (\<lambda>r. is_open (o_status r)) rows then PendingSync
      else if list_ex (\<lambda>r. o_status r = Failed) rows then Missing else Synced)" for rows
    by (auto simp: refreshed_state_def Let_def list_ex_iff filter_empty_conv)
  then show ?thesis
    unfolding refresh_device_person_state_def Let_def
    using set_state_lookup [where p = p and dev = dev and H = H and now = now and db = db] by metis
qed

text \<open>
  The refresh does not see work on a credential: queueing a fingerprint for a terminal leaves
  the recorded answer for the person as it was, although the terminal is still waiting for it.
\<close>

theorem refresh_overlooks_credential_work:
  "refreshed_state (person_ops (snd (fingerprint_upload_operation H now p d f reason db)) p (sd_id d))
     = refreshed_state (person_ops db p (sd_id d))"
proof -
  have "person_ops (add_device_op r (drawn n db)) p dev = person_ops db p dev" if "o_user r = None" "o_member r = None" for r n dev
    using that by (cases "pr_kind p") (simp_all add: person_ops_def person_column_def column_value_def)
  then show ?thesis
    by (simp add: fingerprint_upload_operation_def Let_def) (simp add: new_device_op_def)
qed

lemma waiting_expired [simp]: "\<not> waiting_too_long now (expire_row now c)" "cp_status (purge_row now c) = js ''expired''"
  by (simp_all add: waiting_too_long_def expire_row_def purge_row_def)

text \<open>
  After the hourly sweep no template is held past its expiry or for more than a day, and no
  capture that nobody answered is still waiting; captures the sweep did not touch are as they were.
\<close>

theorem templates_do_not_outlive:
  assumes "expire_fingerprint_templates now db = (failed, purged, db')" "c \<in> set (t_captures db')"
  shows "(cp_status c = js ''captured'' \<longrightarrow> cp_template c = None \<or> (sql_now now < cp_expires c \<and> sql_now now < cp_updated c + template_ttl_seconds))
    \<and> (cp_status c = js ''pending'' \<longrightarrow> sql_now now < cp_expires c)
    \<and> (c \<in> set (t_captures db) \<or> cp_status c \<in> {js ''failed'', js ''expired''})"
proof -
  obtain b where b: "b \<in> set (t_captures db)"
    and c: "c = (if held_too_long now (if waiting_too_long now b then expire_row now b else b)
        then purge_row now (if waiting_too_long now b then expire_row now b else b)
        else if waiting_too_long now b then expire_row now b else b)"
    using assms by (auto simp: expire_fingerprint_templates_def Let_def in_update_where)
  have e: "cp_status (expire_row now b) = js ''failed''" by (simp add: expire_row_def)
  have "cp_status c = js ''captured'' \<longrightarrow> cp_template c = None \<or> (sql_now now < cp_expires c \<and> sql_now now < cp_updated c + template_ttl_seconds)"
    using c e by (auto simp: held_too_long_def split: if_splits)
  moreover have "cp_status c = js ''pending'' \<longrightarrow> sql_now now < cp_expires c"
    using c e by (auto simp: waiting_too_long_def split: if_splits)
  moreover have "c \<in> set (t_captures db) \<or> cp_status c \<in> {js ''failed'', js ''expired''}"
    using c e b by (auto split: if_splits)
  ultimately show ?thesis by blast
qed

definition capture_row :: "jstr \<Rightarrow> jstr \<Rightarrow> jstr option \<Rightarrow> int \<Rightarrow> capture" where
  "capture_row i st template expires =
     \<lparr>cp_id = i, cp_device = js ''d1'', cp_resident = js ''u1'', cp_member = None, cp_employee = Some (js ''E1''), cp_name = js ''Ada'',
      cp_finger_no = 2, cp_label = None, cp_by = None, cp_status = st, cp_template = template, cp_error = None,
      cp_expires = expires, cp_updated = 1000\<rparr>"

definition captures_db :: db where
  "captures_db = sync_db\<lparr>t_captures := [capture_row (js ''k1'') (js ''captured'') (Some (js ''AAAA'')) 500000,
     capture_row (js ''k2'') (js ''captured'') (Some (js ''BBBB'')) 1500, capture_row (js ''k3'') (js ''pending'') None 1400]\<rparr>"

theorem templates_do_not_outlive_witness:
  "map cp_status (t_captures (snd (snd (expire_fingerprint_templates 1600000 captures_db)))) = [js ''captured'', js ''expired'', js ''failed'']
   \<and> sql_now 1600000 < 1000 + template_ttl_seconds"
proof -
  let ?c = "capture_row (js ''k1'') (js ''captured'') (Some (js ''AAAA'')) 500000"
  obtain f q db' where run: "expire_fingerprint_templates 1600000 captures_db = (f, q, db')"
    by (metis prod.collapse)
  have cs: "map cp_status (t_captures (snd (snd (expire_fingerprint_templates 1600000 captures_db)))) = [js ''captured'', js ''expired'', js ''failed'']"
    by code_simp
  have "?c \<in> set (t_captures db')"
    using run by (auto simp: expire_fingerprint_templates_def Let_def captures_db_def waiting_too_long_def held_too_long_def
        capture_row_def template_ttl_seconds_def sql_now_def)
  from templates_do_not_outlive [OF run this] have "sql_now 1600000 < 1000 + template_ttl_seconds"
    by (simp add: capture_row_def)
  with cs show ?thesis by blast
qed

lemma ensure_sync_tables:
  assumes "ensure_sync_employee_no H db p = Some (e, p', db')"
  shows "t_device_ops db' = t_device_ops db" "t_captures db' = t_captures db" "t_fingers db' = t_fingers db"
    "e \<noteq> None \<Longrightarrow> pr_employee p' = e \<and> truthy_text e" "pr_kind p' = pr_kind p"
proof -
  have "t_device_ops db2 = t_device_ops db \<and> t_captures db2 = t_captures db \<and> t_fingers db2 = t_fingers db"
    if "ensure_person_employee_id db us k i = Some (v, db2)" for us k i v db2
    using that by (auto simp: ensure_person_employee_id_def set_employee_def Let_def split: option.splits if_splits person_kind.splits)
  then show "t_device_ops db' = t_device_ops db" "t_captures db' = t_captures db" "t_fingers db' = t_fingers db"
    "e \<noteq> None \<Longrightarrow> pr_employee p' = e \<and> truthy_text e" "pr_kind p' = pr_kind p"
    using assms by (auto simp: ensure_sync_employee_no_def drawn_def split: if_splits option.splits)
qed

lemma sync_captures: "t_captures (snd (sync_person_to_devices H now p reason ids False db)) = t_captures db"
proof -
  have one: "t_captures (fst (push_person H now p reason d run)) = t_captures (fst run)" for d run
    by (cases run) (simp add: push_person_def Let_def set_device_person_state_def drawn_def split: option.split)
  have "t_captures (fst (fold (push_person H now p reason) ds run)) = t_captures (fst run)" for ds run
    by (induction ds arbitrary: run) (simp_all add: one)
  then show ?thesis by (simp add: sync_person_to_devices_def Let_def split: prod.split) (metis fst_conv)
qed

text \<open>
  A capture starts only at an enabled terminal whose agent can read fingerprints and only for a
  finger that is not registered; it then waits three minutes, with one command in the queue of that
  terminal for the agent. A refusal queues nothing and says why.
\<close>

theorem capture_started_properly:
  assumes "start_fingerprint_capture H now p no label dev by_user db = Some (out, db')"
  shows "case out of
      CaptureRefused code msg \<Rightarrow> t_device_ops db' = t_device_ops db \<and> t_captures db' = t_captures db
    | CaptureStarted c t \<Rightarrow> t_captures db' = t_captures db @ [c] \<and> cp_status c = js ''pending''
       \<and> cp_expires c = sql_now now + capture_ttl_seconds \<and> captures_fingerprints db dev = Some True
       \<and> (\<exists>q\<in>set (t_device_ops db'). o_device q = dev \<and> o_operation q = js ''capture_fingerprint'' \<and> o_status q = Pending \<and> o_capture q = Some (cp_id c))
       \<and> (\<forall>f\<in>set (t_fingers db). \<not> same_finger (cp_resident c) (coalesce (cp_member c) []) no f)"
proof (cases out)
  case (CaptureRefused code msg)
  then show ?thesis
    using assms by (auto simp: start_fingerprint_capture_def Let_def ensure_sync_tables split: option.splits bool.splits if_splits)
next
  case (CaptureStarted c t)
  then obtain d employee q db1 where d: "List.find (\<lambda>d. d_id d = dev) (enabled_devices db) = Some d"
    and cap: "captures_fingerprints db dev = Some True" and e: "ensure_sync_employee_no H db p = Some (Some employee, q, db1)"
    and free: "\<not> list_ex (same_finger (capture_resident db1 q) (if pr_kind q = Dependant then pr_id q else []) no) (t_fingers db1)"
    and c: "c = \<lparr>cp_id = draw H db1, cp_device = d_id d, cp_resident = capture_resident db1 q,
        cp_member = (if pr_kind q = Dependant then Some (pr_id q) else None), cp_employee = Some employee,
        cp_name = pr_name q, cp_finger_no = no, cp_label = label, cp_by = Some by_user,
        cp_status = js ''pending'', cp_template = None, cp_error = None,
        cp_expires = sql_now (now + capture_ttl_seconds * 1000), cp_updated = sql_now now\<rparr>"
    and db': "db' = snd (sync_person_to_devices H now q (js ''fingerprint capture'') (Some [d_id d]) False
        (add_device_op (capture_operation (draw H (drawn 1 (db1\<lparr>t_captures := t_captures db1 @ [c]\<rparr>))) (draw H db1) now q no label employee d)
          (drawn 1 (drawn 1 (db1\<lparr>t_captures := t_captures db1 @ [c]\<rparr>)))))"
    using assms by (auto simp: start_fingerprint_capture_def Let_def split: option.splits bool.splits if_splits)
  let ?q = "capture_operation (draw H (drawn 1 (db1\<lparr>t_captures := t_captures db1 @ [c]\<rparr>))) (draw H db1) now q no label employee d"
  let ?start = "add_device_op ?q (drawn 1 (drawn 1 (db1\<lparr>t_captures := t_captures db1 @ [c]\<rparr>)))"
  have "truthy_text (pr_employee q)" using ensure_sync_tables(4) [OF e] by simp
  then have "set (t_device_ops ?start) \<subseteq> set (t_device_ops db')"
    using sync_facts(2) [OF _ surjective_pairing] unfolding db' by blast
  then have "?q \<in> set (t_device_ops db')" by simp
  moreover have "d_id d = dev" using find_Some_set [OF d] by simp
  then have "o_device ?q = dev" "o_operation ?q = js ''capture_fingerprint''" "o_status ?q = Pending" "o_capture ?q = Some (cp_id c)"
    by (simp_all add: capture_operation_def c)
  moreover have "t_captures db' = t_captures db1 @ [c]"
    unfolding db' sync_captures by (simp add: add_device_op_def drawn_def)
  moreover have "sql_now (now + capture_ttl_seconds * 1000) = sql_now now + capture_ttl_seconds"
    by (simp add: sql_now_def)
  ultimately show ?thesis
    unfolding CaptureStarted capture_outcome.case
    using cap free ensure_sync_tables(2,3) [OF e] by (auto simp: c list_ex_iff)
qed

lemma capture_run:
  "case start_fingerprint_capture sample_host 0 sync_person 3 None (js ''d1'') (js ''admin'') sync_db of
     Some (CaptureStarted c t, db') \<Rightarrow> cp_expires c = 180 | _ \<Rightarrow> False"
  by code_simp

theorem capture_started_properly_witness:
  "\<exists>c t db'. start_fingerprint_capture sample_host 0 sync_person 3 None (js ''d1'') (js ''admin'') sync_db = Some (CaptureStarted c t, db')
     \<and> t_captures db' = [c]"
proof -
  obtain c t db' where run: "start_fingerprint_capture sample_host 0 sync_person 3 None (js ''d1'') (js ''admin'') sync_db
      = Some (CaptureStarted c t, db')"
    using capture_run by (auto split: option.splits capture_outcome.splits prod.splits)
  have "t_captures db' = t_captures sync_db @ [c]"
    using capture_started_properly [OF run] by simp
  then show ?thesis using run by (auto simp: sync_db_def empty_db_def)
qed

end
