(* ===== verification/AgentOps.thy ===== *)
theory AgentOps
  imports Captures VisitorDevices
begin

text \<open>
  How an authenticated device agent takes operations and reports their outcome
  (\<^verbatim>\<open>index.ts\<close>, \<open>handleIsapiAgentOperations\<close> to \<open>handleIsapiAgentSyncLog\<close>), and
  how an operator retries or settles them.
\<close>

subsection \<open>What is due\<close>

definition door_operations :: "jstr list" where
  "door_operations = [js ''remote_open'', js ''remote_close'', js ''remote_always_open'', js ''remote_always_close'', js ''remote_resume'']"

definition fingerprint_operations :: "jstr list" where
  "fingerprint_operations = [js ''capture_fingerprint'', js ''upload_fingerprint'', js ''delete_fingerprint_device'',
     js ''enroll_fingerprint'', js ''enable_fingerprint'', js ''disable_fingerprint'', js ''delete_fingerprint'']"

definition gateway_kind :: "jstr \<Rightarrow> capability" where
  "gateway_kind opn =
    (if opn \<in> set door_operations then DoorWork
     else if opn \<in> {js ''upsert_person'', js ''delete_person''} then PersonWork
     else if opn \<in> set fingerprint_operations then FingerprintWork
     else CardWork)"

definition gateway_kinds :: "jstr list" where
  "gateway_kinds = [js ''card'', js ''visitor'', js ''person'', js ''fingerprint'', js ''door'']"

definition stale_after :: "jstr \<Rightarrow> int" where
  "stale_after opn = (if opn = js ''capture_fingerprint'' then 600 else 120)"

definition due_row :: "int \<Rightarrow> int \<Rightarrow> 'a op_row_scheme \<Rightarrow> bool" where
  "due_row now limit r \<longleftrightarrow> o_status r = Pending \<or> o_status r = Sent \<and> o_updated r < sql_now now - limit"

record gateway_item =
  gi_id :: jstr
  gi_kind :: capability
  gi_device :: jstr
  gi_operation :: jstr
  gi_payload :: jstr
  gi_attempts :: nat
  gi_created :: int
  gi_capture :: "jstr option"
  gi_device_name :: jstr
  gi_host :: jstr
  gi_port :: int
  gi_username :: "jstr option"
  gi_protocol :: jstr

definition gateway_row :: "'a op_row_scheme \<Rightarrow> capability \<Rightarrow> jstr option \<Rightarrow> device_config \<Rightarrow> device \<Rightarrow> gateway_item" where
  "gateway_row r kind cap c d =
     \<lparr>gi_id = o_id r, gi_kind = kind, gi_device = o_device r, gi_operation = o_operation r, gi_payload = o_payload r,
      gi_attempts = o_attempts r, gi_created = o_created r, gi_capture = cap, gi_device_name = d_name d,
      gi_host = cfg_host c, gi_port = cfg_port c, gi_username = cfg_username c, gi_protocol = cfg_protocol c\<rparr>"

text \<open>The configurations and terminals an operation joins with, for one agent.\<close>

definition joined :: "db \<Rightarrow> jstr \<Rightarrow> jstr \<Rightarrow> (device_config \<times> device) list" where
  "joined db agent dev =
     filter (\<lambda>(c, d). cfg_device c = dev \<and> cfg_agent c = Some agent \<and> cfg_sync_enabled c \<and> d_id d = dev)
       (List.product (t_configs db) (t_devices db))"

definition due_device_items :: "db \<Rightarrow> jstr \<Rightarrow> int \<Rightarrow> gateway_item list" where
  "due_device_items db agent now =
     concat (map (\<lambda>r. map (\<lambda>(c, d). gateway_row r (gateway_kind (o_operation r)) (o_capture r) c d) (joined db agent (o_device r)))
       (filter (\<lambda>r. due_row now (stale_after (o_operation r)) r) (t_device_ops db)))"

definition due_visitor_items :: "db \<Rightarrow> jstr \<Rightarrow> int \<Rightarrow> gateway_item list" where
  "due_visitor_items db agent now =
     concat (map (\<lambda>r. map (\<lambda>(c, d). gateway_row r VisitorWork None c d) (joined db agent (o_device r)))
       (filter (\<lambda>r. due_row now 120 r \<and> list_ex (\<lambda>v. v_id v = o_request r) (t_visitors db)) (t_visitor_ops db)))"

definition claim_limit :: "int option \<Rightarrow> nat" where
  "claim_limit requested = nat (min 100 (max 1 (coalesce requested 20)))"

definition person_first :: "gateway_item \<Rightarrow> nat" where
  "person_first g = (if gi_operation g = js ''upsert_person'' then 0 else 1)"

definition select_items :: "db \<Rightarrow> jstr \<Rightarrow> int option \<Rightarrow> int \<Rightarrow> gateway_item list" where
  "select_items db agent requested now =
     take (claim_limit requested)
       (sort_key (\<lambda>g. (gi_created g, person_first g)) (due_device_items db agent now @ due_visitor_items db agent now))"

subsection \<open>Claiming\<close>

definition claim_row :: "jstr \<Rightarrow> int \<Rightarrow> 'a op_row_scheme \<Rightarrow> 'a op_row_scheme" where
  "claim_row agent now r = r\<lparr>o_status := Sent, o_attempts := o_attempts r + 1, o_agent := Some agent, o_updated := sql_now now\<rparr>"

definition claimable :: "gateway_item \<Rightarrow> int \<Rightarrow> 'a op_row_scheme \<Rightarrow> bool" where
  "claimable g now r \<longleftrightarrow> o_id r = gi_id g \<and> o_device r = gi_device g \<and> due_row now 120 r"

text \<open>One statement of the batch: whether it changed a row, and the database.\<close>

definition claim_item :: "jstr \<Rightarrow> int \<Rightarrow> gateway_item \<Rightarrow> db \<Rightarrow> bool \<times> db" where
  "claim_item agent now g db =
    (if gi_kind g = VisitorWork
     then (list_ex (claimable g now) (t_visitor_ops db),
           db\<lparr>t_visitor_ops := update_where (claimable g now) (claim_row agent now) (t_visitor_ops db)\<rparr>)
     else (list_ex (claimable g now) (t_device_ops db),
           db\<lparr>t_device_ops := update_where (claimable g now) (claim_row agent now) (t_device_ops db)\<rparr>))"

fun claim_items :: "jstr \<Rightarrow> int \<Rightarrow> gateway_item list \<Rightarrow> db \<Rightarrow> gateway_item list \<times> db" where
  "claim_items agent now [] db = ([], db)"
| "claim_items agent now (g # gs) db =
    (case claim_item agent now g db of (changed, db1) \<Rightarrow>
       (case claim_items agent now gs db1 of (claimed, db2) \<Rightarrow> (if changed then g # claimed else claimed, db2)))"

record delivery =
  dl_item :: gateway_item
  dl_payload :: jval
  dl_finger_data :: "jstr option"
  dl_attempt :: nat

definition live_template :: "int \<Rightarrow> jstr \<Rightarrow> capture \<Rightarrow> bool" where
  "live_template now i c \<longleftrightarrow> cp_id c = i \<and> cp_status c = js ''captured'' \<and> cp_template c \<noteq> None \<and> sql_now now < cp_expires c"

text \<open>The Map of the templates keeps the last row of an identifier.\<close>

definition template_for :: "db \<Rightarrow> int \<Rightarrow> jstr option \<Rightarrow> jstr option" where
  "template_for db now cap =
    (if truthy_text cap
     then (case List.find (live_template now (the cap)) (rev (t_captures db)) of None \<Rightarrow> None | Some c \<Rightarrow> cp_template c)
     else None)"

definition deliver :: "db \<Rightarrow> int \<Rightarrow> gateway_item \<Rightarrow> delivery" where
  "deliver db now g =
     \<lparr>dl_item = g, dl_payload = coalesce (json_parse (gi_payload g)) (Obj []),
      dl_finger_data = template_for db now (gi_capture g), dl_attempt = gi_attempts g + 1\<rparr>"

definition retry_after :: "delivery list \<Rightarrow> nat" where
  "retry_after ds = (if ds = [] then 10 else 1)"

definition agent_operations :: "jstr \<Rightarrow> int option \<Rightarrow> int \<Rightarrow> db \<Rightarrow> delivery list \<times> db" where
  "agent_operations agent requested now db =
    (case claim_items agent now (select_items db agent requested now) db of
       (claimed, db') \<Rightarrow> (map (deliver db' now) claimed, db'))"

subsection \<open>Reporting\<close>

record report =
  rb_kind :: jstr
  rb_status :: jstr
  rb_error :: "jstr option"
  rb_duration :: "int option"
  rb_template :: "jstr option"

definition report_valid :: "report \<Rightarrow> bool" where
  "report_valid b \<longleftrightarrow> rb_kind b \<in> set gateway_kinds \<and> rb_status b \<in> {js ''applied'', js ''failed''}"

definition report_status :: "report \<Rightarrow> op_status" where
  "report_status b = (if rb_status b = js ''applied'' then Applied else Failed)"

definition report_error :: "report \<Rightarrow> jstr option" where
  "report_error b =
    (if rb_status b = js ''failed''
     then (let t = slice_to 1000 (trim (coalesce (rb_error b) [])) in
           Some (if t = [] then js ''ISAPI agent reported failure'' else t))
     else None)"

text \<open>A duration of zero, like a missing one, is stored as null.\<close>

definition report_duration :: "report \<Rightarrow> int option" where
  "report_duration b = (case rb_duration b of None \<Rightarrow> None | Some d \<Rightarrow> if d = 0 then None else Some (max 0 d))"

record op_detail =
  dt_device :: jstr
  dt_operation :: jstr
  dt_user :: "jstr option"
  dt_member :: "jstr option"
  dt_finger :: "jstr option"
  dt_capture :: "jstr option"

definition operation_detail :: "db \<Rightarrow> jstr \<Rightarrow> op_detail option" where
  "operation_detail db i =
    (case List.find (\<lambda>r. o_id r = i) (t_device_ops db) of
       Some r \<Rightarrow> Some \<lparr>dt_device = o_device r, dt_operation = o_operation r, dt_user = o_user r, dt_member = o_member r,
                   dt_finger = o_fingerprint r, dt_capture = o_capture r\<rparr>
     | None \<Rightarrow>
         map_option (\<lambda>r. \<lparr>dt_device = o_device r, dt_operation = o_operation r, dt_user = None, dt_member = None,
                       dt_finger = None, dt_capture = None\<rparr>)
           (List.find (\<lambda>r. o_id r = i) (t_visitor_ops db)))"

definition reportable :: "db \<Rightarrow> jstr \<Rightarrow> jstr \<Rightarrow> 'a op_row_scheme \<Rightarrow> bool" where
  "reportable db agent i r \<longleftrightarrow> o_id r = i \<and> o_status r \<in> {Pending, Sent, Failed}
     \<and> list_ex (\<lambda>c. cfg_device c = o_device r \<and> cfg_agent c = Some agent) (t_configs db)"

definition settle_row :: "jstr \<Rightarrow> report \<Rightarrow> int \<Rightarrow> 'a op_row_scheme \<Rightarrow> 'a op_row_scheme" where
  "settle_row agent b now r =
     r\<lparr>o_status := report_status b, o_error := report_error b, o_agent := Some agent, o_synced := Some (sql_now now), o_updated := sql_now now\<rparr>"

text \<open>The update of the first table, then of the second when nothing matched; \<open>None\<close> is the 404.\<close>

definition settle_operation :: "jstr \<Rightarrow> jstr \<Rightarrow> report \<Rightarrow> int \<Rightarrow> db \<Rightarrow> (bool \<times> db) option" where
  "settle_operation agent i b now db =
    (if list_ex (reportable db agent i) (t_device_ops db)
     then Some (False, db\<lparr>t_device_ops := update_where (reportable db agent i) (settle_row agent b now) (t_device_ops db)\<rparr>)
     else if list_ex (reportable db agent i) (t_visitor_ops db)
     then Some (True, db\<lparr>t_visitor_ops := update_where (reportable db agent i) (settle_row agent b now) (t_visitor_ops db)\<rparr>)
     else None)"

definition report_person_state :: "host \<Rightarrow> int \<Rightarrow> jstr \<Rightarrow> report \<Rightarrow> op_detail \<Rightarrow> db \<Rightarrow> db" where
  "report_person_state H now i b dt db =
    (if \<not> truthy_text (dt_user dt) \<and> \<not> truthy_text (dt_member dt) then db
     else case sync_person_ref db (if truthy_text (dt_member dt) then Dependant else Account)
                 (case dt_member dt of Some m \<Rightarrow> m | None \<Rightarrow> the (dt_user dt)) of
            None \<Rightarrow> db
          | Some p \<Rightarrow>
              if dt_operation dt = js ''delete_person''
              then set_device_person_state H now p (dt_device dt) (if report_status b = Applied then RemovedPerson else Missing)
                     (no_options\<lparr>so_operation := Some i, so_error := report_error b\<rparr>) db
              else refresh_device_person_state H now p (dt_device dt) db)"

definition still_queued :: "db \<Rightarrow> op_detail \<Rightarrow> nat" where
  "still_queued db dt =
     length (filter (\<lambda>r. o_device r = dt_device dt \<and> o_fingerprint r \<noteq> None \<and> o_fingerprint r = dt_finger dt
       \<and> o_status r \<in> {Pending, Sent}) (t_device_ops db))"

definition drop_template :: "int \<Rightarrow> jstr \<Rightarrow> db \<Rightarrow> db" where
  "drop_template now i db =
     db\<lparr>t_captures := update_where (\<lambda>c. cp_id c = i \<and> cp_status c = js ''captured'') (purge_row now) (t_captures db)\<rparr>"

definition enroll_by_hand :: "host \<Rightarrow> int \<Rightarrow> report \<Rightarrow> op_detail \<Rightarrow> fingerprint \<Rightarrow> user \<Rightarrow> db \<Rightarrow> db" where
  "enroll_by_hand H now b dt f u db =
     add_device_op ((new_device_op (draw H db) (dt_device dt) (js ''enroll_fingerprint'')
         (json_text (Obj [(js ''fingerprintId'', nullable (dt_finger dt)), (js ''fingerNo'', Num (int (fp_no f))),
            (js ''employeeNo'', nullable (fp_employee f)), (js ''reason'', Str (js ''the agent could not write the template''))]))
         ManualAction now)
       \<lparr>o_fingerprint := dt_finger dt,
        o_instruction := Some (js ''The agent could not write finger '' @ show_nat (fp_no f) @ js '' for '' @ u_name u
          @ js '' to this terminal ('' @ coalesce (report_error b) (js ''ISAPI refused it'')
          @ js ''). Enrol the finger on the terminal'' @ [39] @ js ''s own reader using slot '' @ show_nat (fp_no f)
          @ js '', then mark this action applied.'')\<rparr>) (drawn 1 db)"

definition report_fingerprint :: "host \<Rightarrow> int \<Rightarrow> report \<Rightarrow> op_detail \<Rightarrow> db \<Rightarrow> db" where
  "report_fingerprint H now b dt db =
    (if dt_operation dt \<notin> {js ''upload_fingerprint'', js ''delete_fingerprint_device''} \<or> still_queued db dt \<noteq> 0 then db
     else if report_status b = Applied
     then (if truthy_text (dt_capture dt) then drop_template now (the (dt_capture dt)) db else db)
     else case List.find (\<lambda>(f, u). Some (fp_id f) = dt_finger dt \<and> u_id u = fp_resident f) (List.product (t_fingers db) (t_users db)) of
            None \<Rightarrow> db
          | Some (f, u) \<Rightarrow> enroll_by_hand H now b dt f u db)"

definition store_template :: "int \<Rightarrow> jstr \<Rightarrow> capture \<Rightarrow> capture" where
  "store_template now t c =
     c\<lparr>cp_status := js ''captured'', cp_template := Some t, cp_error := None, cp_updated := sql_now now,
       cp_expires := sql_now now + template_ttl_seconds\<rparr>"

definition refresh_everywhere :: "host \<Rightarrow> int \<Rightarrow> person_ref \<Rightarrow> db \<Rightarrow> db" where
  "refresh_everywhere H now p db =
     fold (\<lambda>d. refresh_device_person_state H now p (sd_id d)) (sync_devices db None) db"

definition store_result :: "jstr \<Rightarrow> capture_result \<Rightarrow> db \<Rightarrow> db" where
  "store_result i res db =
     db\<lparr>t_device_ops := update_where (\<lambda>r. o_id r = i)
       (\<lambda>r. r\<lparr>o_result := Some (json_text (Obj [(js ''fingerprintId'', Str (ca_finger res)),
          (js ''queued'', Num (int (ca_queued res))), (js ''manual'', Num (int (ca_manual res)))]))\<rparr>) (t_device_ops db)\<rparr>"

definition report_capture :: "host \<Rightarrow> int \<Rightarrow> jstr \<Rightarrow> report \<Rightarrow> op_detail \<Rightarrow> db \<Rightarrow> db" where
  "report_capture H now i b dt db =
    (if dt_operation dt \<noteq> js ''capture_fingerprint'' \<or> \<not> truthy_text (dt_capture dt) then db
     else case List.find (\<lambda>c. cp_id c = the (dt_capture dt)) (t_captures db) of
       None \<Rightarrow> db
     | Some c \<Rightarrow>
         if report_status b = Applied then
           (if truthy_text (rb_template b) then
             (let t = the (rb_template b);
                  db1 = db\<lparr>t_captures := update_where (\<lambda>x. cp_id x = cp_id c) (store_template now t) (t_captures db)\<rparr>;
                  recorded = coalesce (List.find (\<lambda>x. cp_id x = cp_id c) (t_captures db1)) c
              in case apply_captured_template H now recorded db1 of
                   (res, db2) \<Rightarrow> refresh_everywhere H now (capture_person c) (store_result i res db2))
            else db)
         else db\<lparr>t_captures := update_where (\<lambda>x. cp_id x = cp_id c)
                (\<lambda>x. x\<lparr>cp_status := js ''failed'', cp_error := report_error b, cp_template := None, cp_updated := sql_now now\<rparr>)
                (t_captures db)\<rparr>)"

definition report_visitor :: "int \<Rightarrow> jstr \<Rightarrow> report \<Rightarrow> bool \<Rightarrow> db \<Rightarrow> db" where
  "report_visitor now i b visitor_operation db =
    (if visitor_operation \<and> report_status b = Applied
     then (case List.find (\<lambda>r. o_id r = i) (t_visitor_ops db) of
             None \<Rightarrow> db
           | Some r \<Rightarrow> if o_request r = [] then db else refresh_visitor_device_account_state now (o_request r) db)
     else db)"

definition log_report :: "host \<Rightarrow> int \<Rightarrow> jstr \<Rightarrow> jstr \<Rightarrow> report \<Rightarrow> db \<Rightarrow> db" where
  "log_report H now agent i b db =
    (case operation_detail db i of
       None \<Rightarrow> db
     | Some dt \<Rightarrow>
         let ok = (report_status b = Applied); word = (if ok then js ''ok'' else js ''failed'') in
         drawn 1 (db\<lparr>
           t_sync_logs := t_sync_logs db @ [\<lparr>sl_id = draw H db, sl_device = dt_device dt, sl_agent = agent, sl_operation = Some i,
              sl_type = rb_kind b, sl_status = (if ok then js ''success'' else js ''failed''),
              sl_message = report_error b, sl_duration = report_duration b\<rparr>],
           t_configs := update_where (\<lambda>c. cfg_device c = dt_device dt)
              (\<lambda>c. c\<lparr>cfg_last_sync := Some (sql_now now), cfg_last_status := Some word, cfg_last_error := report_error b\<rparr>) (t_configs db),
           t_devices := update_where (\<lambda>d. d_id d = dt_device dt)
              (\<lambda>d. d\<lparr>d_last_sync := Some (sql_now now), d_last_sync_status := Some word\<rparr>) (t_devices db)\<rparr>))"

definition for_detail :: "(op_detail \<Rightarrow> db \<Rightarrow> db) \<Rightarrow> op_detail option \<Rightarrow> db \<Rightarrow> db" where
  "for_detail f dt db = (case dt of None \<Rightarrow> db | Some d \<Rightarrow> f d db)"

text \<open>The status of the response and the database.\<close>

definition agent_operation_result :: "host \<Rightarrow> int \<Rightarrow> jstr \<Rightarrow> jstr \<Rightarrow> report \<Rightarrow> db \<Rightarrow> nat \<times> db" where
  "agent_operation_result H now agent i b db =
    (if \<not> report_valid b then (400, db)
     else let dt = operation_detail db i in
       case settle_operation agent i b now db of
         None \<Rightarrow> (404, db)
       | Some (visitor_operation, db1) \<Rightarrow>
           let db2 = for_detail (report_person_state H now i b) dt db1;
               db3 = for_detail (report_fingerprint H now b) dt db2;
               db4 = for_detail (report_capture H now i b) dt db3;
               db5 = report_visitor now i b visitor_operation db4
           in (200, log_report H now agent i b db5))"

text \<open>A status or a terminal the constraints of the table refuse is a server error.\<close>

definition agent_sync_log :: "host \<Rightarrow> jstr \<Rightarrow> jstr option \<Rightarrow> jstr option \<Rightarrow> jstr option \<Rightarrow> jstr option \<Rightarrow> int option \<Rightarrow> db \<Rightarrow> nat \<times> db" where
  "agent_sync_log H agent dev ty st msg dur db =
    (if \<not> truthy_text dev \<or> \<not> truthy_text ty \<or> \<not> truthy_text st then (400, db)
     else if the st \<notin> {js ''started'', js ''success'', js ''failed'', js ''pending''} \<or> \<not> list_ex (\<lambda>d. d_id d = the dev) (t_devices db)
     then (500, db)
     else (200, drawn 1 (db\<lparr>t_sync_logs := t_sync_logs db @ [\<lparr>sl_id = draw H db, sl_device = the dev, sl_agent = agent,
         sl_operation = None, sl_type = the ty, sl_status = the st,
         sl_message = (case msg of None \<Rightarrow> None | Some m \<Rightarrow> if m = [] then None else Some (slice_to 1000 m)), sl_duration = dur\<rparr>]\<rparr>)))"

subsection \<open>Claims\<close>

definition is_visitor :: "gateway_item \<Rightarrow> bool" where
  "is_visitor g \<longleftrightarrow> gi_kind g = VisitorWork"

text \<open>The row of an identifier was handed out at the moment \<open>t\<close>.\<close>

definition just_sent :: "'a op_row_scheme list \<Rightarrow> jstr \<Rightarrow> int \<Rightarrow> bool" where
  "just_sent rows i t \<longleftrightarrow> (\<exists>r\<in>set rows. o_id r = i \<and> o_status r = Sent \<and> o_updated r = t)"

definition item_sent :: "db \<Rightarrow> gateway_item \<Rightarrow> int \<Rightarrow> bool" where
  "item_sent db g t \<longleftrightarrow> (if is_visitor g then just_sent (t_visitor_ops db) (gi_id g) t else just_sent (t_device_ops db) (gi_id g) t)"

lemma claim_row_fields [simp]:
  "o_id (claim_row a now r) = o_id r" "o_status (claim_row a now r) = Sent" "o_updated (claim_row a now r) = sql_now now"
  "o_device (claim_row a now r) = o_device r" "o_operation (claim_row a now r) = o_operation r"
  "o_attempts (claim_row a now r) = o_attempts r + 1"
  by (simp_all add: claim_row_def)

lemma just_sent_claimed:
  "list_ex (claimable g now) rows \<Longrightarrow> just_sent (update_where (claimable g now) (claim_row a now) rows) (gi_id g) (sql_now now)"
proof -
  assume "list_ex (claimable g now) rows"
  then obtain r where r: "r \<in> set rows" "claimable g now r" by (auto simp: list_ex_iff)
  then have "claim_row a now r \<in> set (update_where (claimable g now) (claim_row a now) rows)" by (intro update_whereI) auto
  then show ?thesis unfolding just_sent_def using r(2) by (intro bexI) (auto simp: claimable_def)
qed

lemma just_sent_stable:
  assumes "just_sent rows i (sql_now now)"
  shows "just_sent (update_where (claimable g now) (claim_row a now) rows) i (sql_now now)"
proof -
  obtain r where r: "r \<in> set rows" "o_id r = i" "o_status r = Sent" "o_updated r = sql_now now"
    using assms by (auto simp: just_sent_def)
  then have "\<not> claimable g now r" by (simp add: claimable_def due_row_def)
  then show ?thesis using r update_where_keep by (metis just_sent_def)
qed

lemma claim_item_facts:
  assumes "claim_item a now g db = (changed, db')"
  shows "item_sent db h (sql_now now) \<Longrightarrow> item_sent db' h (sql_now now)"
    "changed \<Longrightarrow> item_sent db' g (sql_now now)"
    "map o_id (t_device_ops db') = map o_id (t_device_ops db)" "map o_id (t_visitor_ops db') = map o_id (t_visitor_ops db)"
    "t_captures db' = t_captures db"
  using assms
  by (auto simp: claim_item_def item_sent_def is_visitor_def just_sent_stable just_sent_claimed map_update_where split: if_splits)

lemma claim_items_facts:
  assumes "claim_items a now gs db = (cl, db')"
  shows "(\<forall>g\<in>set cl. g \<in> set gs \<and> item_sent db' g (sql_now now)) \<and> (\<forall>h. item_sent db h (sql_now now) \<longrightarrow> item_sent db' h (sql_now now))
    \<and> map o_id (t_device_ops db') = map o_id (t_device_ops db) \<and> map o_id (t_visitor_ops db') = map o_id (t_visitor_ops db)"
  using assms
proof (induction gs arbitrary: db cl)
  case (Cons g gs)
  obtain ch db1 where one: "claim_item a now g db = (ch, db1)" by (cases "claim_item a now g db")
  obtain cs where rest: "claim_items a now gs db1 = (cs, db')" and cl: "cl = (if ch then g # cs else cs)"
    using Cons.prems one by (auto split: prod.splits)
  show ?case using Cons.IH [OF rest] claim_item_facts [OF one] by (auto simp: cl)
qed simp

text \<open>Where a selected item comes from.\<close>

lemma gateway_kind_device [simp]: "gateway_kind opn \<noteq> VisitorWork"
  by (auto simp: gateway_kind_def)

lemma due_device_origin:
  "g \<in> set (due_device_items db agent now) \<Longrightarrow>
     \<not> is_visitor g \<and> (\<exists>r\<in>set (t_device_ops db). o_id r = gi_id g \<and> o_device r = gi_device g \<and> due_row now (stale_after (o_operation r)) r
        \<and> gi_payload g = o_payload r)"
  by (auto simp: due_device_items_def gateway_row_def is_visitor_def)

lemma due_visitor_origin:
  "g \<in> set (due_visitor_items db agent now) \<Longrightarrow>
     is_visitor g \<and> (\<exists>r\<in>set (t_visitor_ops db). o_id r = gi_id g \<and> o_device r = gi_device g \<and> due_row now 120 r \<and> gi_payload g = o_payload r)"
  by (auto simp: due_visitor_items_def gateway_row_def is_visitor_def)

lemma select_origin:
  assumes "g \<in> set (select_items db agent requested now)"
  shows "g \<in> set (due_device_items db agent now) \<or> g \<in> set (due_visitor_items db agent now)"
  using assms by (auto simp: select_items_def dest!: in_set_takeD)

lemma not_due_again:
  assumes "distinct (map o_id rows)" "just_sent rows i t" "r \<in> set rows" "o_id r = i"
    "sql_now now' \<le> t + 120" "120 \<le> limit"
  shows "\<not> due_row now' limit r"
proof -
  obtain q where q: "q \<in> set rows" "o_id q = i" "o_status q = Sent" "o_updated q = t"
    using assms(2) by (auto simp: just_sent_def)
  then have "r = q" using assms(1,3,4) by (metis distinct_map inj_onD)
  then show ?thesis using q assms(5,6) by (simp add: due_row_def)
qed


subsection \<open>Work comes back\<close>

definition same_key :: "gateway_item \<Rightarrow> gateway_item \<Rightarrow> bool" where
  "same_key g h \<longleftrightarrow> gi_id g = gi_id h \<and> is_visitor g = is_visitor h"

lemma claimed_for_device_row:
  assumes "claim_items a now gs db = (cl, db')" "g \<in> set gs" "\<not> is_visitor g"
    "r \<in> set (t_device_ops db)" "claimable g now r"
  shows "\<exists>h\<in>set cl. same_key h g"
  using assms
proof (induction gs arbitrary: db cl)
  case (Cons k gs)
  obtain ch db1 where one: "claim_item a now k db = (ch, db1)" by (cases "claim_item a now k db")
  obtain cs where rest: "claim_items a now gs db1 = (cs, db')" and cl: "cl = (if ch then k # cs else cs)"
    using Cons.prems(1) one by (auto split: prod.splits)
  show ?case
  proof (cases "\<not> is_visitor k \<and> claimable k now r")
    case True
    then have ch "same_key k g"
      using one Cons.prems(3-5) by (auto simp: claim_item_def is_visitor_def list_ex_iff same_key_def claimable_def split: if_splits)
    then show ?thesis by (auto simp: cl)
  next
    case False
    then have "r \<in> set (t_device_ops db1)"
      using one Cons.prems(4) by (auto simp: claim_item_def is_visitor_def split: if_splits intro: update_where_keep)
    moreover have "g \<in> set gs" using Cons.prems False by auto
    ultimately show ?thesis using Cons.IH [OF rest] Cons.prems by (auto simp: cl)
  qed
qed simp


subsection \<open>The queue at work\<close>

definition able_agent :: "jstr \<Rightarrow> isapi_agent" where
  "able_agent i = \<lparr>ag_id = i, ag_capabilities = Some (json_text (Arr [Str (js ''card''), Str (js ''person''), Str (js ''fingerprint'')])),
     ag_deleted = False\<rparr>"

definition linked_db :: db where
  "linked_db = captures_db\<lparr>t_configs := [sample_config (js ''d1'') (js ''a1''), sample_config (js ''d2'') (js ''a2'')],
     t_agents := [able_agent (js ''a1''), able_agent (js ''a2'')]\<rparr>"

definition queued_db :: db where
  "queued_db = snd (sync_person_to_devices sample_host 1000000 sync_person (js ''sync'') None False linked_db)"

definition first_claim :: "delivery list \<times> db" where
  "first_claim = agent_operations (js ''a1'') None 1001000 queued_db"

definition second_claim :: "delivery list \<times> db" where
  "second_claim = agent_operations (js ''a2'') None 1061000 (snd first_claim)"

lemma claims_run:
  "map (\<lambda>x. (gi_operation (dl_item x), gi_device (dl_item x))) (fst first_claim)
     = [(js ''upsert_person'', js ''d1'')]"
  "map (\<lambda>x. (gi_operation (dl_item x), gi_device (dl_item x))) (fst second_claim)
     = [(js ''upsert_person'', js ''d2'')]"
  "distinct (map o_id (t_device_ops queued_db))" "distinct (map o_id (t_visitor_ops queued_db))"
  by code_simp+


definition waiting_op :: device_op where
  "waiting_op = (new_device_op (js ''o1'') (js ''d1'') (js ''remote_open'') [] Sent 0)\<lparr>o_attempts := 1\<rparr>"


subsection \<open>Payloads and templates\<close>

lemma fold_add_door_bounds:
  "(\<forall>n\<in>set acc. 1 \<le> n \<and> n \<le> 8) \<Longrightarrow> \<forall>n\<in>set (fold (\<lambda>p. add_door (ap_channel p)) ps acc). 1 \<le> n \<and> n \<le> 8"
proof (induction ps arbitrary: acc)
  case (Cons p ps)
  have "\<forall>n\<in>set (add_door (ap_channel p) acc). 1 \<le> n \<and> n \<le> 8" using Cons.prems by (simp add: add_door_def)
  from Cons.IH [OF this] show ?case by simp
qed simp

lemma device_doors_bounds: "n \<in> set (device_doors db dev) \<Longrightarrow> 1 \<le> n \<and> n \<le> 8"
  using fold_add_door_bounds [of "[]"] by (auto simp: device_doors_def Let_def split: if_splits)

lemma person_body_printable:
  assumes "d \<in> set (sync_devices db ids)" "units (pr_name p)" "units (pr_id p)" "units reason"
    "\<And>e. pr_employee p = Some e \<Longrightarrow> units e"
  shows "printable (person_body p d reason)"
proof -
  have doors: "1 \<le> n \<and> n \<le> 8" if "n \<in> set (sd_doors d)" for n
    using assms(1) that device_doors_bounds by (auto simp: sync_devices_def sync_device_row_def)
  then have "\<forall>n\<in>set (sd_doors d). \<bar>n\<bar> \<le> max_safe" by (force simp: max_safe_def)
  moreover have "units (kind_text (pr_kind p))" by (cases "pr_kind p") (simp_all add: kind_text_def)
  moreover have "printable (nullable (pr_employee p))" using assms(5) by (cases "pr_employee p") (auto simp: nullable_def)
  ultimately show ?thesis
    using assms(2-4) by (auto simp: person_body_def list_all_iff units_show_int intro!: units_join)
qed



lemma no_live_template:
  "List.find (live_template later k) (rev (update_where (\<lambda>c. cp_id c = k \<and> cp_status c = js ''captured'') (purge_row now) cs)) = None"
proof -
  have "\<forall>c\<in>set (update_where (\<lambda>c. cp_id c = k \<and> cp_status c = js ''captured'') (purge_row now) cs). \<not> live_template later k c"
    by (induction cs) (auto simp: live_template_def)
  then show ?thesis by (simp add: find_None_iff_set)
qed

text \<open>
  The first terminal that confirms a fingerprint ends the template for all: as soon as one
  upload is reported applied and that terminal has nothing else queued for the finger, the template
  is dropped, and any other terminal whose upload of the same capture is still waiting is handed no
  fingerprint data, now or later.
\<close>

theorem first_upload_ends_the_template:
  assumes "dt_operation dt = js ''upload_fingerprint''" "dt_capture dt = Some k" "k \<noteq> []" "report_status b = Applied" "still_queued db dt = 0"
    and "gi_capture g = Some k"
  shows "dl_finger_data (deliver (report_fingerprint H now b dt db) later g) = None"
proof -
  have "t_captures (report_fingerprint H now b dt db)
      = update_where (\<lambda>c. cp_id c = k \<and> cp_status c = js ''captured'') (purge_row now) (t_captures db)"
    using assms(1-5) by (simp add: report_fingerprint_def truthy_text_def drop_template_def)
  then have "List.find (live_template later k) (rev (t_captures (report_fingerprint H now b dt db))) = None"
    by (simp only: no_live_template)
  then show ?thesis using assms(6) by (simp add: deliver_def template_for_def)
qed

definition applied_report :: report where
  "applied_report = \<lparr>rb_kind = js ''fingerprint'', rb_status = js ''applied'', rb_error = None, rb_duration = None, rb_template = None\<rparr>"

text \<open>The upload on one terminal is settled, that on the other is still to be delivered.\<close>

definition upload_row :: "jstr \<Rightarrow> jstr \<Rightarrow> op_status \<Rightarrow> device_op" where
  "upload_row i dev st = (new_device_op i dev (js ''upload_fingerprint'') [] st 0)
     \<lparr>o_fingerprint := Some (js ''f1''), o_capture := Some (js ''k1'')\<rparr>"

definition uploads_db :: db where
  "uploads_db = linked_db\<lparr>t_device_ops := [upload_row (js ''o1'') (js ''d1'') Applied, upload_row (js ''o2'') (js ''d2'') Pending]\<rparr>"

definition upload_detail :: op_detail where
  "upload_detail = \<lparr>dt_device = js ''d1'', dt_operation = js ''upload_fingerprint'', dt_user = None, dt_member = None,
     dt_finger = Some (js ''f1''), dt_capture = Some (js ''k1'')\<rparr>"

definition second_upload :: gateway_item where
  "second_upload = hd (select_items uploads_db (js ''a2'') None 1000000)"

lemma uploads_run:
  "operation_detail uploads_db (js ''o1'') = Some upload_detail"
  "still_queued uploads_db upload_detail = 0"
  "gi_capture second_upload = Some (js ''k1'')"
  "dl_finger_data (deliver uploads_db 1000000 second_upload) = Some (js ''AAAA'')"
  by code_simp+

theorem first_upload_ends_the_template_witness:
  "dl_finger_data (deliver uploads_db 1000000 second_upload) = Some (js ''AAAA'')
   \<and> dl_finger_data (deliver (report_fingerprint sample_host 1000000 applied_report upload_detail uploads_db) 1000000 second_upload) = None"
proof -
  have "dt_operation upload_detail = js ''upload_fingerprint''" "dt_capture upload_detail = Some (js ''k1'')"
    "report_status applied_report = Applied"
    by (simp_all add: upload_detail_def report_status_def applied_report_def)
  then show ?thesis
    using first_upload_ends_the_template [OF _ _ _ _ uploads_run(2,3)] uploads_run(4) by simp
qed

end
