(* ===== verification/OperatorOps.thy ===== *)
theory OperatorOps
  imports AgentOps
begin

text \<open>
  What an operator does to the command queue (\<^verbatim>\<open>index.ts\<close>): retrying a failed
  operation, settling one by hand, queueing card and fingerprint work for every terminal, and the
  door and access commands of the remote desk.
\<close>

subsection \<open>Retry and settlement\<close>

definition device_of_op :: "db \<Rightarrow> ('a op_row_scheme) \<Rightarrow> device option" where
  "device_of_op db r = List.find (\<lambda>d. d_id d = o_device r) (t_devices db)"

definition failed_with_device :: "db \<Rightarrow> jstr \<Rightarrow> 'a op_row_scheme list \<Rightarrow> ('a op_row_scheme \<times> device) option" where
  "failed_with_device db i rows =
    (case List.find (\<lambda>r. o_id r = i \<and> o_status r = Failed \<and> device_of_op db r \<noteq> None) rows of
       None \<Rightarrow> None | Some r \<Rightarrow> Some (r, the (device_of_op db r)))"

definition mark_status :: "jstr \<Rightarrow> op_status \<Rightarrow> jstr option \<Rightarrow> int \<Rightarrow> 'a op_row_scheme list \<Rightarrow> 'a op_row_scheme list" where
  "mark_status i st err now rows =
     update_where (\<lambda>r. o_id r = i) (\<lambda>r. r\<lparr>o_status := st, o_error := err, o_updated := sql_now now\<rparr>) rows"

definition deliverable :: "db \<Rightarrow> device \<Rightarrow> bool" where
  "deliverable db d \<longleftrightarrow> is_pending_pattern (d_pattern d) \<and> device_has_linked_agent db (d_id d)"

definition retry_automatic :: "db \<Rightarrow> device_op \<Rightarrow> device \<Rightarrow> bool" where
  "retry_automatic db r d \<longleftrightarrow> \<not> truthy_text (o_fingerprint r)
     \<and> \<not> starts_with (o_operation r) (js ''enroll_fingerprint'') \<and> \<not> starts_with (o_operation r) (js ''enable_fingerprint'')
     \<and> \<not> starts_with (o_operation r) (js ''disable_fingerprint'') \<and> \<not> starts_with (o_operation r) (js ''delete_fingerprint'')
     \<and> deliverable db d"

definition retry_status :: "db \<Rightarrow> device_op \<Rightarrow> device \<Rightarrow> op_status" where
  "retry_status db r d =
    (if truthy_text (o_fingerprint r) \<or> contains (o_operation r) (js ''fingerprint'') then ManualAction
     else if retry_automatic db r d then Pending else ManualAction)"

text \<open>\<open>Inl\<close> is the 404.\<close>

definition retry_operation :: "int \<Rightarrow> jstr \<Rightarrow> db \<Rightarrow> (jstr, op_status \<times> db) result" where
  "retry_operation now i db =
    (case failed_with_device db i (t_device_ops db) of
       Some (r, d) \<Rightarrow>
         let st = retry_status db r d in Inr (st, db\<lparr>t_device_ops := mark_status i st None now (t_device_ops db)\<rparr>)
     | None \<Rightarrow>
         (case failed_with_device db i (t_visitor_ops db) of
            None \<Rightarrow> Inl (js ''Failed command not found'')
          | Some (r, d) \<Rightarrow>
              let st = (if deliverable db d then Pending else ManualAction)
              in Inr (st, db\<lparr>t_visitor_ops := mark_status i st None now (t_visitor_ops db)\<rparr>)))"

definition operator_status :: "jstr \<Rightarrow> op_status option" where
  "operator_status s = (if s = js ''applied'' then Some Applied else if s = js ''failed'' then Some Failed else None)"

definition settle_by_operator :: "int \<Rightarrow> jstr \<Rightarrow> jstr \<Rightarrow> jstr option \<Rightarrow> db \<Rightarrow> (jstr, db) result" where
  "settle_by_operator now i status err db =
    (case operator_status status of
       None \<Rightarrow> Inl (js ''status must be applied or failed'')
     | Some st \<Rightarrow>
         Inr (if list_ex (\<lambda>r. o_id r = i) (t_device_ops db)
              then db\<lparr>t_device_ops := mark_status i st err now (t_device_ops db)\<rparr>
              else let db1 = db\<lparr>t_visitor_ops := mark_status i st err now (t_visitor_ops db)\<rparr> in
                case List.find (\<lambda>r. o_id r = i) (t_visitor_ops db1) of
                  None \<Rightarrow> db1
                | Some r \<Rightarrow> if o_request r = [] then db1 else refresh_visitor_device_account_state now (o_request r) db1))"

subsection \<open>Work for every terminal\<close>

definition card_row :: "jstr \<Rightarrow> int \<Rightarrow> jstr \<Rightarrow> jstr \<Rightarrow> jval \<Rightarrow> device \<Rightarrow> device_op" where
  "card_row i now cid opn payload d =
     (new_device_op i (d_id d) opn (json_text payload) (if is_pending_pattern (d_pattern d) then Pending else ManualAction) now)
       \<lparr>o_card := Some cid\<rparr>"

definition finger_row :: "jstr \<Rightarrow> int \<Rightarrow> jstr \<Rightarrow> jstr \<Rightarrow> jval \<Rightarrow> jstr \<Rightarrow> device \<Rightarrow> device_op" where
  "finger_row i now finger opn payload instruction d =
     (new_device_op i (d_id d) opn (json_text payload) ManualAction now)
       \<lparr>o_fingerprint := Some finger, o_instruction := Some (slice_to 1000 instruction)\<rparr>"

text \<open>One row per terminal, each with an identifier of its own.\<close>

definition queue_rows :: "host \<Rightarrow> (jstr \<Rightarrow> device \<Rightarrow> device_op) \<Rightarrow> device list \<Rightarrow> db \<Rightarrow> db" where
  "queue_rows H mk ds db =
     drawn (length ds) (db\<lparr>t_device_ops := t_device_ops db @
       map (\<lambda>(n, d). mk (h_uuid H (t_draws db + n)) d) (enumerate 0 ds)\<rparr>)"

definition create_device_operations :: "host \<Rightarrow> int \<Rightarrow> jstr \<Rightarrow> jstr \<Rightarrow> jval \<Rightarrow> db \<Rightarrow> db" where
  "create_device_operations H now cid opn payload db =
     queue_rows H (\<lambda>i. card_row i now cid opn payload) (enabled_devices db) db"

definition create_fingerprint_operations ::
    "host \<Rightarrow> int \<Rightarrow> jstr \<Rightarrow> jstr \<Rightarrow> jval \<Rightarrow> jstr \<Rightarrow> jstr option \<Rightarrow> db \<Rightarrow> nat \<times> db" where
  "create_fingerprint_operations H now finger opn payload instruction dev db =
    (let ds = filter (\<lambda>d. dev = None \<or> Some (d_id d) = dev) (enabled_devices db)
     in (length ds, queue_rows H (\<lambda>i. finger_row i now finger opn payload instruction) ds db))"

subsection \<open>Door commands\<close>

definition remote_door_commands :: "(jstr \<times> jstr \<times> jstr) list" where
  "remote_door_commands =
     [(js ''remote_open'', js ''open'', js ''Momentary open''),
      (js ''remote_close'', js ''close'', js ''Close''),
      (js ''remote_always_open'', js ''alwaysOpen'', js ''Remain open''),
      (js ''remote_always_close'', js ''alwaysClose'', js ''Remain closed''),
      (js ''remote_resume'', js ''resume'', js ''Resume schedule'')]"

definition is_remote_door_operation :: "jstr \<Rightarrow> bool" where
  "is_remote_door_operation v \<longleftrightarrow> map_of remote_door_commands v \<noteq> None"

record door_body =
  db_device :: "jstr option"
  db_door :: jval
  db_command :: "jstr option"
  db_reason :: "jstr option"

record door_request =
  dr_device :: jstr
  dr_door :: int
  dr_command :: jstr
  dr_reason :: jstr

definition trimmed :: "jstr option \<Rightarrow> jstr" where
  "trimmed x = (case x of None \<Rightarrow> [] | Some t \<Rightarrow> trim t)"

definition door_number :: "jval \<Rightarrow> int option" where
  "door_number v = (case to_number (if nullish v then Num 1 else v) of Num n \<Rightarrow> if 1 \<le> n \<and> n \<le> 8 then Some n else None | _ \<Rightarrow> None)"

type_synonym refusal = "nat \<times> jstr"

definition validate_door :: "door_body \<Rightarrow> (refusal, door_request) result" where
  "validate_door b =
    (let command = trimmed (db_command b); dev = trimmed (db_device b); reason = trimmed (db_reason b) in
     guard (is_remote_door_operation command)
       (400, js ''command must be remote_open, remote_close, remote_always_open, remote_always_close or remote_resume'')
     (guard (dev \<noteq> []) (400, js ''deviceId is required'')
     (guard (door_number (db_door b) \<noteq> None) (400, js ''doorNo must be a whole number from 1 to 8'')
     (guard (3 \<le> length reason \<and> length reason \<le> 200) (400, js ''A reason between 3 and 200 characters is required'')
     (Inr \<lparr>dr_device = dev, dr_door = the (door_number (db_door b)), dr_command = command, dr_reason = reason\<rparr>)))))"

text \<open>\<open>json_extract(payload_json,'$.doorNo') = ?\<close>.\<close>

definition payload_door :: "jstr \<Rightarrow> int \<Rightarrow> bool" where
  "payload_door payload n \<longleftrightarrow>
     (case json_parse payload of None \<Rightarrow> False | Some v \<Rightarrow> get_prop v (js ''doorNo'') = Num n)"

definition door_waiting :: "db \<Rightarrow> door_request \<Rightarrow> bool" where
  "door_waiting db q \<longleftrightarrow> list_ex (\<lambda>r. o_device r = dr_device q \<and> o_operation r = dr_command q \<and> o_status r \<in> {Pending, Sent}
     \<and> payload_door (o_payload r) (dr_door q)) (t_device_ops db)"

definition door_payload :: "door_request \<Rightarrow> jstr \<Rightarrow> jval" where
  "door_payload q by_user = Obj
     [(js ''doorNo'', Num (dr_door q)), (js ''command'', Str (fst (the (map_of remote_door_commands (dr_command q))))),
      (js ''reason'', Str (dr_reason q)), (js ''requestedBy'', Str by_user)]"

definition door_instruction :: "door_request \<Rightarrow> device \<Rightarrow> bool \<Rightarrow> jstr" where
  "door_instruction q d automatic = snd (the (map_of remote_door_commands (dr_command q))) @ js '' door '' @ show_int (dr_door q)
     @ js '' on '' @ d_name d @ js '' ('' @ d_gate_name d @ js ''). Reason: '' @ dr_reason q @ js ''. ''
     @ (if automatic
        then js ''The estate agent will try this over ISAPI on the LAN. If the terminal rejects it, apply it on the terminal or in iVMS-4200 and mark this action applied.''
        else js ''No linked agent can deliver this automatically. Apply it on the terminal or in iVMS-4200, then mark this action applied.'')
     @ js '' Do not publish the terminal to the Internet.''"

definition door_operation :: "jstr \<Rightarrow> int \<Rightarrow> door_request \<Rightarrow> device \<Rightarrow> bool \<Rightarrow> jstr \<Rightarrow> device_op" where
  "door_operation i now q d automatic by_user =
     (new_device_op i (dr_device q) (dr_command q) (json_text (door_payload q by_user)) (queue_status automatic) now)
       \<lparr>o_instruction := Some (slice_to 1000 (door_instruction q d automatic))\<rparr>"

definition remote_door :: "host \<Rightarrow> int \<Rightarrow> jstr \<Rightarrow> door_body \<Rightarrow> db \<Rightarrow> (refusal, device_op \<times> db) result" where
  "remote_door H now by_user b db =
     rbind (validate_door b) (\<lambda>q.
       case List.find (\<lambda>d. d_id d = dr_device q \<and> \<not> d_deleted d) (t_devices db) of
         None \<Rightarrow> Inl (404, js ''Access-control device not found'')
       | Some d \<Rightarrow>
           guard (d_status d \<noteq> js ''disabled'') (409, js ''That terminal is disabled'')
           (guard (\<not> door_waiting db q) (409, js ''That door command is already waiting to be applied'')
             (let row = door_operation (draw H db) now q d (device_has_linked_agent db (dr_device q) \<and> is_pending_pattern (d_pattern d)) by_user
              in Inr (row, add_device_op row (drawn 1 db)))))"

subsection \<open>Suspending and restoring a person's access\<close>

record access_body =
  ab_resident :: "jstr option"
  ab_member :: "jstr option"
  ab_action :: "jstr option"
  ab_reason :: "jstr option"
  ab_household :: "bool option"

record access_target =
  at_suspend :: bool
  at_reason :: jstr
  at_resident :: jstr
  at_member :: "jstr option"
  at_name :: jstr
  at_household :: bool

definition access_person :: "db \<Rightarrow> access_body \<Rightarrow> bool \<Rightarrow> jstr \<Rightarrow> (refusal, access_target) result" where
  "access_person db b suspend reason =
    (if trimmed (ab_member b) \<noteq> []
     then (case List.find (\<lambda>m. m_id m = trimmed (ab_member b) \<and> m_status m = js ''active'') (t_members db) of
             None \<Rightarrow> Inl (404, js ''Active household member not found'')
           | Some m \<Rightarrow> Inr \<lparr>at_suspend = suspend, at_reason = reason, at_resident = m_primary m, at_member = Some (m_id m),
                          at_name = m_name m, at_household = False\<rparr>)
     else (case List.find (\<lambda>u. u_id u = trimmed (ab_resident b) \<and> u_role u = js ''resident'' \<and> u_status u = js ''active'') (t_users db) of
             None \<Rightarrow> Inl (404, js ''Active resident not found'')
           | Some u \<Rightarrow> Inr \<lparr>at_suspend = suspend, at_reason = reason, at_resident = u_id u, at_member = None,
                          at_name = u_name u, at_household = coalesce (ab_household b) True\<rparr>))"

definition validate_access :: "db \<Rightarrow> access_body \<Rightarrow> (refusal, access_target) result" where
  "validate_access db b =
    (let action = trimmed (ab_action b); reason = trimmed (ab_reason b) in
     guard (action = js ''suspend'' \<or> action = js ''restore'') (400, js ''action must be suspend or restore'')
     (guard (3 \<le> length reason \<and> length reason \<le> 200) (400, js ''A reason between 3 and 200 characters is required'')
        (access_person db b (action = js ''suspend'') reason)))"

definition from_status :: "access_target \<Rightarrow> jstr" where
  "from_status a = (if at_suspend a then js ''active'' else js ''suspended'')"

definition to_status :: "access_target \<Rightarrow> jstr" where
  "to_status a = (if at_suspend a then js ''suspended'' else js ''active'')"

definition access_matches :: "access_target \<Rightarrow> jstr option \<Rightarrow> bool" where
  "access_matches a member =
    (case at_member a of Some m \<Rightarrow> member = Some m | None \<Rightarrow> at_household a \<or> \<not> truthy_text member)"

definition chosen_card :: "access_target \<Rightarrow> access_card \<Rightarrow> bool" where
  "chosen_card a c \<longleftrightarrow> ac_resident c = Some (at_resident a) \<and> ac_status c = from_status a \<and> access_matches a (ac_member c)"

definition chosen_finger :: "access_target \<Rightarrow> fingerprint \<Rightarrow> bool" where
  "chosen_finger a f \<longleftrightarrow> fp_resident f = at_resident a \<and> fp_status f = from_status a \<and> access_matches a (fp_member f)"

definition change_card :: "host \<Rightarrow> access_target \<Rightarrow> jstr \<Rightarrow> access_card \<Rightarrow> db \<Rightarrow> db" where
  "change_card H a by_user c db =
     drawn 1 (db\<lparr>
       t_cards := update_where (\<lambda>x. ac_id x = ac_id c) (\<lambda>x. x\<lparr>ac_status := to_status a, ac_reason := Some (at_reason a), ac_auto := False\<rparr>) (t_cards db),
       t_card_changes := t_card_changes db @ [\<lparr>cc_id = draw H db, cc_credential = ac_id c, cc_old = ac_status c,
         cc_new = to_status a, cc_reason = at_reason a, cc_by = Some by_user\<rparr>]\<rparr>)"

definition change_finger :: "host \<Rightarrow> access_target \<Rightarrow> jstr \<Rightarrow> fingerprint \<Rightarrow> db \<Rightarrow> db" where
  "change_finger H a by_user f db =
     drawn 1 (db\<lparr>
       t_fingers := update_where (\<lambda>x. fp_id x = fp_id f) (\<lambda>x. x\<lparr>fp_status := to_status a, fp_reason := Some (at_reason a), fp_auto := False\<rparr>) (t_fingers db),
       t_finger_changes := t_finger_changes db @ [\<lparr>cc_id = draw H db, cc_credential = fp_id f, cc_old = fp_status f,
         cc_new = to_status a, cc_reason = at_reason a, cc_by = Some by_user\<rparr>]\<rparr>)"

definition queue_card_change :: "host \<Rightarrow> int \<Rightarrow> access_target \<Rightarrow> access_card \<Rightarrow> db \<Rightarrow> db" where
  "queue_card_change H now a c db =
     create_device_operations H now (ac_id c) (if at_suspend a then js ''disable_card'' else js ''enable_card'')
       (Obj [(js ''cardUid'', Str (ac_uid c)), (js ''enabled'', Bool (\<not> at_suspend a)), (js ''reason'', Str (at_reason a))]) db"

definition finger_change_instruction :: "access_target \<Rightarrow> fingerprint \<Rightarrow> jstr" where
  "finger_change_instruction a f =
     (if at_suspend a then js ''Disable '' else js ''Re-enable '')
     @ (case fp_label f of Some l \<Rightarrow> l | None \<Rightarrow> js ''Finger '' @ show_nat (fp_no f)) @ js '' for '' @ at_name a
     @ (if truthy_text (fp_employee f) then js '' (employee '' @ the (fp_employee f) @ js '')'' else [])
     @ js '' on the terminal, then mark this action applied. Reason: '' @ at_reason a"

definition queue_finger_change :: "host \<Rightarrow> int \<Rightarrow> access_target \<Rightarrow> fingerprint \<Rightarrow> nat \<times> db \<Rightarrow> nat \<times> db" where
  "queue_finger_change H now a f acc =
    (case create_fingerprint_operations H now (fp_id f) (if at_suspend a then js ''disable_fingerprint'' else js ''enable_fingerprint'')
        (Obj [(js ''fingerprintId'', Str (fp_id f)), (js ''fingerNo'', Num (int (fp_no f))), (js ''employeeNo'', nullable (fp_employee f)),
           (js ''enabled'', Bool (\<not> at_suspend a)), (js ''reason'', Str (at_reason a))])
        (finger_change_instruction a f) None (snd acc) of
       (n, db) \<Rightarrow> (fst acc + n, db))"

record access_change =
  ax_cards :: nat
  ax_fingers :: nat
  ax_tasks :: nat

definition change_access :: "host \<Rightarrow> int \<Rightarrow> jstr \<Rightarrow> access_body \<Rightarrow> db \<Rightarrow> (refusal, access_change \<times> db) result" where
  "change_access H now by_user b db =
     rbind (validate_access db b) (\<lambda>a.
       let cards = filter (chosen_card a) (t_cards db); fingers = filter (chosen_finger a) (t_fingers db) in
       guard (cards \<noteq> [] \<or> fingers \<noteq> [])
         (409, if at_suspend a then js ''That person has no active card or fingerprint to suspend''
               else js ''That person has no suspended card or fingerprint to restore'')
         (let db1 = fold (change_finger H a by_user) fingers (fold (change_card H a by_user) cards db);
              db2 = fold (queue_card_change H now a) cards db1
          in case fold (queue_finger_change H now a) fingers (0, db2) of
               (tasks, db3) \<Rightarrow> Inr (\<lparr>ax_cards = length cards, ax_fingers = length fingers, ax_tasks = tasks\<rparr>, db3)))"

section \<open>The life of a command\<close>

text \<open>
  The abstract life of one command: what an agent may do to its status, and what an operator may.
\<close>

inductive agent_move :: "op_status \<Rightarrow> op_status \<Rightarrow> bool" where
  take_pending: "agent_move Pending Sent"
| take_again: "agent_move Sent Sent"
| confirm: "s \<in> {Pending, Sent, Failed} \<Longrightarrow> agent_move s Applied"
| give_up: "s \<in> {Pending, Sent, Failed} \<Longrightarrow> agent_move s Failed"

inductive operator_move :: "op_status \<Rightarrow> op_status \<Rightarrow> bool" where
  retry_pending: "operator_move Failed Pending"
| retry_manual: "operator_move Failed ManualAction"
| mark_applied: "operator_move s Applied"
| mark_failed: "operator_move s Failed"

inductive_cases agent_move_AppliedE [elim!]: "agent_move Applied s"
inductive_cases agent_move_ManualE [elim!]: "agent_move ManualAction s"
inductive_simps agent_move_to_Sent: "agent_move s Sent"

text \<open>
  The handlers as steps of the stored queue; the identifier is the primary key of the table, which
  matters to the update by identifier of a retry.
\<close>

inductive agent_step :: "host \<Rightarrow> db \<Rightarrow> db \<Rightarrow> bool" for H where
  asks: "agent_operations agent requested now db = (ds, db') \<Longrightarrow> agent_step H db db'"
| reports: "agent_operation_result H now agent i b db = (code, db') \<Longrightarrow> agent_step H db db'"
| logs: "agent_sync_log H agent dev ty st msg dur db = (code, db') \<Longrightarrow> agent_step H db db'"

inductive operator_step :: "host \<Rightarrow> db \<Rightarrow> db \<Rightarrow> bool" for H where
  retries: "distinct (map o_id (t_device_ops db)) \<Longrightarrow> retry_operation now i db = Inr (st, db') \<Longrightarrow> operator_step H db db'"
| settles: "settle_by_operator now i status err db = Inr db' \<Longrightarrow> operator_step H db db'"
| orders: "remote_door H now by_user b db = Inr (row, db') \<Longrightarrow> operator_step H db db'"
| changes: "change_access H now by_user body db = Inr (res, db') \<Longrightarrow> operator_step H db db'"
| syncs: "sync_person_to_devices H now p reason ids creds db = (r, db') \<Longrightarrow> operator_step H db db'"
| removes: "remove_person_from_devices H now p reason ids full db = (r, db') \<Longrightarrow> operator_step H db db'"

text \<open>
  A command seen across steps: its row keeps its identity, terminal, operation, payload and
  credential, its attempts never go down, and its status moves as the abstract life allows.
\<close>

definition successor :: "(op_status \<Rightarrow> op_status \<Rightarrow> bool) \<Rightarrow> device_op \<Rightarrow> device_op \<Rightarrow> bool" where
  "successor mv r r' \<longleftrightarrow> o_id r' = o_id r \<and> o_device r' = o_device r \<and> o_operation r' = o_operation r \<and> o_payload r' = o_payload r
     \<and> o_card r' = o_card r \<and> o_fingerprint r' = o_fingerprint r \<and> o_attempts r \<le> o_attempts r' \<and> mv\<^sup>*\<^sup>* (o_status r) (o_status r')"

definition evolves :: "(op_status \<Rightarrow> op_status \<Rightarrow> bool) \<Rightarrow> db \<Rightarrow> db \<Rightarrow> bool" where
  "evolves mv db db' \<longleftrightarrow> (\<forall>r\<in>set (t_device_ops db). \<exists>r'\<in>set (t_device_ops db'). successor mv r r')"

lemma successor_refl [simp]: "successor mv r r"
  by (simp add: successor_def)

lemma successor_trans: "successor mv a b \<Longrightarrow> successor mv b c \<Longrightarrow> successor mv a c"
  unfolding successor_def by (auto intro: rtranclp_trans order_trans)

lemma evolves_trans [trans]: "evolves mv a b \<Longrightarrow> evolves mv b c \<Longrightarrow> evolves mv a c"
  unfolding evolves_def by (meson successor_trans)

lemma evolves_grow: "set (t_device_ops db) \<subseteq> set (t_device_ops db') \<Longrightarrow> evolves mv db db'"
  unfolding evolves_def by (meson in_mono successor_refl)

lemma evolves_same: "t_device_ops db' = t_device_ops db \<Longrightarrow> evolves mv db db'"
  by (rule evolves_grow) simp

lemma evolves_update:
  assumes "\<And>r. P r \<Longrightarrow> successor mv r (f r)" "t_device_ops db' = update_where P f (t_device_ops db)"
  shows "evolves mv db db'"
  unfolding evolves_def assms(2)
proof
  fix r assume r: "r \<in> set (t_device_ops db)"
  show "\<exists>r'\<in>set (update_where P f (t_device_ops db)). successor mv r r'"
  proof (cases "P r")
    case True
    then have "f r \<in> set (update_where P f (t_device_ops db))" using r by (intro update_whereI) auto
    then show ?thesis using True assms(1) by blast
  next
    case False
    then show ?thesis using update_where_keep [OF r] successor_refl by blast
  qed
qed

lemma evolves_set:
  "(\<And>r. P r \<Longrightarrow> successor mv r (f r)) \<Longrightarrow> evolves mv db (db\<lparr>t_device_ops := update_where P f (t_device_ops db)\<rparr>)"
  by (rule evolves_update [of P mv f]) simp_all

lemma evolves_mono:
  assumes "mv \<le> mv'" "evolves mv db db'"
  shows "evolves mv' db db'"
  using assms(2) rtranclp_mono [OF assms(1)] unfolding evolves_def successor_def by blast

subsection \<open>Agents\<close>

lemma claims_evolve: "claim_items a now gs db = (cl, db') \<Longrightarrow> evolves agent_move db db'"
proof (induction gs arbitrary: db cl)
  case (Cons g gs)
  obtain ch db1 where one: "claim_item a now g db = (ch, db1)" by (cases "claim_item a now g db")
  obtain cs where rest: "claim_items a now gs db1 = (cs, db')" using Cons.prems one by (auto split: prod.splits)
  have succ: "successor agent_move r (claim_row a now r)" if "claimable g now r" for r :: device_op
  proof -
    have "agent_move (o_status r) Sent" using that by (auto simp: claimable_def due_row_def agent_move_to_Sent)
    then show ?thesis by (simp add: successor_def claim_row_def r_into_rtranclp)
  qed
  have "evolves agent_move db db1"
  proof (cases "gi_kind g = VisitorWork")
    case True
    then have "t_device_ops db1 = t_device_ops db" using one by (auto simp: claim_item_def)
    then show ?thesis by (rule evolves_same)
  next
    case False
    then have "db1 = db\<lparr>t_device_ops := update_where (claimable g now) (claim_row a now) (t_device_ops db)\<rparr>"
      using one by (auto simp: claim_item_def)
    then show ?thesis using evolves_set [of "claimable g now" agent_move "claim_row a now" db] succ by simp
  qed
  then show ?case using Cons.IH [OF rest] evolves_trans by blast
qed (simp add: evolves_same)

lemma set_device_person_state_ops: "t_device_ops (set_device_person_state H now p dev st opts db) = t_device_ops db"
  by simp

lemma refresh_ops [simp]: "t_device_ops (refresh_device_person_state H now p dev db) = t_device_ops db"
  by (simp add: refresh_device_person_state_def Let_def)

lemma refresh_everywhere_ops [simp]: "t_device_ops (refresh_everywhere H now p db) = t_device_ops db"
proof -
  have "t_device_ops (fold (\<lambda>d. refresh_device_person_state H now p (sd_id d)) ds x) = t_device_ops x" for ds x
    by (induction ds arbitrary: x) simp_all
  then show ?thesis by (simp add: refresh_everywhere_def)
qed

lemma hand_out_grows:
  "set (t_device_ops (snd (snd acc))) \<subseteq> set (t_device_ops (snd (snd (fold (hand_out_template H now p f) ds acc))))"
proof (induction ds arbitrary: acc)
  case (Cons d ds)
  have "set (t_device_ops (snd (snd acc))) \<subseteq> set (t_device_ops (snd (snd (hand_out_template H now p f d acc))))"
    by (cases acc, rule upload_cases [of d f "snd (snd acc)" H now p "js ''captured at another terminal''"])
      (auto simp: hand_out_template_def split: upload_outcome.split)
  then show ?case using Cons.IH [of "hand_out_template H now p f d acc"] by simp
qed simp

lemma apply_captured_grows: "set (t_device_ops db) \<subseteq> set (t_device_ops (snd (apply_captured_template H now c db)))"
proof -
  obtain fid db1 where rec: "record_fingerprint H c db = (fid, db1)" by (cases "record_fingerprint H c db")
  have "t_device_ops db1 = t_device_ops db"
    using rec by (auto simp: record_fingerprint_def drawn_def split: option.splits)
  moreover obtain q m db2 where f: "fold (hand_out_template H now (capture_person c)
      \<lparr>fr_id = fid, fr_no = cp_finger_no c, fr_label = cp_label c, fr_employee = cp_employee c, fr_status = js ''active''\<rparr>)
      (sync_devices db1 None) (0, 0, db1) = (q, m, db2)" by (metis prod.collapse)
  moreover have "set (t_device_ops db1) \<subseteq> set (t_device_ops db2)"
    using hand_out_grows [of "(0, 0, db1)"] f by (metis snd_conv)
  ultimately show ?thesis by (simp add: apply_captured_template_def rec Let_def)
qed

lemma report_capture_evolves: "evolves mv db (report_capture H now i b dt db)"
proof -
  have result: "evolves mv d (store_result i res d)" for d res
    unfolding store_result_def
    by (rule evolves_set) (simp add: successor_def)
  have all: "evolves mv d0 (refresh_everywhere H now p (store_result i res d2))"
    if "apply_captured_template H now c d1 = (res, d2)" "t_device_ops d1 = t_device_ops d0" for d0 d1 d2 c p res
  proof -
    have "evolves mv d0 d2" using apply_captured_grows [of d1 H now c] that by (intro evolves_grow) simp
    also have "evolves mv d2 (store_result i res d2)" by (rule result)
    also have "evolves mv (store_result i res d2) (refresh_everywhere H now p (store_result i res d2))" by (rule evolves_same) simp
    finally show ?thesis .
  qed
  show ?thesis
    by (auto simp: report_capture_def Let_def evolves_same split: option.split prod.split intro: all)
qed

lemma report_person_ops [simp]: "t_device_ops (report_person_state H now i b dt db) = t_device_ops db"
  by (auto simp: report_person_state_def split: option.split)

lemma report_fingerprint_evolves: "evolves mv db (report_fingerprint H now b dt db)"
proof -
  have "set (t_device_ops db) \<subseteq> set (t_device_ops (enroll_by_hand H now b dt f u db))" for f u
    unfolding enroll_by_hand_def by simp blast
  then have "evolves mv db (enroll_by_hand H now b dt f u db)" for f u by (rule evolves_grow)
  moreover have "evolves mv db (drop_template now k db)" for k by (rule evolves_same) (simp add: drop_template_def)
  ultimately show ?thesis
    unfolding report_fingerprint_def by (simp add: evolves_same split: option.split)
qed

lemma report_visitor_ops [simp]: "t_device_ops (report_visitor now i b v db) = t_device_ops db"
  by (auto simp: report_visitor_def refresh_visitor_device_account_state_def Let_def split: option.split)

lemma log_report_ops [simp]: "t_device_ops (log_report H now agent i b db) = t_device_ops db"
  by (auto simp: log_report_def drawn_def Let_def split: option.split)

lemma for_detail_evolves: "(\<And>dt d. evolves mv d (f dt d)) \<Longrightarrow> evolves mv db (for_detail f x db)"
  by (auto simp: for_detail_def evolves_same split: option.split)

lemma settle_evolves:
  assumes "settle_operation agent i b now db = Some (v, db')"
  shows "evolves agent_move db db'"
proof -
  have succ: "successor agent_move r (settle_row agent b now r)" if "reportable db agent i r" for r :: device_op
  proof -
    have "agent_move (o_status r) (report_status b)"
      using that by (auto simp: reportable_def report_status_def intro: agent_move.intros)
    then show ?thesis by (simp add: successor_def settle_row_def r_into_rtranclp)
  qed
  show ?thesis
  proof (cases "list_ex (reportable db agent i) (t_device_ops db)")
    case True
    then have "db' = db\<lparr>t_device_ops := update_where (reportable db agent i) (settle_row agent b now) (t_device_ops db)\<rparr>"
      using assms by (simp add: settle_operation_def)
    then show ?thesis using evolves_set [of "reportable db agent i" agent_move "settle_row agent b now" db] succ by simp
  next
    case False
    then have "t_device_ops db' = t_device_ops db" using assms by (auto simp: settle_operation_def split: if_splits)
    then show ?thesis by (rule evolves_same)
  qed
qed

lemma result_evolves:
  assumes "agent_operation_result H now agent i b db = (code, db')"
  shows "evolves agent_move db db'"
proof (cases "report_valid b \<and> settle_operation agent i b now db \<noteq> None")
  case True
  then obtain v db1 where settle: "settle_operation agent i b now db = Some (v, db1)" by auto
  let ?dt = "operation_detail db i"
  let ?db2 = "for_detail (report_person_state H now i b) ?dt db1"
  let ?db3 = "for_detail (report_fingerprint H now b) ?dt ?db2"
  let ?db4 = "for_detail (report_capture H now i b) ?dt ?db3"
  have "evolves agent_move db db1" by (rule settle_evolves [OF settle])
  also have "evolves agent_move db1 ?db2" by (intro for_detail_evolves evolves_same) simp
  also have "evolves agent_move ?db2 ?db3" by (intro for_detail_evolves report_fingerprint_evolves)
  also have "evolves agent_move ?db3 ?db4" by (intro for_detail_evolves report_capture_evolves)
  also have "evolves agent_move ?db4 db'"
    using True assms settle by (intro evolves_same) (auto simp: agent_operation_result_def Let_def)
  finally show ?thesis .
next
  case False
  then have "db' = db" using assms by (auto simp: agent_operation_result_def Let_def split: if_splits option.splits)
  then show ?thesis by (simp add: evolves_same)
qed

lemma agent_step_evolves: "agent_step H db db' \<Longrightarrow> evolves agent_move db db'"
proof (induction rule: agent_step.induct)
  case (asks agent requested now db ds db')
  then obtain cl where "claim_items agent now (select_items db agent requested now) db = (cl, db')"
    by (auto simp: agent_operations_def split: prod.splits)
  then show ?case by (rule claims_evolve)
next
  case (reports now agent i b db code db')
  then show ?case by (rule result_evolves)
next
  case (logs agent dev ty st msg dur db code db')
  then have "t_device_ops db' = t_device_ops db"
    by (auto simp: agent_sync_log_def drawn_def split: if_splits)
  then show ?case by (rule evolves_same)
qed

subsection \<open>Operators\<close>

lemma queue_rows_ops: "t_device_ops (queue_rows H mk ds db) = t_device_ops db @ map (\<lambda>(n, d). mk (h_uuid H (t_draws db + n)) d) (enumerate 0 ds)"
  by (simp add: queue_rows_def drawn_def)

lemma queue_rows_grows: "set (t_device_ops db) \<subseteq> set (t_device_ops (queue_rows H mk ds db))"
  by (auto simp: queue_rows_ops)

lemma change_access_grows:
  assumes "change_access H now by_user body db = Inr (res, db')"
  shows "set (t_device_ops db) \<subseteq> set (t_device_ops db')"
proof -
  have card: "t_device_ops (fold (change_card H a by_user) cs d) = t_device_ops d" for a cs d
    by (induction cs arbitrary: d) (simp_all add: change_card_def drawn_def)
  have finger: "t_device_ops (fold (change_finger H a by_user) fs d) = t_device_ops d" for a fs d
    by (induction fs arbitrary: d) (simp_all add: change_finger_def drawn_def)
  have queue_cards: "set (t_device_ops d) \<subseteq> set (t_device_ops (fold (queue_card_change H now a) cs d))" for a cs d
  proof (induction cs arbitrary: d)
    case (Cons c cs)
    have "set (t_device_ops d) \<subseteq> set (t_device_ops (queue_card_change H now a c d))"
      unfolding queue_card_change_def create_device_operations_def by (rule queue_rows_grows)
    also have "\<dots> \<subseteq> set (t_device_ops (fold (queue_card_change H now a) (c # cs) d))"
      using Cons.IH [of "queue_card_change H now a c d"] by simp
    finally show ?case .
  qed simp
  have queue_fingers: "set (t_device_ops (snd acc)) \<subseteq> set (t_device_ops (snd (fold (queue_finger_change H now a) fs acc)))" for a fs acc
  proof (induction fs arbitrary: acc)
    case (Cons f fs)
    have "set (t_device_ops (snd acc)) \<subseteq> set (t_device_ops (snd (queue_finger_change H now a f acc)))"
      by (simp add: queue_finger_change_def create_fingerprint_operations_def Let_def queue_rows_grows)
    then show ?case using Cons.IH [of "queue_finger_change H now a f acc"] by simp
  qed simp
  obtain a where run: "db' = snd (fold (queue_finger_change H now a) (filter (chosen_finger a) (t_fingers db))
      (0, fold (queue_card_change H now a) (filter (chosen_card a) (t_cards db))
         (fold (change_finger H a by_user) (filter (chosen_finger a) (t_fingers db))
            (fold (change_card H a by_user) (filter (chosen_card a) (t_cards db)) db))))"
    using assms by (auto simp: change_access_def rbind_Inr_iff guard_Inr_iff Let_def split: prod.splits) (metis prod.collapse)
  let ?db1 = "\<lambda>a. fold (change_finger H a by_user) (filter (chosen_finger a) (t_fingers db))
      (fold (change_card H a by_user) (filter (chosen_card a) (t_cards db)) db)"
  have "t_device_ops db = t_device_ops (?db1 a)" by (simp add: card finger)
  also have "set \<dots> \<subseteq> set (t_device_ops (fold (queue_card_change H now a) (filter (chosen_card a) (t_cards db)) (?db1 a)))"
    by (rule queue_cards)
  also have "\<dots> \<subseteq> set (t_device_ops db')"
    unfolding run using queue_fingers [of "(0, fold (queue_card_change H now a) (filter (chosen_card a) (t_cards db)) (?db1 a))"] by simp
  finally show ?thesis .
qed

lemma mark_status_evolves:
  assumes "\<And>r. r \<in> set (t_device_ops db) \<Longrightarrow> o_id r = i \<Longrightarrow> operator_move (o_status r) st"
  shows "evolves operator_move db (db\<lparr>t_device_ops := mark_status i st err now (t_device_ops db)\<rparr>)"
  unfolding evolves_def
proof
  let ?f = "\<lambda>r. r\<lparr>o_status := st, o_error := err, o_updated := sql_now now\<rparr>"
  fix r assume r: "r \<in> set (t_device_ops db)"
  show "\<exists>r'\<in>set (t_device_ops (db\<lparr>t_device_ops := mark_status i st err now (t_device_ops db)\<rparr>)). successor operator_move r r'"
  proof (cases "o_id r = i")
    case True
    then have "?f r \<in> set (mark_status i st err now (t_device_ops db))"
      unfolding mark_status_def using r by (intro update_whereI) auto
    moreover have "successor operator_move r (?f r)"
      using assms [OF r True] by (simp add: successor_def r_into_rtranclp)
    ultimately show ?thesis by auto
  next
    case False
    then have "r \<in> set (mark_status i st err now (t_device_ops db))"
      unfolding mark_status_def using r by (intro update_where_keep) auto
    then show ?thesis using successor_refl [of operator_move r] by (auto intro!: bexI [of _ r])
  qed
qed

lemma retry_evolves:
  assumes "retry_operation now i db = Inr (st, db')" "distinct (map o_id (t_device_ops db))"
  shows "evolves operator_move db db'"
proof (cases "failed_with_device db i (t_device_ops db)")
  case None
  then have "t_device_ops db' = t_device_ops db"
    using assms(1) by (auto simp: retry_operation_def Let_def split: option.splits)
  then show ?thesis by (rule evolves_same)
next
  case (Some rd)
  obtain r d where rd: "rd = (r, d)" by (cases rd)
  then have r: "r \<in> set (t_device_ops db)" "o_id r = i" "o_status r = Failed"
    using Some find_Some_set by (fastforce simp: failed_with_device_def split: option.splits)+
  have db': "db' = db\<lparr>t_device_ops := mark_status i (retry_status db r d) None now (t_device_ops db)\<rparr>"
    using assms(1) Some rd by (auto simp: retry_operation_def Let_def)
  have "operator_move (o_status q) (retry_status db r d)" if "q \<in> set (t_device_ops db)" "o_id q = i" for q
  proof -
    have "q = r" using assms(2) r that by (metis distinct_map inj_onD)
    then show ?thesis using r(3) by (auto simp: retry_status_def intro: operator_move.intros)
  qed
  then show ?thesis unfolding db' by (rule mark_status_evolves)
qed

lemma settle_by_operator_evolves:
  assumes "settle_by_operator now i status err db = Inr db'"
  shows "evolves operator_move db db'"
proof -
  obtain st where st: "operator_status status = Some st" using assms by (auto simp: settle_by_operator_def split: option.splits)
  then have "operator_move s st" for s by (auto simp: operator_status_def split: if_splits intro: operator_move.intros)
  then have mark: "evolves operator_move db (db\<lparr>t_device_ops := mark_status i st err now (t_device_ops db)\<rparr>)"
    by (intro mark_status_evolves)
  show ?thesis
  proof (cases "list_ex (\<lambda>r. o_id r = i) (t_device_ops db)")
    case True
    then show ?thesis using assms st mark by (simp add: settle_by_operator_def)
  next
    case False
    then have "t_device_ops db' = t_device_ops db"
      using assms st by (auto simp: settle_by_operator_def Let_def refresh_visitor_device_account_state_def split: option.splits if_splits)
    then show ?thesis by (rule evolves_same)
  qed
qed

lemma removal_grows:
  "set (t_device_ops db) \<subseteq> set (t_device_ops (snd (remove_person_from_devices H now p reason ids full db)))"
proof -
  let ?start = "(db, [], empty_result\<lparr>sr_devices := length (sync_devices db ids)\<rparr>) :: sync_run"
  have "set (run_ops ?start) \<subseteq> set (run_ops (fold (push_removal H now p reason full) (sync_devices db ids) ?start))"
    by (rule removal_step.fold_grows)
  then show ?thesis
    by (auto simp: remove_person_from_devices_def run_ops_def Let_def split: prod.split)
qed

lemma sync_grows: "set (t_device_ops db) \<subseteq> set (t_device_ops (snd (sync_person_to_devices H now p reason ids creds db)))"
proof (cases "truthy_text (pr_employee p)")
  case True
  then show ?thesis using sync_facts(2) [OF True surjective_pairing] by blast
qed (simp add: sync_person_to_devices_def)

lemma remote_door_grows:
  assumes "remote_door H now by_user b db = Inr (row, db')"
  shows "set (t_device_ops db) \<subseteq> set (t_device_ops db')"
  using assms by (auto simp: remote_door_def rbind_Inr_iff guard_Inr_iff Let_def drawn_def split: option.splits)

lemma operator_step_evolves:
  assumes "operator_step H db db'"
  shows "evolves operator_move db db'"
  using assms
proof cases
  case (retries now i st)
  then show ?thesis using retry_evolves by blast
next
  case (settles now i status err)
  then show ?thesis by (rule settle_by_operator_evolves)
next
  case (orders now by_user b row)
  then show ?thesis using remote_door_grows evolves_grow by blast
next
  case (changes now by_user body res)
  then show ?thesis using change_access_grows evolves_grow by blast
next
  case (syncs now p reason ids creds r)
  then show ?thesis using sync_grows [of db H now p reason ids creds] evolves_grow by auto
next
  case (removes now p reason ids full r)
  then show ?thesis using removal_grows [of db H now p reason ids full] evolves_grow by auto
qed

subsection \<open>Properties\<close>


lemma agent_final: "agent_move\<^sup>*\<^sup>* s t \<Longrightarrow> s \<in> {Applied, ManualAction} \<Longrightarrow> t = s"
  by (induction rule: rtranclp_induct) auto

text \<open>
  C33: agents alone never touch a command that was confirmed or that was left to an operator: it
  keeps its status however often they ask and report.
\<close>

theorem agents_leave_settled_work:
  assumes "(agent_step H)\<^sup>*\<^sup>* db db'" "r \<in> set (t_device_ops db)" "o_status r \<in> {Applied, ManualAction}"
  shows "\<exists>r'\<in>set (t_device_ops db'). o_id r' = o_id r \<and> o_device r' = o_device r \<and> o_status r' = o_status r"
proof -
  have "evolves agent_move db db'"
    using assms(1)
  proof (induction rule: rtranclp_induct)
    case (step y z)
    then show ?case using agent_step_evolves evolves_trans by blast
  qed (simp add: evolves_same)
  then obtain r' where "r' \<in> set (t_device_ops db')" "successor agent_move r r'"
    using assms(2) by (auto simp: evolves_def)
  then show ?thesis using agent_final [OF _ assms(3)] by (auto simp: successor_def)
qed

lemma one_agent_step: "agent_step sample_host uploads_db (snd (agent_operations (js ''a2'') None 1000000 uploads_db))"
  by (rule agent_step.asks [OF surjective_pairing])


theorem agents_leave_settled_work_witness:
  "\<exists>r'\<in>set (t_device_ops (snd (agent_operations (js ''a2'') None 1000000 uploads_db))). o_id r' = js ''o1'' \<and> o_status r' = Applied"
proof -
  let ?r = "upload_row (js ''o1'') (js ''d1'') Applied"
  have "?r \<in> set (t_device_ops uploads_db)" by (simp add: uploads_db_def)
  moreover have "o_status ?r \<in> {Applied, ManualAction}" "o_id ?r = js ''o1''" "o_status ?r = Applied"
    by (simp_all add: upload_row_def new_device_op_def)
  ultimately show ?thesis
    using agents_leave_settled_work [OF r_into_rtranclp [of "agent_step sample_host", OF one_agent_step], of ?r] by auto
qed

lemma unlinked_never_joined: "\<not> device_has_linked_agent db dev \<Longrightarrow> joined db agent dev = []"
  by (auto simp: joined_def device_has_linked_agent_def list_ex_iff filter_empty_conv)

lemma enumerate_member: "d \<in> set ds \<Longrightarrow> \<exists>n. (n, d) \<in> set (enumerate 0 ds)"
proof -
  assume "d \<in> set ds"
  then obtain i where "i < length ds" "ds ! i = d" by (auto simp: in_set_conv_nth)
  then have "(i, d) \<in> set (enumerate 0 ds)" by (simp add: in_set_enumerate_eq)
  then show ?thesis by blast
qed

text \<open>
  Suspending or restoring a card queues its change for an agent by the kind of the terminal
  alone. On a terminal of that kind without a linked agent, where a visitor's revocation becomes a
  task for an operator, the command waits as pending and no agent is ever handed it.
\<close>

theorem suspension_waits_for_nobody:
  assumes d: "d \<in> set (enabled_devices db)" "is_pending_pattern (d_pattern d)" "\<not> device_has_linked_agent db (d_id d)"
  shows "visitor_operation_delivery db d = ManualAction
    \<and> (\<exists>q\<in>set (t_device_ops (queue_card_change H now a c db)). o_device q = d_id d \<and> o_card q = Some (ac_id c) \<and> o_status q = Pending)
    \<and> (\<forall>agent later. \<forall>g\<in>set (due_device_items (queue_card_change H now a c db) agent later). gi_device g \<noteq> d_id d)"
proof -
  let ?db = "queue_card_change H now a c db"
  obtain n where n: "(n, d) \<in> set (enumerate 0 (enabled_devices db))" using enumerate_member [OF d(1)] by blast
  have row: "o_device (card_row i now cid opn v d) = d_id d \<and> o_card (card_row i now cid opn v d) = Some cid \<and> o_status (card_row i now cid opn v d) = Pending"
    for i cid opn v using d(2) by (simp add: card_row_def)
  have queued: "\<exists>q\<in>set (t_device_ops ?db). o_device q = d_id d \<and> o_card q = Some (ac_id c) \<and> o_status q = Pending"
    unfolding queue_card_change_def create_device_operations_def queue_rows_ops using n row by fastforce
  have "t_configs ?db = t_configs db"
    by (simp add: queue_card_change_def create_device_operations_def queue_rows_def drawn_def)
  then have "joined ?db agent (d_id d) = []" for agent
    using d(3) by (intro unlinked_never_joined) (simp add: device_has_linked_agent_def)
  then have "gi_device g \<noteq> d_id d" if "g \<in> set (due_device_items ?db agent later)" for agent later g
    using that by (auto simp: due_device_items_def gateway_row_def)
  then show ?thesis using d queued by (simp add: visitor_operation_delivery_def)
qed

definition some_access :: access_target where
  "some_access = \<lparr>at_suspend = True, at_reason = js ''lost'', at_resident = js ''u1'', at_member = None, at_name = js ''Ada'', at_household = True\<rparr>"

theorem suspension_waits_for_nobody_witness:
  "visitor_operation_delivery sync_db (t_devices sync_db ! 1) = ManualAction
   \<and> (\<exists>q\<in>set (t_device_ops (queue_card_change sample_host 0 some_access (hd (t_cards sync_db)) sync_db)). o_device q = js ''d2'' \<and> o_status q = Pending)"
proof -
  let ?d = "t_devices sync_db ! 1"
  have "?d \<in> set (enabled_devices sync_db)" "is_pending_pattern (d_pattern ?d)" "\<not> device_has_linked_agent sync_db (d_id ?d)" "d_id ?d = js ''d2''"
    by (simp_all add: enabled_devices_def sync_db_def is_pending_pattern_def pending_operation_patterns_def device_has_linked_agent_def sample_config_def)
  then show ?thesis using suspension_waits_for_nobody [of ?d sync_db sample_host 0 some_access "hd (t_cards sync_db)"] by auto
qed

end
