(* ===== verification/Spec2Isabelle.thy ===== *)
theory Spec2Isabelle
  imports ZkEvents Facilities TunnelWorker SessionRules InboundAccess VisitorGate EmployeeIds DeviceSync SyncOverview Captures OperatorOps
begin

text \<open>
  EstateMate runs the gates and the office of a residential estate. Its parts are a portal
  (\<^verbatim>\<open>src/index.ts\<close>, a Worker over a SQLite database), the agents on the estate's networks that
  carry out the portal's operations on the access terminals (\<^verbatim>\<open>isapi-bridge/\<close>), gate
  controllers, a tunnel worker in front of a terminal, a web application and applications for two platforms. This development
  models the core of the portal and of the agents' host in the order the code has them: a table is a
  list of records in row order, a handler is a function from the database to its answer and the
  database it leaves, a thrown error or an early return is a value (\<open>Inl\<close> of a result, or an
  option). The theories, from the ground up:

  \<^item> \<^verbatim>\<open>Prelude\<close>, \<^verbatim>\<open>JsString\<close>, \<^verbatim>\<open>JsValue\<close>,
    \<^verbatim>\<open>JsDate\<close>, \<^verbatim>\<open>JsonParse\<close>: what the code uses of JavaScript. Strings
    are lists of UTF-16 units; numbers are unbounded integers, any other number the text it prints as;
    instants are milliseconds with ECMA-262's calendar; \<open>JSON.stringify\<close> and \<open>JSON.parse\<close>
    with their round trip.
  \<^item> \<^verbatim>\<open>EstateTime\<close> (\<^verbatim>\<open>src/datetime.ts\<close>): wall-clock texts in the zone of the
    estate, with the exactness of the two-sample resolution.
  \<^item> \<^verbatim>\<open>Identity\<close>, \<^verbatim>\<open>VisitorAccount\<close>, \<^verbatim>\<open>VisitorPass\<close>,
    \<^verbatim>\<open>Profiles\<close>: the pure modules on card numbers, Employee IDs, agent kinds, visitor
    accounts, the evaluation of a pass and the table of device profiles.
  \<^item> \<^verbatim>\<open>Database\<close>: the tables of the portal and the host it runs on.
    \<^verbatim>\<open>Properties\<close>: who may act for a property, and the transfer of an ownership.
    \<^verbatim>\<open>EmployeeIds\<close>: one identity per person.
  \<^item> \<^verbatim>\<open>OperationQueue\<close>, \<^verbatim>\<open>VisitorDevices\<close>, \<^verbatim>\<open>VisitorGate\<close>:
    visitor passes from the portal to the gate: issuing, scanning, deciding, provisioning on every
    terminal and the removal when a pass ends. The locale \<open>device_planner\<close> is the contract of
    planning operations for a list of terminals, interpreted on provisioning and on removal.
  \<^item> \<^verbatim>\<open>DeviceSync\<close> and \<^verbatim>\<open>SyncOverview\<close> (\<^verbatim>\<open>src/device-sync.ts\<close>):
    people, cards and fingerprints queued for terminals; the locale \<open>sync_step\<close> is the contract
    of one step, interpreted on all five. \<^verbatim>\<open>Captures\<close>: fingerprint captures, the
    distribution of a template and its end.
  \<^item> \<^verbatim>\<open>AgentOps\<close> and \<^verbatim>\<open>OperatorOps\<close>: the command queue an agent claims from
    and reports to, and what an operator does to it; the life of a command as a step relation.
  \<^item> \<^verbatim>\<open>SignIn\<close> (\<^verbatim>\<open>src/sign-in.ts\<close>), \<^verbatim>\<open>Accounts\<close>,
    \<^verbatim>\<open>PasswordReset\<close>, \<^verbatim>\<open>SessionRules\<close>: sessions, the throttle, the gate a
    session is bound to, password changes and recovery, with the invariant of the reset requests and what
    the routes promise over sequences of requests.
  \<^item> \<^verbatim>\<open>NetAddress\<close>, \<^verbatim>\<open>InboundAccess\<close>
    (\<^verbatim>\<open>isapi-bridge/network-access-control.mjs\<close>): addresses and masks on words, allowlists,
    shared secrets and the rate window in front of both listeners of the bridge.
  \<^item> \<^verbatim>\<open>SnapshotServer\<close> (the endpoint in \<^verbatim>\<open>src/index.ts\<close>),
    \<^verbatim>\<open>TerminalEvent\<close>, \<^verbatim>\<open>RemoteVerify\<close>, \<^verbatim>\<open>RemoteGate\<close>
    (\<^verbatim>\<open>isapi-bridge/remote-verify.mjs\<close> and \<open>beginRemoteVerification\<close> of
    \<^verbatim>\<open>agent.mjs\<close>): the credentials a bridge loads, its decision on a presented one and the
    door it opens.
  \<^item> \<^verbatim>\<open>ZkPush\<close>, \<^verbatim>\<open>ZkQueue\<close>, \<^verbatim>\<open>ZkListener\<close>,
    \<^verbatim>\<open>ZkDelivery\<close>, \<^verbatim>\<open>ZkEvents\<close> (\<^verbatim>\<open>isapi-bridge/zkteco-push.mjs\<close> and
    \<^verbatim>\<open>zkteco-push-server.mjs\<close>): the PUSH transport, from the codec to the order of delivery, and
    from an uploaded punch to the decision on its door.
  \<^item> \<^verbatim>\<open>Billing\<close>, \<^verbatim>\<open>Facilities\<close> (\<^verbatim>\<open>src/index.ts\<close>): bills, payments
    and their reconciliation; facilities and their bookings, with the step relation of the two in which
    windows stay apart and bills say what was paid.
  \<^item> \<^verbatim>\<open>Md5\<close>, \<^verbatim>\<open>DigestAuth\<close>, \<^verbatim>\<open>TunnelWorker\<close>
    (\<^verbatim>\<open>hikvision-tunnel-worker/index.ts\<close>): the digest, proved equal to the algorithm of
    RFC 1321; HTTP authentication towards a terminal; the pull of access events, the push of people and
    the routes of the worker.

  The lemmas of a component show the behaviour of its operations on every branch that the properties
  need; its numbered properties follow the component or stand in the theory where the components meet
  (\<^verbatim>\<open>SessionRules\<close>, \<^verbatim>\<open>RemoteGate\<close>, \<^verbatim>\<open>ZkEvents\<close>). Each property
  with a hypothesis is applied at a concrete input by the lemma whose name ends in \<open>_witness\<close>. A
  property that states a defect of the code is one whose text says what the code does instead.

  Bounds and fuel. The parser of JSON texts takes the length of the text as fuel, which suffices
  because every step consumes a unit (\<open>json_parse_text\<close>). A synchronisation of the credential
  snapshot makes at most 500 pages, a new reset reference at most ten draws, a queue of the PUSH
  transport holds 200 commands: these are bounds of the code. All other recursion is structural or has
  a measure.

  Parameters. SHA-256, random draws and identifiers, \<open>Date.parse\<close> on free text, the zone database,
  SQLite's \<open>datetime\<close> of a stored text and the clock are arguments or fields of \<open>host\<close> and
  \<open>platform\<close>; the hypotheses on them state what their documentation promises, and the witnesses
  instantiate them.

  Not modelled. Audit rows, listings, log lines and the text of responses that carry no decision;
  concurrency of two requests on one database except where a step relation says so; SQL constraints
  other than the keys a handler relies on; tokens and cookies beyond their claims; the transports
  themselves (HTTP, the ISAPI client of the agent, the vendor's SDK) and what a terminal answers. The
  document, notice and staff routes of the portal, the gate controllers, the web application, the
  packages for Windows and Android and the scripts are outside the development.
\<close>

end
